(* ===== verification/Prelude.thy ===== *)
theory Prelude
  imports Main "HOL-Library.List_Lexorder" "HOL-Library.Char_ord"
begin

text \<open>
  Shared vocabulary of the development: the error values of the server, the
  state-and-error actions every store and service function is written in, the
  Go conventions for absent columns, and the list lemmas behind SQL statements.

  A Go function \<open>func (s *T) f(\<dots>) (A, error)\<close> that reads and writes state is an action
  \<open>'w \<Rightarrow> (err + 'a) \<times> 'w\<close>. The idiom \<open>if err != nil { return err }\<close> is \<open>bindE\<close>; a caller
  that looks at the error instead of returning it uses \<open>tryE\<close>.
\<close>

section \<open>Automation\<close>

named_theorems preserves_intros \<open>introduction rules for invariants of actions\<close>
named_theorems action_simps \<open>unfolding rules for the action combinators\<close>

section \<open>Errors\<close>

text \<open>
  \<open>ErrNotFound\<close> and \<open>ErrConflict\<close> are the store's sentinels (errors.go). \<open>ErrConstraint\<close> is any
  other constraint SQLite reports (a foreign key), \<open>ErrDriver\<close> any other error of the driver:
  I/O, a busy database, a cancelled context. The last two are never matched by the callers.
  \<open>ErrSentinel\<close> carries the name of a sentinel of the services; \<open>ErrPanic\<close> is a panic, which no modelled
  code recovers from.
\<close>

datatype err =
    ErrNotFound
  | ErrConflict
  | ErrConstraint
  | ErrDriver
  | ErrUnauthorized string
  | ErrTokenMalformed
  | ErrInvalidLabel
  | ErrTooManyConnections
  | ErrShuttingDown
  | ErrDecode
  | ErrRandom
  | ErrSeal
  | ErrSentinel string
  | ErrPanic

section \<open>Actions\<close>

type_synonym ('w, 'a) action = "'w \<Rightarrow> (err + 'a) \<times> 'w"

definition ret :: "'a \<Rightarrow> ('w, 'a) action" where
  "ret a w = (Inr a, w)"

definition fail :: "err \<Rightarrow> ('w, 'a) action" where
  "fail e w = (Inl e, w)"

definition bindE :: "('w, 'a) action \<Rightarrow> ('a \<Rightarrow> ('w, 'b) action) \<Rightarrow> ('w, 'b) action" where
  "bindE m f w = (case m w of (Inl e, w') \<Rightarrow> (Inl e, w') | (Inr a, w') \<Rightarrow> f a w')"

definition tryE :: "('w, 'a) action \<Rightarrow> ('w, err + 'a) action" where
  "tryE m w = (case m w of (r, w') \<Rightarrow> (Inr r, w'))"

definition lift_res :: "err + 'a \<Rightarrow> ('w, 'a) action" where
  "lift_res r w = (r, w)"

fun forE :: "'a list \<Rightarrow> ('a \<Rightarrow> ('w, unit) action) \<Rightarrow> ('w, unit) action" where
  "forE [] f = ret ()"
| "forE (x # xs) f = bindE (f x) (\<lambda>_. forE xs f)"

definition run_state :: "('w, 'a) action \<Rightarrow> 'w \<Rightarrow> 'w" where
  "run_state m w = snd (m w)"

definition run_result :: "('w, 'a) action \<Rightarrow> 'w \<Rightarrow> err + 'a" where
  "run_result m w = fst (m w)"

lemmas action_defs = ret_def fail_def bindE_def tryE_def lift_res_def

lemma ret_apply [simp, action_simps]: "ret a w = (Inr a, w)"
  by (simp add: ret_def)

lemma fail_apply [simp, action_simps]: "fail e w = (Inl e, w)"
  by (simp add: fail_def)

lemma lift_res_apply [simp, action_simps]: "lift_res r w = (r, w)"
  by (simp add: lift_res_def)

lemma bindE_Inr_iff:
  "bindE m f w = (Inr b, w2) \<longleftrightarrow> (\<exists>a w1. m w = (Inr a, w1) \<and> f a w1 = (Inr b, w2))"
  by (auto simp: bindE_def split: prod.splits sum.splits)

lemma bindE_Inl_iff:
  "bindE m f w = (Inl e, w2) \<longleftrightarrow>
     m w = (Inl e, w2) \<or> (\<exists>a w1. m w = (Inr a, w1) \<and> f a w1 = (Inl e, w2))"
  by (auto simp: bindE_def split: prod.splits sum.splits)

lemma bindE_Inr [action_simps]: "m w = (Inr a, w1) \<Longrightarrow> bindE m f w = f a w1"
  by (simp add: bindE_def)

lemma bindE_Inl [action_simps]: "m w = (Inl e, w1) \<Longrightarrow> bindE m f w = (Inl e, w1)"
  by (simp add: bindE_def)

lemma bindE_fst_Inr: "fst (m w) = Inr a \<Longrightarrow> bindE m f w = f a (snd (m w))"
  by (cases "m w") (simp add: bindE_def)

lemma tryE_iff [simp]: "tryE m w = (r, w2) \<longleftrightarrow> (\<exists>x. r = Inr x \<and> m w = (x, w2))"
  by (auto simp: tryE_def split: prod.splits)

lemma tryE_apply [action_simps]: "m w = (x, w2) \<Longrightarrow> tryE m w = (Inr x, w2)"
  by (simp add: tryE_def)

lemma bindE_tryE_case:
  "bindE (tryE m) (\<lambda>r. case r of Inl e \<Rightarrow> f e | Inr a \<Rightarrow> g a) w =
     (case m w of (Inl e, w1) \<Rightarrow> f e w1 | (Inr a, w1) \<Rightarrow> g a w1)"
  by (auto simp: bindE_def tryE_def split: prod.split sum.split)

lemma bindE_ret [simp]: "bindE (ret a) f = f a"
  by (simp add: bindE_def fun_eq_iff)

section \<open>Invariants of actions\<close>

definition preserves :: "('w \<Rightarrow> bool) \<Rightarrow> ('w, 'a) action \<Rightarrow> bool" where
  "preserves I m \<longleftrightarrow> (\<forall>w. I w \<longrightarrow> I (snd (m w)))"

lemma preservesI [intro?]: "(\<And>w. I w \<Longrightarrow> I (snd (m w))) \<Longrightarrow> preserves I m"
  by (simp add: preserves_def)

lemma preservesD: "preserves I m \<Longrightarrow> I w \<Longrightarrow> m w = (r, w') \<Longrightarrow> I w'"
  by (metis preserves_def snd_conv)

lemma preserves_ret [preserves_intros]: "preserves I (ret a)"
  by (simp add: preserves_def)

lemma preserves_Pair [preserves_intros]: "preserves I (Pair r)"
  by (simp add: preserves_def)

lemma preserves_fail [preserves_intros]: "preserves I (fail e)"
  by (simp add: preserves_def)

lemma preserves_lift_res [preserves_intros]: "preserves I (lift_res r)"
  by (simp add: preserves_def)

lemma preserves_tryE [preserves_intros]: "preserves I m \<Longrightarrow> preserves I (tryE m)"
  by (auto simp: preserves_def tryE_def split: prod.splits)

lemma preserves_bindE [preserves_intros]:
  assumes "preserves I m" and "\<And>a. preserves I (f a)"
  shows "preserves I (bindE m f)"
proof
  fix w assume "I w"
  obtain r w1 where m: "m w = (r, w1)" by (cases "m w")
  from preservesD [OF assms(1) \<open>I w\<close> m] have "I w1" .
  then show "I (snd (bindE m f w))"
    using m assms(2) by (cases r) (auto simp: bindE_def preserves_def)
qed

lemma preserves_forE [preserves_intros]:
  "(\<And>x. x \<in> set xs \<Longrightarrow> preserves I (f x)) \<Longrightarrow> preserves I (forE xs f)"
  by (induction xs) (auto intro: preserves_intros)

lemma preserves_if [preserves_intros]:
  "(b \<Longrightarrow> preserves I m) \<Longrightarrow> (\<not> b \<Longrightarrow> preserves I n) \<Longrightarrow> preserves I (if b then m else n)"
  by simp

lemma preserves_case_option [preserves_intros]:
  "preserves I m \<Longrightarrow> (\<And>x. preserves I (f x)) \<Longrightarrow> preserves I (case v of None \<Rightarrow> m | Some x \<Rightarrow> f x)"
  by (simp split: option.split)

lemma preserves_case_sum [preserves_intros]:
  "(\<And>x. preserves I (f x)) \<Longrightarrow> (\<And>x. preserves I (g x)) \<Longrightarrow> preserves I (case v of Inl x \<Rightarrow> f x | Inr x \<Rightarrow> g x)"
  by (simp split: sum.split)

lemma preserves_case_prod [preserves_intros]:
  "(\<And>x y. preserves I (f x y)) \<Longrightarrow> preserves I (case v of (x, y) \<Rightarrow> f x y)"
  by (simp split: prod.split)

section \<open>Absent columns\<close>

text \<open>
  The store writes \<open>""\<close> and \<open>0\<close> as SQL NULL and reads NULL back as \<open>""\<close> and \<open>0\<close>
  (nullIfEmpty and scanString in users.go, nullIfZero and scanInt64 in devices.go).
\<close>

definition nullIfEmpty :: "string \<Rightarrow> string option" where
  "nullIfEmpty s = (if s = '''' then None else Some s)"

definition scanString :: "string option \<Rightarrow> string" where
  "scanString c = (case c of None \<Rightarrow> '''' | Some s \<Rightarrow> s)"

definition nullIfZero :: "int \<Rightarrow> int option" where
  "nullIfZero n = (if n = 0 then None else Some n)"

definition scanInt64 :: "int option \<Rightarrow> int" where
  "scanInt64 c = (case c of None \<Rightarrow> 0 | Some n \<Rightarrow> n)"

lemma scanString_nullIfEmpty [simp]: "scanString (nullIfEmpty s) = s"
  by (simp add: scanString_def nullIfEmpty_def)

lemma scanInt64_nullIfZero [simp]: "scanInt64 (nullIfZero n) = n"
  by (simp add: scanInt64_def nullIfZero_def)

lemma scan_None [simp]: "scanString None = ''''" "scanInt64 None = 0"
  by (simp_all add: scanString_def scanInt64_def)

lemma scan_Some [simp]: "scanString (Some s) = s" "scanInt64 (Some n) = n"
  by (simp_all add: scanString_def scanInt64_def)

lemma nullIfEmpty_ne [simp]: "nullIfEmpty s \<noteq> Some ''''"
  by (simp add: nullIfEmpty_def)

lemma nullIfEmpty_None_iff [simp]: "nullIfEmpty s = None \<longleftrightarrow> s = ''''"
  by (simp add: nullIfEmpty_def)

lemma scanString_empty_iff: "c \<noteq> Some '''' \<Longrightarrow> scanString c = '''' \<longleftrightarrow> c = None"
  by (cases c) auto

section \<open>Lists as tables\<close>

definition upd_where :: "('a \<Rightarrow> bool) \<Rightarrow> ('a \<Rightarrow> 'a) \<Rightarrow> 'a list \<Rightarrow> 'a list" where
  "upd_where P f xs = map (\<lambda>x. if P x then f x else x) xs"

lemma map_upd_where [simp]: "(\<And>x. P x \<Longrightarrow> g (f x) = g x) \<Longrightarrow> map g (upd_where P f xs) = map g xs"
  by (simp add: upd_where_def)

lemma set_upd_where: "set (upd_where P f xs) = (\<lambda>x. if P x then f x else x) ` set xs"
  by (simp add: upd_where_def)

lemma length_upd_where [simp]: "length (upd_where P f xs) = length xs"
  by (simp add: upd_where_def)

lemma upd_where_none [simp]: "filter P xs = [] \<Longrightarrow> upd_where P f xs = xs"
  by (induction xs) (auto simp: upd_where_def split: if_splits)

lemma upd_where_Nil [simp]: "upd_where P f [] = []"
  by (simp add: upd_where_def)

lemma upd_where_Cons [simp]: "upd_where P f (x # xs) = (if P x then f x else x) # upd_where P f xs"
  by (simp add: upd_where_def)

lemma find_key_upd_where:
  assumes "\<And>x. k (f x) = k x"
  shows "find (\<lambda>x. k x = a) (upd_where P f xs) =
         map_option (\<lambda>x. if P x then f x else x) (find (\<lambda>x. k x = a) xs)"
  by (induction xs) (auto simp: assms)

lemma find_SomeD: "find P xs = Some x \<Longrightarrow> P x \<and> x \<in> set xs"
  by (auto simp: find_Some_iff)

lemma find_distinct_key:
  "distinct (map k xs) \<Longrightarrow> x \<in> set xs \<Longrightarrow> find (\<lambda>y. k y = k x) xs = Some x"
  by (induction xs) (auto simp: rev_image_eqI)

lemma distinct_key_eq:
  "distinct (map k xs) \<Longrightarrow> x \<in> set xs \<Longrightarrow> y \<in> set xs \<Longrightarrow> k x = k y \<Longrightarrow> x = y"
  by (metis find_distinct_key option.inject)

lemma find_key_None: "find (\<lambda>y. k y = a) xs = None \<longleftrightarrow> a \<notin> k ` set xs"
  by (induction xs) auto

lemma find_append: "find P (xs @ ys) = (case find P xs of None \<Rightarrow> find P ys | Some x \<Rightarrow> Some x)"
  by (induction xs) auto

lemma filter_key_eq:
  assumes "distinct (map k xs)" and "find (\<lambda>y. k y = a) xs = Some x"
  shows "filter (\<lambda>y. k y = a) xs = [x]"
  using assms
proof (induction xs)
  case (Cons y ys)
  show ?case
  proof (cases "k y = a")
    case True
    with Cons.prems have "a \<notin> k ` set ys" by auto
    then have "filter (\<lambda>y. k y = a) ys = []" by (auto simp: filter_empty_conv)
    with True Cons.prems show ?thesis by simp
  next
    case False
    with Cons show ?thesis by simp
  qed
qed simp

lemma distinct_map_filter_key [simp]: "distinct (map k xs) \<Longrightarrow> distinct (map k (filter P xs))"
  by (induction xs) auto

end
