(* ===== verification/Store_Db.thy ===== *)
theory Store_Db
  imports Prelude
begin

text \<open>
  The database behind \<open>internal/store\<close>: one record per table row with the columns of the
  migrations (nullable columns are options), the database as lists of rows, and the two ways
  the store reaches it: a single statement (\<open>stmt\<close>) and a transaction (\<open>transact\<close>).

  The driver may fail. Every statement consumes one entry of the world's fault list: \<open>Fails\<close>
  is an error before the statement took effect, \<open>FailsAfter\<close> an error reported although it
  did (RowsAffected, LastInsertId or a lost connection). Theorems quantify over the list, so
  they cover every pattern of driver failures; the empty list means no further failure.
  The pool has one connection (store.Open), so statements and transactions run one at a time.
\<close>

named_theorems follows_intros \<open>rules for relations between database states\<close>

section \<open>Rows\<close>

record user_row =
  uc_id :: string
  uc_email :: string
  uc_role :: string
  uc_oidc_provider :: "string option"
  uc_oidc_subject :: "string option"
  uc_disabled :: bool
  uc_created_at :: int
  uc_updated_at :: int
  uc_pending_email :: "string option"
  uc_pending_email_hash :: "string option"
  uc_pending_email_expires_at :: "int option"
  uc_webauthn_handle :: "string option"

record device_row =
  dc_id :: string
  dc_user_id :: string
  dc_label :: string
  dc_secret_hash :: string
  dc_current_ipv4 :: "string option"
  dc_current_ipv6 :: "string option"
  dc_hostname :: "string option"
  dc_os :: "string option"
  dc_client_version :: "string option"
  dc_last_seen_at :: "int option"
  dc_disabled :: bool
  dc_created_at :: int
  dc_updated_at :: int
  dc_v4_confirmed_at :: "int option"
  dc_v6_confirmed_at :: "int option"
  dc_v4_warn_level :: int
  dc_v6_warn_level :: int

record ip_history_row =
  hc_id :: int
  hc_device_id :: string
  hc_ipv4 :: "string option"
  hc_ipv6 :: "string option"
  hc_observed_at :: int
  hc_client_version :: "string option"

record enrollment_code_row =
  ec_code :: string
  ec_user_id :: string
  ec_label :: string
  ec_expires_at :: int
  ec_used_at :: "int option"
  ec_device_id :: "string option"

record replay_nonce_row =
  rn_signature :: string
  rn_expires_at :: int

record audit_row =
  al_id :: int
  al_actor_user_id :: "string option"
  al_event_type :: string
  al_target_type :: "string option"
  al_target_id :: "string option"
  al_details_json :: "string option"
  al_ip :: "string option"
  al_user_agent :: "string option"
  al_created_at :: int

record endpoint_row =
  en_id :: string
  en_label :: string
  en_url :: string
  en_secret_sealed :: string
  en_enabled :: bool
  en_created_at :: int
  en_updated_at :: int

record delivery_row =
  dl_id :: int
  dl_endpoint_id :: string
  dl_event_type :: string
  dl_event_id :: int
  dl_payload :: string
  dl_attempts :: int
  dl_next_attempt_at :: "int option"
  dl_status :: string
  dl_last_failure :: "string option"
  dl_created_at :: int
  dl_updated_at :: int

record feed_token_row =
  ft_id :: string
  ft_label :: string
  ft_token_hash :: string
  ft_created_by :: "string option"
  ft_created_at :: int
  ft_last_used_at :: "int option"

record session_row =
  ss_id :: string
  ss_user_id :: string
  ss_csrf_token :: string
  ss_ip :: "string option"
  ss_user_agent :: "string option"
  ss_created_at :: int
  ss_last_seen_at :: int
  ss_expires_at :: int

record recovery_row =
  rt_token_hash :: string
  rt_user_id :: string
  rt_reason :: string
  rt_expires_at :: int
  rt_used_at :: "int option"

record flow_row =
  fl_flow_id :: string
  fl_device_code :: string
  fl_interval :: int
  fl_expires_at :: int
  fl_last_polled_at :: int
  fl_created_at :: int

record api_key_row =
  ak_id :: string
  ak_user_id :: string
  ak_label :: string
  ak_key_hash :: string
  ak_admin_scope :: bool
  ak_created_at :: int
  ak_last_used_at :: "int option"

record credential_row =
  wc_credential_id :: string
  wc_user_id :: string
  wc_credential_json :: string
  wc_name :: string
  wc_aaguid :: "string option"
  wc_created_at :: int
  wc_last_used_at :: "int option"

text \<open>The single row of the bootstrap table.\<close>

record bootstrap_row =
  bs_token_hash :: "string option"
  bs_created_at :: int
  bs_consumed_at :: "int option"

section \<open>The database\<close>

text \<open>The \<open>_seq\<close> fields are SQLite's AUTOINCREMENT counters: the last id handed out.\<close>

record database =
  users :: "user_row list"
  devices :: "device_row list"
  ip_history :: "ip_history_row list"
  ip_history_seq :: int
  enrollment_codes :: "enrollment_code_row list"
  replay_nonces :: "replay_nonce_row list"
  audit_log :: "audit_row list"
  audit_log_seq :: int
  notification_endpoints :: "endpoint_row list"
  notification_deliveries :: "delivery_row list"
  notification_deliveries_seq :: int
  feed_tokens :: "feed_token_row list"
  feed_seq :: int
  feed_changed_at :: int
  sessions :: "session_row list"
  account_recovery_tokens :: "recovery_row list"
  oidc_device_flows :: "flow_row list"
  api_keys :: "api_key_row list"
  webauthn_credentials :: "credential_row list"
  bootstrap :: "bootstrap_row option"

definition empty_db :: database where
  "empty_db = \<lparr> users = [], devices = [], ip_history = [], ip_history_seq = 0,
     enrollment_codes = [], replay_nonces = [], audit_log = [], audit_log_seq = 0,
     notification_endpoints = [], notification_deliveries = [], notification_deliveries_seq = 0,
     feed_tokens = [], feed_seq = 0, feed_changed_at = 0, sessions = [], account_recovery_tokens = [],
     oidc_device_flows = [], api_keys = [], webauthn_credentials = [], bootstrap = None \<rparr>"

section \<open>Statements and transactions\<close>

datatype fault = Fine | Fails | FailsAfter

record world =
  db :: database
  faults :: "fault list"

definition next_fault :: "'z world_scheme \<Rightarrow> fault" where
  "next_fault w = (case faults w of [] \<Rightarrow> Fine | f # _ \<Rightarrow> f)"

definition stmt :: "(database \<Rightarrow> (err + 'a) \<times> database) \<Rightarrow> ('z world_scheme, 'a) action" where
  "stmt q w =
     (case next_fault w of
        Fine \<Rightarrow> (fst (q (db w)), w\<lparr>db := snd (q (db w)), faults := tl (faults w)\<rparr>)
      | Fails \<Rightarrow> (Inl ErrDriver, w\<lparr>faults := tl (faults w)\<rparr>)
      | FailsAfter \<Rightarrow> (Inl ErrDriver, w\<lparr>db := snd (q (db w)), faults := tl (faults w)\<rparr>))"

text \<open>\<open>QueryContext\<close>: a read of the database.\<close>

definition query :: "(database \<Rightarrow> 'a) \<Rightarrow> ('z world_scheme, 'a) action" where
  "query f = stmt (\<lambda>d. (Inr (f d), d))"

text \<open>\<open>QueryRowContext(\<dots>).Scan\<close>: \<open>sql.ErrNoRows\<close> is mapped to \<open>ErrNotFound\<close> by every caller.\<close>

definition queryRow :: "(database \<Rightarrow> 'a option) \<Rightarrow> ('z world_scheme, 'a) action" where
  "queryRow f = stmt (\<lambda>d. (case f d of None \<Rightarrow> Inl ErrNotFound | Some a \<Rightarrow> Inr a, d))"

text \<open>\<open>ExecContext\<close> followed by \<open>RowsAffected\<close>: the statement yields the affected-row count.\<close>

definition exec :: "(database \<Rightarrow> nat \<times> database) \<Rightarrow> ('z world_scheme, nat) action" where
  "exec f = stmt (\<lambda>d. (Inr (fst (f d)), snd (f d)))"

text \<open>
  \<open>BeginTx \<dots> Commit\<close> with the deferred \<open>Rollback\<close>. The body returns whether it reached Commit.
  An error, an early return without Commit, and a failed Commit all restore the database
  of \<open>BeginTx\<close>; a Commit that reports an error after taking effect keeps the body's writes.
\<close>

definition transact :: "('z world_scheme, bool \<times> 'a) action \<Rightarrow> ('z world_scheme, 'a) action" where
  "transact m w =
     (case next_fault w of
        Fine \<Rightarrow>
          (case m (w\<lparr>faults := tl (faults w)\<rparr>) of
             (Inl e, w') \<Rightarrow> (Inl e, w'\<lparr>db := db w\<rparr>)
           | (Inr (False, a), w') \<Rightarrow> (Inr a, w'\<lparr>db := db w\<rparr>)
           | (Inr (True, a), w') \<Rightarrow>
               (case next_fault w' of
                  Fine \<Rightarrow> (Inr a, w'\<lparr>faults := tl (faults w')\<rparr>)
                | Fails \<Rightarrow> (Inl ErrDriver, w'\<lparr>db := db w, faults := tl (faults w')\<rparr>)
                | FailsAfter \<Rightarrow> (Inl ErrDriver, w'\<lparr>faults := tl (faults w')\<rparr>)))
      | _ \<Rightarrow> (Inl ErrDriver, w\<lparr>faults := tl (faults w)\<rparr>))"

lemma next_fault_Nil [simp]: "faults w = [] \<Longrightarrow> next_fault w = Fine"
  by (simp add: next_fault_def)

lemma next_fault_Cons [simp]: "faults w = f # fs \<Longrightarrow> next_fault w = f"
  by (simp add: next_fault_def)

lemma stmt_Inr:
  assumes "stmt q w = (Inr a, w')"
  shows "q (db w) = (Inr a, db w') \<and> w' = w\<lparr>db := db w', faults := faults w'\<rparr>"
  using assms by (cases "q (db w)") (auto simp: stmt_def split: fault.splits)

lemma stmt_Inl:
  assumes "stmt q w = (Inl e, w')"
  shows "(db w' = db w \<and> e = ErrDriver) \<or> (db w' = snd (q (db w)) \<and> (e = ErrDriver \<or> fst (q (db w)) = Inl e))"
  using assms by (cases "q (db w)") (auto simp: stmt_def split: fault.splits)

lemma stmt_no_fault [simp]:
  "faults w = [] \<Longrightarrow> stmt q w = (fst (q (db w)), w\<lparr>db := snd (q (db w))\<rparr>)"
  by (simp add: stmt_def)

lemma query_Inr:
  "query f w = (Inr a, w') \<Longrightarrow> a = f (db w) \<and> db w' = db w \<and> w' = w\<lparr>faults := faults w'\<rparr>"
  unfolding query_def by (drule stmt_Inr) (auto dest: sym)

lemma query_db: "db (snd (query f w)) = db w"
  by (auto simp: query_def stmt_def split: fault.splits)

lemma query_err: "query f w = (Inl e, w') \<Longrightarrow> e = ErrDriver \<and> db w' = db w"
  by (auto simp: query_def stmt_def split: fault.splits)

lemma queryRow_Inr:
  "queryRow f w = (Inr a, w') \<Longrightarrow> f (db w) = Some a \<and> db w' = db w \<and> w' = w\<lparr>faults := faults w'\<rparr>"
  unfolding queryRow_def by (drule stmt_Inr) (auto split: option.splits dest: sym)

lemma queryRow_db: "db (snd (queryRow f w)) = db w"
  by (auto simp: queryRow_def stmt_def split: fault.splits)

lemma queryRow_Inl:
  "queryRow f w = (Inl e, w') \<Longrightarrow> db w' = db w \<and> (e = ErrDriver \<or> e = ErrNotFound \<and> f (db w) = None)"
  by (auto simp: queryRow_def stmt_def split: fault.splits option.splits)

lemma exec_Inr:
  "exec f w = (Inr n, w') \<Longrightarrow>
     n = fst (f (db w)) \<and> db w' = snd (f (db w)) \<and> w' = w\<lparr>db := db w', faults := faults w'\<rparr>"
  unfolding exec_def by (drule stmt_Inr) (auto dest: sym)

lemma exec_Inl:
  "exec f w = (Inl e, w') \<Longrightarrow> e = ErrDriver \<and> (db w' = db w \<or> db w' = snd (f (db w)))"
  by (auto simp: exec_def stmt_def split: fault.splits)

lemma no_fault_runs [simp]:
  assumes "faults w = []"
  shows "query f w = (Inr (f (db w)), w)"
    and "queryRow g w = (case g (db w) of None \<Rightarrow> Inl ErrNotFound | Some a \<Rightarrow> Inr a, w)"
    and "exec h w = (Inr (fst (h (db w))), w\<lparr>db := snd (h (db w))\<rparr>)"
  using assms by (simp_all add: query_def queryRow_def exec_def stmt_def)

lemma transact_Inr:
  assumes "transact m w = (Inr a, w')"
  shows "\<exists>c w1 w2. w1 = w\<lparr>faults := tl (faults w)\<rparr> \<and> m w1 = (Inr (c, a), w2) \<and>
           (if c then w' = w2\<lparr>faults := tl (faults w2)\<rparr> else w' = w2\<lparr>db := db w\<rparr>)"
  using assms
  by (auto simp: transact_def split: fault.splits prod.splits sum.splits bool.splits)

text \<open>Atomicity: a failed transaction leaves the old database or all the writes of its body.\<close>

lemma transact_atomic:
  assumes "transact m w = (Inl e, w')"
  shows "db w' = db w \<or>
         (\<exists>a w2. m (w\<lparr>faults := tl (faults w)\<rparr>) = (Inr (True, a), w2) \<and> db w' = db w2)"
  using assms
  by (auto simp: transact_def split: fault.splits prod.splits sum.splits bool.splits)

section \<open>Well-formed databases\<close>

text \<open>
  What the schema and the store's writes guarantee: primary keys and UNIQUE columns are
  distinct, foreign keys point at rows, AUTOINCREMENT ids grow with insertion and never pass the
  counter, and no nullable text column holds the empty string (every write goes through
  \<open>nullIfEmpty\<close>).
\<close>

definition wf_users :: "database \<Rightarrow> bool" where
  "wf_users d \<longleftrightarrow> distinct (map uc_id (users d)) \<and> distinct (map uc_email (users d))"

definition wf_device_row :: "device_row \<Rightarrow> bool" where
  "wf_device_row r \<longleftrightarrow> dc_current_ipv4 r \<noteq> Some '''' \<and> dc_current_ipv6 r \<noteq> Some ''''"

definition wf_devices :: "database \<Rightarrow> bool" where
  "wf_devices d \<longleftrightarrow>
     distinct (map dc_id (devices d)) \<and>
     distinct (map (\<lambda>r. (dc_user_id r, dc_label r)) (devices d)) \<and>
     dc_user_id ` set (devices d) \<subseteq> uc_id ` set (users d) \<and>
     list_all wf_device_row (devices d)"

definition wf_history_row :: "ip_history_row \<Rightarrow> bool" where
  "wf_history_row r \<longleftrightarrow> hc_ipv4 r \<noteq> Some '''' \<and> hc_ipv6 r \<noteq> Some ''''"

definition wf_history :: "database \<Rightarrow> bool" where
  "wf_history d \<longleftrightarrow>
     sorted_wrt (<) (map hc_id (ip_history d)) \<and>
     (\<forall>r \<in> set (ip_history d). 0 < hc_id r \<and> hc_id r \<le> ip_history_seq d) \<and>
     0 \<le> ip_history_seq d \<and>
     hc_device_id ` set (ip_history d) \<subseteq> dc_id ` set (devices d) \<and>
     list_all wf_history_row (ip_history d)"

definition wf_codes :: "database \<Rightarrow> bool" where
  "wf_codes d \<longleftrightarrow>
     distinct (map ec_code (enrollment_codes d)) \<and>
     (\<forall>c \<in> set (enrollment_codes d). ec_user_id c \<in> uc_id ` set (users d)) \<and>
     (\<forall>c \<in> set (enrollment_codes d). \<forall>i. ec_device_id c = Some i \<longrightarrow> i \<in> dc_id ` set (devices d))"

definition wf_outbox :: "database \<Rightarrow> bool" where
  "wf_outbox d \<longleftrightarrow>
     distinct (map en_id (notification_endpoints d)) \<and>
     distinct (map en_url (notification_endpoints d)) \<and>
     sorted_wrt (<) (map dl_id (notification_deliveries d)) \<and>
     (\<forall>r \<in> set (notification_deliveries d). 0 < dl_id r \<and> dl_id r \<le> notification_deliveries_seq d) \<and>
     0 \<le> notification_deliveries_seq d \<and>
     dl_endpoint_id ` set (notification_deliveries d) \<subseteq> en_id ` set (notification_endpoints d)"

definition wf_nonces :: "database \<Rightarrow> bool" where
  "wf_nonces d \<longleftrightarrow> distinct (map rn_signature (replay_nonces d))"

definition wf_db :: "database \<Rightarrow> bool" where
  "wf_db d \<longleftrightarrow> wf_users d \<and> wf_devices d \<and> wf_history d \<and> wf_codes d \<and> wf_outbox d \<and> wf_nonces d"

lemmas wf_table_defs =
  wf_users_def wf_devices_def wf_history_def wf_codes_def wf_outbox_def wf_nonces_def

lemma wf_empty_db: "wf_db empty_db"
  by (simp add: wf_db_def wf_table_defs empty_db_def)

section \<open>Invariants of the database\<close>

text \<open>Lifting a database invariant to the world, and the rule for each kind of access.\<close>

definition on_db :: "(database \<Rightarrow> bool) \<Rightarrow> 'z world_scheme \<Rightarrow> bool" where
  "on_db I w = I (db w)"

lemma on_db_simps [simp]:
  "on_db I (w\<lparr>faults := fs\<rparr>) = on_db I w"
  "on_db I (w\<lparr>db := d\<rparr>) = I d"
  by (simp_all add: on_db_def)

lemma preserves_stmt:
  assumes "\<And>d. I d \<Longrightarrow> I (snd (q d))"
  shows "preserves (on_db I) (stmt q)"
  by (rule preservesI) (auto simp: stmt_def on_db_def assms split: fault.splits)

lemma preserves_query [preserves_intros]: "preserves (on_db I) (query f)"
  by (simp add: query_def preserves_stmt)

lemma preserves_queryRow [preserves_intros]: "preserves (on_db I) (queryRow f)"
  by (simp add: queryRow_def preserves_stmt)

lemma preserves_exec: "(\<And>d. I d \<Longrightarrow> I (snd (f d))) \<Longrightarrow> preserves (on_db I) (exec f)"
  by (simp add: exec_def preserves_stmt)

lemma preserves_transact [preserves_intros]:
  fixes m :: "('z world_scheme, bool \<times> 'a) action"
  assumes "preserves (on_db I) m"
  shows "preserves (on_db I) (transact m)"
proof
  fix w :: "'z world_scheme"
  assume I: "on_db I w"
  then have "on_db I (snd (m (w\<lparr>faults := tl (faults w)\<rparr>)))"
    using assms by (simp add: preserves_def)
  with I show "on_db I (snd (transact m w))"
    by (auto simp: transact_def on_db_def split: fault.splits prod.splits sum.splits bool.splits)
qed

section \<open>Relations between the database before and after\<close>

text \<open>
  \<open>follows R m\<close>: whatever happens in \<open>m\<close>, failures of the driver included, the database afterwards is
  related to the one before by \<open>R\<close>. For a reflexive and transitive \<open>R\<close> this composes, so an
  operation is checked statement by statement; the locale carries the rules.
\<close>

definition follows :: "(database \<Rightarrow> database \<Rightarrow> bool) \<Rightarrow> ('z world_scheme, 'a) action \<Rightarrow> bool" where
  "follows R m \<longleftrightarrow> (\<forall>w. R (db w) (db (snd (m w))))"

lemma followsD: "follows R m \<Longrightarrow> m w = (r, w') \<Longrightarrow> R (db w) (db w')"
  by (metis follows_def snd_conv)

lemma follows_weaken: "follows R m \<Longrightarrow> (\<And>d d'. R d d' \<Longrightarrow> S d d') \<Longrightarrow> follows S m"
  by (simp add: follows_def)

locale db_order =
  fixes R :: "database \<Rightarrow> database \<Rightarrow> bool"
  assumes refl: "R d d"
    and trans: "R a b \<Longrightarrow> R b c \<Longrightarrow> R a c"
begin

lemma follows_same: "(\<And>w. db (snd (m w)) = db w) \<Longrightarrow> follows R m"
  by (simp add: follows_def refl)

lemma follows_ret [follows_intros]: "follows R (ret a)"
  by (simp add: follows_same)

lemma follows_fail [follows_intros]: "follows R (fail e)"
  by (simp add: follows_same)

lemma follows_Pair [follows_intros]: "follows R (Pair r)"
  by (simp add: follows_same)

lemma follows_query [follows_intros]: "follows R (query f)"
  by (simp add: follows_same query_db)

lemma follows_queryRow [follows_intros]: "follows R (queryRow f)"
  by (simp add: follows_same queryRow_db)

lemma follows_tryE [follows_intros]: "follows R m \<Longrightarrow> follows R (tryE m)"
  by (auto simp: follows_def tryE_def split: prod.splits) (metis snd_conv)

lemma follows_bindE [follows_intros]:
  fixes m :: "('z world_scheme, 'a) action"
  assumes "follows R m" and "\<And>a. follows R (f a)"
  shows "follows R (bindE m f)"
  unfolding follows_def
proof
  fix w :: "'z world_scheme"
  obtain r w1 where m: "m w = (r, w1)" by (cases "m w")
  from followsD [OF assms(1) m] have "R (db w) (db w1)" .
  then show "R (db w) (db (snd (bindE m f w)))"
    using m assms(2) trans by (cases r) (auto simp: bindE_def follows_def)
qed

lemma follows_forE [follows_intros]:
  "(\<And>x. x \<in> set xs \<Longrightarrow> follows R (f x)) \<Longrightarrow> follows R (forE xs f)"
  by (induction xs) (auto intro: follows_intros)

lemma follows_if [follows_intros]:
  "(b \<Longrightarrow> follows R m) \<Longrightarrow> (\<not> b \<Longrightarrow> follows R n) \<Longrightarrow> follows R (if b then m else n)"
  by simp

lemma follows_case_option [follows_intros]:
  "(x = None \<Longrightarrow> follows R f) \<Longrightarrow> (\<And>a. x = Some a \<Longrightarrow> follows R (g a)) \<Longrightarrow> follows R (case x of None \<Rightarrow> f | Some a \<Rightarrow> g a)"
  by (cases x) auto

lemma follows_case_sum [follows_intros]:
  "(\<And>x. follows R (f x)) \<Longrightarrow> (\<And>x. follows R (g x)) \<Longrightarrow> follows R (case v of Inl x \<Rightarrow> f x | Inr x \<Rightarrow> g x)"
  by (simp split: sum.split)

lemma follows_case_prod [follows_intros]:
  "(\<And>x y. follows R (f x y)) \<Longrightarrow> follows R (case v of (x, y) \<Rightarrow> f x y)"
  by (simp split: prod.split)

lemma follows_stmt: "(\<And>d. R d (snd (q d))) \<Longrightarrow> follows R (stmt q)"
  by (auto simp: follows_def stmt_def refl split: fault.splits)

lemma follows_exec: "(\<And>d. R d (snd (f d))) \<Longrightarrow> follows R (exec f)"
  by (simp add: exec_def follows_stmt)

lemma follows_transact [follows_intros]:
  fixes m :: "('z world_scheme, bool \<times> 'a) action"
  assumes "follows R m"
  shows "follows R (transact m)"
  unfolding follows_def
proof
  fix w :: "'z world_scheme"
  obtain r w1 where m: "m (w\<lparr>faults := tl (faults w)\<rparr>) = (r, w1)"
    by (cases "m (w\<lparr>faults := tl (faults w)\<rparr>)")
  from followsD [OF assms m] have "R (db w) (db w1)" by simp
  with m show "R (db w) (db (snd (transact m w)))"
    by (auto simp: transact_def refl split: fault.splits prod.splits sum.splits bool.splits)
qed

end

interpretation same: db_order "\<lambda>d d'. d' = d"
  by unfold_locales simp_all

section \<open>Runs without driver failures\<close>

abbreviation calm :: "'z world_scheme \<Rightarrow> bool" where
  "calm w \<equiv> faults w = []"

lemma calm_stmt [preserves_intros]: "preserves calm (stmt q)"
  by (simp add: preserves_def)

lemma calm_statements [preserves_intros]:
  "preserves calm (query f)" "preserves calm (queryRow g)" "preserves calm (exec h)"
  by (simp_all add: preserves_def)

lemma calm_transact [preserves_intros]:
  fixes m :: "('z world_scheme, bool \<times> 'a) action"
  assumes "preserves calm m"
  shows "preserves calm (transact m)"
proof
  fix w :: "'z world_scheme"
  assume "calm w"
  obtain r w1 where m: "m (w\<lparr>faults := []\<rparr>) = (r, w1)" by (cases "m (w\<lparr>faults := []\<rparr>)")
  from preservesD [OF assms _ m] have "calm w1" by simp
  with \<open>calm w\<close> m show "calm (snd (transact m w))"
    by (auto simp: transact_def split: sum.splits prod.splits bool.splits)
qed

end
