(* ===== verification/Store_History.thy ===== *)
theory Store_History
  imports Store_Db "HOL-Library.Product_Lexorder"
begin

text \<open>
  \<open>internal/store/ip_history.go\<close>: the append-only address history of a device, its newest-first
  pages, the per-family latest address, and pruning.
\<close>

record IPHistory =
  h_ID :: int
  h_DeviceID :: string
  h_IPv4 :: string
  h_IPv6 :: string
  h_ObservedAt :: int
  h_ClientVersion :: string

record HistoryPage =
  hp_Rows :: "IPHistory list"
  hp_NextCursor :: string

definition scanIPHistory :: "ip_history_row \<Rightarrow> IPHistory" where
  "scanIPHistory r =
     \<lparr> h_ID = hc_id r, h_DeviceID = hc_device_id r, h_IPv4 = scanString (hc_ipv4 r),
       h_IPv6 = scanString (hc_ipv6 r), h_ObservedAt = hc_observed_at r,
       h_ClientVersion = scanString (hc_client_version r) \<rparr>"

section \<open>Append\<close>

text \<open>
  The INSERT: the row gets the next AUTOINCREMENT id; a device id with no device row is a
  foreign-key error. \<open>now\<close> is what \<open>NowUnix()\<close> returns if the instant is not given.
\<close>

definition insert_history :: "IPHistory \<Rightarrow> database \<Rightarrow> (err + int) \<times> database" where
  "insert_history h d =
     (if h_DeviceID h \<in> dc_id ` set (devices d)
      then (let i = ip_history_seq d + 1 in
            (Inr i,
             d\<lparr>ip_history := ip_history d @
                 [\<lparr> hc_id = i, hc_device_id = h_DeviceID h, hc_ipv4 = nullIfEmpty (h_IPv4 h),
                    hc_ipv6 = nullIfEmpty (h_IPv6 h), hc_observed_at = h_ObservedAt h,
                    hc_client_version = nullIfEmpty (h_ClientVersion h) \<rparr>],
               ip_history_seq := i\<rparr>))
      else (Inl ErrConstraint, d))"

definition appendIPHistory :: "int \<Rightarrow> IPHistory \<Rightarrow> ('z world_scheme, IPHistory) action" where
  "appendIPHistory now h =
     (let h' = (if h_ObservedAt h = 0 then h\<lparr>h_ObservedAt := now\<rparr> else h) in
      bindE (stmt (insert_history h')) (\<lambda>i. ret (h'\<lparr>h_ID := i\<rparr>)))"

definition IPHistory_Append :: "int \<Rightarrow> IPHistory \<Rightarrow> ('z world_scheme, IPHistory) action" where
  "IPHistory_Append now h = appendIPHistory now h"

section \<open>Reading\<close>

text \<open>\<open>ORDER BY observed_at DESC, id DESC\<close>.\<close>

definition newest_first :: "ip_history_row list \<Rightarrow> ip_history_row list" where
  "newest_first rs = rev (sort_key (\<lambda>r. (hc_observed_at r, hc_id r)) rs)"

definition device_history :: "string \<Rightarrow> database \<Rightarrow> ip_history_row list" where
  "device_history i d = filter (\<lambda>r. hc_device_id r = i) (ip_history d)"

definition IPHistory_Latest :: "string \<Rightarrow> ('z world_scheme, IPHistory) action" where
  "IPHistory_Latest deviceID =
     queryRow (\<lambda>d. case newest_first (device_history deviceID d) of
                      [] \<Rightarrow> None | r # _ \<Rightarrow> Some (scanIPHistory r))"

record LatestAddress =
  la_IPv4 :: string
  la_IPv4At :: int
  la_IPv6 :: string
  la_IPv6At :: int

definition no_LatestAddress :: LatestAddress where
  "no_LatestAddress = \<lparr> la_IPv4 = '''', la_IPv4At = 0, la_IPv6 = '''', la_IPv6At = 0 \<rparr>"

text \<open>
  One arm of the UNION: per listed device, row number 1 of the rows that carry the family.
\<close>

definition latest_with :: "(ip_history_row \<Rightarrow> string option) \<Rightarrow> string \<Rightarrow> database \<Rightarrow> (string \<times> int) option" where
  "latest_with col i d =
     (case newest_first (filter (\<lambda>r. col r \<noteq> None) (device_history i d)) of
        [] \<Rightarrow> None
      | r # _ \<Rightarrow> Some (scanString (col r), hc_observed_at r))"

text \<open>
  The map the method returns: a device appears in it when some row carries some family, and a
  look-up of an absent device yields Go's zero value.
\<close>

definition LatestAddressPerFamily ::
  "string list \<Rightarrow> ('z world_scheme, string \<Rightarrow> LatestAddress option) action" where
  "LatestAddressPerFamily ids =
     (if ids = [] then ret (\<lambda>_. None)
      else query (\<lambda>d i.
        if i \<notin> set ids then None
        else (case (latest_with hc_ipv4 i d, latest_with hc_ipv6 i d) of
                (None, None) \<Rightarrow> None
              | (a4, a6) \<Rightarrow>
                  Some (let e = (case a4 of None \<Rightarrow> no_LatestAddress
                                  | Some (a, t) \<Rightarrow> no_LatestAddress\<lparr>la_IPv4 := a, la_IPv4At := t\<rparr>)
                        in (case a6 of None \<Rightarrow> e | Some (a, t) \<Rightarrow> e\<lparr>la_IPv6 := a, la_IPv6At := t\<rparr>)))))"

section \<open>Pruning\<close>

text \<open>
  \<open>LIMIT\<close> without \<open>ORDER BY\<close> lets the engine choose which rows it returns. The choice is a
  parameter \<open>pick\<close>; \<open>picks\<close> is what SQL promises of it.
\<close>

definition picks :: "(nat \<Rightarrow> 'a list \<Rightarrow> 'a list) \<Rightarrow> bool" where
  "picks pick \<longleftrightarrow>
     (\<forall>n xs. set (pick n xs) \<subseteq> set xs \<and> length (pick n xs) = min n (length xs) \<and>
             (distinct xs \<longrightarrow> distinct (pick n xs)))"

text \<open>The ids of the \<open>n\<close> newest rows: \<open>ORDER BY id DESC LIMIT ?\<close>.\<close>

definition newest_ids :: "nat \<Rightarrow> int list \<Rightarrow> int list" where
  "newest_ids n ids = take n (rev (sort ids))"

definition prune_eligible :: "int \<Rightarrow> int \<Rightarrow> ip_history_row list \<Rightarrow> ip_history_row list" where
  "prune_eligible olderThan perDeviceMax rs =
     (let ids = map hc_id rs in
      filter (\<lambda>r. hc_id r \<noteq> Max (set ids) \<and>
                  (hc_observed_at r < olderThan \<or>
                   (0 < perDeviceMax \<and> hc_id r < Min (set (newest_ids (nat perDeviceMax) ids))))) rs)"

definition IPHistory_Prune ::
  "(nat \<Rightarrow> ip_history_row list \<Rightarrow> ip_history_row list) \<Rightarrow> string \<Rightarrow> int \<Rightarrow> int \<Rightarrow> nat \<Rightarrow>
   ('z world_scheme, nat) action" where
  "IPHistory_Prune pick deviceID olderThan perDeviceMax batch =
     exec (\<lambda>d. let gone = map hc_id (pick batch (prune_eligible olderThan perDeviceMax (device_history deviceID d)))
               in (length (filter (\<lambda>r. hc_id r \<in> set gone) (ip_history d)),
                   d\<lparr>ip_history := filter (\<lambda>r. hc_id r \<notin> set gone) (ip_history d)\<rparr>))"

section \<open>Lemmas\<close>

lemma wf_history_distinct: "wf_history d \<Longrightarrow> distinct (map hc_id (ip_history d))"
  by (metis strict_sorted_iff wf_history_def)

lemma set_newest_first [simp]: "set (newest_first rs) = set rs"
  by (simp add: newest_first_def)

lemma length_newest_first [simp]: "length (newest_first rs) = length rs"
  by (simp add: newest_first_def)

lemma newest_first_Nil_iff [simp]: "newest_first rs = [] \<longleftrightarrow> rs = []"
  by (metis length_0_conv length_newest_first)

lemma newest_first_sorted:
  "sorted_wrt (\<lambda>a b. (hc_observed_at b, hc_id b) \<le> (hc_observed_at a, hc_id a)) (newest_first rs)"
proof -
  have "sorted (map (\<lambda>r. (hc_observed_at r, hc_id r)) (sort_key (\<lambda>r. (hc_observed_at r, hc_id r)) rs))"
    by simp
  then show ?thesis
    by (simp add: newest_first_def sorted_map sorted_wrt_rev)
qed

lemma newest_first_head:
  assumes "newest_first rs = r # rest"
  shows "r \<in> set rs" and "\<And>x. x \<in> set rs \<Longrightarrow> (hc_observed_at x, hc_id x) \<le> (hc_observed_at r, hc_id r)"
proof -
  have s: "set rs = insert r (set rest)" by (metis assms list.simps(15) set_newest_first)
  then show "r \<in> set rs" by simp
  fix x assume "x \<in> set rs"
  with s newest_first_sorted [of rs] show "(hc_observed_at x, hc_id x) \<le> (hc_observed_at r, hc_id r)"
    by (auto simp: assms)
qed

text \<open>The insert keeps the table well formed and only appends.\<close>

lemma insert_history_wf:
  assumes "wf_db d"
  shows "wf_db (snd (insert_history h d))"
proof (cases "h_DeviceID h \<in> dc_id ` set (devices d)")
  case True
  have "wf_history (snd (insert_history h d))"
    using assms True
    by (auto simp: wf_db_def wf_history_def wf_history_row_def insert_history_def Let_def
        sorted_wrt_append list_all_iff)
  then show ?thesis
    using assms by (simp add: wf_db_def wf_table_defs insert_history_def Let_def)
qed (use assms in \<open>simp add: insert_history_def\<close>)

lemma insert_history_frame:
  "users (snd (insert_history h d)) = users d" "devices (snd (insert_history h d)) = devices d"
  by (simp_all add: insert_history_def Let_def)

lemma preserves_appendIPHistory [preserves_intros]:
  "preserves (on_db wf_db) (appendIPHistory now h)"
  unfolding appendIPHistory_def Let_def
  by (intro preserves_intros preserves_stmt insert_history_wf)

lemma appendIPHistory_Inr:
  assumes "appendIPHistory now h w = (Inr row, w')"
  shows "h_DeviceID h \<in> dc_id ` set (devices (db w))"
    and "row = h\<lparr>h_ID := ip_history_seq (db w) + 1,
               h_ObservedAt := if h_ObservedAt h = 0 then now else h_ObservedAt h\<rparr>"
    and "db w' = snd (insert_history (h\<lparr>h_ObservedAt := if h_ObservedAt h = 0 then now else h_ObservedAt h\<rparr>) (db w))"
    and "w' = w\<lparr>db := db w', faults := faults w'\<rparr>"
  using assms
  by (auto simp: appendIPHistory_def Let_def bindE_Inr_iff insert_history_def split: if_splits
      dest!: stmt_Inr dest: sym)

lemma prune_wf:
  assumes "wf_db d"
  shows "wf_db (d\<lparr>ip_history := filter P (ip_history d)\<rparr>)"
proof -
  have "sorted_wrt (<) (map hc_id (filter P (ip_history d)))"
    using assms by (simp add: wf_db_def wf_history_def sorted_wrt_map sorted_wrt_filter)
  then show ?thesis
    using assms by (auto simp: wf_db_def wf_table_defs list_all_iff)
qed

lemma preserves_Prune [preserves_intros]:
  "preserves (on_db wf_db) (IPHistory_Prune pick i t m b)"
  unfolding IPHistory_Prune_def by (rule preserves_exec) (simp add: Let_def prune_wf)

end
