(* ===== verification/Store_Devices.thy ===== *)
theory Store_Devices
  imports Store_History
begin

text \<open>
  \<open>internal/store/devices.go\<close> and \<open>internal/store/checkin.go\<close>, with the user look-ups they are
  joined with (\<open>internal/store/users.go\<close>): the device table, the contact writes of a check-in,
  the feed query, the pinned writes of the staleness sweep, and the transaction that
  records an address change together with its history row.
\<close>

section \<open>Users\<close>

record User =
  u_ID :: string
  u_Email :: string
  u_Role :: string
  u_OIDCProvider :: string
  u_OIDCSubject :: string
  u_Disabled :: bool
  u_CreatedAt :: int
  u_UpdatedAt :: int
  u_PendingEmail :: string
  u_PendingEmailExpiresAt :: int

definition IsEnabledAdmin :: "User \<Rightarrow> bool" where
  "IsEnabledAdmin u \<longleftrightarrow> u_Role u = ''admin'' \<and> \<not> u_Disabled u"

definition scanUser :: "user_row \<Rightarrow> User" where
  "scanUser r =
     \<lparr> u_ID = uc_id r, u_Email = uc_email r, u_Role = uc_role r,
       u_OIDCProvider = scanString (uc_oidc_provider r), u_OIDCSubject = scanString (uc_oidc_subject r),
       u_Disabled = uc_disabled r, u_CreatedAt = uc_created_at r, u_UpdatedAt = uc_updated_at r,
       u_PendingEmail = scanString (uc_pending_email r),
       u_PendingEmailExpiresAt = scanInt64 (uc_pending_email_expires_at r) \<rparr>"

definition find_user :: "string \<Rightarrow> database \<Rightarrow> user_row option" where
  "find_user i d = find (\<lambda>r. uc_id r = i) (users d)"

definition UserRepo_GetByID :: "string \<Rightarrow> ('z world_scheme, User) action" where
  "UserRepo_GetByID i = queryRow (\<lambda>d. map_option scanUser (find_user i d))"

section \<open>Devices\<close>

record Device =
  d_ID :: string
  d_UserID :: string
  d_Label :: string
  d_SecretHash :: string
  d_CurrentIPv4 :: string
  d_CurrentIPv6 :: string
  d_Hostname :: string
  d_OS :: string
  d_ClientVersion :: string
  d_LastSeenAt :: int
  d_Disabled :: bool
  d_CreatedAt :: int
  d_UpdatedAt :: int
  d_V4ConfirmedAt :: int
  d_V6ConfirmedAt :: int
  d_V4WarnLevel :: int
  d_V6WarnLevel :: int

definition scanDevice :: "device_row \<Rightarrow> Device" where
  "scanDevice r =
     \<lparr> d_ID = dc_id r, d_UserID = dc_user_id r, d_Label = dc_label r, d_SecretHash = dc_secret_hash r,
       d_CurrentIPv4 = scanString (dc_current_ipv4 r), d_CurrentIPv6 = scanString (dc_current_ipv6 r),
       d_Hostname = scanString (dc_hostname r), d_OS = scanString (dc_os r),
       d_ClientVersion = scanString (dc_client_version r), d_LastSeenAt = scanInt64 (dc_last_seen_at r),
       d_Disabled = dc_disabled r, d_CreatedAt = dc_created_at r, d_UpdatedAt = dc_updated_at r,
       d_V4ConfirmedAt = scanInt64 (dc_v4_confirmed_at r), d_V6ConfirmedAt = scanInt64 (dc_v6_confirmed_at r),
       d_V4WarnLevel = dc_v4_warn_level r, d_V6WarnLevel = dc_v6_warn_level r \<rparr>"

definition device_values :: "Device \<Rightarrow> device_row" where
  "device_values d =
     \<lparr> dc_id = d_ID d, dc_user_id = d_UserID d, dc_label = d_Label d, dc_secret_hash = d_SecretHash d,
       dc_current_ipv4 = nullIfEmpty (d_CurrentIPv4 d), dc_current_ipv6 = nullIfEmpty (d_CurrentIPv6 d),
       dc_hostname = nullIfEmpty (d_Hostname d), dc_os = nullIfEmpty (d_OS d),
       dc_client_version = nullIfEmpty (d_ClientVersion d), dc_last_seen_at = nullIfZero (d_LastSeenAt d),
       dc_disabled = d_Disabled d, dc_created_at = d_CreatedAt d, dc_updated_at = d_UpdatedAt d,
       dc_v4_confirmed_at = nullIfZero (d_V4ConfirmedAt d), dc_v6_confirmed_at = nullIfZero (d_V6ConfirmedAt d),
       dc_v4_warn_level = d_V4WarnLevel d, dc_v6_warn_level = d_V6WarnLevel d \<rparr>"

definition find_device :: "string \<Rightarrow> database \<Rightarrow> device_row option" where
  "find_device i d = find (\<lambda>r. dc_id r = i) (devices d)"

definition insert_device :: "Device \<Rightarrow> database \<Rightarrow> (err + unit) \<times> database" where
  "insert_device dev d =
     (if d_ID dev \<in> dc_id ` set (devices d) \<or>
         (d_UserID dev, d_Label dev) \<in> (\<lambda>r. (dc_user_id r, dc_label r)) ` set (devices d)
      then (Inl ErrConflict, d)
      else if d_UserID dev \<notin> uc_id ` set (users d) then (Inl ErrConstraint, d)
      else (Inr (), d\<lparr>devices := devices d @ [device_values dev]\<rparr>))"

text \<open>\<open>newID\<close> is what \<open>NewID()\<close> returns, \<open>now\<close> what \<open>NowUnix()\<close> does.\<close>

definition DeviceRepo_Create :: "string \<Rightarrow> int \<Rightarrow> Device \<Rightarrow> ('z world_scheme, Device) action" where
  "DeviceRepo_Create newID now d =
     (let d1 = (if d_ID d = '''' then d\<lparr>d_ID := newID\<rparr> else d);
          d2 = d1\<lparr>d_CreatedAt := now, d_UpdatedAt := now\<rparr>
      in bindE (stmt (insert_device d2)) (\<lambda>_. ret d2))"

definition DeviceRepo_GetByID :: "string \<Rightarrow> ('z world_scheme, Device) action" where
  "DeviceRepo_GetByID i = queryRow (\<lambda>d. map_option scanDevice (find_device i d))"

definition getDeviceTx :: "string \<Rightarrow> ('z world_scheme, Device) action" where
  "getDeviceTx i = queryRow (\<lambda>d. map_option scanDevice (find_device i d))"

definition DeviceRepo_GetByUserAndLabel :: "string \<Rightarrow> string \<Rightarrow> ('z world_scheme, Device) action" where
  "DeviceRepo_GetByUserAndLabel userID label =
     queryRow (\<lambda>d. map_option scanDevice (find (\<lambda>r. dc_user_id r = userID \<and> dc_label r = label) (devices d)))"

definition DeviceRepo_ListByUser :: "string \<Rightarrow> ('z world_scheme, Device list) action" where
  "DeviceRepo_ListByUser userID =
     query (\<lambda>d. map scanDevice (sort_key dc_label (filter (\<lambda>r. dc_user_id r = userID) (devices d))))"

definition DeviceRepo_ListAll :: "('z world_scheme, Device list) action" where
  "DeviceRepo_ListAll = query (\<lambda>d. map scanDevice (sort_key (\<lambda>r. - dc_created_at r) (devices d)))"

text \<open>An UPDATE of the device table and the \<open>RowsAffected == 0\<close> check after it.\<close>

definition update_devices ::
  "(device_row \<Rightarrow> bool) \<Rightarrow> (device_row \<Rightarrow> device_row) \<Rightarrow> database \<Rightarrow> nat \<times> database" where
  "update_devices P f d =
     (length (filter P (devices d)), d\<lparr>devices := upd_where P f (devices d)\<rparr>)"

definition require_rows :: "('z world_scheme, nat) action \<Rightarrow> ('z world_scheme, unit) action" where
  "require_rows m = bindE m (\<lambda>n. if n = 0 then fail ErrNotFound else ret ())"

text \<open>
  The part of a contact write that concerns the families: each asserted family gets the contact
  instant as its confirmation and its warning level back to 0.
\<close>

definition confirm_families :: "bool \<Rightarrow> bool \<Rightarrow> int \<Rightarrow> device_row \<Rightarrow> device_row" where
  "confirm_families v4 v6 at r =
     r\<lparr>dc_v4_confirmed_at := (if v4 then Some at else dc_v4_confirmed_at r),
       dc_v6_confirmed_at := (if v6 then Some at else dc_v6_confirmed_at r),
       dc_v4_warn_level := (if v4 then 0 else dc_v4_warn_level r),
       dc_v6_warn_level := (if v6 then 0 else dc_v6_warn_level r)\<rparr>"

definition updateDeviceIP ::
  "string \<Rightarrow> string \<Rightarrow> string \<Rightarrow> string \<Rightarrow> string \<Rightarrow> string \<Rightarrow> bool \<Rightarrow> bool \<Rightarrow> int \<Rightarrow> int \<Rightarrow>
   ('z world_scheme, unit) action" where
  "updateDeviceIP i ipv4 ipv6 clientVersion hostname os v4Asserted v6Asserted lastSeenAt updatedAt =
     require_rows (exec (update_devices (\<lambda>r. dc_id r = i)
       (\<lambda>r. confirm_families v4Asserted v6Asserted lastSeenAt
         (r\<lparr>dc_current_ipv4 := nullIfEmpty ipv4, dc_current_ipv6 := nullIfEmpty ipv6,
            dc_client_version := nullIfEmpty clientVersion, dc_hostname := nullIfEmpty hostname,
            dc_os := nullIfEmpty os, dc_last_seen_at := nullIfZero lastSeenAt,
            dc_updated_at := updatedAt\<rparr>))))"

definition DeviceRepo_UpdateIP ::
  "int \<Rightarrow> string \<Rightarrow> string \<Rightarrow> string \<Rightarrow> string \<Rightarrow> string \<Rightarrow> string \<Rightarrow> int \<Rightarrow> ('z world_scheme, unit) action" where
  "DeviceRepo_UpdateIP now i ipv4 ipv6 clientVersion hostname os lastSeenAt =
     updateDeviceIP i ipv4 ipv6 clientVersion hostname os (ipv4 \<noteq> '''') (ipv6 \<noteq> '''') lastSeenAt now"

definition DeviceRepo_Touch ::
  "int \<Rightarrow> string \<Rightarrow> bool \<Rightarrow> bool \<Rightarrow> int \<Rightarrow> ('z world_scheme, unit) action" where
  "DeviceRepo_Touch now i v4Asserted v6Asserted lastSeenAt =
     require_rows (exec (update_devices (\<lambda>r. dc_id r = i)
       (\<lambda>r. confirm_families v4Asserted v6Asserted lastSeenAt
         (r\<lparr>dc_last_seen_at := nullIfZero lastSeenAt, dc_updated_at := now\<rparr>))))"

text \<open>The UPDATE of a label: UNIQUE (user_id, label) against every other row.\<close>

definition rename_device :: "string \<Rightarrow> string \<Rightarrow> int \<Rightarrow> database \<Rightarrow> (err + nat) \<times> database" where
  "rename_device i newLabel now d =
     (case find_device i d of
        None \<Rightarrow> (Inr 0, d)
      | Some r \<Rightarrow>
          (if \<exists>s \<in> set (devices d). dc_id s \<noteq> i \<and> dc_user_id s = dc_user_id r \<and> dc_label s = newLabel
           then (Inl ErrConflict, d)
           else (let (n, d') = update_devices (\<lambda>r. dc_id r = i)
                                 (\<lambda>r. r\<lparr>dc_label := newLabel, dc_updated_at := now\<rparr>) d
                 in (Inr n, d'))))"

definition DeviceRepo_Rename :: "int \<Rightarrow> string \<Rightarrow> string \<Rightarrow> ('z world_scheme, unit) action" where
  "DeviceRepo_Rename now i newLabel = require_rows (stmt (rename_device i newLabel now))"

definition DeviceRepo_RotateSecret :: "int \<Rightarrow> string \<Rightarrow> string \<Rightarrow> ('z world_scheme, unit) action" where
  "DeviceRepo_RotateSecret now i newSecretHash =
     require_rows (exec (update_devices (\<lambda>r. dc_id r = i)
       (\<lambda>r. r\<lparr>dc_secret_hash := newSecretHash, dc_updated_at := now\<rparr>)))"

definition DeviceRepo_SetDisabled :: "int \<Rightarrow> string \<Rightarrow> bool \<Rightarrow> ('z world_scheme, unit) action" where
  "DeviceRepo_SetDisabled now i disabled =
     require_rows (exec (update_devices (\<lambda>r. dc_id r = i)
       (\<lambda>r. r\<lparr>dc_disabled := disabled, dc_updated_at := now\<rparr>)))"

text \<open>
  DELETE with the schema's foreign keys: \<open>ip_history\<close> cascades, a consumed enrollment code keeps
  its row with \<open>device_id\<close> NULL.
\<close>

definition delete_device :: "string \<Rightarrow> database \<Rightarrow> nat \<times> database" where
  "delete_device i d =
     (length (filter (\<lambda>r. dc_id r = i) (devices d)),
      d\<lparr>devices := filter (\<lambda>r. dc_id r \<noteq> i) (devices d),
        ip_history := filter (\<lambda>r. hc_device_id r \<noteq> i) (ip_history d),
        enrollment_codes := upd_where (\<lambda>c. ec_device_id c = Some i) (\<lambda>c. c\<lparr>ec_device_id := None\<rparr>)
                              (enrollment_codes d)\<rparr>)"

definition DeviceRepo_Delete :: "string \<Rightarrow> ('z world_scheme, unit) action" where
  "DeviceRepo_Delete i = require_rows (exec (delete_device i))"

section \<open>The sweep's pinned writes\<close>

definition pinned :: "string \<Rightarrow> int \<Rightarrow> int \<Rightarrow> device_row \<Rightarrow> bool" where
  "pinned i pinV4 pinV6 r \<longleftrightarrow>
     dc_id r = i \<and> scanInt64 (dc_v4_confirmed_at r) = pinV4 \<and> scanInt64 (dc_v6_confirmed_at r) = pinV6"

definition AdvanceWarnLevel ::
  "string \<Rightarrow> int \<Rightarrow> int \<Rightarrow> int \<Rightarrow> int \<Rightarrow> int \<Rightarrow> int \<Rightarrow> ('z world_scheme, bool) action" where
  "AdvanceWarnLevel i family level fromLevel pinV4 pinV6 now =
     bindE (exec (update_devices
        (\<lambda>r. pinned i pinV4 pinV6 r \<and>
             (if family = 6 then dc_v6_warn_level r else dc_v4_warn_level r) = fromLevel)
        (\<lambda>r. (if family = 6 then r\<lparr>dc_v6_warn_level := level\<rparr> else r\<lparr>dc_v4_warn_level := level\<rparr>)
               \<lparr>dc_updated_at := now\<rparr>)))
       (\<lambda>n. ret (n = 1))"

definition clear_families :: "bool \<Rightarrow> bool \<Rightarrow> int \<Rightarrow> device_row \<Rightarrow> device_row" where
  "clear_families v4Due v6Due now r =
     r\<lparr>dc_current_ipv4 := (if v4Due then None else dc_current_ipv4 r),
       dc_current_ipv6 := (if v6Due then None else dc_current_ipv6 r),
       dc_v4_warn_level := (if v4Due then 0 else dc_v4_warn_level r),
       dc_v6_warn_level := (if v6Due then 0 else dc_v6_warn_level r),
       dc_updated_at := now\<rparr>"

definition holds_due :: "bool \<Rightarrow> bool \<Rightarrow> device_row \<Rightarrow> bool" where
  "holds_due v4Due v6Due r \<longleftrightarrow>
     (v4Due \<and> dc_current_ipv4 r \<noteq> None) \<or> (v6Due \<and> dc_current_ipv6 r \<noteq> None)"

definition ExpireFamilies ::
  "string \<Rightarrow> bool \<Rightarrow> bool \<Rightarrow> int \<Rightarrow> int \<Rightarrow> int \<Rightarrow> ('z world_scheme, int \<times> bool) action" where
  "ExpireFamilies i v4Due v6Due pinV4 pinV6 now =
     transact
       (bindE (exec (update_devices (\<lambda>r. pinned i pinV4 pinV6 r \<and> holds_due v4Due v6Due r)
                                    (clear_families v4Due v6Due now))) (\<lambda>n.
        if n = 0 then ret (False, (0, False))
        else bindE (getDeviceTx i) (\<lambda>after.
             bindE (appendIPHistory now
                \<lparr> h_ID = 0, h_DeviceID = i, h_IPv4 = d_CurrentIPv4 after, h_IPv6 = d_CurrentIPv6 after,
                  h_ObservedAt = now, h_ClientVersion = '''' \<rparr>) (\<lambda>row.
             ret (True, (h_ID row, True))))))"

section \<open>The gateway feed query\<close>

record FeedDevice =
  fd_ID :: string
  fd_Label :: string
  fd_IPv4 :: string
  fd_IPv6 :: string
  fd_LastSeenAt :: int

definition listFeedQuery :: "database \<Rightarrow> device_row list" where
  "listFeedQuery d =
     sort_key dc_id
       (filter (\<lambda>r. (\<exists>u \<in> set (users d). uc_id u = dc_user_id r \<and> \<not> dc_disabled r \<and> \<not> uc_disabled u) \<and>
                    (dc_current_ipv4 r \<noteq> None \<or> dc_current_ipv6 r \<noteq> None))
               (devices d))"

definition scanFeedDevice :: "device_row \<Rightarrow> FeedDevice" where
  "scanFeedDevice r =
     \<lparr> fd_ID = dc_id r, fd_Label = dc_label r, fd_IPv4 = scanString (dc_current_ipv4 r),
       fd_IPv6 = scanString (dc_current_ipv6 r), fd_LastSeenAt = scanInt64 (dc_last_seen_at r) \<rparr>"

definition ListFeed :: "('z world_scheme, FeedDevice list) action" where
  "ListFeed = query (\<lambda>d. map scanFeedDevice (listFeedQuery d))"

section \<open>Recording an address change\<close>

record IPChange =
  c_DeviceID :: string
  c_IPv4 :: string
  c_IPv6 :: string
  c_ClientVersion :: string
  c_Hostname :: string
  c_OS :: string
  c_V4Asserted :: bool
  c_V6Asserted :: bool

definition RecordIPChange :: "int \<Rightarrow> IPChange \<Rightarrow> ('z world_scheme, IPHistory) action" where
  "RecordIPChange now c =
     transact
       (bindE (updateDeviceIP (c_DeviceID c) (c_IPv4 c) (c_IPv6 c) (c_ClientVersion c) (c_Hostname c)
                 (c_OS c) (c_V4Asserted c) (c_V6Asserted c) now now) (\<lambda>_.
        bindE (appendIPHistory now
                 \<lparr> h_ID = 0, h_DeviceID = c_DeviceID c, h_IPv4 = c_IPv4 c, h_IPv6 = c_IPv6 c,
                   h_ObservedAt = now, h_ClientVersion = c_ClientVersion c \<rparr>) (\<lambda>row.
        ret (True, row))))"

section \<open>Single-row updates\<close>

text \<open>
  A row update that changes no key column and keeps the row well formed keeps the whole database
  well formed. Every UPDATE of this file but the rename is of this kind.
\<close>

definition keyed_update :: "(device_row \<Rightarrow> device_row) \<Rightarrow> bool" where
  "keyed_update f \<longleftrightarrow>
     (\<forall>r. dc_id (f r) = dc_id r \<and> dc_user_id (f r) = dc_user_id r \<and> dc_label (f r) = dc_label r) \<and>
     (\<forall>r. wf_device_row r \<longrightarrow> wf_device_row (f r))"

lemma keyed_updateD:
  assumes "keyed_update f"
  shows "dc_id (f r) = dc_id r" "dc_user_id (f r) = dc_user_id r" "dc_label (f r) = dc_label r"
    "wf_device_row r \<Longrightarrow> wf_device_row (f r)"
  using assms by (simp_all add: keyed_update_def)

lemma update_devices_wf:
  assumes "wf_db d" and "keyed_update f"
  shows "wf_db (snd (update_devices P f d))"
proof -
  let ?ds = "upd_where P f (devices d)"
  note f = keyed_updateD [OF assms(2)]
  have keys: "map dc_id ?ds = map dc_id (devices d)" "map dc_user_id ?ds = map dc_user_id (devices d)"
    "map (\<lambda>r. (dc_user_id r, dc_label r)) ?ds = map (\<lambda>r. (dc_user_id r, dc_label r)) (devices d)"
    by (simp_all add: f)
  from keys(1,2) have sets: "dc_id ` set ?ds = dc_id ` set (devices d)"
    "dc_user_id ` set ?ds = dc_user_id ` set (devices d)"
    by (metis set_map)+
  have rows: "list_all wf_device_row ?ds"
    using assms(1) f(4) by (auto simp: wf_db_def wf_devices_def list_all_iff set_upd_where)
  show ?thesis
    using assms(1) keys sets rows by (simp add: wf_db_def wf_table_defs update_devices_def)
qed

lemma find_device_update:
  assumes "keyed_update f"
  shows "find_device i (snd (update_devices P f d)) =
         map_option (\<lambda>r. if P r then f r else r) (find_device i d)"
  unfolding find_device_def update_devices_def
  by (simp add: find_key_upd_where keyed_updateD(1) [OF assms])

lemma update_devices_frame [simp]:
  "users (snd (update_devices P f d)) = users d"
  "ip_history (snd (update_devices P f d)) = ip_history d"
  "ip_history_seq (snd (update_devices P f d)) = ip_history_seq d"
  "replay_nonces (snd (update_devices P f d)) = replay_nonces d"
  "feed_seq (snd (update_devices P f d)) = feed_seq d"
  "enrollment_codes (snd (update_devices P f d)) = enrollment_codes d"
  by (simp_all add: update_devices_def)

lemma update_devices_ids [simp]:
  "keyed_update f \<Longrightarrow> dc_id ` set (devices (snd (update_devices P f d))) = dc_id ` set (devices d)"
proof -
  assume "keyed_update f"
  then have "map dc_id (devices (snd (update_devices P f d))) = map dc_id (devices d)"
    by (simp add: update_devices_def keyed_updateD(1))
  then show ?thesis by (metis set_map)
qed

lemma update_devices_count:
  assumes "wf_db d"
  shows "fst (update_devices (\<lambda>r. dc_id r = i \<and> Q r) f d) =
         (case find_device i d of None \<Rightarrow> 0 | Some r \<Rightarrow> if Q r then 1 else 0)"
proof -
  have dist: "distinct (map dc_id (devices d))"
    using assms by (simp add: wf_db_def wf_devices_def)
  have split: "filter (\<lambda>r. dc_id r = i \<and> Q r) (devices d) = filter Q (filter (\<lambda>r. dc_id r = i) (devices d))"
    by simp
  show ?thesis
  proof (cases "find_device i d")
    case None
    then have "filter (\<lambda>r. dc_id r = i \<and> Q r) (devices d) = []"
      by (auto simp: find_device_def find_None_iff filter_empty_conv)
    with None show ?thesis by (simp add: update_devices_def)
  next
    case (Some r)
    then have "filter (\<lambda>r. dc_id r = i) (devices d) = [r]"
      using filter_key_eq [OF dist] by (simp add: find_device_def)
    with Some show ?thesis unfolding split update_devices_def fst_conv by simp
  qed
qed

lemma update_devices_count_id:
  assumes "wf_db d"
  shows "fst (update_devices (\<lambda>r. dc_id r = i) f d) = (case find_device i d of None \<Rightarrow> 0 | Some _ \<Rightarrow> 1)"
  using update_devices_count [OF assms, of i "\<lambda>_. True" f] by (simp split: option.splits)

lemma confirm_families_keyed [simp]: "keyed_update (confirm_families v4 v6 at)"
  by (simp add: keyed_update_def confirm_families_def wf_device_row_def)

lemma clear_families_keyed [simp]: "keyed_update (clear_families v4 v6 now)"
  by (simp add: keyed_update_def clear_families_def wf_device_row_def)

lemma keyed_update_comp: "keyed_update f \<Longrightarrow> keyed_update g \<Longrightarrow> keyed_update (\<lambda>r. f (g r))"
  by (simp add: keyed_update_def)

lemma keyed_update_simple [simp]:
  "keyed_update (\<lambda>r. r\<lparr>dc_last_seen_at := a r, dc_updated_at := b\<rparr>)"
  "keyed_update (\<lambda>r. r\<lparr>dc_secret_hash := h, dc_updated_at := b\<rparr>)"
  "keyed_update (\<lambda>r. r\<lparr>dc_disabled := x, dc_updated_at := b\<rparr>)"
  "keyed_update (\<lambda>r. (if c then r\<lparr>dc_v6_warn_level := l\<rparr> else r\<lparr>dc_v4_warn_level := l\<rparr>)\<lparr>dc_updated_at := b\<rparr>)"
  "keyed_update (\<lambda>r. r\<lparr>dc_current_ipv4 := nullIfEmpty v4, dc_current_ipv6 := nullIfEmpty v6,
            dc_client_version := cv, dc_hostname := hn, dc_os := os, dc_last_seen_at := ls,
            dc_updated_at := b\<rparr>)"
  by (auto simp: keyed_update_def wf_device_row_def)

lemma require_rows_Inr:
  assumes "require_rows (exec f) w = (Inr x, w')"
  shows "0 < fst (f (db w)) \<and> db w' = snd (f (db w)) \<and> w' = w\<lparr>db := db w', faults := faults w'\<rparr>"
  using assms by (auto simp: require_rows_def bindE_Inr_iff split: if_splits dest!: exec_Inr)

lemma require_rows_Inl:
  assumes "require_rows (exec f) w = (Inl e, w')"
  shows "e = ErrDriver \<and> (db w' = db w \<or> db w' = snd (f (db w))) \<or>
         e = ErrNotFound \<and> fst (f (db w)) = 0 \<and> db w' = snd (f (db w))"
  using assms by (auto simp: require_rows_def bindE_Inl_iff split: if_splits dest!: exec_Inr exec_Inl)

lemma require_rows_no_fault [simp]:
  "faults w = [] \<Longrightarrow> require_rows (exec f) w =
     (if fst (f (db w)) = 0 then Inl ErrNotFound else Inr (), w\<lparr>db := snd (f (db w))\<rparr>)"
  by (simp add: require_rows_def bindE_def)

lemma preserves_require_rows [preserves_intros]: "preserves I m \<Longrightarrow> preserves I (require_rows m)"
  unfolding require_rows_def by (intro preserves_intros)

lemma preserves_update_devices [preserves_intros]:
  "keyed_update f \<Longrightarrow> preserves (on_db wf_db) (exec (update_devices P f))"
  by (rule preserves_exec) (rule update_devices_wf)

section \<open>Every device operation keeps the database well formed\<close>

lemma insert_device_wf:
  assumes "wf_db d"
  shows "wf_db (snd (insert_device dev d))"
proof -
  have "wf_device_row (device_values dev)"
    by (simp add: wf_device_row_def device_values_def)
  moreover have "dc_id (device_values dev) = d_ID dev" "dc_user_id (device_values dev) = d_UserID dev"
    "dc_label (device_values dev) = d_Label dev"
    by (simp_all add: device_values_def)
  ultimately show ?thesis
    using assms
    by (auto simp: insert_device_def wf_db_def wf_table_defs list_all_iff image_iff)
qed

lemma delete_device_wf:
  assumes "wf_db d"
  shows "wf_db (snd (delete_device i d))"
proof -
  have h: "sorted_wrt (<) (map hc_id (filter (\<lambda>r. hc_device_id r \<noteq> i) (ip_history d)))"
    using assms by (simp add: wf_db_def wf_history_def sorted_wrt_map sorted_wrt_filter)
  have c: "map ec_code (upd_where (\<lambda>c. ec_device_id c = Some i) (\<lambda>c. c\<lparr>ec_device_id := None\<rparr>)
      (enrollment_codes d)) = map ec_code (enrollment_codes d)"
    by simp
  have "hc_device_id r \<in> dc_id ` set (devices d)" if "r \<in> set (ip_history d)" for r
    using assms that by (auto simp: wf_db_def wf_history_def)
  then have del_ids: "hc_device_id r \<in> dc_id ` {x \<in> set (devices d). dc_id x \<noteq> i}"
    if "r \<in> set (ip_history d)" "hc_device_id r \<noteq> i" for r
    using that by fastforce
  have "wf_devices (snd (delete_device i d))" "wf_users (snd (delete_device i d))"
    "wf_outbox (snd (delete_device i d))" "wf_nonces (snd (delete_device i d))"
    using assms by (auto simp: wf_db_def wf_table_defs delete_device_def list_all_iff)
  moreover have "wf_history (snd (delete_device i d))"
    using assms h del_ids by (auto simp: wf_db_def wf_history_def delete_device_def list_all_iff)
  moreover have "wf_codes (snd (delete_device i d))"
    using assms c by (auto simp: wf_db_def wf_codes_def delete_device_def set_upd_where image_iff) metis
  ultimately show ?thesis by (simp add: wf_db_def)
qed

lemma rename_device_wf:
  assumes wf: "wf_db d"
  shows "wf_db (snd (rename_device i l now d))"
proof (cases "find_device i d")
  case (Some r)
  let ?f = "\<lambda>r. r\<lparr>dc_label := l, dc_updated_at := now\<rparr>"
  let ?ds = "upd_where (\<lambda>r. dc_id r = i) ?f (devices d)"
  show ?thesis
  proof (cases "\<exists>s \<in> set (devices d). dc_id s \<noteq> i \<and> dc_user_id s = dc_user_id r \<and> dc_label s = l")
    case True
    with Some wf show ?thesis by (simp add: rename_device_def)
  next
    case False
    have keys: "map dc_id ?ds = map dc_id (devices d)" "map dc_user_id ?ds = map dc_user_id (devices d)"
      by simp_all
    then have sets: "dc_id ` set ?ds = dc_id ` set (devices d)" "dc_user_id ` set ?ds = dc_user_id ` set (devices d)"
      by (metis set_map)+
    have dist: "distinct (map dc_id (devices d))" "distinct (map (\<lambda>r. (dc_user_id r, dc_label r)) (devices d))"
      using wf by (simp_all add: wf_db_def wf_devices_def)
    have only: "s = r" if "s \<in> set (devices d)" "dc_id s = i" for s
      using find_distinct_key [OF dist(1) that(1)] that(2) Some by (simp add: find_device_def)
    have "distinct (map (\<lambda>r. (dc_user_id r, dc_label r)) ?ds)"
      using dist False only
    proof (induction "devices d" arbitrary: d)
      case (Cons a xs)
      have IH: "distinct (map (\<lambda>r. (dc_user_id r, dc_label r)) (upd_where (\<lambda>r. dc_id r = i) ?f xs))"
        using Cons.hyps(1) [of "d\<lparr>devices := xs\<rparr>"] Cons.prems Cons.hyps(2) [symmetric] by simp
      have "a = r" if "dc_id a = i" using that Cons.prems(4) Cons.hyps(2) [symmetric] by simp
      moreover have "s = r" if "s \<in> set xs" "dc_id s = i" for s
        using that Cons.prems(4) Cons.hyps(2) [symmetric] by simp
      moreover have "dc_id a \<notin> dc_id ` set xs" "(dc_user_id a, dc_label a) \<notin> (\<lambda>r. (dc_user_id r, dc_label r)) ` set xs"
        using Cons.prems(1,2) Cons.hyps(2) [symmetric] by simp_all
      ultimately show ?case
        using IH Cons.prems(3) Cons.hyps(2) [symmetric]
        by (auto simp: set_upd_where image_iff split: if_splits)
    qed simp
    moreover have "list_all wf_device_row ?ds"
      using wf by (auto simp: wf_db_def wf_devices_def list_all_iff set_upd_where wf_device_row_def)
    ultimately show ?thesis
      using wf Some False keys sets
      by (simp add: rename_device_def update_devices_def wf_db_def wf_table_defs)
  qed
qed (use wf in \<open>simp add: rename_device_def\<close>)

lemma preserves_Create [preserves_intros]: "preserves (on_db wf_db) (DeviceRepo_Create newID now d)"
  unfolding DeviceRepo_Create_def Let_def
  by (intro preserves_intros preserves_stmt insert_device_wf)

lemma preserves_device_reads [preserves_intros]:
  "preserves (on_db I) (DeviceRepo_GetByID i)" "preserves (on_db I) (getDeviceTx i)"
  "preserves (on_db I) (DeviceRepo_GetByUserAndLabel u l)" "preserves (on_db I) (DeviceRepo_ListByUser u)"
  "preserves (on_db I) DeviceRepo_ListAll" "preserves (on_db I) ListFeed"
  "preserves (on_db I) (UserRepo_GetByID i)"
  unfolding DeviceRepo_GetByID_def getDeviceTx_def DeviceRepo_GetByUserAndLabel_def
    DeviceRepo_ListByUser_def DeviceRepo_ListAll_def ListFeed_def UserRepo_GetByID_def
  by (rule preserves_query preserves_queryRow)+

lemma preserves_updateDeviceIP [preserves_intros]:
  "preserves (on_db wf_db) (updateDeviceIP i a b c h os v4 v6 ls now)"
  unfolding updateDeviceIP_def
  by (intro preserves_intros keyed_update_comp [OF confirm_families_keyed] keyed_update_simple)

lemma preserves_device_writes [preserves_intros]:
  "preserves (on_db wf_db) (DeviceRepo_UpdateIP now i a b c h os ls)"
  "preserves (on_db wf_db) (DeviceRepo_Touch now i v4 v6 ls)"
  "preserves (on_db wf_db) (DeviceRepo_Rename now i l)"
  "preserves (on_db wf_db) (DeviceRepo_RotateSecret now i s)"
  "preserves (on_db wf_db) (DeviceRepo_SetDisabled now i x)"
  "preserves (on_db wf_db) (DeviceRepo_Delete i)"
  "preserves (on_db wf_db) (AdvanceWarnLevel i f lv fl p4 p6 now)"
  unfolding DeviceRepo_UpdateIP_def DeviceRepo_Touch_def DeviceRepo_Rename_def DeviceRepo_RotateSecret_def
    DeviceRepo_SetDisabled_def DeviceRepo_Delete_def AdvanceWarnLevel_def
  by (intro preserves_intros preserves_stmt preserves_exec rename_device_wf delete_device_wf
      keyed_update_comp [OF confirm_families_keyed] keyed_update_simple; assumption?)+

lemma preserves_ExpireFamilies [preserves_intros]:
  "preserves (on_db wf_db) (ExpireFamilies i v4 v6 p4 p6 now)"
  unfolding ExpireFamilies_def by (intro preserves_intros clear_families_keyed)

lemma preserves_RecordIPChange [preserves_intros]:
  "preserves (on_db wf_db) (RecordIPChange now c)"
  unfolding RecordIPChange_def by (intro preserves_intros)

end
