(* ===== verification/Store_Notifications.thy ===== *)
theory Store_Notifications
  imports Store_Devices
begin

text \<open>
  \<open>internal/store/notifications.go\<close>: the webhook endpoints and the delivery outbox, and
  \<open>internal/store/feed_state.go\<close>: the feed sequence counter.
\<close>

section \<open>Endpoints\<close>

record NotificationEndpoint =
  ne_ID :: string
  ne_Label :: string
  ne_URL :: string
  ne_SecretSealed :: string
  ne_Enabled :: bool
  ne_CreatedAt :: int
  ne_UpdatedAt :: int

definition DeliveryPending :: string where "DeliveryPending = ''pending''"
definition DeliveryDelivered :: string where "DeliveryDelivered = ''delivered''"
definition DeliveryFailed :: string where "DeliveryFailed = ''failed''"

definition deliveryTerminalStatuses :: "string list" where
  "deliveryTerminalStatuses = [DeliveryFailed, DeliveryDelivered]"

definition scanNotificationEndpoint :: "endpoint_row \<Rightarrow> NotificationEndpoint" where
  "scanNotificationEndpoint r =
     \<lparr> ne_ID = en_id r, ne_Label = en_label r, ne_URL = en_url r, ne_SecretSealed = en_secret_sealed r,
       ne_Enabled = en_enabled r, ne_CreatedAt = en_created_at r, ne_UpdatedAt = en_updated_at r \<rparr>"

definition insert_endpoint :: "NotificationEndpoint \<Rightarrow> database \<Rightarrow> (err + unit) \<times> database" where
  "insert_endpoint e d =
     (if ne_ID e \<in> en_id ` set (notification_endpoints d) \<or> ne_URL e \<in> en_url ` set (notification_endpoints d)
      then (Inl ErrConflict, d)
      else (Inr (), d\<lparr>notification_endpoints := notification_endpoints d @
             [\<lparr> en_id = ne_ID e, en_label = ne_Label e, en_url = ne_URL e,
                en_secret_sealed = ne_SecretSealed e, en_enabled = True,
                en_created_at = ne_CreatedAt e, en_updated_at = ne_UpdatedAt e \<rparr>]\<rparr>))"

definition EndpointRepo_Create :: "NotificationEndpoint \<Rightarrow> ('z world_scheme, unit) action" where
  "EndpointRepo_Create e = stmt (insert_endpoint e)"

definition find_endpoint :: "string \<Rightarrow> database \<Rightarrow> endpoint_row option" where
  "find_endpoint i d = find (\<lambda>r. en_id r = i) (notification_endpoints d)"

definition EndpointRepo_Get :: "string \<Rightarrow> ('z world_scheme, NotificationEndpoint) action" where
  "EndpointRepo_Get i = queryRow (\<lambda>d. map_option scanNotificationEndpoint (find_endpoint i d))"

definition EndpointRepo_List :: "('z world_scheme, NotificationEndpoint list) action" where
  "EndpointRepo_List =
     query (\<lambda>d. map scanNotificationEndpoint
       (sort_key (\<lambda>r. (en_created_at r, en_id r)) (notification_endpoints d)))"

definition enabled_endpoints :: "database \<Rightarrow> endpoint_row list" where
  "enabled_endpoints d =
     sort_key (\<lambda>r. (en_created_at r, en_id r)) (filter en_enabled (notification_endpoints d))"

definition EndpointRepo_ListEnabled :: "('z world_scheme, NotificationEndpoint list) action" where
  "EndpointRepo_ListEnabled = query (\<lambda>d. map scanNotificationEndpoint (enabled_endpoints d))"

definition EndpointRepo_SetEnabled :: "int \<Rightarrow> string \<Rightarrow> bool \<Rightarrow> ('z world_scheme, unit) action" where
  "EndpointRepo_SetEnabled now i enabled =
     require_rows (exec (\<lambda>d.
       (length (filter (\<lambda>r. en_id r = i) (notification_endpoints d)),
        d\<lparr>notification_endpoints := upd_where (\<lambda>r. en_id r = i)
            (\<lambda>r. r\<lparr>en_enabled := enabled, en_updated_at := now\<rparr>) (notification_endpoints d)\<rparr>)))"

text \<open>Deliveries cascade with their endpoint.\<close>

definition EndpointRepo_Delete :: "string \<Rightarrow> ('z world_scheme, unit) action" where
  "EndpointRepo_Delete i =
     require_rows (exec (\<lambda>d.
       (length (filter (\<lambda>r. en_id r = i) (notification_endpoints d)),
        d\<lparr>notification_endpoints := filter (\<lambda>r. en_id r \<noteq> i) (notification_endpoints d),
          notification_deliveries := filter (\<lambda>r. dl_endpoint_id r \<noteq> i) (notification_deliveries d)\<rparr>)))"

section \<open>The outbox\<close>

record NotificationDelivery =
  nd_ID :: int
  nd_EndpointID :: string
  nd_EventType :: string
  nd_EventID :: int
  nd_Payload :: string
  nd_Attempts :: int
  nd_NextAttemptAt :: int
  nd_Status :: string
  nd_LastFailure :: string
  nd_CreatedAt :: int
  nd_UpdatedAt :: int

definition scanDelivery :: "delivery_row \<Rightarrow> NotificationDelivery" where
  "scanDelivery r =
     \<lparr> nd_ID = dl_id r, nd_EndpointID = dl_endpoint_id r, nd_EventType = dl_event_type r,
       nd_EventID = dl_event_id r, nd_Payload = dl_payload r, nd_Attempts = dl_attempts r,
       nd_NextAttemptAt = scanInt64 (dl_next_attempt_at r), nd_Status = dl_status r,
       nd_LastFailure = scanString (dl_last_failure r), nd_CreatedAt = dl_created_at r,
       nd_UpdatedAt = dl_updated_at r \<rparr>"

text \<open>The INSERT of an outbox row, with the endpoint foreign key and the next AUTOINCREMENT id.\<close>

definition insert_delivery :: "delivery_row \<Rightarrow> database \<Rightarrow> (err + unit) \<times> database" where
  "insert_delivery r d =
     (if dl_endpoint_id r \<in> en_id ` set (notification_endpoints d)
      then (let i = notification_deliveries_seq d + 1 in
            (Inr (), d\<lparr>notification_deliveries := notification_deliveries d @ [r\<lparr>dl_id := i\<rparr>],
                       notification_deliveries_seq := i\<rparr>))
      else (Inl ErrConstraint, d))"

definition DeliveryRepo_Enqueue :: "int \<Rightarrow> NotificationDelivery \<Rightarrow> ('z world_scheme, unit) action" where
  "DeliveryRepo_Enqueue now nd =
     stmt (insert_delivery
       \<lparr> dl_id = 0, dl_endpoint_id = nd_EndpointID nd, dl_event_type = nd_EventType nd,
         dl_event_id = nd_EventID nd, dl_payload = nd_Payload nd, dl_attempts = nd_Attempts nd,
         dl_next_attempt_at = nullIfZero (nd_NextAttemptAt nd), dl_status = nd_Status nd,
         dl_last_failure = nullIfEmpty (nd_LastFailure nd), dl_created_at = now, dl_updated_at = now \<rparr>)"

record DueDelivery = NotificationDelivery +
  dd_EndpointURL :: string
  dd_SecretSealed :: string

definition due_rows :: "int \<Rightarrow> database \<Rightarrow> delivery_row list" where
  "due_rows before d =
     filter (\<lambda>r. (case dl_next_attempt_at r of None \<Rightarrow> False | Some t \<Rightarrow> t \<le> before) \<and>
                 (case find_endpoint (dl_endpoint_id r) d of None \<Rightarrow> False | Some e \<Rightarrow> en_enabled e))
            (notification_deliveries d)"

definition join_endpoint :: "database \<Rightarrow> delivery_row \<Rightarrow> DueDelivery" where
  "join_endpoint d r =
     NotificationDelivery.extend (scanDelivery r)
       (case find_endpoint (dl_endpoint_id r) d of
          None \<Rightarrow> \<lparr> dd_EndpointURL = '''', dd_SecretSealed = '''' \<rparr>
        | Some e \<Rightarrow> \<lparr> dd_EndpointURL = en_url e, dd_SecretSealed = en_secret_sealed e \<rparr>)"

definition DueForAttempt :: "int \<Rightarrow> nat \<Rightarrow> ('z world_scheme, DueDelivery list) action" where
  "DueForAttempt before limit =
     query (\<lambda>d. map (join_endpoint d)
       (take limit (sort_key (\<lambda>r. scanInt64 (dl_next_attempt_at r)) (due_rows before d))))"

definition UpdateAfterAttempt ::
  "int \<Rightarrow> int \<Rightarrow> int \<Rightarrow> string \<Rightarrow> int \<Rightarrow> string \<Rightarrow> ('z world_scheme, unit) action" where
  "UpdateAfterAttempt now i attempts status nextAttemptAt lastFailure =
     bindE (exec (\<lambda>d.
       (length (filter (\<lambda>r. dl_id r = i) (notification_deliveries d)),
        d\<lparr>notification_deliveries := upd_where (\<lambda>r. dl_id r = i)
            (\<lambda>r. r\<lparr>dl_attempts := attempts, dl_status := status,
                   dl_next_attempt_at := nullIfZero nextAttemptAt,
                   dl_last_failure := nullIfEmpty lastFailure, dl_updated_at := now\<rparr>)
            (notification_deliveries d)\<rparr>)))
       (\<lambda>_. ret ())"

definition InsertUserTest :: "string \<Rightarrow> string \<Rightarrow> int \<Rightarrow> ('z world_scheme, bool) action" where
  "InsertUserTest endpointID payload now =
     bindE (exec (\<lambda>d.
       if (\<exists>e \<in> set (notification_endpoints d). en_id e = endpointID \<and> en_enabled e)
       then (1, snd (insert_delivery
               \<lparr> dl_id = 0, dl_endpoint_id = endpointID, dl_event_type = ''endpoint.test'',
                 dl_event_id = 0, dl_payload = payload, dl_attempts = 0, dl_next_attempt_at = Some now,
                 dl_status = DeliveryPending, dl_last_failure = None,
                 dl_created_at = now, dl_updated_at = now \<rparr> d))
       else (0, d)))
       (\<lambda>n. ret (n \<noteq> 0))"

definition redelivery_source :: "int \<Rightarrow> database \<Rightarrow> delivery_row option" where
  "redelivery_source i d =
     find (\<lambda>r. dl_id r = i \<and> dl_status r \<in> set deliveryTerminalStatuses \<and>
               (\<exists>e \<in> set (notification_endpoints d). en_id e = dl_endpoint_id r \<and> en_enabled e))
          (notification_deliveries d)"

definition InsertRedelivery :: "int \<Rightarrow> int \<Rightarrow> ('z world_scheme, bool) action" where
  "InsertRedelivery deliveryID now =
     bindE (exec (\<lambda>d.
       case redelivery_source deliveryID d of
         None \<Rightarrow> (0, d)
       | Some src \<Rightarrow>
           (1, snd (insert_delivery
              \<lparr> dl_id = 0, dl_endpoint_id = dl_endpoint_id src, dl_event_type = dl_event_type src,
                dl_event_id = dl_event_id src, dl_payload = dl_payload src, dl_attempts = 0,
                dl_next_attempt_at = Some now, dl_status = DeliveryPending, dl_last_failure = None,
                dl_created_at = now, dl_updated_at = now \<rparr> d))))
       (\<lambda>n. ret (n \<noteq> 0))"

definition ListByEndpoint :: "string \<Rightarrow> nat \<Rightarrow> ('z world_scheme, NotificationDelivery list) action" where
  "ListByEndpoint endpointID limit =
     query (\<lambda>d. map scanDelivery (take limit (rev (sort_key dl_id
       (filter (\<lambda>r. dl_endpoint_id r = endpointID) (notification_deliveries d))))))"

definition prunable_deliveries :: "int \<Rightarrow> database \<Rightarrow> delivery_row list" where
  "prunable_deliveries olderThan d =
     filter (\<lambda>r. dl_created_at r < olderThan \<and> dl_status r \<in> set deliveryTerminalStatuses)
       (notification_deliveries d)"

definition DeliveryRepo_Prune ::
  "(nat \<Rightarrow> delivery_row list \<Rightarrow> delivery_row list) \<Rightarrow> int \<Rightarrow> nat \<Rightarrow> ('z world_scheme, nat) action" where
  "DeliveryRepo_Prune pick olderThan batch =
     exec (\<lambda>d. let gone = map dl_id (pick batch (prunable_deliveries olderThan d)) in
       (length (filter (\<lambda>r. dl_id r \<in> set gone) (notification_deliveries d)),
        d\<lparr>notification_deliveries := filter (\<lambda>r. dl_id r \<notin> set gone) (notification_deliveries d)\<rparr>))"

section \<open>The feed sequence\<close>

record FeedState =
  fs_Seq :: int
  fs_ChangedAt :: int

definition FeedState_Bump :: "int \<Rightarrow> ('z world_scheme, int) action" where
  "FeedState_Bump now =
     stmt (\<lambda>d. (Inr (feed_seq d + 1), d\<lparr>feed_seq := feed_seq d + 1, feed_changed_at := now\<rparr>))"

definition FeedState_Get :: "('z world_scheme, FeedState) action" where
  "FeedState_Get = query (\<lambda>d. \<lparr> fs_Seq = feed_seq d, fs_ChangedAt = feed_changed_at d \<rparr>)"

section \<open>Well-formedness\<close>

lemma insert_delivery_wf:
  assumes "wf_db d"
  shows "wf_db (snd (insert_delivery r d))"
proof (cases "dl_endpoint_id r \<in> en_id ` set (notification_endpoints d)")
  case True
  have "wf_outbox (snd (insert_delivery r d))"
    using assms True
    by (auto simp: wf_db_def wf_outbox_def insert_delivery_def Let_def sorted_wrt_append)
  with assms show ?thesis
    by (simp add: wf_db_def wf_table_defs insert_delivery_def Let_def)
qed (use assms in \<open>simp add: insert_delivery_def\<close>)

text \<open>A write of the outbox tables alone keeps the rest of the database well formed.\<close>

lemma outbox_write_wf:
  assumes "wf_db d" and "wf_outbox (d\<lparr>notification_endpoints := es, notification_deliveries := ds\<rparr>)"
  shows "wf_db (d\<lparr>notification_endpoints := es, notification_deliveries := ds\<rparr>)"
  using assms by (simp add: wf_db_def wf_table_defs)

lemma upd_deliveries_wf:
  assumes "wf_db d" and "\<And>r. dl_id (f r) = dl_id r" and "\<And>r. dl_endpoint_id (f r) = dl_endpoint_id r"
  shows "wf_db (d\<lparr>notification_deliveries := upd_where P f (notification_deliveries d)\<rparr>)"
proof -
  have m: "map dl_id (upd_where P f (notification_deliveries d)) = map dl_id (notification_deliveries d)"
    "map dl_endpoint_id (upd_where P f (notification_deliveries d)) = map dl_endpoint_id (notification_deliveries d)"
    by (simp_all add: assms)
  then have s: "dl_endpoint_id ` set (upd_where P f (notification_deliveries d)) =
    dl_endpoint_id ` set (notification_deliveries d)" by (metis set_map)
  have b: "\<forall>r \<in> set (upd_where P f (notification_deliveries d)). 0 < dl_id r \<and> dl_id r \<le> notification_deliveries_seq d"
    using assms by (auto simp: wf_db_def wf_outbox_def set_upd_where)
  show ?thesis using assms(1) m s b by (simp add: wf_db_def wf_table_defs)
qed

lemma filter_deliveries_wf:
  assumes "wf_db d"
  shows "wf_db (d\<lparr>notification_deliveries := filter P (notification_deliveries d)\<rparr>)"
proof -
  have "sorted_wrt (<) (map dl_id (filter P (notification_deliveries d)))"
    using assms by (simp add: wf_db_def wf_outbox_def sorted_wrt_map sorted_wrt_filter)
  with assms show ?thesis by (auto simp: wf_db_def wf_table_defs)
qed

lemma upd_endpoints_wf:
  assumes "wf_db d" and "\<And>r. en_id (f r) = en_id r" and "\<And>r. en_url (f r) = en_url r"
  shows "wf_db (d\<lparr>notification_endpoints := upd_where P f (notification_endpoints d)\<rparr>)"
proof -
  have m: "map en_id (upd_where P f (notification_endpoints d)) = map en_id (notification_endpoints d)"
    "map en_url (upd_where P f (notification_endpoints d)) = map en_url (notification_endpoints d)"
    by (simp_all add: assms)
  then have "en_id ` set (upd_where P f (notification_endpoints d)) = en_id ` set (notification_endpoints d)"
    by (metis set_map)
  with assms(1) m show ?thesis by (simp add: wf_db_def wf_table_defs)
qed

lemma delete_endpoint_wf:
  assumes "wf_db d"
  shows "wf_db (d\<lparr>notification_endpoints := filter (\<lambda>r. en_id r \<noteq> i) (notification_endpoints d),
    notification_deliveries := filter (\<lambda>r. dl_endpoint_id r \<noteq> i) (notification_deliveries d)\<rparr>)"
proof (rule outbox_write_wf [OF assms])
  have s: "sorted_wrt (<) (map dl_id (filter (\<lambda>r. dl_endpoint_id r \<noteq> i) (notification_deliveries d)))"
    using assms by (simp add: wf_db_def wf_outbox_def sorted_wrt_map sorted_wrt_filter)
  have "dl_endpoint_id r \<in> en_id ` set (notification_endpoints d)" if "r \<in> set (notification_deliveries d)" for r
    using assms that by (auto simp: wf_db_def wf_outbox_def)
  then have "dl_endpoint_id r \<in> en_id ` {x \<in> set (notification_endpoints d). en_id x \<noteq> i}"
    if "r \<in> set (notification_deliveries d)" "dl_endpoint_id r \<noteq> i" for r
    using that by fastforce
  with assms s show "wf_outbox (d\<lparr>notification_endpoints := filter (\<lambda>r. en_id r \<noteq> i) (notification_endpoints d),
    notification_deliveries := filter (\<lambda>r. dl_endpoint_id r \<noteq> i) (notification_deliveries d)\<rparr>)"
    by (auto simp: wf_db_def wf_outbox_def)
qed

lemma insert_endpoint_wf: "wf_db d \<Longrightarrow> wf_db (snd (insert_endpoint e d))"
  by (auto simp: insert_endpoint_def wf_db_def wf_table_defs)

lemma preserves_endpoint_reads [preserves_intros]:
  "preserves (on_db I) (EndpointRepo_Get i)" "preserves (on_db I) EndpointRepo_List"
  "preserves (on_db I) EndpointRepo_ListEnabled" "preserves (on_db I) (DueForAttempt b l)"
  "preserves (on_db I) (ListByEndpoint i l)" "preserves (on_db I) FeedState_Get"
  unfolding EndpointRepo_Get_def EndpointRepo_List_def EndpointRepo_ListEnabled_def DueForAttempt_def
    ListByEndpoint_def FeedState_Get_def
  by (rule preserves_query preserves_queryRow)+

lemma preserves_outbox_writes [preserves_intros]:
  "preserves (on_db wf_db) (EndpointRepo_Create e)"
  "preserves (on_db wf_db) (DeliveryRepo_Enqueue now nd)"
  "preserves (on_db wf_db) (FeedState_Bump now)"
  unfolding EndpointRepo_Create_def DeliveryRepo_Enqueue_def FeedState_Bump_def
  by (rule preserves_stmt; simp add: insert_endpoint_wf insert_delivery_wf;
      simp add: wf_db_def wf_table_defs)+

lemma preserves_outbox_updates [preserves_intros]:
  "preserves (on_db wf_db) (EndpointRepo_SetEnabled now i x)"
  "preserves (on_db wf_db) (EndpointRepo_Delete i)"
  "preserves (on_db wf_db) (UpdateAfterAttempt now j a s n f)"
  "preserves (on_db wf_db) (InsertUserTest i p now)"
  "preserves (on_db wf_db) (InsertRedelivery j now)"
  "preserves (on_db wf_db) (DeliveryRepo_Prune pick t b)"
  unfolding EndpointRepo_SetEnabled_def EndpointRepo_Delete_def UpdateAfterAttempt_def InsertUserTest_def
    InsertRedelivery_def DeliveryRepo_Prune_def
  by (intro preserves_intros preserves_exec;
      auto simp: Let_def intro: upd_endpoints_wf delete_endpoint_wf upd_deliveries_wf insert_delivery_wf
        filter_deliveries_wf split: option.splits)+

end
