(* ===== verification/Notify_Payload.thy ===== *)
theory Notify_Payload
  imports Store_Devices
begin

text \<open>
  \<open>internal/store/events.go\<close> and \<open>internal/server/notify/payload.go\<close>: the address-change event, and
  the document every webhook and stream consumer receives. The JSON encoder and the RFC 3339
  formatter of Go's library are the two fields of a \<open>codec\<close>; the renderers decide the document.
\<close>

record IPChangeEvent =
  e_EventID :: int
  e_OccurredAt :: int
  e_Device :: Device
  e_PrevIPv4 :: string
  e_PrevIPv6 :: string
  e_CurrIPv4 :: string
  e_CurrIPv6 :: string

definition Changed :: "IPChangeEvent \<Rightarrow> string list" where
  "Changed e =
     (if e_PrevIPv4 e \<noteq> e_CurrIPv4 e then [''ipv4''] else []) @
     (if e_PrevIPv6 e \<noteq> e_CurrIPv6 e then [''ipv6''] else [])"

record addrs =
  a_IPv4 :: "string option"
  a_IPv6 :: "string option"

record devicePayload =
  p_ID :: string
  p_Label :: string

record event =
  ev_Version :: int
  ev_Type :: string
  ev_ID :: int
  ev_OccurredAt :: string
  ev_Device :: "devicePayload option"
  ev_Changed :: "string list"
  ev_Current :: addrs
  ev_Previous :: addrs

definition EventIPChanged :: string where "EventIPChanged = ''device.ip_changed''"
definition EventAdded :: string where "EventAdded = ''device.added''"
definition EventRemoved :: string where "EventRemoved = ''device.removed''"
definition EventTest :: string where "EventTest = ''endpoint.test''"

definition no_addrs :: addrs where
  "no_addrs = \<lparr> a_IPv4 = None, a_IPv6 = None \<rparr>"

definition nullable :: "string \<Rightarrow> string option" where
  "nullable s = (if s = '''' then None else Some s)"

definition familiesPresent :: "Device \<Rightarrow> string list" where
  "familiesPresent d =
     (if d_CurrentIPv4 d \<noteq> '''' then [''ipv4''] else []) @
     (if d_CurrentIPv6 d \<noteq> '''' then [''ipv6''] else [])"

record codec =
  json_marshal :: "event \<Rightarrow> string option"
  rfc3339 :: "int \<Rightarrow> string"

definition marshal :: "codec \<Rightarrow> event \<Rightarrow> err + string" where
  "marshal cd e = (case json_marshal cd e of None \<Rightarrow> Inl ErrDecode | Some b \<Rightarrow> Inr b)"

definition ip_changed_event :: "codec \<Rightarrow> IPChangeEvent \<Rightarrow> event" where
  "ip_changed_event cd ev =
     \<lparr> ev_Version = 1, ev_Type = EventIPChanged, ev_ID = e_EventID ev,
       ev_OccurredAt = rfc3339 cd (e_OccurredAt ev),
       ev_Device = Some \<lparr> p_ID = d_ID (e_Device ev), p_Label = d_Label (e_Device ev) \<rparr>,
       ev_Changed = Changed ev,
       ev_Current = \<lparr> a_IPv4 = nullable (e_CurrIPv4 ev), a_IPv6 = nullable (e_CurrIPv6 ev) \<rparr>,
       ev_Previous = \<lparr> a_IPv4 = nullable (e_PrevIPv4 ev), a_IPv6 = nullable (e_PrevIPv6 ev) \<rparr> \<rparr>"

definition RenderIPChanged :: "codec \<Rightarrow> IPChangeEvent \<Rightarrow> err + string" where
  "RenderIPChanged cd ev = marshal cd (ip_changed_event cd ev)"

definition added_event :: "codec \<Rightarrow> int \<Rightarrow> int \<Rightarrow> Device \<Rightarrow> event" where
  "added_event cd seq now d =
     \<lparr> ev_Version = 1, ev_Type = EventAdded, ev_ID = seq, ev_OccurredAt = rfc3339 cd now,
       ev_Device = Some \<lparr> p_ID = d_ID d, p_Label = d_Label d \<rparr>,
       ev_Changed = familiesPresent d,
       ev_Current = \<lparr> a_IPv4 = nullable (d_CurrentIPv4 d), a_IPv6 = nullable (d_CurrentIPv6 d) \<rparr>,
       ev_Previous = no_addrs \<rparr>"

definition RenderAdded :: "codec \<Rightarrow> int \<Rightarrow> int \<Rightarrow> Device \<Rightarrow> err + string" where
  "RenderAdded cd seq now d = marshal cd (added_event cd seq now d)"

definition removed_event :: "codec \<Rightarrow> int \<Rightarrow> int \<Rightarrow> Device \<Rightarrow> event" where
  "removed_event cd seq now d =
     \<lparr> ev_Version = 1, ev_Type = EventRemoved, ev_ID = seq, ev_OccurredAt = rfc3339 cd now,
       ev_Device = Some \<lparr> p_ID = d_ID d, p_Label = d_Label d \<rparr>,
       ev_Changed = familiesPresent d,
       ev_Current = no_addrs,
       ev_Previous = \<lparr> a_IPv4 = nullable (d_CurrentIPv4 d), a_IPv6 = nullable (d_CurrentIPv6 d) \<rparr> \<rparr>"

definition RenderRemoved :: "codec \<Rightarrow> int \<Rightarrow> int \<Rightarrow> Device \<Rightarrow> err + string" where
  "RenderRemoved cd seq now d = marshal cd (removed_event cd seq now d)"

definition RenderTest :: "codec \<Rightarrow> int \<Rightarrow> err + string" where
  "RenderTest cd now =
     marshal cd \<lparr> ev_Version = 1, ev_Type = EventTest, ev_ID = 0, ev_OccurredAt = rfc3339 cd now,
       ev_Device = None, ev_Changed = [], ev_Current = no_addrs, ev_Previous = no_addrs \<rparr>"

section \<open>What a consumer does with an event\<close>

text \<open>
  The consumer's rule stated in payload.go: the device's allowed set is now \<open>current\<close>, and an
  all-null \<open>current\<close> means delete. A consumer's table maps device ids to address sets.
\<close>

definition addr_set :: "addrs \<Rightarrow> string set" where
  "addr_set a = set_option (a_IPv4 a) \<union> set_option (a_IPv6 a)"

definition consume :: "(string \<Rightarrow> string set) \<Rightarrow> event \<Rightarrow> (string \<Rightarrow> string set)" where
  "consume t e = (case ev_Device e of None \<Rightarrow> t | Some p \<Rightarrow> t(p_ID p := addr_set (ev_Current e)))"

definition device_addrs :: "Device \<Rightarrow> string set" where
  "device_addrs d = {a. a \<noteq> '''' \<and> (a = d_CurrentIPv4 d \<or> a = d_CurrentIPv6 d)}"

lemma addr_set_simps [simp]:
  "addr_set no_addrs = {}"
  "addr_set \<lparr> a_IPv4 = nullable x, a_IPv6 = nullable y \<rparr> = {a. a \<noteq> '''' \<and> (a = x \<or> a = y)}"
  by (auto simp: addr_set_def no_addrs_def nullable_def)

lemma consume_added [simp]: "consume t (added_event cd seq now d) = t(d_ID d := device_addrs d)"
  by (simp add: consume_def added_event_def device_addrs_def)

lemma consume_removed [simp]: "consume t (removed_event cd seq now d) = t(d_ID d := {})"
  by (simp add: consume_def removed_event_def)

lemma consume_ip_changed [simp]:
  "consume t (ip_changed_event cd ev) =
     t(d_ID (e_Device ev) := {a. a \<noteq> '''' \<and> (a = e_CurrIPv4 ev \<or> a = e_CurrIPv6 ev)})"
  by (simp add: consume_def ip_changed_event_def)

lemma Changed_empty_iff:
  "Changed e = [] \<longleftrightarrow> e_PrevIPv4 e = e_CurrIPv4 e \<and> e_PrevIPv6 e = e_CurrIPv6 e"
  by (simp add: Changed_def)

end
