(* ===== verification/Feed_Hub.thy ===== *)
theory Feed_Hub
  imports Prelude
begin

text \<open>
  \<open>internal/server/feed/hub.go\<close>: the hub that fans a payload out to the live stream subscribers.
  Subscriber objects are numbered by creation; the hub's map is the list of the numbers in it.
  Every operation runs under the hub's mutex, or (the overflow cancellations after Broadcast
  released it) touches only subscribers it collected there.
\<close>

section \<open>State\<close>

datatype closeCause =
    causeShutdown
  | causePingFailed
  | causeInternal
  | causeSlowConsumer
  | causeRevoked
  | causePeerGone

text \<open>The close code a cause puts on the wire; 0 means no frame is sent.\<close>

fun cause_Code :: "closeCause \<Rightarrow> int" where
  "cause_Code causeShutdown = 1001"
| "cause_Code causePingFailed = 1001"
| "cause_Code causeInternal = 1011"
| "cause_Code causeSlowConsumer = 1013"
| "cause_Code causeRevoked = 4001"
| "cause_Code causePeerGone = 0"

definition maxStreamConns :: nat where "maxStreamConns = 32"
definition streamBuffer :: nat where "streamBuffer = 64"

text \<open>\<open>s_cause\<close> is the cause the context was cancelled with; \<open>s_once\<close> that the once has run.\<close>

record subscriber =
  s_tokenID :: string
  s_ch :: "string list"
  s_cause :: "closeCause option"
  s_once :: bool

record hub =
  hb_objs :: "subscriber list"
  hb_subs :: "nat list"
  hb_cause :: "closeCause option"
  hb_wg :: int

definition Hub_New :: hub where
  "Hub_New = \<lparr> hb_objs = [], hb_subs = [], hb_cause = None, hb_wg = 0 \<rparr>"

text \<open>A context keeps the first cause it is cancelled with.\<close>

definition cancel_sub :: "closeCause \<Rightarrow> subscriber \<Rightarrow> subscriber" where
  "cancel_sub c s = (case s_cause s of None \<Rightarrow> s\<lparr>s_cause := Some c\<rparr> | Some _ \<Rightarrow> s)"

definition upd_sub :: "nat \<Rightarrow> (subscriber \<Rightarrow> subscriber) \<Rightarrow> hub \<Rightarrow> hub" where
  "upd_sub i f h = (if i < length (hb_objs h) then h\<lparr>hb_objs := (hb_objs h)[i := f (hb_objs h ! i)]\<rparr> else h)"

text \<open>\<open>causeOf\<close>: the cause of a cancelled subscriber context; anything else degrades to shutdown.\<close>

definition causeOf :: "subscriber \<Rightarrow> closeCause" where
  "causeOf s = (case s_cause s of Some c \<Rightarrow> c | None \<Rightarrow> causeShutdown)"

section \<open>Operations\<close>

definition subscribe :: "string \<Rightarrow> hub \<Rightarrow> (err + nat) \<times> hub" where
  "subscribe tokenID h =
     (if hb_cause h \<noteq> None then (Inl ErrShuttingDown, h)
      else if length (hb_subs h) \<ge> maxStreamConns then (Inl ErrTooManyConnections, h)
      else (let i = length (hb_objs h);
                s = \<lparr> s_tokenID = tokenID, s_ch = [], s_cause = None, s_once = False \<rparr>
            in (Inr i, h\<lparr>hb_objs := hb_objs h @ [s], hb_subs := hb_subs h @ [i], hb_wg := hb_wg h + 1\<rparr>)))"

definition unsubscribe :: "nat \<Rightarrow> hub \<Rightarrow> hub" where
  "unsubscribe i h =
     (if i < length (hb_objs h) \<and> \<not> s_once (hb_objs h ! i)
      then (upd_sub i (\<lambda>s. s\<lparr>s_once := True\<rparr>) h)\<lparr>hb_subs := removeAll i (hb_subs h), hb_wg := hb_wg h - 1\<rparr>
      else h)"

definition sub_full :: "hub \<Rightarrow> nat \<Rightarrow> bool" where
  "sub_full h i \<longleftrightarrow> length (s_ch (hb_objs h ! i)) \<ge> streamBuffer"

text \<open>The non-blocking send of the loop's select: append, or the buffer is full.\<close>

definition offer :: "string \<Rightarrow> nat \<Rightarrow> hub \<Rightarrow> hub" where
  "offer payload i h = (if sub_full h i then h else upd_sub i (\<lambda>s. s\<lparr>s_ch := s_ch s @ [payload]\<rparr>) h)"

definition drop_slow :: "nat \<Rightarrow> hub \<Rightarrow> hub" where
  "drop_slow i h = unsubscribe i (upd_sub i (cancel_sub causeSlowConsumer) h)"

definition Broadcast :: "string \<Rightarrow> hub \<Rightarrow> hub" where
  "Broadcast payload h =
     (let overflowed = filter (sub_full h) (hb_subs h);
          h1 = fold (offer payload) (hb_subs h) h
      in fold drop_slow overflowed h1)"

definition CloseToken :: "string \<Rightarrow> hub \<Rightarrow> hub" where
  "CloseToken tokenID h =
     fold (\<lambda>i. upd_sub i (cancel_sub causeRevoked))
          (filter (\<lambda>i. s_tokenID (hb_objs h ! i) = tokenID) (hb_subs h)) h"

text \<open>
  The state change of Shutdown: the hub context and, through it, every subscriber context that is
  not cancelled yet. Waiting for the pumps is not a state change; it ends when \<open>hb_wg\<close> is 0.
\<close>

definition Hub_Shutdown :: "hub \<Rightarrow> hub" where
  "Hub_Shutdown h =
     h\<lparr>hb_cause := (case hb_cause h of None \<Rightarrow> Some causeShutdown | Some c \<Rightarrow> Some c),
       hb_objs := map (cancel_sub causeShutdown) (hb_objs h)\<rparr>"

definition live :: "hub \<Rightarrow> nat" where
  "live h = length (hb_subs h)"

text \<open>The pump's side: it takes the oldest payload, and cancels when its peer fails.\<close>

definition pump_take :: "nat \<Rightarrow> hub \<Rightarrow> hub" where
  "pump_take i = upd_sub i (\<lambda>s. s\<lparr>s_ch := tl (s_ch s)\<rparr>)"

section \<open>Invariant\<close>

text \<open>
  The map holds existing subscribers that have not been unsubscribed, each once, at most
  \<open>maxStreamConns\<close>; the wait group counts them; no buffer exceeds its capacity.
\<close>

definition hub_inv :: "hub \<Rightarrow> bool" where
  "hub_inv h \<longleftrightarrow>
     distinct (hb_subs h) \<and>
     (\<forall>i < length (hb_objs h). i \<in> set (hb_subs h) \<longleftrightarrow> \<not> s_once (hb_objs h ! i)) \<and>
     (\<forall>i \<in> set (hb_subs h). i < length (hb_objs h)) \<and>
     length (hb_subs h) \<le> maxStreamConns \<and>
     hb_wg h = int (length (hb_subs h)) \<and>
     (\<forall>i < length (hb_objs h). length (s_ch (hb_objs h ! i)) \<le> streamBuffer)"

lemma upd_sub_simps [simp]:
  "hb_subs (upd_sub i f h) = hb_subs h" "hb_cause (upd_sub i f h) = hb_cause h"
  "hb_wg (upd_sub i f h) = hb_wg h" "length (hb_objs (upd_sub i f h)) = length (hb_objs h)"
  by (simp_all add: upd_sub_def)

lemma nth_upd_sub:
  "j < length (hb_objs h) \<Longrightarrow> hb_objs (upd_sub i f h) ! j = (if i = j then f (hb_objs h ! j) else hb_objs h ! j)"
  by (auto simp: upd_sub_def)

lemma cancel_sub_simps [simp]:
  "s_once (cancel_sub c s) = s_once s" "s_ch (cancel_sub c s) = s_ch s"
  "s_tokenID (cancel_sub c s) = s_tokenID s" "\<exists>y. s_cause (cancel_sub c s) = Some y"
  by (auto simp: cancel_sub_def split: option.splits)

lemma hub_inv_New: "hub_inv Hub_New"
  by (simp add: hub_inv_def Hub_New_def)

lemma hub_inv_subscribe:
  assumes "hub_inv h"
  shows "hub_inv (snd (subscribe t h))"
proof (cases "hb_cause h = None \<and> length (hb_subs h) < maxStreamConns")
  case True
  have "length (hb_objs h) \<notin> set (hb_subs h)" using assms by (auto simp: hub_inv_def)
  with True assms show ?thesis
    by (auto simp: hub_inv_def subscribe_def Let_def nth_append less_Suc_eq)
qed (use assms in \<open>auto simp: subscribe_def\<close>)

text \<open>An update of one subscriber that keeps its once flag and buffer bound keeps the invariant.\<close>

lemma hub_inv_upd_sub:
  assumes "hub_inv h" and "\<And>s. s_once (f s) = s_once s"
    and "\<And>s. length (s_ch s) \<le> streamBuffer \<Longrightarrow> i < length (hb_objs h) \<Longrightarrow> s = hb_objs h ! i \<Longrightarrow>
          length (s_ch (f s)) \<le> streamBuffer"
  shows "hub_inv (upd_sub i f h)"
  using assms by (auto simp: hub_inv_def nth_upd_sub)

lemma hub_inv_unsubscribe:
  assumes "hub_inv h"
  shows "hub_inv (unsubscribe i h)"
proof (cases "i < length (hb_objs h) \<and> \<not> s_once (hb_objs h ! i)")
  case True
  then have i: "i \<in> set (hb_subs h)" "distinct (hb_subs h)" using assms by (auto simp: hub_inv_def)
  then have len: "length (removeAll i (hb_subs h)) = length (hb_subs h) - 1" "0 < length (hb_subs h)"
    by (auto simp: distinct_remove1_removeAll [symmetric] length_remove1)
  then have wg: "int (length (removeAll i (hb_subs h))) = int (length (hb_subs h)) - 1" by linarith
  show ?thesis
    using assms True i len(1) wg
    by (auto simp: hub_inv_def unsubscribe_def upd_sub_def nth_list_update distinct_removeAll)
next
  case False
  then have "unsubscribe i h = h" by (auto simp: unsubscribe_def)
  with assms show ?thesis by simp
qed

lemma hub_inv_offer: "hub_inv h \<Longrightarrow> hub_inv (offer p i h)"
  by (auto simp: offer_def sub_full_def intro!: hub_inv_upd_sub)

lemma hub_inv_drop_slow: "hub_inv h \<Longrightarrow> hub_inv (drop_slow i h)"
  by (auto simp: drop_slow_def intro!: hub_inv_unsubscribe hub_inv_upd_sub)

lemma hub_inv_fold: "(\<And>x h. hub_inv h \<Longrightarrow> hub_inv (f x h)) \<Longrightarrow> hub_inv h \<Longrightarrow> hub_inv (fold f xs h)"
  by (induction xs arbitrary: h) auto

lemma hub_inv_Broadcast: "hub_inv h \<Longrightarrow> hub_inv (Broadcast p h)"
  by (simp add: Broadcast_def Let_def hub_inv_fold hub_inv_offer hub_inv_drop_slow)

lemma hub_inv_CloseToken: "hub_inv h \<Longrightarrow> hub_inv (CloseToken t h)"
  unfolding CloseToken_def by (rule hub_inv_fold) (auto intro!: hub_inv_upd_sub)

lemma hub_inv_Shutdown: "hub_inv h \<Longrightarrow> hub_inv (Hub_Shutdown h)"
  by (auto simp: hub_inv_def Hub_Shutdown_def)

lemma hub_inv_pump_take: "hub_inv h \<Longrightarrow> hub_inv (pump_take i h)"
  unfolding pump_take_def by (rule hub_inv_upd_sub) auto

section \<open>What Broadcast does to each subscriber\<close>

lemma fold_offer_nth:
  assumes "distinct ks" and "j < length (hb_objs h)"
  shows "hb_objs (fold (offer p) ks h) ! j =
         (if j \<in> set ks \<and> \<not> sub_full h j then (hb_objs h ! j)\<lparr>s_ch := s_ch (hb_objs h ! j) @ [p]\<rparr>
          else hb_objs h ! j)"
  using assms
proof (induction ks arbitrary: h)
  case (Cons i ks)
  have j: "j < length (hb_objs (offer p i h))" using Cons.prems(2) by (simp add: offer_def)
  have "hb_objs (offer p i h) ! j =
     (if i = j \<and> \<not> sub_full h j then (hb_objs h ! j)\<lparr>s_ch := s_ch (hb_objs h ! j) @ [p]\<rparr> else hb_objs h ! j)"
    using Cons.prems(2) by (auto simp: offer_def nth_upd_sub)
  moreover have "i \<noteq> j \<Longrightarrow> sub_full (offer p i h) j = sub_full h j"
    using Cons.prems(2) by (simp add: sub_full_def offer_def nth_upd_sub)
  ultimately show ?case
    using Cons.IH [OF _ j] Cons.prems(1) by auto
qed simp

lemma fold_offer_simps [simp]:
  "hb_subs (fold (offer p) ks h) = hb_subs h" "length (hb_objs (fold (offer p) ks h)) = length (hb_objs h)"
  "hb_cause (fold (offer p) ks h) = hb_cause h"
  by (induction ks arbitrary: h) (simp_all add: offer_def)

lemma unsubscribe_simps [simp]:
  "length (hb_objs (unsubscribe i h)) = length (hb_objs h)" "hb_cause (unsubscribe i h) = hb_cause h"
  by (simp_all add: unsubscribe_def)

lemma drop_slow_nth:
  assumes "j < length (hb_objs h)"
  shows "hb_objs (drop_slow i h) ! j =
         (if i = j then (cancel_sub causeSlowConsumer (hb_objs h ! j))\<lparr>s_once := True\<rparr> else hb_objs h ! j)"
  using assms by (auto simp: drop_slow_def unsubscribe_def nth_upd_sub)

lemma drop_slow_simps [simp]: "length (hb_objs (drop_slow i h)) = length (hb_objs h)"
  by (simp add: drop_slow_def)

lemma fold_drop_slow_nth:
  "j < length (hb_objs h) \<Longrightarrow>
   (j \<notin> set ks \<longrightarrow> hb_objs (fold drop_slow ks h) ! j = hb_objs h ! j) \<and>
   (j \<in> set ks \<longrightarrow> s_once (hb_objs (fold drop_slow ks h) ! j) \<and>
       s_ch (hb_objs (fold drop_slow ks h) ! j) = s_ch (hb_objs h ! j) \<and>
       s_cause (hb_objs (fold drop_slow ks h) ! j) =
         (case s_cause (hb_objs h ! j) of None \<Rightarrow> Some causeSlowConsumer | Some c \<Rightarrow> Some c))"
proof (induction ks arbitrary: h)
  case (Cons i ks)
  then have IH: "(j \<notin> set ks \<longrightarrow> hb_objs (fold drop_slow ks (drop_slow i h)) ! j = hb_objs (drop_slow i h) ! j) \<and>
   (j \<in> set ks \<longrightarrow> s_once (hb_objs (fold drop_slow ks (drop_slow i h)) ! j) \<and>
       s_ch (hb_objs (fold drop_slow ks (drop_slow i h)) ! j) = s_ch (hb_objs (drop_slow i h) ! j) \<and>
       s_cause (hb_objs (fold drop_slow ks (drop_slow i h)) ! j) =
         (case s_cause (hb_objs (drop_slow i h) ! j) of None \<Rightarrow> Some causeSlowConsumer | Some c \<Rightarrow> Some c))"
    by simp
  then show ?case
    using Cons.prems by (auto simp: drop_slow_nth cancel_sub_def split: option.splits)
qed simp

lemma drop_slow_subs:
  assumes "hub_inv h"
  shows "hb_subs (drop_slow i h) = filter (\<lambda>k. k \<noteq> i) (hb_subs h)"
proof -
  have eq: "removeAll i (hb_subs h) = filter (\<lambda>k. k \<noteq> i) (hb_subs h)"
    by (simp add: removeAll_filter_not_eq) metis
  show ?thesis
  proof (cases "i < length (hb_objs h) \<and> \<not> s_once (hb_objs h ! i)")
    case True
    with eq show ?thesis by (simp add: drop_slow_def unsubscribe_def nth_upd_sub)
  next
    case False
    then have "i \<notin> set (hb_subs h)" using assms by (auto simp: hub_inv_def)
    then have "removeAll i (hb_subs h) = hb_subs h" by simp
    moreover have "hb_subs (drop_slow i h) = hb_subs h"
      using False by (auto simp: drop_slow_def unsubscribe_def nth_upd_sub)
    ultimately show ?thesis using eq by simp
  qed
qed

lemma fold_drop_slow_subs:
  "hub_inv h \<Longrightarrow> hb_subs (fold drop_slow ks h) = filter (\<lambda>k. k \<notin> set ks) (hb_subs h)"
proof (induction ks arbitrary: h)
  case (Cons i ks)
  then have "hb_subs (fold drop_slow ks (drop_slow i h)) = filter (\<lambda>k. k \<notin> set ks) (hb_subs (drop_slow i h))"
    by (simp add: hub_inv_drop_slow)
  with Cons.prems show ?case by (simp add: drop_slow_subs)
qed simp

lemma Broadcast_subs:
  assumes "hub_inv h"
  shows "hb_subs (Broadcast p h) = filter (\<lambda>i. \<not> sub_full h i) (hb_subs h)"
proof -
  have "hub_inv (fold (offer p) (hb_subs h) h)"
    by (rule hub_inv_fold) (auto intro: hub_inv_offer assms)
  then show ?thesis
    by (simp add: Broadcast_def Let_def fold_drop_slow_subs cong: filter_cong)
qed

section \<open>Runs of the hub\<close>

text \<open>
  Everything that happens to a hub: the calls above from any number of handlers, the fan-out and the
  revoke path in any order, and each connection's pump taking a payload or cancelling with its
  own cause.
\<close>

inductive hub_step :: "hub \<Rightarrow> hub \<Rightarrow> bool" where
  step_subscribe: "hub_step h (snd (subscribe t h))"
| step_unsubscribe: "hub_step h (unsubscribe i h)"
| step_broadcast: "hub_step h (Broadcast p h)"
| step_close: "hub_step h (CloseToken t h)"
| step_shutdown: "hub_step h (Hub_Shutdown h)"
| step_take: "hub_step h (pump_take i h)"
| step_cancel: "hub_step h (upd_sub i (cancel_sub c) h)"

inductive hub_reachable :: "hub \<Rightarrow> bool" where
  hub_start: "hub_reachable Hub_New"
| hub_next: "hub_reachable h \<Longrightarrow> hub_step h h' \<Longrightarrow> hub_reachable h'"

inductive_cases hub_stepE: "hub_step h h'"

lemma hub_step_inv: "hub_step h h' \<Longrightarrow> hub_inv h \<Longrightarrow> hub_inv h'"
  by (erule hub_stepE)
     (auto intro: hub_inv_subscribe hub_inv_unsubscribe hub_inv_Broadcast hub_inv_CloseToken
        hub_inv_Shutdown hub_inv_pump_take intro!: hub_inv_upd_sub)

lemma hub_reachable_hub_inv: "hub_reachable h \<Longrightarrow> hub_inv h"
  by (induction rule: hub_reachable.induct) (auto intro: hub_inv_New hub_step_inv)

text \<open>
  Once the hub is cancelled it stays cancelled, and so does every subscriber in it: after
  Shutdown no step creates a live stream again.
\<close>

definition hub_down :: "hub \<Rightarrow> bool" where
  "hub_down h \<longleftrightarrow> hb_cause h \<noteq> None \<and> (\<forall>i < length (hb_objs h). s_cause (hb_objs h ! i) \<noteq> None)"

lemma cancel_sub_Some: "s_cause s = Some c \<Longrightarrow> cancel_sub c' s = s"
  by (simp add: cancel_sub_def)

lemma hub_down_upd_sub:
  "hub_down h \<Longrightarrow> (\<And>s. s_cause s \<noteq> None \<Longrightarrow> s_cause (f s) \<noteq> None) \<Longrightarrow> hub_down (upd_sub i f h)"
  by (auto simp: hub_down_def nth_upd_sub)

lemma hub_down_fold: "(\<And>x h. hub_down h \<Longrightarrow> hub_down (f x h)) \<Longrightarrow> hub_down h \<Longrightarrow> hub_down (fold f xs h)"
  by (induction xs arbitrary: h) auto

lemma hub_down_unsubscribe: "hub_down h \<Longrightarrow> hub_down (unsubscribe i h)"
proof (cases "i < length (hb_objs h) \<and> \<not> s_once (hb_objs h ! i)")
  case True
  assume "hub_down h"
  with True show ?thesis by (auto simp: unsubscribe_def hub_down_def nth_upd_sub)
next
  case False
  assume "hub_down h"
  moreover have "unsubscribe i h = h" using False by (auto simp: unsubscribe_def)
  ultimately show ?thesis by simp
qed

lemma hub_step_down:
  assumes "hub_step h h'" and "hub_down h"
  shows "hub_down h'"
  using assms(1)
proof (cases rule: hub_step.cases)
  case (step_subscribe t)
  with assms(2) show ?thesis by (simp add: subscribe_def hub_down_def)
next
  case (step_broadcast p)
  have "hub_down (offer p i h)" if "hub_down h" for i h
    using that by (auto simp: offer_def intro: hub_down_upd_sub)
  moreover have "hub_down (drop_slow i h)" if "hub_down h" for i h
    using that by (auto simp: drop_slow_def intro!: hub_down_unsubscribe hub_down_upd_sub)
  ultimately show ?thesis
    using assms(2) step_broadcast by (auto simp: Broadcast_def Let_def intro!: hub_down_fold)
next
  case (step_close t)
  then show ?thesis
    using assms(2) by (auto simp: CloseToken_def intro!: hub_down_fold hub_down_upd_sub)
next
  case step_shutdown
  with assms(2) show ?thesis by (auto simp: hub_down_def Hub_Shutdown_def)
next
  case (step_take i)
  with assms(2) show ?thesis unfolding pump_take_def by (simp add: hub_down_upd_sub)
qed (use assms(2) in \<open>auto intro: hub_down_unsubscribe hub_down_upd_sub\<close>)

section \<open>Properties of the hub\<close>



text \<open>
  Broadcast never blocks and treats each registered stream on its own: one with room gets the
  payload at the end of its buffer and stays registered with its context untouched; one whose
  buffer is full is unregistered, its buffer is left as it was, and its context is cancelled as a
  slow consumer (close code 1013) unless it already had a cause. Nobody else changes.
\<close>

theorem Broadcast_effect:
  assumes "hub_inv h" and "i < length (hb_objs h)"
  shows "(if i \<notin> set (hb_subs h) then hb_objs (Broadcast p h) ! i = hb_objs h ! i
          else if length (s_ch (hb_objs h ! i)) < 64
          then i \<in> set (hb_subs (Broadcast p h)) \<and>
               hb_objs (Broadcast p h) ! i = (hb_objs h ! i)\<lparr>s_ch := s_ch (hb_objs h ! i) @ [p]\<rparr>
          else i \<notin> set (hb_subs (Broadcast p h)) \<and> s_once (hb_objs (Broadcast p h) ! i) \<and>
               s_ch (hb_objs (Broadcast p h) ! i) = s_ch (hb_objs h ! i) \<and>
               causeOf (hb_objs (Broadcast p h) ! i) =
                 (case s_cause (hb_objs h ! i) of None \<Rightarrow> causeSlowConsumer | Some c \<Rightarrow> c))"
proof -
  let ?h1 = "fold (offer p) (hb_subs h) h" and ?full = "filter (sub_full h) (hb_subs h)"
  have B: "Broadcast p h = fold drop_slow ?full ?h1" by (simp add: Broadcast_def Let_def)
  have dist: "distinct (hb_subs h)" using assms(1) by (simp add: hub_inv_def)
  note o = fold_offer_nth [OF dist assms(2), of p]
  have i1: "i < length (hb_objs ?h1)" using assms(2) by simp
  note d = fold_drop_slow_nth [OF i1, of ?full]
  have full: "sub_full h i \<longleftrightarrow> \<not> length (s_ch (hb_objs h ! i)) < 64"
    by (auto simp: sub_full_def streamBuffer_def)
  show ?thesis
    unfolding Broadcast_subs [OF assms(1)] using o d full
    by (auto simp: B causeOf_def split: option.splits)
qed

lemma Broadcast_effect_witness:
  "hb_objs (Broadcast ''p'' (snd (subscribe ''tok'' Hub_New))) ! 0 =
     \<lparr> s_tokenID = ''tok'', s_ch = [''p''], s_cause = None, s_once = False \<rparr>"
proof -
  have "hub_inv (snd (subscribe ''tok'' Hub_New))" by (rule hub_inv_subscribe [OF hub_inv_New])
  from Broadcast_effect [OF this, of 0 "''p''"] show ?thesis
    by (simp add: subscribe_def Hub_New_def maxStreamConns_def Let_def)
qed

text \<open>
  Shutdown is final: every stream's context is cancelled, and in every state reachable from
  there a subscribe is refused with ErrShuttingDown and leaves the hub as it is.
\<close>

theorem Hub_Shutdown_final:
  assumes "hub_step\<^sup>*\<^sup>* (Hub_Shutdown h) h'"
  shows "subscribe t h' = (Inl ErrShuttingDown, h') \<and>
         (\<forall>i < length (hb_objs h'). s_cause (hb_objs h' ! i) \<noteq> None)"
proof -
  have "hub_down (Hub_Shutdown h)" by (auto simp: hub_down_def Hub_Shutdown_def split: option.splits)
  with assms have "hub_down h'" by (induction rule: rtranclp_induct) (auto intro: hub_step_down)
  then show ?thesis by (simp add: hub_down_def subscribe_def)
qed

lemma Hub_Shutdown_final_witness:
  "subscribe ''tok'' (Broadcast ''p'' (Hub_Shutdown Hub_New)) =
     (Inl ErrShuttingDown, Broadcast ''p'' (Hub_Shutdown Hub_New))"
  using Hub_Shutdown_final [OF r_into_rtranclp [where r = hub_step, OF step_broadcast]] by blast

end
