(* ===== verification/Fanout.thy ===== *)
theory Fanout
  imports Store_Notifications Notify_Payload Feed_Hub
begin

text \<open>
  \<open>internal/server/notify/enqueue.go\<close> and \<open>internal/server/fanout.go\<close>: from a device event to the
  webhook outbox and the stream hub. The fan-out's mutex makes each method one step.

  The interface the services see (\<open>Notifier\<close> and \<open>DeviceNotifier\<close> in internal/server/service) is the
  locale \<open>notifier\<close>: an implementation must leave the records of users, devices, history and
  nonces alone. It is interpreted for the fan-out and for the two no-op notifiers.
\<close>

record hubworld = world +
  w_hub :: hub

section \<open>The records a notifier must not touch\<close>

definition core :: "database \<Rightarrow> database" where
  "core d = d\<lparr>notification_deliveries := [], notification_deliveries_seq := 0, feed_seq := 0, feed_changed_at := 0\<rparr>"

definition keeps_core :: "('z world_scheme, 'a) action \<Rightarrow> bool" where
  "keeps_core m \<longleftrightarrow> (\<forall>w. core (db (snd (m w))) = core (db w)) \<and> preserves (on_db wf_db) m"

lemma keeps_coreD:
  assumes "keeps_core m" and "m w = (r, w')"
  shows "core (db w') = core (db w)"
  using assms by (metis keeps_core_def snd_conv)

lemma core_eqD:
  assumes "core d' = core d"
  shows "users d' = users d" "devices d' = devices d" "ip_history d' = ip_history d"
    "ip_history_seq d' = ip_history_seq d" "enrollment_codes d' = enrollment_codes d"
    "replay_nonces d' = replay_nonces d" "audit_log d' = audit_log d"
    "notification_endpoints d' = notification_endpoints d"
  using assms by (cases d; cases d'; simp add: core_def)+

lemma keeps_core_devices:
  assumes "keeps_core m"
  shows "devices (db (snd (m w))) = devices (db w)"
proof (rule core_eqD(2))
  show "core (db (snd (m w))) = core (db w)" using assms by (simp add: keeps_core_def)
qed

lemma keeps_core_users:
  assumes "keeps_core m"
  shows "users (db (snd (m w))) = users (db w)"
proof (rule core_eqD(1))
  show "core (db (snd (m w))) = core (db w)" using assms by (simp add: keeps_core_def)
qed

lemma keeps_core_ret [simp]: "keeps_core (ret a)"
  by (simp add: keeps_core_def preserves_ret)

lemma keeps_core_lift_res [simp]: "keeps_core (lift_res a)"
  by (simp add: keeps_core_def preserves_lift_res)

lemma keeps_core_tryE [simp]: "keeps_core m \<Longrightarrow> keeps_core (tryE m)"
  by (auto simp: keeps_core_def tryE_def preserves_tryE split: prod.splits) (metis snd_conv)

lemma keeps_core_bindE:
  fixes m :: "('z world_scheme, 'a) action"
  assumes "keeps_core m" and "\<And>a. keeps_core (f a)"
  shows "keeps_core (bindE m f)"
proof -
  have "core (db (snd (bindE m f w))) = core (db w)" for w
  proof (cases "m w")
    case (Pair r w1)
    then have w1: "core (db w1) = core (db w)" using assms(1) by (rule keeps_coreD [rotated])
    show ?thesis
      using assms(2) w1 by (cases r) (auto simp: bindE_def Pair keeps_core_def)
  qed
  with assms show ?thesis by (simp add: keeps_core_def preserves_bindE)
qed

lemma keeps_core_forE: "(\<And>x. keeps_core (f x)) \<Longrightarrow> keeps_core (forE xs f)"
  by (induction xs) (auto intro: keeps_core_bindE)

lemma keeps_core_query [simp]: "keeps_core (query f)"
  by (simp add: keeps_core_def preserves_query query_db)

lemma keeps_core_bump [simp]: "keeps_core (FeedState_Bump now :: ('z world_scheme, int) action)"
proof -
  have "core (db (snd (FeedState_Bump now w))) = core (db w)" for w :: "'z world_scheme"
    by (auto simp: FeedState_Bump_def stmt_def core_def split: fault.splits)
  then show ?thesis by (simp add: keeps_core_def preserves_intros)
qed

lemma keeps_core_enqueue [simp]: "keeps_core (DeliveryRepo_Enqueue now nd :: ('z world_scheme, unit) action)"
proof -
  have "core (db (snd (DeliveryRepo_Enqueue now nd w))) = core (db w)" for w :: "'z world_scheme"
    by (auto simp: DeliveryRepo_Enqueue_def stmt_def core_def insert_delivery_def Let_def split: fault.splits)
  then show ?thesis by (simp add: keeps_core_def preserves_intros)
qed

locale notifier =
  fixes IPChanged :: "int \<Rightarrow> IPChangeEvent \<Rightarrow> ('z world_scheme, unit) action"
    and DeviceAdded :: "int \<Rightarrow> Device \<Rightarrow> ('z world_scheme, unit) action"
    and DeviceRemoved :: "int \<Rightarrow> Device \<Rightarrow> ('z world_scheme, unit) action"
  assumes ip_changed_core: "keeps_core (IPChanged now ev)"
    and added_core: "keeps_core (DeviceAdded now d)"
    and removed_core: "keeps_core (DeviceRemoved now d)"

section \<open>No-op notifiers\<close>

definition Nop_IPChanged :: "int \<Rightarrow> IPChangeEvent \<Rightarrow> ('z world_scheme, unit) action" where
  "Nop_IPChanged now ev = ret ()"

definition Nop_DeviceAdded :: "int \<Rightarrow> Device \<Rightarrow> ('z world_scheme, unit) action" where
  "Nop_DeviceAdded now d = ret ()"

definition Nop_DeviceRemoved :: "int \<Rightarrow> Device \<Rightarrow> ('z world_scheme, unit) action" where
  "Nop_DeviceRemoved now d = ret ()"

interpretation nop: notifier Nop_IPChanged Nop_DeviceAdded Nop_DeviceRemoved
  by unfold_locales (simp_all add: Nop_IPChanged_def Nop_DeviceAdded_def Nop_DeviceRemoved_def)

section \<open>Enqueue\<close>

definition Enqueuer_Enqueue :: "int \<Rightarrow> string \<Rightarrow> int \<Rightarrow> string \<Rightarrow> ('z world_scheme, unit) action" where
  "Enqueuer_Enqueue now eventType eventID payload =
     bindE (tryE EndpointRepo_ListEnabled) (\<lambda>r.
       case r of
         Inl _ \<Rightarrow> ret ()
       | Inr eps \<Rightarrow>
           forE eps (\<lambda>ep.
             bindE (tryE (DeliveryRepo_Enqueue now
               \<lparr> nd_ID = 0, nd_EndpointID = ne_ID ep, nd_EventType = eventType, nd_EventID = eventID,
                 nd_Payload = payload, nd_Attempts = 0, nd_NextAttemptAt = now,
                 nd_Status = DeliveryPending, nd_LastFailure = '''', nd_CreatedAt = 0, nd_UpdatedAt = 0 \<rparr>))
               (\<lambda>_. ret ())))"

definition Enqueuer_IPChanged :: "codec \<Rightarrow> int \<Rightarrow> IPChangeEvent \<Rightarrow> ('z world_scheme, unit) action" where
  "Enqueuer_IPChanged cd now ev =
     (case RenderIPChanged cd ev of
        Inl _ \<Rightarrow> ret ()
      | Inr payload \<Rightarrow> Enqueuer_Enqueue now EventIPChanged (e_EventID ev) payload)"

section \<open>Fan-out\<close>

text \<open>\<open>fo_enqueue\<close> is whether the enqueuer is wired (notifications.enabled).\<close>

record fanout =
  fo_codec :: codec
  fo_enqueue :: bool

definition hub_op :: "(hub \<Rightarrow> hub) \<Rightarrow> ('z hubworld_scheme, unit) action" where
  "hub_op f w = (Inr (), w\<lparr>w_hub := f (w_hub w)\<rparr>)"

definition dispatch :: "fanout \<Rightarrow> int \<Rightarrow> string \<Rightarrow> int \<Rightarrow> string \<Rightarrow> ('z hubworld_scheme, unit) action" where
  "dispatch f now eventType eventID payload =
     bindE (if fo_enqueue f then Enqueuer_Enqueue now eventType eventID payload else ret ())
       (\<lambda>_. hub_op (Broadcast payload))"

definition fanout_IPChanged :: "fanout \<Rightarrow> int \<Rightarrow> IPChangeEvent \<Rightarrow> ('z hubworld_scheme, unit) action" where
  "fanout_IPChanged f now ev =
     bindE (tryE (FeedState_Bump now)) (\<lambda>_.
       case RenderIPChanged (fo_codec f) ev of
         Inl _ \<Rightarrow> ret ()
       | Inr payload \<Rightarrow> dispatch f now EventIPChanged (e_EventID ev) payload)"

definition membership ::
  "fanout \<Rightarrow> int \<Rightarrow> string \<Rightarrow> Device \<Rightarrow> (int \<Rightarrow> int \<Rightarrow> Device \<Rightarrow> err + string) \<Rightarrow> ('z hubworld_scheme, unit) action" where
  "membership f now eventType d render =
     bindE (tryE (FeedState_Bump now)) (\<lambda>r.
       case r of
         Inl _ \<Rightarrow> ret ()
       | Inr seq \<Rightarrow>
           (case render seq now d of
              Inl _ \<Rightarrow> ret ()
            | Inr payload \<Rightarrow> dispatch f now eventType seq payload))"

definition fanout_DeviceAdded :: "fanout \<Rightarrow> int \<Rightarrow> Device \<Rightarrow> ('z hubworld_scheme, unit) action" where
  "fanout_DeviceAdded f now d = membership f now EventAdded d (RenderAdded (fo_codec f))"

definition fanout_DeviceRemoved :: "fanout \<Rightarrow> int \<Rightarrow> Device \<Rightarrow> ('z hubworld_scheme, unit) action" where
  "fanout_DeviceRemoved f now d = membership f now EventRemoved d (RenderRemoved (fo_codec f))"

record Confirmed =
  cf_V4 :: int
  cf_V6 :: int

definition ExpireAddresses ::
  "fanout \<Rightarrow> int \<Rightarrow> Device \<Rightarrow> bool \<Rightarrow> bool \<Rightarrow> Confirmed \<Rightarrow> ('z hubworld_scheme, bool) action" where
  "ExpireAddresses f now d v4Due v6Due pin =
     bindE (ExpireFamilies (d_ID d) v4Due v6Due (cf_V4 pin) (cf_V6 pin) now) (\<lambda>(historyID, changed).
       if \<not> changed then ret False
       else
         (let after1 = (if v4Due then d\<lparr>d_CurrentIPv4 := ''''\<rparr> else d);
              after = (if v6Due then after1\<lparr>d_CurrentIPv6 := ''''\<rparr> else after1) in
          bindE (tryE (FeedState_Bump now)) (\<lambda>_.
            case RenderIPChanged (fo_codec f)
                   \<lparr> e_EventID = historyID, e_OccurredAt = now, e_Device = after,
                     e_PrevIPv4 = d_CurrentIPv4 d, e_PrevIPv6 = d_CurrentIPv6 d,
                     e_CurrIPv4 = d_CurrentIPv4 after, e_CurrIPv6 = d_CurrentIPv6 after \<rparr> of
              Inl _ \<Rightarrow> ret True
            | Inr payload \<Rightarrow>
                bindE (dispatch f now EventIPChanged historyID payload) (\<lambda>_. ret True))))"

section \<open>The fan-out is a notifier\<close>

lemma keeps_core_Enqueue [simp]: "keeps_core (Enqueuer_Enqueue now t i p)"
  unfolding Enqueuer_Enqueue_def EndpointRepo_ListEnabled_def
  by (auto intro!: keeps_core_bindE keeps_core_forE split: sum.splits)

lemma keeps_core_hub_op [simp]: "keeps_core (hub_op f)"
  by (simp add: keeps_core_def preserves_def hub_op_def on_db_def)

lemma keeps_core_dispatch [simp]: "keeps_core (dispatch f now t i p)"
  unfolding dispatch_def by (auto intro!: keeps_core_bindE)

lemma keeps_core_membership: "keeps_core (membership f now t d render)"
  unfolding membership_def by (auto intro!: keeps_core_bindE split: sum.splits)

lemma keeps_core_fanout_IPChanged: "keeps_core (fanout_IPChanged f now ev)"
  unfolding fanout_IPChanged_def by (auto intro!: keeps_core_bindE split: sum.splits)

interpretation fanout: notifier "fanout_IPChanged f" "fanout_DeviceAdded f" "fanout_DeviceRemoved f" for f
  by unfold_locales
     (simp_all add: keeps_core_fanout_IPChanged fanout_DeviceAdded_def fanout_DeviceRemoved_def keeps_core_membership)

lemma keeps_core_preserves [preserves_intros]: "keeps_core m \<Longrightarrow> preserves (on_db wf_db) m"
  by (simp add: keeps_core_def)

lemma preserves_ExpireAddresses [preserves_intros]:
  "preserves (on_db wf_db) (ExpireAddresses f now d v4 v6 pin)"
  unfolding ExpireAddresses_def Let_def
  by (intro preserves_intros keeps_core_dispatch keeps_core_bump)

section \<open>What a dispatch leaves behind\<close>

text \<open>The outbox rows of one event, one per endpoint, numbered from \<open>i\<close>.\<close>

definition outbox_row :: "int \<Rightarrow> string \<Rightarrow> int \<Rightarrow> string \<Rightarrow> string \<Rightarrow> int \<Rightarrow> delivery_row" where
  "outbox_row now t eid p ep i =
     \<lparr> dl_id = i, dl_endpoint_id = ep, dl_event_type = t, dl_event_id = eid, dl_payload = p,
       dl_attempts = 0, dl_next_attempt_at = nullIfZero now, dl_status = DeliveryPending,
       dl_last_failure = None, dl_created_at = now, dl_updated_at = now \<rparr>"

fun outbox_rows :: "int \<Rightarrow> string \<Rightarrow> int \<Rightarrow> string \<Rightarrow> int \<Rightarrow> string list \<Rightarrow> delivery_row list" where
  "outbox_rows now t eid p i [] = []"
| "outbox_rows now t eid p i (e # es) = outbox_row now t eid p e i # outbox_rows now t eid p (i + 1) es"

lemma outbox_rows_endpoints: "map dl_endpoint_id (outbox_rows now t eid p i es) = es"
  by (induction es arbitrary: i) (simp_all add: outbox_row_def)

lemma outbox_rows_content:
  "r \<in> set (outbox_rows now t eid p i es) \<Longrightarrow>
     dl_event_type r = t \<and> dl_event_id r = eid \<and> dl_payload r = p \<and> dl_status r = DeliveryPending \<and> dl_attempts r = 0"
  by (induction es arbitrary: i) (auto simp: outbox_row_def)

lemma forE_enqueue_no_fault:
  assumes "faults w = []" and "ne_ID ` set eps \<subseteq> en_id ` set (notification_endpoints (db w))"
  shows "forE eps (\<lambda>ep. bindE (tryE (DeliveryRepo_Enqueue now
           \<lparr> nd_ID = 0, nd_EndpointID = ne_ID ep, nd_EventType = t, nd_EventID = eid,
             nd_Payload = p, nd_Attempts = 0, nd_NextAttemptAt = now,
             nd_Status = DeliveryPending, nd_LastFailure = '''', nd_CreatedAt = 0, nd_UpdatedAt = 0 \<rparr>))
           (\<lambda>_. ret ())) w =
         (Inr (), w\<lparr>db := (db w)\<lparr>notification_deliveries := notification_deliveries (db w) @
                      outbox_rows now t eid p (notification_deliveries_seq (db w) + 1) (map ne_ID eps),
                    notification_deliveries_seq := notification_deliveries_seq (db w) + int (length eps)\<rparr>\<rparr>)"
  using assms
proof (induction eps arbitrary: w)
  case (Cons ep eps)
  let ?d = "(db w)\<lparr>notification_deliveries := notification_deliveries (db w) @
     [outbox_row now t eid p (ne_ID ep) (notification_deliveries_seq (db w) + 1)],
     notification_deliveries_seq := notification_deliveries_seq (db w) + 1\<rparr>"
  have "ne_ID ep \<in> en_id ` set (notification_endpoints (db w))" using Cons.prems(2) by auto
  then have step: "DeliveryRepo_Enqueue now
           \<lparr> nd_ID = 0, nd_EndpointID = ne_ID ep, nd_EventType = t, nd_EventID = eid,
             nd_Payload = p, nd_Attempts = 0, nd_NextAttemptAt = now,
             nd_Status = DeliveryPending, nd_LastFailure = '''', nd_CreatedAt = 0, nd_UpdatedAt = 0 \<rparr> w
           = (Inr (), w\<lparr>db := ?d\<rparr>)"
    using Cons.prems(1)
    by (simp add: DeliveryRepo_Enqueue_def insert_delivery_def Let_def outbox_row_def nullIfEmpty_def)
  show ?case
    using Cons.IH [of "w\<lparr>db := ?d\<rparr>"] Cons.prems
    by (simp add: bindE_def tryE_def step algebra_simps)
qed simp

lemma Enqueue_no_fault:
  assumes "faults w = []"
  shows "Enqueuer_Enqueue now t eid p w =
         (Inr (), w\<lparr>db := (db w)\<lparr>notification_deliveries := notification_deliveries (db w) @
                      outbox_rows now t eid p (notification_deliveries_seq (db w) + 1) (map en_id (enabled_endpoints (db w))),
                    notification_deliveries_seq := notification_deliveries_seq (db w) + int (length (enabled_endpoints (db w)))\<rparr>\<rparr>)"
proof -
  let ?eps = "map scanNotificationEndpoint (enabled_endpoints (db w))"
  have ids: "ne_ID \<circ> scanNotificationEndpoint = en_id"
    by (auto simp: scanNotificationEndpoint_def)
  have "ne_ID ` set ?eps \<subseteq> en_id ` set (notification_endpoints (db w))"
    by (auto simp: enabled_endpoints_def scanNotificationEndpoint_def)
  from forE_enqueue_no_fault [OF assms this, of now t eid p] ids show ?thesis
    using assms by (simp add: Enqueuer_Enqueue_def bindE_def tryE_def EndpointRepo_ListEnabled_def)
qed

end
