(* ===== verification/Checkin.thy ===== *)
theory Checkin
  imports Fanout
begin

text \<open>
  \<open>internal/server/service/checkin.go\<close> over \<open>internal/store/checkin.go\<close>: a device reports its
  addresses. The two contact writes of the store (\<open>Touch\<close> for an unchanged report, \<open>updateDeviceIP\<close>
  inside \<open>RecordIPChange\<close> for a change) share one contract, the locale \<open>contact_write\<close>.

  The central invariant is \<open>hist_agrees\<close>: what a device row shows is what its newest history row
  recorded. It is what makes the device page and the history page agree.
\<close>

section \<open>The service\<close>

record CheckinReport =
  r_IPv4 :: string
  r_IPv6 :: string
  r_Hostname :: string
  r_OS :: string
  r_ClientVersion :: string

record CheckinResult =
  cr_DeviceID :: string
  cr_CurrentIPv4 :: string
  cr_CurrentIPv6 :: string
  cr_Stored :: bool

text \<open>An \<open>Inl\<close> of the notifier stands for a panic, which is recovered here and nowhere else.\<close>

definition fireNotify ::
  "(int \<Rightarrow> IPChangeEvent \<Rightarrow> ('z world_scheme, unit) action) \<Rightarrow> int \<Rightarrow> IPChangeEvent \<Rightarrow> ('z world_scheme, unit) action" where
  "fireNotify notify now ev = bindE (tryE (notify now ev)) (\<lambda>_. ret ())"

definition Checkin ::
  "(int \<Rightarrow> IPChangeEvent \<Rightarrow> ('z world_scheme, unit) action) \<Rightarrow> int \<Rightarrow> string \<Rightarrow> CheckinReport \<Rightarrow>
   ('z world_scheme, CheckinResult) action" where
  "Checkin notify now deviceID r =
     bindE (DeviceRepo_GetByID deviceID) (\<lambda>dev.
       let effV4 = (if r_IPv4 r = '''' then d_CurrentIPv4 dev else r_IPv4 r);
           effV6 = (if r_IPv6 r = '''' then d_CurrentIPv6 dev else r_IPv6 r);
           v4Asserted = (r_IPv4 r \<noteq> '''');
           v6Asserted = (r_IPv6 r \<noteq> '''')
       in if effV4 = d_CurrentIPv4 dev \<and> effV6 = d_CurrentIPv6 dev
          then bindE (DeviceRepo_Touch now (d_ID dev) v4Asserted v6Asserted now) (\<lambda>_.
               ret \<lparr> cr_DeviceID = d_ID dev, cr_CurrentIPv4 = d_CurrentIPv4 dev,
                     cr_CurrentIPv6 = d_CurrentIPv6 dev, cr_Stored = False \<rparr>)
          else bindE (RecordIPChange now
                 \<lparr> c_DeviceID = d_ID dev, c_IPv4 = effV4, c_IPv6 = effV6,
                   c_ClientVersion = r_ClientVersion r, c_Hostname = r_Hostname r, c_OS = r_OS r,
                   c_V4Asserted = v4Asserted, c_V6Asserted = v6Asserted \<rparr>) (\<lambda>row.
               bindE (fireNotify notify now
                 \<lparr> e_EventID = h_ID row, e_OccurredAt = h_ObservedAt row, e_Device = dev,
                   e_PrevIPv4 = d_CurrentIPv4 dev, e_PrevIPv6 = d_CurrentIPv6 dev,
                   e_CurrIPv4 = effV4, e_CurrIPv6 = effV6 \<rparr>) (\<lambda>_.
               ret \<lparr> cr_DeviceID = d_ID dev, cr_CurrentIPv4 = effV4, cr_CurrentIPv6 = effV6,
                     cr_Stored = True \<rparr>)))"

definition Checkin_Self :: "string \<Rightarrow> ('z world_scheme, Device) action" where
  "Checkin_Self deviceID = DeviceRepo_GetByID deviceID"

section \<open>History agrees with the device rows\<close>

definition shown :: "device_row \<Rightarrow> string option \<times> string option" where
  "shown r = (dc_current_ipv4 r, dc_current_ipv6 r)"

definition recorded :: "string \<Rightarrow> database \<Rightarrow> string option \<times> string option" where
  "recorded i d =
     (if device_history i d = [] then (None, None)
      else (hc_ipv4 (last (device_history i d)), hc_ipv6 (last (device_history i d))))"

definition hist_agrees :: "database \<Rightarrow> bool" where
  "hist_agrees d \<longleftrightarrow> (\<forall>r \<in> set (devices d). recorded (dc_id r) d = shown r)"

definition wf_hist :: "database \<Rightarrow> bool" where
  "wf_hist d \<longleftrightarrow> wf_db d \<and> hist_agrees d"

lemma device_history_insert:
  assumes "h_DeviceID h \<in> dc_id ` set (devices d)"
  shows "device_history i (snd (insert_history h d)) =
     device_history i d @ (if i = h_DeviceID h
       then [\<lparr> hc_id = ip_history_seq d + 1, hc_device_id = h_DeviceID h, hc_ipv4 = nullIfEmpty (h_IPv4 h),
               hc_ipv6 = nullIfEmpty (h_IPv6 h), hc_observed_at = h_ObservedAt h,
               hc_client_version = nullIfEmpty (h_ClientVersion h) \<rparr>] else [])"
  using assms by (auto simp: device_history_def insert_history_def Let_def)

lemma recorded_insert:
  "h_DeviceID h \<in> dc_id ` set (devices d) \<Longrightarrow>
     recorded i (snd (insert_history h d)) =
       (if i = h_DeviceID h then (nullIfEmpty (h_IPv4 h), nullIfEmpty (h_IPv6 h)) else recorded i d)"
  by (simp add: recorded_def device_history_insert)

lemma recorded_update_devices [simp]: "recorded i (snd (update_devices P f d)) = recorded i d"
  by (simp add: recorded_def device_history_def)

text \<open>A row update that changes no address keeps the agreement.\<close>

lemma hist_agrees_update:
  assumes "hist_agrees d" and "keyed_update f" and "\<And>r. shown (f r) = shown r"
  shows "hist_agrees (snd (update_devices P f d))"
  using assms(1,3) keyed_updateD(1) [OF assms(2)]
  by (auto simp: hist_agrees_def set_upd_where recorded_def device_history_def update_devices_def)

lemma preserves_wf_hist_update:
  assumes "keyed_update f" and "\<And>r. shown (f r) = shown r"
  shows "preserves (on_db wf_hist) (exec (update_devices P f))"
  by (rule preserves_exec) (simp add: wf_hist_def update_devices_wf hist_agrees_update assms)

text \<open>
  An address update of one device followed by the history row that records it. This is the body of
  both transactions, \<open>RecordIPChange\<close> and \<open>ExpireFamilies\<close>.
\<close>

lemma hist_agrees_update_insert:
  assumes wf: "wf_hist d" and f: "keyed_update f"
    and h: "h_DeviceID h = i" "i \<in> dc_id ` set (devices d)"
    and P: "\<And>r. P r \<Longrightarrow> dc_id r = i"
    and rec: "\<And>r. r \<in> set (devices (snd (update_devices P f d))) \<Longrightarrow> dc_id r = i \<Longrightarrow>
                shown r = (nullIfEmpty (h_IPv4 h), nullIfEmpty (h_IPv6 h))"
  shows "wf_hist (snd (insert_history h (snd (update_devices P f d))))"
proof -
  let ?d = "snd (update_devices P f d)"
  have wf1: "wf_db ?d" using wf f by (simp add: wf_hist_def update_devices_wf)
  have dev: "h_DeviceID h \<in> dc_id ` set (devices ?d)" using h f by simp
  have "recorded (dc_id r) (snd (insert_history h ?d)) = shown r" if "r \<in> set (devices ?d)" for r
  proof (cases "dc_id r = i")
    case True
    with that rec h show ?thesis by (simp add: recorded_insert [OF dev])
  next
    case False
    from that obtain s where s: "s \<in> set (devices d)" "r = (if P s then f s else s)"
      by (auto simp: update_devices_def set_upd_where)
    with False have "r = s" using P keyed_updateD(1) [OF f] by (cases "P s") auto
    with s wf False h show ?thesis
      by (simp add: recorded_insert [OF dev] wf_hist_def hist_agrees_def)
  qed
  then show ?thesis
    by (simp add: wf_hist_def hist_agrees_def insert_history_wf [OF wf1] insert_history_frame)
qed

lemma preserves_transact_commit:
  fixes m :: "('z world_scheme, bool \<times> 'a) action"
  assumes "\<And>w a w'. on_db I w \<Longrightarrow> m w = (Inr (True, a), w') \<Longrightarrow> on_db I w'"
  shows "preserves (on_db I) (transact m)"
proof
  fix w :: "'z world_scheme"
  assume I: "on_db I w"
  then have I1: "on_db I (w\<lparr>faults := tl (faults w)\<rparr>)" by simp
  obtain r w' where t: "transact m w = (r, w')" by (cases "transact m w")
  show "on_db I (snd (transact m w))"
  proof (cases r)
    case (Inl e)
    with t transact_atomic [of m w e w'] I assms [OF I1] show ?thesis by (auto simp: on_db_def)
  next
    case (Inr a)
    with t transact_Inr [of m w a w'] I assms [OF I1] show ?thesis
      by (auto simp: on_db_def split: if_splits)
  qed
qed

lemma updateDeviceIP_Inr:
  assumes "updateDeviceIP i a b c h os v4 v6 ls now w = (Inr x, w')"
  shows "i \<in> dc_id ` set (devices (db w))"
    and "db w' = snd (update_devices (\<lambda>r. dc_id r = i) (\<lambda>r. confirm_families v4 v6 ls
         (r\<lparr>dc_current_ipv4 := nullIfEmpty a, dc_current_ipv6 := nullIfEmpty b,
            dc_client_version := nullIfEmpty c, dc_hostname := nullIfEmpty h,
            dc_os := nullIfEmpty os, dc_last_seen_at := nullIfZero ls, dc_updated_at := now\<rparr>)) (db w))"
    and "w' = w\<lparr>db := db w', faults := faults w'\<rparr>"
proof -
  note r = require_rows_Inr [OF assms [unfolded updateDeviceIP_def]]
  have "filter (\<lambda>r. dc_id r = i) (devices (db w)) \<noteq> []"
    using r by (simp add: update_devices_def)
  then show "i \<in> dc_id ` set (devices (db w))"
    by (auto simp: filter_empty_conv)
qed (use require_rows_Inr [OF assms [unfolded updateDeviceIP_def]] in blast)+

lemma contact_update_keyed:
  "keyed_update (\<lambda>r. confirm_families v4 v6 ls
         (r\<lparr>dc_current_ipv4 := nullIfEmpty a, dc_current_ipv6 := nullIfEmpty b,
            dc_client_version := c, dc_hostname := h, dc_os := os, dc_last_seen_at := l, dc_updated_at := now\<rparr>))"
  by (rule keyed_update_comp [OF confirm_families_keyed keyed_update_simple(5)])

lemma touch_update_keyed:
  "keyed_update (\<lambda>r. confirm_families v4 v6 ls (r\<lparr>dc_last_seen_at := l, dc_updated_at := now\<rparr>))"
  by (rule keyed_update_comp [OF confirm_families_keyed keyed_update_simple(1)])

text \<open>The committed body of \<open>RecordIPChange\<close>: the device update, then the history row.\<close>

lemma RecordIPChange_body:
  assumes "bindE (updateDeviceIP i a b c h os v4 v6 now now) (\<lambda>_.
            bindE (appendIPHistory now \<lparr> h_ID = 0, h_DeviceID = i, h_IPv4 = a, h_IPv6 = b,
                h_ObservedAt = now, h_ClientVersion = c \<rparr>) (\<lambda>row. ret (True, row))) w = (Inr (cm, row), w')"
  shows "i \<in> dc_id ` set (devices (db w))" and "cm"
    and "row = \<lparr> h_ID = ip_history_seq (db w) + 1, h_DeviceID = i, h_IPv4 = a, h_IPv6 = b,
                 h_ObservedAt = now, h_ClientVersion = c \<rparr>"
    and "db w' = snd (insert_history
                   \<lparr> h_ID = 0, h_DeviceID = i, h_IPv4 = a, h_IPv6 = b, h_ObservedAt = now, h_ClientVersion = c \<rparr>
                   (snd (update_devices (\<lambda>r. dc_id r = i) (\<lambda>r. confirm_families v4 v6 now
                     (r\<lparr>dc_current_ipv4 := nullIfEmpty a, dc_current_ipv6 := nullIfEmpty b,
                        dc_client_version := nullIfEmpty c, dc_hostname := nullIfEmpty h,
                        dc_os := nullIfEmpty os, dc_last_seen_at := nullIfZero now, dc_updated_at := now\<rparr>)) (db w))))"
proof -
  from assms obtain x w1 row' where
    u: "updateDeviceIP i a b c h os v4 v6 now now w = (Inr x, w1)" and
    ap: "appendIPHistory now \<lparr> h_ID = 0, h_DeviceID = i, h_IPv4 = a, h_IPv6 = b,
                h_ObservedAt = now, h_ClientVersion = c \<rparr> w1 = (Inr row', w')" and
    eq: "cm" "row = row'"
    by (auto simp: bindE_Inr_iff)
  note u' = updateDeviceIP_Inr [OF u] and a' = appendIPHistory_Inr [OF ap]
  show "i \<in> dc_id ` set (devices (db w))" "cm" using u'(1) eq by simp_all
  have same: "(if now = 0 then now else now) = now" by simp
  show "row = \<lparr> h_ID = ip_history_seq (db w) + 1, h_DeviceID = i, h_IPv4 = a, h_IPv6 = b,
                 h_ObservedAt = now, h_ClientVersion = c \<rparr>"
    using a'(2) eq u'(2) by simp
  show "db w' = snd (insert_history
                   \<lparr> h_ID = 0, h_DeviceID = i, h_IPv4 = a, h_IPv6 = b, h_ObservedAt = now, h_ClientVersion = c \<rparr>
                   (snd (update_devices (\<lambda>r. dc_id r = i) (\<lambda>r. confirm_families v4 v6 now
                     (r\<lparr>dc_current_ipv4 := nullIfEmpty a, dc_current_ipv6 := nullIfEmpty b,
                        dc_client_version := nullIfEmpty c, dc_hostname := nullIfEmpty h,
                        dc_os := nullIfEmpty os, dc_last_seen_at := nullIfZero now, dc_updated_at := now\<rparr>)) (db w))))"
    using a'(3) u'(2) by simp
qed

lemma shown_update_devices:
  assumes "r \<in> set (devices (snd (update_devices (\<lambda>r. dc_id r = i) f d)))" and "dc_id r = i"
    and "keyed_update f"
  shows "\<exists>s. s \<in> set (devices d) \<and> dc_id s = i \<and> r = f s"
  using assms keyed_updateD(1) [OF assms(3)]
  by (auto simp: update_devices_def set_upd_where split: if_splits)

lemma preserves_hist_RecordIPChange [preserves_intros]:
  "preserves (on_db wf_hist) (RecordIPChange now c)"
  unfolding RecordIPChange_def
proof (rule preserves_transact_commit)
  fix w :: "'z world_scheme" and a w'
  assume I: "on_db wf_hist w"
    and b: "bindE (updateDeviceIP (c_DeviceID c) (c_IPv4 c) (c_IPv6 c) (c_ClientVersion c) (c_Hostname c)
                 (c_OS c) (c_V4Asserted c) (c_V6Asserted c) now now) (\<lambda>_.
        bindE (appendIPHistory now
                 \<lparr> h_ID = 0, h_DeviceID = c_DeviceID c, h_IPv4 = c_IPv4 c, h_IPv6 = c_IPv6 c,
                   h_ObservedAt = now, h_ClientVersion = c_ClientVersion c \<rparr>) (\<lambda>row.
        ret (True, row))) w = (Inr (True, a), w')"
  note body = RecordIPChange_body [OF b]
  let ?f = "\<lambda>r. confirm_families (c_V4Asserted c) (c_V6Asserted c) now
     (r\<lparr>dc_current_ipv4 := nullIfEmpty (c_IPv4 c), dc_current_ipv6 := nullIfEmpty (c_IPv6 c),
        dc_client_version := nullIfEmpty (c_ClientVersion c), dc_hostname := nullIfEmpty (c_Hostname c),
        dc_os := nullIfEmpty (c_OS c), dc_last_seen_at := nullIfZero now, dc_updated_at := now\<rparr>)"
  have k: "keyed_update ?f" by (rule contact_update_keyed)
  have shown: "shown (?f s) = (nullIfEmpty (c_IPv4 c), nullIfEmpty (c_IPv6 c))" for s
    by (simp add: shown_def confirm_families_def)
  show "on_db wf_hist w'"
    unfolding on_db_def body(4)
  proof (rule hist_agrees_update_insert [OF _ k])
    show "wf_hist (db w)" using I by (simp add: on_db_def)
  next
    fix r assume "r \<in> set (devices (snd (update_devices (\<lambda>r. dc_id r = c_DeviceID c) ?f (db w))))"
      and "dc_id r = c_DeviceID c"
    from shown_update_devices [OF this k] obtain s where "r = ?f s" by blast
    then show "shown r = (nullIfEmpty (h_IPv4 \<lparr> h_ID = 0, h_DeviceID = c_DeviceID c, h_IPv4 = c_IPv4 c,
        h_IPv6 = c_IPv6 c, h_ObservedAt = now, h_ClientVersion = c_ClientVersion c \<rparr>),
        nullIfEmpty (h_IPv6 \<lparr> h_ID = 0, h_DeviceID = c_DeviceID c, h_IPv4 = c_IPv4 c,
        h_IPv6 = c_IPv6 c, h_ObservedAt = now, h_ClientVersion = c_ClientVersion c \<rparr>))"
      using shown by simp
  qed (use body(1) in simp_all)
qed

lemma preserves_hist_Touch [preserves_intros]:
  "preserves (on_db wf_hist) (DeviceRepo_Touch now i v4 v6 ls)"
  unfolding DeviceRepo_Touch_def
  by (intro preserves_require_rows preserves_wf_hist_update touch_update_keyed)
     (simp add: shown_def confirm_families_def)

lemma preserves_hist_flags [preserves_intros]:
  "preserves (on_db wf_hist) (DeviceRepo_RotateSecret now i s)"
  "preserves (on_db wf_hist) (DeviceRepo_SetDisabled now i x)"
  "preserves (on_db wf_hist) (AdvanceWarnLevel i f lv fl p4 p6 now)"
  unfolding DeviceRepo_RotateSecret_def DeviceRepo_SetDisabled_def AdvanceWarnLevel_def
  by (intro preserves_require_rows preserves_wf_hist_update preserves_bindE preserves_ret keyed_update_simple;
      simp add: shown_def)+

section \<open>Expiry, creation, removal and pruning keep the agreement\<close>

lemma getDeviceTx_Inr:
  "getDeviceTx i w = (Inr dev, w') \<Longrightarrow>
     \<exists>r. find_device i (db w) = Some r \<and> dev = scanDevice r \<and> db w' = db w \<and> w' = w\<lparr>faults := faults w'\<rparr>"
  unfolding getDeviceTx_def by (drule queryRow_Inr) auto

lemma GetByID_Inr:
  "DeviceRepo_GetByID i w = (Inr dev, w') \<Longrightarrow>
     \<exists>r. find_device i (db w) = Some r \<and> dev = scanDevice r \<and> db w' = db w \<and> w' = w\<lparr>faults := faults w'\<rparr>"
  unfolding DeviceRepo_GetByID_def by (drule queryRow_Inr) auto

lemma find_deviceD: "find_device i d = Some r \<Longrightarrow> dc_id r = i \<and> r \<in> set (devices d)"
  unfolding find_device_def by (drule find_SomeD) auto

lemma find_device_unique:
  assumes "wf_db d" and "r \<in> set (devices d)" and "dc_id r = i"
  shows "find_device i d = Some r"
  using find_distinct_key [of dc_id "devices d" r] assms
  by (auto simp: find_device_def wf_db_def wf_devices_def)

lemma nullIfEmpty_scanString: "c \<noteq> Some '''' \<Longrightarrow> nullIfEmpty (scanString c) = c"
  by (cases c) (auto simp: nullIfEmpty_def)

lemma wf_rowD: "wf_db d \<Longrightarrow> find_device i d = Some r \<Longrightarrow> wf_device_row r"
  by (auto simp: wf_db_def wf_devices_def list_all_iff dest!: find_deviceD)

abbreviation expire_filter :: "string \<Rightarrow> bool \<Rightarrow> bool \<Rightarrow> int \<Rightarrow> int \<Rightarrow> device_row \<Rightarrow> bool" where
  "expire_filter i v4 v6 p4 p6 \<equiv> (\<lambda>r. pinned i p4 p6 r \<and> holds_due v4 v6 r)"

text \<open>The committed body of \<open>ExpireFamilies\<close>.\<close>

lemma ExpireFamilies_body:
  assumes wf: "wf_db (db w)"
    and b: "bindE (exec (update_devices (expire_filter i v4 v6 p4 p6) (clear_families v4 v6 now))) (\<lambda>n.
        if n = 0 then ret (False, (0, False))
        else bindE (getDeviceTx i) (\<lambda>after.
             bindE (appendIPHistory now
                \<lparr> h_ID = 0, h_DeviceID = i, h_IPv4 = d_CurrentIPv4 after, h_IPv6 = d_CurrentIPv6 after,
                  h_ObservedAt = now, h_ClientVersion = '''' \<rparr>) (\<lambda>row.
             ret (True, (h_ID row, True))))) w = (Inr (True, a), w')"
  shows "\<exists>r. find_device i (db w) = Some r \<and> pinned i p4 p6 r \<and> holds_due v4 v6 r \<and>
             a = (ip_history_seq (db w) + 1, True) \<and>
             db w' = snd (insert_history
               \<lparr> h_ID = 0, h_DeviceID = i,
                 h_IPv4 = scanString (dc_current_ipv4 (clear_families v4 v6 now r)),
                 h_IPv6 = scanString (dc_current_ipv6 (clear_families v4 v6 now r)),
                 h_ObservedAt = now, h_ClientVersion = '''' \<rparr>
               (snd (update_devices (expire_filter i v4 v6 p4 p6) (clear_families v4 v6 now) (db w))))"
proof -
  let ?U = "update_devices (expire_filter i v4 v6 p4 p6) (clear_families v4 v6 now) (db w)"
  from b obtain n w1 where e: "exec (update_devices (expire_filter i v4 v6 p4 p6) (clear_families v4 v6 now)) w = (Inr n, w1)"
    and n: "n \<noteq> 0" and rest: "bindE (getDeviceTx i) (\<lambda>after.
             bindE (appendIPHistory now
                \<lparr> h_ID = 0, h_DeviceID = i, h_IPv4 = d_CurrentIPv4 after, h_IPv6 = d_CurrentIPv6 after,
                  h_ObservedAt = now, h_ClientVersion = '''' \<rparr>) (\<lambda>row.
             ret (True, (h_ID row, True)))) w1 = (Inr (True, a), w')"
    by (auto simp: bindE_Inr_iff split: if_splits)
  note e' = exec_Inr [OF e]
  from n e' have "filter (expire_filter i v4 v6 p4 p6) (devices (db w)) \<noteq> []"
    by (auto simp: update_devices_def)
  then obtain r where r: "r \<in> set (devices (db w))" "pinned i p4 p6 r" "holds_due v4 v6 r"
    by (auto simp: filter_empty_conv)
  then have fr: "find_device i (db w) = Some r"
    by (intro find_device_unique [OF wf]) (simp_all add: pinned_def)
  have fr1: "find_device i (db w1) = Some (clear_families v4 v6 now r)"
    using e' fr r by (simp add: find_device_update)
  from rest obtain dev w2 row where g: "getDeviceTx i w1 = (Inr dev, w2)"
    and ap: "appendIPHistory now \<lparr> h_ID = 0, h_DeviceID = i, h_IPv4 = d_CurrentIPv4 dev, h_IPv6 = d_CurrentIPv6 dev,
                  h_ObservedAt = now, h_ClientVersion = '''' \<rparr> w2 = (Inr row, w')"
    and a: "a = (h_ID row, True)"
    by (auto simp: bindE_Inr_iff)
  from getDeviceTx_Inr [OF g] fr1 have dev: "dev = scanDevice (clear_families v4 v6 now r)" and w2: "db w2 = db w1"
    by auto
  note ap' = appendIPHistory_Inr [OF ap]
  show ?thesis
    using fr r a ap'(2,3) dev w2 e' by (auto simp: scanDevice_def)
qed

lemma preserves_hist_ExpireFamilies [preserves_intros]:
  "preserves (on_db wf_hist) (ExpireFamilies i v4 v6 p4 p6 now)"
  unfolding ExpireFamilies_def
proof (rule preserves_transact_commit)
  fix w :: "'z world_scheme" and a w'
  assume I: "on_db wf_hist w"
    and b: "bindE (exec (update_devices (expire_filter i v4 v6 p4 p6) (clear_families v4 v6 now))) (\<lambda>n.
        if n = 0 then ret (False, (0, False))
        else bindE (getDeviceTx i) (\<lambda>after.
             bindE (appendIPHistory now
                \<lparr> h_ID = 0, h_DeviceID = i, h_IPv4 = d_CurrentIPv4 after, h_IPv6 = d_CurrentIPv6 after,
                  h_ObservedAt = now, h_ClientVersion = '''' \<rparr>) (\<lambda>row.
             ret (True, (h_ID row, True))))) w = (Inr (True, a), w')"
  have wf: "wf_hist (db w)" "wf_db (db w)" using I by (simp_all add: on_db_def wf_hist_def)
  from ExpireFamilies_body [OF wf(2) b] obtain r where r: "find_device i (db w) = Some r"
     "pinned i p4 p6 r" "holds_due v4 v6 r" and
     d': "db w' = snd (insert_history
               \<lparr> h_ID = 0, h_DeviceID = i,
                 h_IPv4 = scanString (dc_current_ipv4 (clear_families v4 v6 now r)),
                 h_IPv6 = scanString (dc_current_ipv6 (clear_families v4 v6 now r)),
                 h_ObservedAt = now, h_ClientVersion = '''' \<rparr>
               (snd (update_devices (expire_filter i v4 v6 p4 p6) (clear_families v4 v6 now) (db w))))"
    by blast
  have wfr: "wf_device_row (clear_families v4 v6 now r)"
    using wf_rowD [OF wf(2) r(1)] keyed_updateD(4) [OF clear_families_keyed] by simp
  have fd: "find_device i (snd (update_devices (expire_filter i v4 v6 p4 p6) (clear_families v4 v6 now) (db w)))
     = Some (clear_families v4 v6 now r)"
    using r by (simp add: find_device_update)
  have wfu: "wf_db (snd (update_devices (expire_filter i v4 v6 p4 p6) (clear_families v4 v6 now) (db w)))"
    by (simp add: update_devices_wf wf)
  show "on_db wf_hist w'"
    unfolding on_db_def d'
  proof (rule hist_agrees_update_insert [OF wf(1) clear_families_keyed])
    fix x assume "x \<in> set (devices (snd (update_devices (expire_filter i v4 v6 p4 p6) (clear_families v4 v6 now) (db w))))"
      "dc_id x = i"
    then have "x = clear_families v4 v6 now r" using find_device_unique [OF wfu] fd by force
    then show "shown x = (nullIfEmpty (h_IPv4 \<lparr> h_ID = 0, h_DeviceID = i,
                 h_IPv4 = scanString (dc_current_ipv4 (clear_families v4 v6 now r)),
                 h_IPv6 = scanString (dc_current_ipv6 (clear_families v4 v6 now r)),
                 h_ObservedAt = now, h_ClientVersion = '''' \<rparr>),
               nullIfEmpty (h_IPv6 \<lparr> h_ID = 0, h_DeviceID = i,
                 h_IPv4 = scanString (dc_current_ipv4 (clear_families v4 v6 now r)),
                 h_IPv6 = scanString (dc_current_ipv6 (clear_families v4 v6 now r)),
                 h_ObservedAt = now, h_ClientVersion = '''' \<rparr>))"
      using wfr by (simp add: shown_def wf_device_row_def nullIfEmpty_scanString)
  qed (use find_deviceD [OF r(1)] in \<open>auto simp: pinned_def\<close>)
qed

lemma device_history_sorted:
  "wf_db d \<Longrightarrow> sorted_wrt (<) (map hc_id (device_history i d))"
  by (simp add: wf_db_def wf_history_def device_history_def sorted_wrt_map sorted_wrt_filter)

lemma last_history_max:
  assumes "wf_db d" and "device_history i d \<noteq> []"
  shows "hc_id (last (device_history i d)) = Max (set (map hc_id (device_history i d)))"
proof (rule Max_eqI [symmetric])
  fix y assume "y \<in> set (map hc_id (device_history i d))"
  then obtain r where r: "r \<in> set (device_history i d)" "y = hc_id r" by auto
  have eq: "device_history i d = butlast (device_history i d) @ [last (device_history i d)]"
    using assms(2) by simp
  show "y \<le> hc_id (last (device_history i d))"
  proof (cases "r \<in> set (butlast (device_history i d))")
    case True
    have "sorted_wrt (<) (map hc_id (butlast (device_history i d) @ [last (device_history i d)]))"
      using device_history_sorted [OF assms(1)] eq by metis
    with True r show ?thesis by (auto simp: sorted_wrt_append)
  next
    case False
    with r(1) eq have "r = last (device_history i d)" by (metis Un_iff empty_iff empty_set list.set(2) insert_iff set_append)
    with r show ?thesis by simp
  qed
qed (use assms(2) in auto)

lemma recorded_filter:
  assumes "\<And>r. r \<in> set (ip_history d) \<Longrightarrow> hc_device_id r = i \<Longrightarrow> device_history i d \<noteq> [] \<Longrightarrow>
             r = last (device_history i d) \<Longrightarrow> P r"
  shows "recorded i (d\<lparr>ip_history := filter P (ip_history d)\<rparr>) = recorded i d"
proof -
  have eq: "device_history i (d\<lparr>ip_history := filter P (ip_history d)\<rparr>) = filter P (device_history i d)"
    by (simp add: device_history_def) (metis (mono_tags, lifting) conj_commute)
  show ?thesis
  proof (cases "device_history i d = []")
    case False
    then have last: "last (device_history i d) \<in> set (device_history i d)" by simp
    then have "P (last (device_history i d))"
      using assms False by (auto simp: device_history_def)
    moreover have "filter P (device_history i d) =
       filter P (butlast (device_history i d)) @ filter P [last (device_history i d)]"
      by (metis False append_butlast_last_id filter_append)
    ultimately show ?thesis using False by (simp add: recorded_def eq)
  qed (simp add: recorded_def eq)
qed

lemma preserves_hist_Prune [preserves_intros]:
  assumes "picks pick"
  shows "preserves (on_db wf_hist) (IPHistory_Prune pick i t m b)"
  unfolding IPHistory_Prune_def
proof (rule preserves_exec)
  fix d assume wf: "wf_hist d"
  let ?E = "prune_eligible t m (device_history i d)"
  let ?gone = "map hc_id (pick b ?E)"
  have gone: "x \<in> hc_id ` set ?E" if "x \<in> set ?gone" for x
    using that assms by (auto simp: picks_def)
  have wfd: "wf_db d" using wf by (simp add: wf_hist_def)
  have "recorded j (d\<lparr>ip_history := filter (\<lambda>r. hc_id r \<notin> set ?gone) (ip_history d)\<rparr>) = recorded j d" for j
  proof (rule recorded_filter)
    fix r assume r: "r \<in> set (ip_history d)" "hc_device_id r = j" "device_history j d \<noteq> []" "r = last (device_history j d)"
    show "hc_id r \<notin> set ?gone"
    proof
      assume "hc_id r \<in> set ?gone"
      from gone [OF this] obtain s where s: "s \<in> set ?E" "hc_id s = hc_id r" by auto
      then have sh: "s \<in> set (device_history i d)" by (simp add: prune_eligible_def Let_def)
      then have "s \<in> set (ip_history d)" "hc_device_id s = i" by (auto simp: device_history_def)
      moreover have "distinct (map hc_id (ip_history d))" using wfd by (simp add: wf_db_def wf_history_distinct)
      ultimately have "s = r" using s(2) r(1) by (metis eq_key_imp_eq_value inj_on_contraD distinct_map)
      then have "i = j" using \<open>hc_device_id s = i\<close> r(2) by simp
      then have "hc_id s = Max (set (map hc_id (device_history i d)))"
        using last_history_max [OF wfd r(3)] \<open>s = r\<close> r(4) by simp
      with s(1) show False by (simp add: prune_eligible_def Let_def)
    qed
  qed
  then show "wf_hist (snd (let gone = map hc_id (pick b ?E) in
      (length (filter (\<lambda>r. hc_id r \<in> set gone) (ip_history d)), d\<lparr>ip_history := filter (\<lambda>r. hc_id r \<notin> set gone) (ip_history d)\<rparr>)))"
    using wf by (simp add: wf_hist_def prune_wf hist_agrees_def Let_def)
qed

lemma preserves_hist_Delete [preserves_intros]: "preserves (on_db wf_hist) (DeviceRepo_Delete i)"
  unfolding DeviceRepo_Delete_def
proof (intro preserves_require_rows preserves_exec)
  fix d assume wf: "wf_hist d"
  have "recorded j (snd (delete_device i d)) = recorded j d" if "j \<noteq> i" for j
  proof -
    have "device_history j (snd (delete_device i d)) = device_history j d"
      using that by (auto simp: device_history_def delete_device_def intro!: filter_cong)
    then show ?thesis by (simp add: recorded_def)
  qed
  with wf show "wf_hist (snd (delete_device i d))"
    by (auto simp: wf_hist_def delete_device_wf hist_agrees_def) (auto simp: delete_device_def)
qed

lemma preserves_hist_Rename [preserves_intros]: "preserves (on_db wf_hist) (DeviceRepo_Rename now i l)"
  unfolding DeviceRepo_Rename_def
proof (intro preserves_require_rows preserves_stmt)
  fix d assume wf: "wf_hist d"
  have "hist_agrees (snd (rename_device i l now d))"
    using wf by (auto simp: wf_hist_def hist_agrees_def rename_device_def set_upd_where update_devices_def
        recorded_def device_history_def shown_def split: option.splits)
  with wf show "wf_hist (snd (rename_device i l now d))" by (simp add: wf_hist_def rename_device_wf)
qed

text \<open>A new device carries no address, and its id has no history yet.\<close>

lemma insert_device_hist:
  assumes wf: "wf_hist b" and e: "d_CurrentIPv4 e = []" "d_CurrentIPv6 e = []"
  shows "wf_hist (snd (insert_device e b))"
proof -
  have "hc_device_id ` set (ip_history b) \<subseteq> dc_id ` set (devices b)"
    using wf by (simp add: wf_hist_def wf_db_def wf_history_def)
  then have "recorded (d_ID e) b = (None, None)" if "d_ID e \<notin> dc_id ` set (devices b)"
    using that by (force simp: recorded_def device_history_def filter_empty_conv)
  then have "hist_agrees (snd (insert_device e b))"
    using wf e by (auto simp: wf_hist_def hist_agrees_def insert_device_def device_values_def shown_def
        recorded_def device_history_def nullIfEmpty_def)
  with wf show ?thesis by (simp add: wf_hist_def insert_device_wf)
qed

lemma preserves_hist_Create:
  assumes "d_CurrentIPv4 d = []" "d_CurrentIPv6 d = []"
  shows "preserves (on_db wf_hist) (DeviceRepo_Create newID now d)"
  unfolding DeviceRepo_Create_def Let_def
  by (intro preserves_intros preserves_stmt insert_device_hist) (simp_all add: assms)

section \<open>The contract of a contact write\<close>

text \<open>
  \<open>Touch\<close> and \<open>updateDeviceIP\<close> both record a contact at \<open>at\<close> with the families the client
  asserted. A successful write finds the device, sets the confirmation instant of exactly the
  asserted families to \<open>at\<close>, and puts exactly their warning levels back to 0.
\<close>

definition confirmed :: "bool \<Rightarrow> bool \<Rightarrow> int \<Rightarrow> device_row \<Rightarrow> device_row \<Rightarrow> bool" where
  "confirmed v4 v6 at r r' \<longleftrightarrow>
     dc_v4_confirmed_at r' = (if v4 then Some at else dc_v4_confirmed_at r) \<and>
     dc_v6_confirmed_at r' = (if v6 then Some at else dc_v6_confirmed_at r) \<and>
     dc_v4_warn_level r' = (if v4 then 0 else dc_v4_warn_level r) \<and>
     dc_v6_warn_level r' = (if v6 then 0 else dc_v6_warn_level r) \<and>
     scanInt64 (dc_last_seen_at r') = at"

locale contact_write =
  fixes contact :: "string \<Rightarrow> bool \<Rightarrow> bool \<Rightarrow> int \<Rightarrow> ('z world_scheme, unit) action"
    and change :: "device_row \<Rightarrow> device_row"
  assumes contact_Inr: "contact i v4 v6 at w = (Inr x, w') \<Longrightarrow>
      \<exists>f. keyed_update f \<and> (\<forall>r. confirmed v4 v6 at r (f r) \<and> shown (f r) = shown (change r)) \<and>
          i \<in> dc_id ` set (devices (db w)) \<and>
          db w' = snd (update_devices (\<lambda>r. dc_id r = i) f (db w))"
begin

lemma contact_device:
  assumes "contact i v4 v6 at w = (Inr x, w')"
  obtains r r' where "find_device i (db w) = Some r" "find_device i (db w') = Some r'"
    "confirmed v4 v6 at r r'" "shown r' = shown (change r)"
proof -
  from contact_Inr [OF assms] obtain f where f: "keyed_update f"
    "\<And>r. confirmed v4 v6 at r (f r)" "\<And>r. shown (f r) = shown (change r)"
    "i \<in> dc_id ` set (devices (db w))" "db w' = snd (update_devices (\<lambda>r. dc_id r = i) f (db w))"
    by blast
  from f(4) obtain r where r: "find_device i (db w) = Some r"
    using find_key_None [of dc_id i "devices (db w)"] by (cases "find_device i (db w)") (auto simp: find_device_def)
  then have "find_device i (db w') = Some (f r)"
    using f(1,5) find_deviceD [OF r] by (simp add: find_device_update)
  from that [OF r this f(2) f(3)] show thesis .
qed

lemma contact_others:
  assumes "contact i v4 v6 at w = (Inr x, w')" and "j \<noteq> i"
  shows "find_device j (db w') = find_device j (db w)"
proof -
  from contact_Inr [OF assms(1)] obtain f where "keyed_update f"
    "db w' = snd (update_devices (\<lambda>r. dc_id r = i) f (db w))" by blast
  with assms(2) show ?thesis
    by (cases "find_device j (db w)") (auto simp: find_device_update dest: find_deviceD)
qed

lemma contact_frame:
  assumes "contact i v4 v6 at w = (Inr x, w')"
  shows "users (db w') = users (db w)" "ip_history (db w') = ip_history (db w)"
  using contact_Inr [OF assms] by auto

end

lemma confirmed_confirm_families:
  "scanInt64 (dc_last_seen_at g) = at \<Longrightarrow>
   dc_v4_confirmed_at g = dc_v4_confirmed_at r \<Longrightarrow> dc_v6_confirmed_at g = dc_v6_confirmed_at r \<Longrightarrow>
   dc_v4_warn_level g = dc_v4_warn_level r \<Longrightarrow> dc_v6_warn_level g = dc_v6_warn_level r \<Longrightarrow>
   confirmed v4 v6 at r (confirm_families v4 v6 at g)"
  by (simp add: confirmed_def confirm_families_def)

lemma filter_ids: "0 < length (filter (\<lambda>r. dc_id r = i) xs) \<Longrightarrow> i \<in> dc_id ` set xs"
  by (auto simp: filter_empty_conv)

interpretation touch: contact_write "DeviceRepo_Touch now" "\<lambda>r. r" for now
proof
  fix i v4 v6 at and w w' :: "'b world_scheme" and x
  assume "DeviceRepo_Touch now i v4 v6 at w = (Inr x, w')"
  note r = require_rows_Inr [OF this [unfolded DeviceRepo_Touch_def]]
  let ?f = "\<lambda>r. confirm_families v4 v6 at (r\<lparr>dc_last_seen_at := nullIfZero at, dc_updated_at := now\<rparr>)"
  have "confirmed v4 v6 at r (?f r) \<and> shown (?f r) = shown r" for r
    by (intro conjI confirmed_confirm_families) (simp_all add: shown_def confirm_families_def)
  moreover have "i \<in> dc_id ` set (devices (db w))"
    using r by (simp add: update_devices_def filter_ids)
  ultimately show "\<exists>f. keyed_update f \<and> (\<forall>r. confirmed v4 v6 at r (f r) \<and> shown (f r) = shown r) \<and>
          i \<in> dc_id ` set (devices (db w)) \<and> db w' = snd (update_devices (\<lambda>r. dc_id r = i) f (db w))"
    using r touch_update_keyed by blast
qed

interpretation record_write: contact_write
  "\<lambda>i v4 v6 at. updateDeviceIP i a b c h os v4 v6 at now"
  "\<lambda>r. r\<lparr>dc_current_ipv4 := nullIfEmpty a, dc_current_ipv6 := nullIfEmpty b\<rparr>" for a b c h os now
proof
  fix i v4 v6 at and w w' :: "'b world_scheme" and x
  assume "updateDeviceIP i a b c h os v4 v6 at now w = (Inr x, w')"
  note r = updateDeviceIP_Inr [OF this]
  let ?f = "\<lambda>r. confirm_families v4 v6 at
         (r\<lparr>dc_current_ipv4 := nullIfEmpty a, dc_current_ipv6 := nullIfEmpty b,
            dc_client_version := nullIfEmpty c, dc_hostname := nullIfEmpty h,
            dc_os := nullIfEmpty os, dc_last_seen_at := nullIfZero at, dc_updated_at := now\<rparr>)"
  have "confirmed v4 v6 at r (?f r) \<and>
     shown (?f r) = shown (r\<lparr>dc_current_ipv4 := nullIfEmpty a, dc_current_ipv6 := nullIfEmpty b\<rparr>)" for r
    by (intro conjI confirmed_confirm_families) (simp_all add: shown_def confirm_families_def)
  then show "\<exists>f. keyed_update f \<and> (\<forall>r. confirmed v4 v6 at r (f r) \<and>
           shown (f r) = shown (r\<lparr>dc_current_ipv4 := nullIfEmpty a, dc_current_ipv6 := nullIfEmpty b\<rparr>)) \<and>
          i \<in> dc_id ` set (devices (db w)) \<and> db w' = snd (update_devices (\<lambda>r. dc_id r = i) f (db w))"
    using r(1,2) contact_update_keyed by blast
qed

section \<open>A successful recording\<close>

text \<open>The body of the transaction, named so that both of its outcomes can be described by it.\<close>

definition record_body :: "int \<Rightarrow> IPChange \<Rightarrow> ('z world_scheme, bool \<times> IPHistory) action" where
  "record_body now c =
     bindE (updateDeviceIP (c_DeviceID c) (c_IPv4 c) (c_IPv6 c) (c_ClientVersion c) (c_Hostname c)
                 (c_OS c) (c_V4Asserted c) (c_V6Asserted c) now now) (\<lambda>_.
        bindE (appendIPHistory now
                 \<lparr> h_ID = 0, h_DeviceID = c_DeviceID c, h_IPv4 = c_IPv4 c, h_IPv6 = c_IPv6 c,
                   h_ObservedAt = now, h_ClientVersion = c_ClientVersion c \<rparr>) (\<lambda>row.
        ret (True, row)))"

lemma RecordIPChange_record_body: "RecordIPChange now c = transact (record_body now c)"
  by (simp add: RecordIPChange_def record_body_def)

lemma record_body_commit:
  assumes "record_body now c w = (Inr (cm, row), w')"
  shows "cm"
    and "\<exists>r r'. find_device (c_DeviceID c) (db w) = Some r \<and> find_device (c_DeviceID c) (db w') = Some r' \<and>
           confirmed (c_V4Asserted c) (c_V6Asserted c) now r r' \<and>
           shown r' = (nullIfEmpty (c_IPv4 c), nullIfEmpty (c_IPv6 c))"
    and "\<And>j. j \<noteq> c_DeviceID c \<Longrightarrow> find_device j (db w') = find_device j (db w)"
    and "row = \<lparr> h_ID = ip_history_seq (db w) + 1, h_DeviceID = c_DeviceID c, h_IPv4 = c_IPv4 c,
                 h_IPv6 = c_IPv6 c, h_ObservedAt = now, h_ClientVersion = c_ClientVersion c \<rparr>"
    and "ip_history (db w') = ip_history (db w) @
           [\<lparr> hc_id = ip_history_seq (db w) + 1, hc_device_id = c_DeviceID c, hc_ipv4 = nullIfEmpty (c_IPv4 c),
              hc_ipv6 = nullIfEmpty (c_IPv6 c), hc_observed_at = now,
              hc_client_version = nullIfEmpty (c_ClientVersion c) \<rparr>]"
proof -
  let ?h = "\<lparr> h_ID = 0, h_DeviceID = c_DeviceID c, h_IPv4 = c_IPv4 c, h_IPv6 = c_IPv6 c,
              h_ObservedAt = now, h_ClientVersion = c_ClientVersion c \<rparr>"
  let ?f = "\<lambda>r. confirm_families (c_V4Asserted c) (c_V6Asserted c) now
     (r\<lparr>dc_current_ipv4 := nullIfEmpty (c_IPv4 c), dc_current_ipv6 := nullIfEmpty (c_IPv6 c),
        dc_client_version := nullIfEmpty (c_ClientVersion c), dc_hostname := nullIfEmpty (c_Hostname c),
        dc_os := nullIfEmpty (c_OS c), dc_last_seen_at := nullIfZero now, dc_updated_at := now\<rparr>)"
  let ?U = "update_devices (\<lambda>r. dc_id r = c_DeviceID c) ?f (db w)"
  note body = RecordIPChange_body [OF assms [unfolded record_body_def]]
  have dbw': "db w' = snd (insert_history ?h (snd ?U))" using body(4) by simp
  have k: "keyed_update ?f" by (rule contact_update_keyed)
  have dev: "c_DeviceID c \<in> dc_id ` set (devices (db w))" using body(1) by simp
  have dev2: "h_DeviceID ?h \<in> dc_id ` set (devices (snd ?U))" using dev k by simp
  have fd: "find_device j (db w') = find_device j (snd ?U)" for j
    by (simp add: dbw' find_device_def insert_history_frame)
  obtain r where r: "find_device (c_DeviceID c) (db w) = Some r"
    using dev find_key_None [of dc_id "c_DeviceID c" "devices (db w)"]
    by (cases "find_device (c_DeviceID c) (db w)") (auto simp: find_device_def)
  have "confirmed (c_V4Asserted c) (c_V6Asserted c) now r (?f r)"
    by (rule confirmed_confirm_families) simp_all
  moreover have "shown (?f r) = (nullIfEmpty (c_IPv4 c), nullIfEmpty (c_IPv6 c))"
    by (simp add: shown_def confirm_families_def)
  moreover have "find_device (c_DeviceID c) (db w') = Some (?f r)"
    using find_deviceD [OF r] by (simp add: fd find_device_update [OF k] r)
  ultimately show "\<exists>r r'. find_device (c_DeviceID c) (db w) = Some r \<and> find_device (c_DeviceID c) (db w') = Some r' \<and>
           confirmed (c_V4Asserted c) (c_V6Asserted c) now r r' \<and>
           shown r' = (nullIfEmpty (c_IPv4 c), nullIfEmpty (c_IPv6 c))"
    using r by blast
  show "find_device j (db w') = find_device j (db w)" if "j \<noteq> c_DeviceID c" for j
    using that by (cases "find_device j (db w)") (auto simp: fd find_device_update [OF k] dest: find_deviceD)
  show "cm" by (rule body(2))
  show "row = \<lparr> h_ID = ip_history_seq (db w) + 1, h_DeviceID = c_DeviceID c, h_IPv4 = c_IPv4 c,
                 h_IPv6 = c_IPv6 c, h_ObservedAt = now, h_ClientVersion = c_ClientVersion c \<rparr>"
    using body(3) by simp
  show "ip_history (db w') = ip_history (db w) @
           [\<lparr> hc_id = ip_history_seq (db w) + 1, hc_device_id = c_DeviceID c, hc_ipv4 = nullIfEmpty (c_IPv4 c),
              hc_ipv6 = nullIfEmpty (c_IPv6 c), hc_observed_at = now,
              hc_client_version = nullIfEmpty (c_ClientVersion c) \<rparr>]"
    using dev2 by (simp add: dbw' insert_history_def Let_def)
qed


lemma RecordIPChange_Inr:
  assumes "RecordIPChange now c w = (Inr row, w')"
  shows "\<exists>r r'. find_device (c_DeviceID c) (db w) = Some r \<and> find_device (c_DeviceID c) (db w') = Some r' \<and>
           confirmed (c_V4Asserted c) (c_V6Asserted c) now r r' \<and>
           shown r' = (nullIfEmpty (c_IPv4 c), nullIfEmpty (c_IPv6 c))"
    and "\<And>j. j \<noteq> c_DeviceID c \<Longrightarrow> find_device j (db w') = find_device j (db w)"
    and "row = \<lparr> h_ID = ip_history_seq (db w) + 1, h_DeviceID = c_DeviceID c, h_IPv4 = c_IPv4 c,
                 h_IPv6 = c_IPv6 c, h_ObservedAt = now, h_ClientVersion = c_ClientVersion c \<rparr>"
    and "ip_history (db w') = ip_history (db w) @
           [\<lparr> hc_id = ip_history_seq (db w) + 1, hc_device_id = c_DeviceID c, hc_ipv4 = nullIfEmpty (c_IPv4 c),
              hc_ipv6 = nullIfEmpty (c_IPv6 c), hc_observed_at = now,
              hc_client_version = nullIfEmpty (c_ClientVersion c) \<rparr>]"
proof -
  from transact_Inr [OF assms [unfolded RecordIPChange_record_body]] obtain cm w2 where
    m: "record_body now c (w\<lparr>faults := tl (faults w)\<rparr>) = (Inr (cm, row), w2)"
    and w': "if cm then w' = w2\<lparr>faults := tl (faults w2)\<rparr> else w' = w2\<lparr>db := db w\<rparr>"
    by metis
  note R = record_body_commit [OF m, simplified]
  have d: "db w' = db w2" using w' R(1) by simp
  show "\<exists>r r'. find_device (c_DeviceID c) (db w) = Some r \<and> find_device (c_DeviceID c) (db w') = Some r' \<and>
           confirmed (c_V4Asserted c) (c_V6Asserted c) now r r' \<and>
           shown r' = (nullIfEmpty (c_IPv4 c), nullIfEmpty (c_IPv6 c))"
    using R(2) d by simp
  show "find_device j (db w') = find_device j (db w)" if "j \<noteq> c_DeviceID c" for j
    using R(3) [OF that] d by simp
  show "row = \<lparr> h_ID = ip_history_seq (db w) + 1, h_DeviceID = c_DeviceID c, h_IPv4 = c_IPv4 c,
                 h_IPv6 = c_IPv6 c, h_ObservedAt = now, h_ClientVersion = c_ClientVersion c \<rparr>"
    using R(4) d by simp
  show "ip_history (db w') = ip_history (db w) @
           [\<lparr> hc_id = ip_history_seq (db w) + 1, hc_device_id = c_DeviceID c, hc_ipv4 = nullIfEmpty (c_IPv4 c),
              hc_ipv6 = nullIfEmpty (c_IPv6 c), hc_observed_at = now,
              hc_client_version = nullIfEmpty (c_ClientVersion c) \<rparr>]"
    using R(5) d by simp
qed

section \<open>Check-in over any notifier\<close>

text \<open>What a check-in that succeeded leaves behind, as a relation of the databases before and after.\<close>

definition checked_in :: "int \<Rightarrow> string \<Rightarrow> CheckinReport \<Rightarrow> CheckinResult \<Rightarrow> database \<Rightarrow> database \<Rightarrow> bool" where
  "checked_in now i rep res d d' \<longleftrightarrow>
     (\<exists>r r'. find_device i d = Some r \<and> find_device i d' = Some r' \<and>
        confirmed (r_IPv4 rep \<noteq> []) (r_IPv6 rep \<noteq> []) now r r' \<and>
        scanString (dc_current_ipv4 r') = (if r_IPv4 rep = [] then scanString (dc_current_ipv4 r) else r_IPv4 rep) \<and>
        scanString (dc_current_ipv6 r') = (if r_IPv6 rep = [] then scanString (dc_current_ipv6 r) else r_IPv6 rep) \<and>
        cr_DeviceID res = i \<and>
        cr_CurrentIPv4 res = scanString (dc_current_ipv4 r') \<and> cr_CurrentIPv6 res = scanString (dc_current_ipv6 r') \<and>
        (cr_Stored res \<longleftrightarrow> shown r' \<noteq> shown r) \<and>
        (if cr_Stored res
         then (\<exists>row. ip_history d' = ip_history d @ [row] \<and> hc_device_id row = i \<and>
                     hc_observed_at row = now \<and> (hc_ipv4 row, hc_ipv6 row) = shown r')
         else ip_history d' = ip_history d)) \<and>
     (\<forall>j. j \<noteq> i \<longrightarrow> find_device j d' = find_device j d)"

lemma shown_scan:
  assumes "wf_device_row r" and "shown r' = (nullIfEmpty a, nullIfEmpty b)"
  shows "shown r' = shown r \<longleftrightarrow> a = scanString (dc_current_ipv4 r) \<and> b = scanString (dc_current_ipv6 r)"
    and "scanString (dc_current_ipv4 r') = a" "scanString (dc_current_ipv6 r') = b"
proof -
  have "nullIfEmpty (scanString (dc_current_ipv4 r)) = dc_current_ipv4 r"
    "nullIfEmpty (scanString (dc_current_ipv6 r)) = dc_current_ipv6 r"
    using assms(1) by (simp_all add: wf_device_row_def nullIfEmpty_scanString)
  then show "shown r' = shown r \<longleftrightarrow> a = scanString (dc_current_ipv4 r) \<and> b = scanString (dc_current_ipv6 r)"
    using assms(2) unfolding shown_def [of r] by (metis scanString_nullIfEmpty prod.inject)
  show "scanString (dc_current_ipv4 r') = a" "scanString (dc_current_ipv6 r') = b"
    using assms(2) by (simp_all add: shown_def)
qed

lemma checked_in_core:
  assumes "checked_in now i rep res d d1" and "core d2 = core d1"
  shows "checked_in now i rep res d d2"
proof -
  have fd: "find_device j d2 = find_device j d1" for j
    using core_eqD(2) [OF assms(2)] by (simp add: find_device_def)
  show ?thesis
    using assms(1) unfolding checked_in_def fd core_eqD(3) [OF assms(2)] .
qed

lemma checked_in_touch:
  assumes wf: "wf_db (db w)" and dev: "find_device i (db w) = Some r"
    and same: "(if r_IPv4 rep = [] then scanString (dc_current_ipv4 r) else r_IPv4 rep) = scanString (dc_current_ipv4 r)"
      "(if r_IPv6 rep = [] then scanString (dc_current_ipv6 r) else r_IPv6 rep) = scanString (dc_current_ipv6 r)"
    and t: "DeviceRepo_Touch now i (r_IPv4 rep \<noteq> []) (r_IPv6 rep \<noteq> []) now w = (Inr x, w')"
  shows "checked_in now i rep \<lparr> cr_DeviceID = i, cr_CurrentIPv4 = scanString (dc_current_ipv4 r),
     cr_CurrentIPv6 = scanString (dc_current_ipv6 r), cr_Stored = False \<rparr> (db w) (db w')"
proof -
  obtain s s' where s: "find_device i (db w) = Some s" "find_device i (db w') = Some s'"
    "confirmed (r_IPv4 rep \<noteq> []) (r_IPv6 rep \<noteq> []) now s s'" "shown s' = shown s"
    using touch.contact_device [OF t] by blast
  with dev same touch.contact_others [OF t] touch.contact_frame [OF t] show ?thesis
    by (auto simp: checked_in_def shown_def)
qed

lemma checked_in_record:
  assumes wf: "wf_db (db w)" and dev: "find_device i (db w) = Some r"
    and eff: "a = (if r_IPv4 rep = [] then scanString (dc_current_ipv4 r) else r_IPv4 rep)"
      "b = (if r_IPv6 rep = [] then scanString (dc_current_ipv6 r) else r_IPv6 rep)"
    and diff: "\<not> (a = scanString (dc_current_ipv4 r) \<and> b = scanString (dc_current_ipv6 r))"
    and rc: "RecordIPChange now \<lparr> c_DeviceID = i, c_IPv4 = a, c_IPv6 = b, c_ClientVersion = cv, c_Hostname = hn,
        c_OS = os, c_V4Asserted = (r_IPv4 rep \<noteq> []), c_V6Asserted = (r_IPv6 rep \<noteq> []) \<rparr> w = (Inr row, w')"
  shows "checked_in now i rep \<lparr> cr_DeviceID = i, cr_CurrentIPv4 = a, cr_CurrentIPv6 = b, cr_Stored = True \<rparr>
     (db w) (db w')"
proof -
  note R = RecordIPChange_Inr [OF rc, simplified]
  from R(1) dev obtain r' where r': "find_device i (db w') = Some r'"
    "confirmed (r_IPv4 rep \<noteq> []) (r_IPv6 rep \<noteq> []) now r r'" "shown r' = (nullIfEmpty a, nullIfEmpty b)"
    by auto
  note sh = shown_scan [OF wf_rowD [OF wf dev] r'(3)]
  show ?thesis
    unfolding checked_in_def using dev r' sh diff eff R(2,4) by auto
qed

context notifier
begin

lemma keeps_core_fireNotify: "keeps_core (fireNotify IPChanged now ev)"
  unfolding fireNotify_def by (intro keeps_core_bindE keeps_core_tryE ip_changed_core keeps_core_ret)

lemma fireNotify_total: "\<exists>w'. fireNotify IPChanged now ev w = (Inr (), w')"
  by (cases "IPChanged now ev w") (simp add: fireNotify_def bindE_def tryE_def)

lemma Checkin_checked_in:
  assumes wf: "wf_db (db w)" and run: "Checkin IPChanged now i rep w = (Inr res, w')"
  shows "checked_in now i rep res (db w) (db w')"
proof -
  from run obtain dev w1 where g: "DeviceRepo_GetByID i w = (Inr dev, w1)"
    by (auto simp: Checkin_def bindE_Inr_iff)
  from GetByID_Inr [OF g] obtain r where r: "find_device i (db w) = Some r" "dev = scanDevice r" "db w1 = db w"
    by blast
  then have dev: "d_ID dev = i" "d_CurrentIPv4 dev = scanString (dc_current_ipv4 r)"
    "d_CurrentIPv6 dev = scanString (dc_current_ipv6 r)"
    using find_deviceD by (auto simp: scanDevice_def)
  let ?a = "if r_IPv4 rep = [] then d_CurrentIPv4 dev else r_IPv4 rep"
  let ?b = "if r_IPv6 rep = [] then d_CurrentIPv6 dev else r_IPv6 rep"
  have wf1: "wf_db (db w1)" and r1: "find_device i (db w1) = Some r" using wf r by simp_all
  show ?thesis
  proof (cases "?a = d_CurrentIPv4 dev \<and> ?b = d_CurrentIPv6 dev")
    case True
    with run obtain x where t: "DeviceRepo_Touch now i (r_IPv4 rep \<noteq> []) (r_IPv6 rep \<noteq> []) now w1 = (Inr x, w')"
      and res: "res = \<lparr> cr_DeviceID = i, cr_CurrentIPv4 = scanString (dc_current_ipv4 r),
         cr_CurrentIPv6 = scanString (dc_current_ipv6 r), cr_Stored = False \<rparr>"
      by (auto simp: Checkin_def Let_def g dev bindE_Inr_iff)
    have "?a = scanString (dc_current_ipv4 r)" "?b = scanString (dc_current_ipv6 r)" using True dev by simp_all
    then have "checked_in now i rep res (db w1) (db w')"
      unfolding res dev by (intro checked_in_touch [OF wf1 r1 _ _ t])
    with r(3) show ?thesis by simp
  next
    case False
    with run obtain row w2 w3 where rc: "RecordIPChange now \<lparr> c_DeviceID = i, c_IPv4 = ?a, c_IPv6 = ?b,
        c_ClientVersion = r_ClientVersion rep, c_Hostname = r_Hostname rep, c_OS = r_OS rep,
        c_V4Asserted = (r_IPv4 rep \<noteq> []), c_V6Asserted = (r_IPv6 rep \<noteq> []) \<rparr> w1 = (Inr row, w2)"
      and n: "\<exists>ev x. fireNotify IPChanged now ev w2 = (x, w')"
      and res: "res = \<lparr> cr_DeviceID = i, cr_CurrentIPv4 = ?a, cr_CurrentIPv6 = ?b, cr_Stored = True \<rparr>"
      by (auto simp: Checkin_def Let_def g dev bindE_Inr_iff split: if_splits)
    have "checked_in now i rep res (db w1) (db w2)"
      unfolding res by (rule checked_in_record [OF wf1 r1 _ _ _ rc]) (use False dev in auto)
    moreover have "core (db w') = core (db w2)"
      using n keeps_coreD [OF keeps_core_fireNotify] by blast
    ultimately show ?thesis using checked_in_core r(3) by metis
  qed
qed

lemma Checkin_independent:
  "fst (Checkin IPChanged now i rep w) = fst (Checkin Nop_IPChanged now i rep w) \<and>
   core (db (snd (Checkin IPChanged now i rep w))) = core (db (snd (Checkin Nop_IPChanged now i rep w)))"
proof -
  have nop: "fireNotify Nop_IPChanged now ev w = (Inr (), w)" for ev and w :: "'z world_scheme"
    by (simp add: fireNotify_def Nop_IPChanged_def bindE_def tryE_def)
  have fire: "\<exists>w'. fireNotify IPChanged now ev w = (Inr (), w') \<and> core (db w') = core (db w)" for ev w
    using fireNotify_total [of now ev w] keeps_coreD [OF keeps_core_fireNotify] by blast
  have tail: "fst (bindE (fireNotify IPChanged now ev) (\<lambda>_. ret x) w) = fst (bindE (fireNotify Nop_IPChanged now ev) (\<lambda>_. ret x) w)
     \<and> core (db (snd (bindE (fireNotify IPChanged now ev) (\<lambda>_. ret x) w))) =
       core (db (snd (bindE (fireNotify Nop_IPChanged now ev) (\<lambda>_. ret x) w)))" for ev w and x :: CheckinResult
    using fire [of ev w] by (auto simp: bindE_def nop)
  show ?thesis
    unfolding Checkin_def Let_def
    by (auto simp: bindE_def [of "DeviceRepo_GetByID i"] bindE_def [of "RecordIPChange now _"] tail
        split: prod.splits sum.splits)
qed

lemma preserves_Checkin:
  assumes "\<And>m. keeps_core m \<Longrightarrow> preserves (on_db I) (m :: ('z world_scheme, unit) action)"
    and "\<And>c. preserves (on_db I) (RecordIPChange now c :: ('z world_scheme, IPHistory) action)"
    and "\<And>i v4 v6 ls. preserves (on_db I) (DeviceRepo_Touch now i v4 v6 ls :: ('z world_scheme, unit) action)"
  shows "preserves (on_db I) (Checkin IPChanged now i rep)"
  unfolding Checkin_def Let_def
  by (intro preserves_intros assms keeps_core_fireNotify)

end

lemma keeps_core_hist [preserves_intros]:
  fixes m :: "('z world_scheme, 'a) action"
  assumes k: "keeps_core m"
  shows "preserves (on_db wf_hist) m"
proof
  fix w :: "'z world_scheme" assume "on_db wf_hist w"
  then have "wf_db (db w)" "hist_agrees (db w)" by (simp_all add: on_db_def wf_hist_def)
  moreover from k have c: "core (db (snd (m w))) = core (db w)" by (simp add: keeps_core_def)
  moreover have "wf_db (db (snd (m w)))" using k \<open>wf_db (db w)\<close> by (auto simp: keeps_core_def preserves_def on_db_def)
  moreover have "recorded j (db (snd (m w))) = recorded j (db w)" for j
    using core_eqD(3) [OF c] by (simp add: recorded_def device_history_def)
  ultimately show "on_db wf_hist (snd (m w))"
    using core_eqD(2) [OF c] by (simp add: on_db_def wf_hist_def hist_agrees_def)
qed

lemma preserves_hist_Checkin [preserves_intros]:
  "preserves (on_db wf_hist) (Checkin (fanout_IPChanged f) now i rep)"
  by (rule fanout.preserves_Checkin) (intro preserves_intros; assumption?)+

end
