(* ===== verification/Samples.thy ===== *)
theory Samples
  imports Checkin
begin

text \<open>
  Concrete databases and worlds at which the theorems of the development are applied: one
  user with one device, a webhook endpoint, and a plain codec.
\<close>

definition u1 :: user_row where
  "u1 = \<lparr> uc_id = ''u1'', uc_email = ''a@example.org'', uc_role = ''user'', uc_oidc_provider = None,
     uc_oidc_subject = None, uc_disabled = False, uc_created_at = 1, uc_updated_at = 1,
     uc_pending_email = None, uc_pending_email_hash = None, uc_pending_email_expires_at = None, uc_webauthn_handle = None \<rparr>"

text \<open>A device that has never reported.\<close>

definition dev1 :: device_row where
  "dev1 = \<lparr> dc_id = ''d1'', dc_user_id = ''u1'', dc_label = ''pi'', dc_secret_hash = ''s'',
     dc_current_ipv4 = None, dc_current_ipv6 = None, dc_hostname = None, dc_os = None,
     dc_client_version = None, dc_last_seen_at = None, dc_disabled = False, dc_created_at = 1,
     dc_updated_at = 1, dc_v4_confirmed_at = None, dc_v6_confirmed_at = None,
     dc_v4_warn_level = 0, dc_v6_warn_level = 0 \<rparr>"

definition sample_db :: database where
  "sample_db = empty_db\<lparr>users := [u1], devices := [dev1]\<rparr>"

text \<open>The same device after it reported an IPv4 address at instant 100.\<close>

definition dev1_v4 :: device_row where
  "dev1_v4 = dev1\<lparr>dc_current_ipv4 := Some ''192.0.2.1'', dc_last_seen_at := Some 100,
     dc_v4_confirmed_at := Some 100\<rparr>"

definition hist1 :: ip_history_row where
  "hist1 = \<lparr> hc_id = 1, hc_device_id = ''d1'', hc_ipv4 = Some ''192.0.2.1'', hc_ipv6 = None,
     hc_observed_at = 100, hc_client_version = None \<rparr>"

definition sample_db_v4 :: database where
  "sample_db_v4 = empty_db\<lparr>users := [u1], devices := [dev1_v4], ip_history := [hist1], ip_history_seq := 1\<rparr>"

definition plain_codec :: codec where
  "plain_codec = \<lparr> json_marshal = (\<lambda>e. Some (ev_Type e)), rfc3339 = (\<lambda>t. ''t'') \<rparr>"

definition plain_fanout :: fanout where
  "plain_fanout = \<lparr> fo_codec = plain_codec, fo_enqueue = True \<rparr>"

definition sample_world :: hubworld where
  "sample_world = \<lparr> db = sample_db, faults = [], w_hub = Hub_New \<rparr>"

definition sample_world_v4 :: hubworld where
  "sample_world_v4 = \<lparr> db = sample_db_v4, faults = [], w_hub = Hub_New \<rparr>"

definition sample_report :: CheckinReport where
  "sample_report = \<lparr> r_IPv4 = ''192.0.2.1'', r_IPv6 = [], r_Hostname = ''h'', r_OS = ''linux'', r_ClientVersion = ''1'' \<rparr>"

lemmas sample_defs =
  u1_def dev1_def dev1_v4_def hist1_def sample_db_def sample_db_v4_def empty_db_def plain_codec_def
  plain_fanout_def sample_world_def sample_world_v4_def sample_report_def

lemma sample_db_wf: "wf_hist sample_db" "wf_hist sample_db_v4"
  by (simp_all add: wf_hist_def wf_db_def wf_table_defs wf_device_row_def wf_history_row_def hist_agrees_def
      recorded_def device_history_def shown_def sample_defs)

lemma sample_world_simps [simp]:
  "db sample_world = sample_db" "faults sample_world = []"
  "db sample_world_v4 = sample_db_v4" "faults sample_world_v4 = []"
  by (simp_all add: sample_world_def sample_world_v4_def)

lemma sample_find [simp]:
  "find_device ''d1'' sample_db = Some dev1" "find_device ''d1'' sample_db_v4 = Some dev1_v4"
  by (simp_all add: find_device_def sample_defs)

end
