(* ===== verification/Checkin_Props.thy ===== *)
theory Checkin_Props
  imports Samples
begin

text \<open>
  What \<open>CheckinService.Checkin\<close> promises a device: its report is merged, confirmed per family and
  recorded; the transaction behind a change is all or nothing under every pattern of driver
  failures; and no notifier can change the outcome.
\<close>

text \<open>
  C2. A check-in that returns without error has merged the report into the device row: a reported
  family replaces the stored one, an omitted family keeps it; exactly the reported families
  get the contact instant and warning level 0; a history row is appended exactly when the
  merged addresses differ from the stored ones, and it records them; the result repeats what
  was stored; no other device changes. This holds whatever the fan-out does with the event and
  for every pattern of driver failures that let the call return.
\<close>

theorem Checkin_effect:
  assumes "wf_db (db w)" and "Checkin (fanout_IPChanged f) now i rep w = (Inr res, w')"
  shows "checked_in now i rep res (db w) (db w')"
  using assms by (rule fanout.Checkin_checked_in)

lemma Checkin_effect_witness:
  "\<exists>res w'. Checkin (fanout_IPChanged plain_fanout) 100 ''d1'' sample_report sample_world = (Inr res, w') \<and>
     cr_Stored res \<and> checked_in 100 ''d1'' sample_report res sample_db (db w')"
proof -
  obtain res w' where r: "Checkin (fanout_IPChanged plain_fanout) 100 ''d1'' sample_report sample_world = (Inr res, w')"
     and s: "cr_Stored res"
    by (simp add: Checkin_def bindE_def Let_def DeviceRepo_GetByID_def scanDevice_def RecordIPChange_def
        transact_def updateDeviceIP_def update_devices_def appendIPHistory_def insert_history_def
        fireNotify_def tryE_def sample_defs find_device_def fanout_IPChanged_def FeedState_Bump_def
        RenderIPChanged_def marshal_def ip_changed_event_def dispatch_def Enqueuer_Enqueue_def
        EndpointRepo_ListEnabled_def enabled_endpoints_def hub_op_def confirm_families_def)
  have "wf_db (db sample_world)" using sample_db_wf by (simp add: wf_hist_def)
  from Checkin_effect [OF this r] r s show ?thesis by (auto simp del: sample_find)
qed

text \<open>
  C1. Recording an address change is all or nothing (#97). Whatever statement fails, and whether or
  not it took effect before it failed, the database afterwards is either the one before, or
  it has both the device row with the new addresses and exactly one new history row that records
  them.
\<close>

theorem RecordIPChange_atomic:
  assumes "RecordIPChange now c w = (res, w')"
  shows "db w' = db w \<or>
         (\<exists>r' row. find_device (c_DeviceID c) (db w') = Some r' \<and>
            shown r' = (nullIfEmpty (c_IPv4 c), nullIfEmpty (c_IPv6 c)) \<and>
            ip_history (db w') = ip_history (db w) @ [row] \<and>
            hc_device_id row = c_DeviceID c \<and> (hc_ipv4 row, hc_ipv6 row) = shown r' \<and> hc_observed_at row = now)"
proof (cases res)
  case (Inr row)
  note R = RecordIPChange_Inr [OF assms [unfolded Inr]]
  from R(1,4) show ?thesis by auto
next
  case (Inl e)
  from transact_atomic [OF assms [unfolded Inl RecordIPChange_record_body]] show ?thesis
  proof
    assume "\<exists>a w2. record_body now c (w\<lparr>faults := tl (faults w)\<rparr>) = (Inr (True, a), w2) \<and> db w' = db w2"
    then obtain a w2 where m: "record_body now c (w\<lparr>faults := tl (faults w)\<rparr>) = (Inr (True, a), w2)"
      and d: "db w' = db w2" by blast
    from record_body_commit(2,5) [OF m] d show ?thesis by auto
  qed simp
qed

definition faulty_change :: IPChange where
  "faulty_change = \<lparr> c_DeviceID = ''d1'', c_IPv4 = ''192.0.2.9'', c_IPv6 = [], c_ClientVersion = [], c_Hostname = [],
     c_OS = [], c_V4Asserted = True, c_V6Asserted = False \<rparr>"

lemma RecordIPChange_atomic_witness:
  "db (snd (RecordIPChange 7 faulty_change (sample_world\<lparr>faults := [Fine, Fine, FailsAfter]\<rparr>))) = sample_db"
proof -
  let ?w = "sample_world\<lparr>faults := [Fine, Fine, FailsAfter]\<rparr>"
  obtain res w' where r: "RecordIPChange 7 faulty_change ?w = (res, w')" by (cases "RecordIPChange 7 faulty_change ?w")
  have "ip_history (db (snd (RecordIPChange 7 faulty_change ?w))) = []"
    by (simp add: RecordIPChange_def transact_def bindE_def updateDeviceIP_def require_rows_def exec_def stmt_def
        next_fault_def update_devices_def appendIPHistory_def insert_history_def Let_def faulty_change_def sample_defs)
  with RecordIPChange_atomic [OF r] r show ?thesis by auto
qed

text \<open>
  C3. The notifier cannot influence a check-in: with the fan-out wired, whatever its endpoints, hub
  and codec do, the result of the call and every record except the outbox and the feed counter
  are the same as with no notifier at all. In particular a failing
  notifier never turns a device's check-in into an error.
\<close>

theorem Checkin_notifier_independent:
  "fst (Checkin (fanout_IPChanged f) now i rep w) = fst (Checkin Nop_IPChanged now i rep w) \<and>
   core (db (snd (Checkin (fanout_IPChanged f) now i rep w))) =
   core (db (snd (Checkin Nop_IPChanged now i rep w)))"
  by (rule fanout.Checkin_independent)

lemma Touch_live:
  assumes "wf_db (db w)" "faults w = []" "find_device i (db w) = Some r"
  shows "fst (DeviceRepo_Touch now i v4 v6 at w) = Inr ()"
  using assms update_devices_count_id [OF assms(1)] by (simp add: DeviceRepo_Touch_def)

lemma RecordIPChange_live:
  assumes "wf_db (db w)" "faults w = []" "find_device i (db w) = Some r"
    and "c_DeviceID c = i"
  shows "\<exists>row. fst (RecordIPChange now c w) = Inr row"
proof -
  have mem: "i \<in> dc_id ` set (devices (db w))" using find_deviceD [OF assms(3)] by auto
  then show ?thesis
    using assms update_devices_count_id [OF assms(1)]
    by (simp add: RecordIPChange_def transact_def updateDeviceIP_def bindE_def appendIPHistory_def
        insert_history_def contact_update_keyed Let_def)
qed

text \<open>
  Liveness: when the driver does not fail, a check-in of an existing device always returns a
  result, and a check-in of an unknown device returns ErrNotFound and writes nothing.
\<close>

theorem Checkin_live:
  assumes "wf_db (db w)" and "faults w = []"
  shows "case find_device i (db w) of
           None \<Rightarrow> Checkin (fanout_IPChanged f) now i rep w = (Inl ErrNotFound, w)
         | Some r \<Rightarrow> (\<exists>res. fst (Checkin (fanout_IPChanged f) now i rep w) = Inr res)"
proof (cases "find_device i (db w)")
  case None
  with assms show ?thesis by (simp add: Checkin_def bindE_def DeviceRepo_GetByID_def)
next
  case (Some r)
  have nop: "fireNotify Nop_IPChanged now ev v = (Inr (), v)" for ev and v :: "'a hubworld_scheme"
    by (simp add: fireNotify_def Nop_IPChanged_def bindE_def tryE_def)
  have id: "d_ID (scanDevice r) = i" using find_deviceD [OF Some] by (simp add: scanDevice_def)
  have g: "DeviceRepo_GetByID i w = (Inr (scanDevice r), w)"
    using assms(2) Some by (simp add: DeviceRepo_GetByID_def)
  have "\<exists>res. fst (Checkin Nop_IPChanged now i rep w) = Inr res"
  proof -
    have "\<exists>res. fst (bindE (DeviceRepo_Touch now i v4 v6 now) (\<lambda>_. ret x) w) = Inr res" for v4 v6 and x :: CheckinResult
      using Touch_live [OF assms Some, of now v4 v6 now] by (simp add: bindE_fst_Inr)
    moreover have "\<exists>res. fst (bindE (RecordIPChange now c) (\<lambda>row. bindE (fireNotify Nop_IPChanged now (ev row)) (\<lambda>_. ret x)) w) = Inr res"
      if "c_DeviceID c = i" for c ev and x :: CheckinResult
      using RecordIPChange_live [OF assms Some that, of now] by (auto simp: bindE_fst_Inr nop)
    ultimately show ?thesis
      by (simp add: Checkin_def bindE_fst_Inr g Let_def id)
  qed
  then show ?thesis
    using Some fanout.Checkin_independent [of f now i rep w] by simp
qed

lemma Checkin_live_witness:
  "\<exists>res. fst (Checkin (fanout_IPChanged plain_fanout) 100 ''d1'' sample_report sample_world) = Inr res"
proof -
  have "wf_db (db sample_world)" using sample_db_wf by (simp add: wf_hist_def)
  from Checkin_live [where i = "''d1''" and f = plain_fanout and now = 100 and rep = sample_report, OF this] show ?thesis by simp
qed

end
