(* ===== verification/Config.thy ===== *)
theory Config
  imports Prelude "HOL-Library.Signed_Division"
begin

text \<open>
  The parts of \<open>internal/config/config.go\<close> the modelled code depends on: the sections it reads and
  the validators that \<open>Load\<close> runs before the server starts. Durations are nanoseconds, as in Go;
  \<open>validServer\<close> is the conjunction of the checks below, in the order \<open>Load\<close> makes them. Checks of the
  e-mail, OIDC, web and logging sections are not modelled.
\<close>

record HMACCfg =
  SkewWindow :: int
  NonceTTL :: int

record Notifications =
  nt_Enabled :: bool
  nt_Timeout :: int
  nt_MaxAttempts :: int

record FeedSection =
  fs_Enabled :: bool
  fs_ExpireAfterDays :: int

record RetentionSection =
  IPHistoryDays :: int
  IPHistoryPerDeviceMax :: int
  AuditLogDays :: int
  NotificationDeliveriesDays :: int

record Server =
  sv_HMAC :: HMACCfg
  sv_RegistrationLinkTTL :: int
  sv_Notifications :: Notifications
  sv_Retention :: RetentionSection
  sv_Feed :: FeedSection

definition ExpiryEnabled :: "FeedSection \<Rightarrow> bool" where
  "ExpiryEnabled f \<longleftrightarrow> fs_Enabled f \<and> fs_ExpireAfterDays f > 0"

definition maxRetentionDays :: int where
  "maxRetentionDays = 36500"

definition timeMinute :: int where
  "timeMinute = 60 * 1000000000"

text \<open>Each validator is true when the Go function returns nil.\<close>

definition validateAuth :: "Server \<Rightarrow> bool" where
  "validateAuth cfg \<longleftrightarrow>
     \<not> NonceTTL (sv_HMAC cfg) < SkewWindow (sv_HMAC cfg) \<and> \<not> sv_RegistrationLinkTTL cfg < timeMinute"

text \<open>Without the syntax check of \<open>allowed_private_cidrs\<close>.\<close>

definition validateNotifications :: "Server \<Rightarrow> bool" where
  "validateNotifications cfg \<longleftrightarrow>
     (let n = sv_Notifications cfg in
      \<not> nt_Timeout n \<le> 0 \<and> \<not> (nt_MaxAttempts n < 1 \<or> nt_MaxAttempts n > 16))"

definition validateRetention :: "Server \<Rightarrow> bool" where
  "validateRetention cfg \<longleftrightarrow>
     list_all (\<lambda>v. \<not> (v < 0 \<or> v > maxRetentionDays))
       [IPHistoryDays (sv_Retention cfg), IPHistoryPerDeviceMax (sv_Retention cfg),
        AuditLogDays (sv_Retention cfg), NotificationDeliveriesDays (sv_Retention cfg)]"

definition validateFeedExpiry :: "Server \<Rightarrow> bool" where
  "validateFeedExpiry cfg \<longleftrightarrow>
     (let d = fs_ExpireAfterDays (sv_Feed cfg) in \<not> (d < 0 \<or> d > maxRetentionDays))"

definition validServer :: "Server \<Rightarrow> bool" where
  "validServer cfg \<longleftrightarrow>
     validateAuth cfg \<and> validateNotifications cfg \<and> validateRetention cfg \<and> validateFeedExpiry cfg"

text \<open>The defaults of the modelled keys.\<close>

definition keyDefaults :: Server where
  "keyDefaults = \<lparr> sv_HMAC = \<lparr> SkewWindow = 120000000000, NonceTTL = 120000000000 \<rparr>,
     sv_RegistrationLinkTTL = 15 * timeMinute,
     sv_Notifications = \<lparr> nt_Enabled = False, nt_Timeout = 10000000000, nt_MaxAttempts = 8 \<rparr>,
     sv_Retention = \<lparr> IPHistoryDays = 0, IPHistoryPerDeviceMax = 0, AuditLogDays = 0, NotificationDeliveriesDays = 0 \<rparr>,
     sv_Feed = \<lparr> fs_Enabled = True, fs_ExpireAfterDays = 21 \<rparr> \<rparr>"

text \<open>\<open>int64(d.Seconds())\<close>: whole seconds, truncated towards zero.\<close>

definition wholeSeconds :: "int \<Rightarrow> int" where
  "wholeSeconds d = d sdiv 1000000000"

section \<open>Machine integers\<close>

definition int64_ok :: "int \<Rightarrow> bool" where
  "int64_ok n \<longleftrightarrow> - (2 ^ 63) \<le> n \<and> n < 2 ^ 63"

lemma sdiv_nonneg: "0 \<le> a \<Longrightarrow> 0 < b \<Longrightarrow> (a::int) sdiv b = a div b"
  by (simp add: signed_divide_int_def sgn_if)

lemma sdiv_mono:
  assumes "(a::int) \<le> b" and "0 < c"
  shows "a sdiv c \<le> b sdiv c"
proof (cases "0 \<le> a")
  case True
  with assms show ?thesis by (simp add: sdiv_nonneg zdiv_mono1)
next
  case neg: False
  then have a: "a sdiv c = - ((- a) div c)" using assms(2) by (simp add: signed_divide_int_def sgn_if)
  show ?thesis
  proof (cases "0 \<le> b")
    case True
    have "0 \<le> (- a) div c" "0 \<le> b div c" using neg True assms(2) by (simp_all add: pos_imp_zdiv_nonneg_iff)
    with a show ?thesis using True assms(2) by (simp add: sdiv_nonneg)
  next
    case False
    then have "b sdiv c = - ((- b) div c)" using assms(2) by (simp add: signed_divide_int_def sgn_if)
    moreover have "(- b) div c \<le> (- a) div c" using assms by (intro zdiv_mono1) simp_all
    ultimately show ?thesis using a by simp
  qed
qed

lemma validAuth_seconds:
  "validateAuth cfg \<Longrightarrow> wholeSeconds (SkewWindow (sv_HMAC cfg)) \<le> wholeSeconds (NonceTTL (sv_HMAC cfg))"
  by (simp add: validateAuth_def wholeSeconds_def sdiv_mono)

lemma keyDefaults_valid: "validServer keyDefaults" "ExpiryEnabled (sv_Feed keyDefaults)"
  by (simp_all add: validServer_def validateAuth_def validateNotifications_def validateRetention_def
      validateFeedExpiry_def ExpiryEnabled_def keyDefaults_def timeMinute_def maxRetentionDays_def)

end
