(* ===== verification/Text_Codec.thy ===== *)
theory Text_Codec
  imports Config
begin

text \<open>
  The parts of Go's standard library the program prints and parses text with: \<open>fmt\<close>'s \<open>%d\<close>,
  \<open>strconv.ParseInt(s, 10, 64)\<close>, \<open>strings.Join\<close> and \<open>SplitN\<close>, and \<open>base64.StdEncoding\<close>. A byte slice
  and a Go string are both a \<open>string\<close> here (a list of 8-bit characters). The round trips are the
  facts the components rest on.
\<close>

section \<open>Decimal numbers\<close>

definition digit :: "nat \<Rightarrow> char" where
  "digit n = char_of (48 + n)"

fun decimal :: "nat \<Rightarrow> string" where
  "decimal n = (if n < 10 then [digit n] else decimal (n div 10) @ [digit (n mod 10)])"

declare decimal.simps [simp del]

definition showInt :: "int \<Rightarrow> string" where
  "showInt n = (if n < 0 then CHR ''-'' # decimal (nat (- n)) else decimal (nat n))"

definition digit_value :: "char \<Rightarrow> nat option" where
  "digit_value c = (let k = (of_char c :: nat) in if 48 \<le> k \<and> k \<le> 57 then Some (k - 48) else None)"

fun parse_digits :: "nat \<Rightarrow> string \<Rightarrow> nat option" where
  "parse_digits acc [] = Some acc"
| "parse_digits acc (c # cs) =
     (case digit_value c of None \<Rightarrow> None | Some d \<Rightarrow> parse_digits (10 * acc + d) cs)"

definition parse_nat :: "string \<Rightarrow> nat option" where
  "parse_nat s = (if s = [] then None else parse_digits 0 s)"

definition ParseInt :: "string \<Rightarrow> int option" where
  "ParseInt s =
     (let v = (case s of
                 [] \<Rightarrow> None
               | c # cs \<Rightarrow> (if c = CHR ''-'' then map_option (\<lambda>n. - int n) (parse_nat cs)
                           else if c = CHR ''+'' then map_option int (parse_nat cs)
                           else map_option int (parse_nat s)))
      in case v of None \<Rightarrow> None | Some n \<Rightarrow> if int64_ok n then Some n else None)"

lemma digit_value_digit [simp]: "n < 10 \<Longrightarrow> digit_value (digit n) = Some n"
  by (simp add: digit_value_def digit_def Let_def)

lemma digit_no_sign: "n < 10 \<Longrightarrow> digit n \<noteq> CHR ''-'' \<and> digit n \<noteq> CHR ''+'' \<and> digit n \<noteq> CHR '':''"
  using digit_value_digit [of n] by (auto simp: digit_value_def)

lemma parse_digits_append:
  "parse_digits a (xs @ ys) = (case parse_digits a xs of None \<Rightarrow> None | Some b \<Rightarrow> parse_digits b ys)"
  by (induction xs arbitrary: a) (auto split: option.splits)

lemma parse_decimal: "parse_digits 0 (decimal n) = Some n"
proof (induction n rule: decimal.induct)
  case (1 n)
  show ?case
  proof (cases "n < 10")
    case True
    then show ?thesis by (simp add: decimal.simps [of n])
  next
    case False
    then have "parse_digits 0 (decimal n) = Some (10 * (n div 10) + n mod 10)"
      using 1 by (simp add: decimal.simps [of n] parse_digits_append)
    then show ?thesis by simp
  qed
qed

lemma decimal_digits: "c \<in> set (decimal n) \<Longrightarrow> \<exists>d < 10. c = digit d"
proof (induction n rule: decimal.induct)
  case (1 n)
  then show ?case
    by (cases "n < 10") (auto simp: decimal.simps [of n] intro: exI [of _ "n mod 10"])
qed

lemma decimal_ne [simp]: "decimal n \<noteq> []"
  by (simp add: decimal.simps [of n])

lemma decimal_no_sign: "c \<in> set (decimal n) \<Longrightarrow> c \<noteq> CHR ''-'' \<and> c \<noteq> CHR ''+'' \<and> c \<noteq> CHR '':''"
  by (auto dest!: decimal_digits simp: digit_no_sign)

lemma ParseInt_showInt: "int64_ok n \<Longrightarrow> ParseInt (showInt n) = Some n"
proof (cases "n < 0")
  case True
  assume "int64_ok n"
  with True show ?thesis
    by (simp add: ParseInt_def showInt_def parse_nat_def parse_decimal Let_def)
next
  case False
  assume ok: "int64_ok n"
  obtain c cs where s: "decimal (nat n) = c # cs" by (cases "decimal (nat n)") auto
  then have "c \<noteq> CHR ''-'' \<and> c \<noteq> CHR ''+''" using decimal_no_sign [of c "nat n"] by simp
  with False ok s parse_decimal [of "nat n"] show ?thesis
    by (simp add: ParseInt_def showInt_def parse_nat_def Let_def)
qed

lemma showInt_no_colon: "CHR '':'' \<notin> set (showInt n)"
  using decimal_no_sign by (auto simp: showInt_def)

section \<open>Joining and splitting\<close>

fun Join :: "string list \<Rightarrow> string \<Rightarrow> string" where
  "Join [] sep = []"
| "Join [x] sep = x"
| "Join (x # y # ys) sep = x @ sep @ Join (y # ys) sep"

text \<open>\<open>strings.SplitN(s, c, 2)\<close> for a one-character separator.\<close>

definition SplitN2 :: "string \<Rightarrow> char \<Rightarrow> string list" where
  "SplitN2 s c =
     (case dropWhile (\<lambda>x. x \<noteq> c) s of
        [] \<Rightarrow> [s]
      | _ # rest \<Rightarrow> [takeWhile (\<lambda>x. x \<noteq> c) s, rest])"

lemma SplitN2_join: "c \<notin> set a \<Longrightarrow> SplitN2 (a @ c # b) c = [a, b]"
proof -
  assume "c \<notin> set a"
  then have "\<And>x. x \<in> set a \<Longrightarrow> x \<noteq> c" by blast
  then show ?thesis by (simp add: SplitN2_def dropWhile_append2 takeWhile_append2)
qed

lemma append_sep_inj:
  fixes c :: char
  assumes "c \<notin> set a" and "c \<notin> set a'" and "a @ c # b = a' @ c # b'"
  shows "a = a' \<and> b = b'"
proof -
  have "[a, b] = [a', b']"
    by (metis SplitN2_join assms)
  then show ?thesis by simp
qed


section \<open>Base64\<close>

text \<open>
  \<open>base64.StdEncoding\<close>: groups of three bytes become four characters of the alphabet, the last group
  is padded. The decoder skips line breaks, demands the padding at the end and nothing after it, and
  ignores unused trailing bits, as Go's non-strict encoding does.
\<close>

definition b64_alphabet :: string where
  "b64_alphabet = ''ABCDEFGHIJKLMNOPQRSTUVWXYZabcdefghijklmnopqrstuvwxyz0123456789+/''"

definition b64_char :: "nat \<Rightarrow> char" where
  "b64_char n = b64_alphabet ! n"

definition b64_value :: "char \<Rightarrow> nat option" where
  "b64_value c = find (\<lambda>n. b64_alphabet ! n = c) [0..<64]"

definition sextets :: "nat \<Rightarrow> nat \<Rightarrow> nat \<Rightarrow> nat list" where
  "sextets a b c = [a div 4, a mod 4 * 16 + b div 16, b mod 16 * 4 + c div 64, c mod 64]"

definition byte :: "char \<Rightarrow> nat" where
  "byte c = of_char c"

fun EncodeToString :: "string \<Rightarrow> string" where
  "EncodeToString [] = []"
| "EncodeToString [a] = map b64_char (take 2 (sextets (byte a) 0 0)) @ ''==''"
| "EncodeToString [a, b] = map b64_char (take 3 (sextets (byte a) (byte b) 0)) @ ''=''"
| "EncodeToString (a # b # c # rest) = map b64_char (sextets (byte a) (byte b) (byte c)) @ EncodeToString rest"

definition decode_group :: "char list \<Rightarrow> nat list option" where
  "decode_group cs = those (map b64_value cs)"

fun octets :: "nat list \<Rightarrow> string" where
  "octets [p, q] = [char_of (p * 4 + q div 16)]"
| "octets [p, q, r] = [char_of (p * 4 + q div 16), char_of (q mod 16 * 16 + r div 4)]"
| "octets [p, q, r, s] = [char_of (p * 4 + q div 16), char_of (q mod 16 * 16 + r div 4), char_of (r mod 4 * 64 + s)]"
| "octets _ = []"

fun decode_groups :: "string \<Rightarrow> string option" where
  "decode_groups [] = Some []"
| "decode_groups (a # b # c # d # rest) =
     (if d = CHR ''='' then
        (if rest \<noteq> [] then None
         else if c = CHR ''='' then map_option octets (decode_group [a, b])
         else map_option octets (decode_group [a, b, c]))
      else (case decode_group [a, b, c, d] of
              None \<Rightarrow> None
            | Some g \<Rightarrow> map_option (\<lambda>s. octets g @ s) (decode_groups rest)))"
| "decode_groups _ = None"

definition DecodeString :: "string \<Rightarrow> string option" where
  "DecodeString s = decode_groups (filter (\<lambda>c. c \<noteq> char_of (10 :: nat) \<and> c \<noteq> char_of (13 :: nat)) s)"

lemma b64_table: "list_all (\<lambda>n. b64_value (b64_char n) = Some n \<and> b64_char n \<noteq> CHR ''='' \<and>
    b64_char n \<noteq> char_of (10 :: nat) \<and> b64_char n \<noteq> char_of (13 :: nat)) [0..<64]"
  by code_simp

lemma b64_char_facts:
  assumes "n < 64"
  shows "b64_value (b64_char n) = Some n" "b64_char n \<noteq> CHR ''=''"
    "b64_char n \<noteq> char_of (10 :: nat)" "b64_char n \<noteq> char_of (13 :: nat)"
  using b64_table assms by (simp_all add: list_all_iff)

lemma byte_less [simp]: "byte c < 256"
  by (simp add: byte_def)

lemma char_of_byte [simp]: "char_of (byte c) = c"
  by (simp add: byte_def)

lemma sextets_less:
  fixes a b c :: nat
  assumes "a < 256" "b < 256" "c < 256"
  shows "a div 4 < 64" "a mod 4 * 16 + b div 16 < 64" "b mod 16 * 4 + c div 64 < 64" "c mod 64 < 64"
proof -
  have "a mod 4 < 4" "b div 16 < 16" "b mod 16 < 16" "c div 64 < 4" using assms by (simp_all add: less_mult_imp_div_less)
  then show "a mod 4 * 16 + b div 16 < 64" "b mod 16 * 4 + c div 64 < 64" by linarith+
  show "a div 4 < 64" "c mod 64 < 64" using assms by (simp_all add: less_mult_imp_div_less)
qed

lemma sextets_back:
  fixes a b c :: nat
  assumes "b < 256" "c < 256"
  shows "a div 4 * 4 + (a mod 4 * 16 + b div 16) div 16 = a"
    "(a mod 4 * 16 + b div 16) mod 16 * 16 + (b mod 16 * 4 + c div 64) div 4 = b"
    "(b mod 16 * 4 + c div 64) mod 4 * 64 + c mod 64 = c"
proof -
  have "b div 16 < 16" "c div 64 < 4" using assms by (simp_all add: less_mult_imp_div_less)
  then have "(a mod 4 * 16 + b div 16) div 16 = a mod 4" "(a mod 4 * 16 + b div 16) mod 16 = b div 16"
    "(b mod 16 * 4 + c div 64) div 4 = b mod 16" "(b mod 16 * 4 + c div 64) mod 4 = c div 64"
    by simp_all
  then show "a div 4 * 4 + (a mod 4 * 16 + b div 16) div 16 = a"
    "(a mod 4 * 16 + b div 16) mod 16 * 16 + (b mod 16 * 4 + c div 64) div 4 = b"
    "(b mod 16 * 4 + c div 64) mod 4 * 64 + c mod 64 = c"
    by simp_all
qed

lemma nibbles [simp]: "byte b div 16 mod 16 * 16 + byte b mod 16 = byte b"
proof -
  have "byte b div 16 < 16" using byte_less [of b] by (simp add: less_mult_imp_div_less)
  then show ?thesis by simp
qed

lemma pad_no_break: "CHR ''='' \<noteq> char_of (10 :: nat)" "CHR ''='' \<noteq> char_of (13 :: nat)"
  by code_simp+

lemma decode_encode_groups: "decode_groups (EncodeToString s) = Some s"
proof (induction s rule: EncodeToString.induct)
  case (2 a)
  note l = sextets_less [of "byte a" 0 0] and b = sextets_back(1) [of 0 0 "byte a"]
  from l b show ?case
    by (simp add: sextets_def decode_group_def b64_char_facts)
next
  case (3 a b)
  note l = sextets_less [of "byte a" "byte b" 0] and bk = sextets_back(1,2) [of "byte b" 0 "byte a"]
  from l bk show ?case
    by (simp add: sextets_def decode_group_def b64_char_facts numeral_3_eq_3)
next
  case (4 a b c rest)
  note l = sextets_less [of "byte a" "byte b" "byte c"] and bk = sextets_back(1,2) [of "byte b" "byte c" "byte a"] sextets_back(3) [of "byte b" "byte c"]
  from l bk 4 show ?case
    by (simp add: sextets_def decode_group_def b64_char_facts)
qed simp

lemma encode_no_break: "x \<in> set (EncodeToString s) \<Longrightarrow> x \<noteq> char_of (10 :: nat) \<and> x \<noteq> char_of (13 :: nat)"
proof (induction s rule: EncodeToString.induct)
  case (2 a)
  with sextets_less [of "byte a" 0 0] show ?case by (auto simp: sextets_def b64_char_facts pad_no_break)
next
  case (3 a b)
  with sextets_less [of "byte a" "byte b" 0] show ?case by (auto simp: sextets_def b64_char_facts numeral_3_eq_3 pad_no_break)
next
  case (4 a b c rest)
  with sextets_less [of "byte a" "byte b" "byte c"] show ?case by (auto simp: sextets_def b64_char_facts pad_no_break)
qed simp

lemma DecodeString_Encode: "DecodeString (EncodeToString s) = Some s"
proof -
  have "filter (\<lambda>c. c \<noteq> char_of (10 :: nat) \<and> c \<noteq> char_of (13 :: nat)) (EncodeToString s) = EncodeToString s"
    using encode_no_break by (simp add: filter_id_conv)
  then show ?thesis by (simp add: DecodeString_def decode_encode_groups)
qed

section \<open>Trimming\<close>

text \<open>
  \<open>strings.TrimSpace\<close> on UTF-8 text: the byte sequences of the code points with the White_Space property.
\<close>

definition white_space :: "string list" where
  "white_space =
     map (map (char_of :: nat \<Rightarrow> char))
       ([[9], [10], [11], [12], [13], [32], [194, 133], [194, 160], [225, 154, 128]] @
        map (\<lambda>n. [226, 128, n]) [128, 129, 130, 131, 132, 133, 134, 135, 136, 137, 138, 168, 169, 175] @
        [[226, 129, 159], [227, 128, 128]])"

definition has_prefix :: "string \<Rightarrow> string \<Rightarrow> bool" where
  "has_prefix s p \<longleftrightarrow> take (length p) s = p"

definition trim_step :: "string list \<Rightarrow> string \<Rightarrow> string option" where
  "trim_step ps s = (case find (\<lambda>p. p \<noteq> [] \<and> s \<noteq> [] \<and> has_prefix s p) ps of None \<Rightarrow> None | Some p \<Rightarrow> Some (drop (length p) s))"

lemma trim_step_shorter: "trim_step ps s = Some t \<Longrightarrow> length t < length s"
  by (auto simp: trim_step_def find_Some_iff split: option.splits)

function trim_left :: "string list \<Rightarrow> string \<Rightarrow> string" where
  "trim_left ps s = (case trim_step ps s of None \<Rightarrow> s | Some t \<Rightarrow> trim_left ps t)"
  by pat_completeness auto
termination by (relation "measure (\<lambda>(ps, s). length s)") (auto dest: trim_step_shorter)

declare trim_left.simps [simp del]

definition TrimSpace :: "string \<Rightarrow> string" where
  "TrimSpace s = rev (trim_left (map rev white_space) (rev (trim_left white_space s)))"

text \<open>Trimming ends: what is left has no white space to trim.\<close>

lemma trim_left_fixed: "trim_step ps (trim_left ps s) = None"
proof (induction ps s rule: trim_left.induct)
  case (1 ps s)
  show ?case
  proof (cases "trim_step ps s")
    case None
    then show ?thesis by (simp add: trim_left.simps [of ps s])
  next
    case (Some t)
    then show ?thesis using 1 by (simp add: trim_left.simps [of ps s])
  qed
qed

end
