(* ===== verification/Stale_Window.thy ===== *)
theory Stale_Window
  imports Text_Codec Store_Devices
begin

text \<open>
  \<open>internal/server/stale/window.go\<close> and \<open>internal/server/stale/notice.go\<close>: how long an address may
  go unconfirmed, the four warning rungs before its expiry, and who is told what. Go's \<open>int64\<close>
  values are integers here; \<open>Rungs_exact\<close> below shows that no product leaves 64 bits for a window the
  configuration accepts. Go's \<open>/\<close> truncates (\<open>sdiv\<close>).
\<close>

section \<open>The window\<close>

definition secondsPerDay :: int where
  "secondsPerDay = 86400"

definition Window :: "FeedSection \<Rightarrow> int" where
  "Window cfg = fs_ExpireAfterDays cfg * secondsPerDay"

definition ExpiresAt :: "int \<Rightarrow> int \<Rightarrow> int" where
  "ExpiresAt confirmedAt window = confirmedAt + window"

definition Rungs :: "int \<Rightarrow> int list" where
  "Rungs window = [window sdiv 3, (2 * window) sdiv 3, (17 * window) sdiv 21, (20 * window) sdiv 21]"

definition FirstRung :: "FeedSection \<Rightarrow> int" where
  "FirstRung cfg = Rungs (Window cfg) ! 0"

text \<open>The loop of \<open>DueRung\<close>: \<open>i\<close> is the index, \<open>due\<close> the accumulator.\<close>

fun due_loop :: "int \<Rightarrow> int \<Rightarrow> int \<Rightarrow> int list \<Rightarrow> int" where
  "due_loop i due elapsed [] = due"
| "due_loop i due elapsed (at # ats) = due_loop (i + 1) (if elapsed \<ge> at then i + 1 else due) elapsed ats"

definition DueRung :: "int \<Rightarrow> int \<Rightarrow> int" where
  "DueRung window elapsed = due_loop 0 0 elapsed (Rungs window)"

section \<open>Notices\<close>

datatype Kind = KindWarning | KindRemoved

datatype Audience = AudienceOwner | AudienceAdmin

text \<open>\<open>Remaining\<close> is a \<open>time.Duration\<close> that always holds whole seconds; it is kept in seconds.\<close>

record Notice =
  n_Kind :: Kind
  n_Rung :: int
  n_Device :: Device
  n_Owner :: User
  n_Family :: int
  n_ExpiresAt :: int
  n_Remaining :: int
  n_Surviving :: "int list"

definition zeroUser :: User where
  "zeroUser = \<lparr> u_ID = '''', u_Email = '''', u_Role = '''', u_OIDCProvider = '''', u_OIDCSubject = '''',
     u_Disabled = False, u_CreatedAt = 0, u_UpdatedAt = 0, u_PendingEmail = '''', u_PendingEmailExpiresAt = 0 \<rparr>"

definition RecipientsFor :: "Kind \<Rightarrow> int \<Rightarrow> Audience list" where
  "RecipientsFor kind rung =
     (if kind = KindRemoved \<or> rung \<ge> 3 then [AudienceOwner, AudienceAdmin] else [AudienceOwner])"

definition familyName :: "int \<Rightarrow> string" where
  "familyName f = (if f = 6 then ''IPv6'' else ''IPv4'')"

text \<open>
  \<open>int(d.Hours() / 24)\<close> on a whole number of seconds: the quotient of two floats is within one part
  in 2^50 of the exact one, which is at least 1/86400 away from the next integer.
\<close>

definition HumanDays :: "int \<Rightarrow> string" where
  "HumanDays seconds =
     (let days = seconds sdiv 86400 in
      if days < 1 then ''under a day''
      else if days = 1 then ''1 day''
      else decimal (nat days) @ '' days'')"

definition OwnerSubject :: "Notice \<Rightarrow> string" where
  "OwnerSubject n =
     (if n_Kind n = KindRemoved
      then familyName (n_Family n) @ '' address removed from the gateway feed: '' @ d_Label (n_Device n)
      else familyName (n_Family n) @ '' address expires in '' @ HumanDays (n_Remaining n) @ '': '' @
           d_Label (n_Device n))"

definition AdminDigestSubject :: "Notice list \<Rightarrow> string" where
  "AdminDigestSubject ns =
     ''Gateway feed: '' @ decimal (length ns) @ '' device address(es) expiring or removed''"

section \<open>The ladder\<close>

lemma Rungs_div:
  "0 < w \<Longrightarrow> Rungs w = [w div 3, 2 * w div 3, 17 * w div 21, 20 * w div 21]"
  by (simp add: Rungs_def sdiv_nonneg)

lemma Rungs_length [simp]: "length (Rungs w) = 4"
  by (simp add: Rungs_def)

lemma Rungs_increasing:
  assumes "secondsPerDay \<le> w"
  shows "0 < Rungs w ! 0" "Rungs w ! 0 < Rungs w ! 1" "Rungs w ! 1 < Rungs w ! 2" "Rungs w ! 2 < Rungs w ! 3"
    "Rungs w ! 3 < w"
proof -
  have w: "86400 \<le> w" using assms by (simp add: secondsPerDay_def)
  then have r: "Rungs w = [w div 3, 2 * w div 3, 17 * w div 21, 20 * w div 21]" by (simp add: Rungs_div)
  show "0 < Rungs w ! 0" using w by (simp add: r)
  show "Rungs w ! 0 < Rungs w ! 1" using w by (simp add: r)
  show "Rungs w ! 1 < Rungs w ! 2" using w by (simp add: r numeral_2_eq_2)
  show "Rungs w ! 2 < Rungs w ! 3" using w by (simp add: r numeral_2_eq_2 numeral_3_eq_3)
  show "Rungs w ! 3 < w" using w by (simp add: r numeral_3_eq_3)
qed

text \<open>On a sorted list the loop counts the rungs reached.\<close>

lemma due_loop_sorted:
  assumes "sorted ats" and "0 \<le> d" and "d \<le> i"
  shows "due_loop i d e ats = (if filter (\<lambda>a. a \<le> e) ats = [] then d else i + int (length (filter (\<lambda>a. a \<le> e) ats)))"
  using assms
proof (induction ats arbitrary: i d)
  case (Cons a ats)
  have none: "filter (\<lambda>x. x \<le> e) ats = []" if "\<not> a \<le> e"
    using that Cons.prems(1) by (auto simp: filter_empty_conv)
  show ?case
    using Cons.IH [of "i + 1" "i + 1"] Cons.IH [of d "i + 1"] Cons.prems none
    by (cases "a \<le> e") auto
qed simp

lemma Rungs_sorted: "secondsPerDay \<le> w \<Longrightarrow> sorted (Rungs w)"
  using Rungs_increasing [of w] by (simp add: Rungs_def numeral_2_eq_2 numeral_3_eq_3)

lemma DueRung_count:
  "secondsPerDay \<le> w \<Longrightarrow> DueRung w e = int (length (filter (\<lambda>a. a \<le> e) (Rungs w)))"
  by (simp add: DueRung_def due_loop_sorted Rungs_sorted)

lemma length_filter_mono:
  "(\<And>x. P x \<Longrightarrow> Q x) \<Longrightarrow> length (filter P xs) \<le> length (filter Q xs)"
  by (induction xs) (auto simp: le_Suc_eq)

lemma DueRung_bounds: "secondsPerDay \<le> w \<Longrightarrow> 0 \<le> DueRung w e \<and> DueRung w e \<le> 4"
  using length_filter_le [of "\<lambda>a. a \<le> e" "Rungs w"] by (simp add: DueRung_count)

lemma DueRung_mono: "secondsPerDay \<le> w \<Longrightarrow> e \<le> e' \<Longrightarrow> DueRung w e \<le> DueRung w e'"
  using length_filter_mono [of "\<lambda>a. a \<le> e" "\<lambda>a. a \<le> e'" "Rungs w"] by (simp add: DueRung_count)

text \<open>Rung \<open>k\<close> is reached exactly when its instant has passed.\<close>

lemma DueRung_reached:
  assumes "secondsPerDay \<le> w" and "k < 4"
  shows "int k < DueRung w e \<longleftrightarrow> Rungs w ! k \<le> e"
proof -
  note r = Rungs_increasing [OF assms(1)]
  have R: "Rungs w = [Rungs w ! 0, Rungs w ! 1, Rungs w ! 2, Rungs w ! 3]"
    by (simp add: Rungs_def numeral_2_eq_2 numeral_3_eq_3)
  have "DueRung w e = (if Rungs w ! 3 \<le> e then 4 else if Rungs w ! 2 \<le> e then 3
      else if Rungs w ! 1 \<le> e then 2 else if Rungs w ! 0 \<le> e then 1 else 0)"
    unfolding DueRung_count [OF assms(1)] by (subst R) (use r in \<open>simp split: if_splits\<close>)
  moreover have "k = 0 \<or> k = 1 \<or> k = 2 \<or> k = 3" using assms(2) by auto
  ultimately show ?thesis using r by (auto split: if_splits)
qed


lemma Window_legal:
  assumes "validateFeedExpiry cfg" and "ExpiryEnabled (sv_Feed cfg)"
  shows "secondsPerDay \<le> Window (sv_Feed cfg)" "Window (sv_Feed cfg) \<le> maxRetentionDays * secondsPerDay"
  using assms by (simp_all add: validateFeedExpiry_def ExpiryEnabled_def Window_def secondsPerDay_def Let_def)

text \<open>
  C8. The warning ladder under every configuration that \<open>Load\<close> accepts with expiry on: the four rungs are
  positive, strictly increasing and all before the expiry instant, and none of the products that
  compute them leaves the range of a 64-bit integer, so the Go arithmetic is exact.
\<close>

theorem Rungs_exact:
  assumes "validServer cfg" and "ExpiryEnabled (sv_Feed cfg)"
  defines "w \<equiv> Window (sv_Feed cfg)"
  shows "sorted_wrt (<) (0 # Rungs w @ [w]) \<and> int64_ok (2 * w) \<and> int64_ok (17 * w) \<and> int64_ok (20 * w)"
proof -
  have v: "validateFeedExpiry cfg" using assms(1) by (simp add: validServer_def)
  note b = Window_legal [OF v assms(2), folded w_def]
  note r = Rungs_increasing [OF b(1)]
  have R: "Rungs w = [Rungs w ! 0, Rungs w ! 1, Rungs w ! 2, Rungs w ! 3]"
    by (simp add: Rungs_def numeral_2_eq_2 numeral_3_eq_3)
  have "sorted_wrt (<) (0 # Rungs w @ [w])"
    by (subst R) (use r in simp)
  moreover have "int64_ok (2 * w)" "int64_ok (17 * w)" "int64_ok (20 * w)"
    using b by (simp_all add: int64_ok_def secondsPerDay_def maxRetentionDays_def)
  ultimately show ?thesis by simp
qed

text \<open>At the default of 21 days the rungs are days 7, 14, 17 and 20.\<close>

lemma Rungs_exact_witness:
  "Rungs (Window (sv_Feed keyDefaults)) = map (\<lambda>d. d * 86400) [7, 14, 17, 20] \<and>
   sorted_wrt (<) (0 # Rungs (Window (sv_Feed keyDefaults)) @ [Window (sv_Feed keyDefaults)])"
  using Rungs_exact [OF keyDefaults_valid]
  by (simp add: Rungs_div Window_def keyDefaults_def secondsPerDay_def)

text \<open>
  The due rung is the number of the last rung whose instant has passed: rung \<open>k + 1\<close> is due exactly
  when the elapsed time has reached entry \<open>k\<close> of the ladder, the result is between 0 and 4,
  and as time goes on it never falls.
\<close>

theorem DueRung_correct:
  assumes "secondsPerDay \<le> w" and "k < 4"
  shows "(int k < DueRung w e \<longleftrightarrow> Rungs w ! k \<le> e) \<and> 0 \<le> DueRung w e \<and> DueRung w e \<le> 4 \<and>
         (e \<le> e' \<longrightarrow> DueRung w e \<le> DueRung w e')"
  using DueRung_reached [OF assms] DueRung_bounds [OF assms(1)] DueRung_mono [OF assms(1)] by blast

lemma DueRung_correct_witness:
  "2 < DueRung (21 * 86400) (17 * 86400) \<and> \<not> 2 < DueRung (21 * 86400) (17 * 86400 - 1)"
  using DueRung_correct [of "21 * 86400" 2 "17 * 86400"] DueRung_correct [of "21 * 86400" 2 "17 * 86400 - 1"]
  by (simp add: Rungs_div secondsPerDay_def numeral_2_eq_2)

end
