(* ===== verification/Sweep.thy ===== *)
theory Sweep
  imports Stale_Window Fanout
begin

text \<open>
  \<open>internal/server/sweep.go\<close> and \<open>internal/server/stale/dispatch.go\<close>: the hourly staleness sweep. Phase 1
  reads the candidates, phase 2 acts on each: it clears the families past their expiry and
  announces the removal, or advances the warning levels and sends the notices.

  \<open>w_mail\<close> is the list of messages handed to the notice channel; a failed send is only logged, so
  the channel returns nothing the code looks at. \<open>now\<close> is the instant \<open>Run\<close> is called with, \<open>clk\<close> the
  reading of the clock the fan-out takes itself. The context may be cancelled during a run:
  \<open>k\<close> is the number of candidates the loop reaches before \<open>ctx.Err\<close> is set.
\<close>

record Delivery =
  dv_Audience :: Audience
  dv_Recipient :: string
  dv_Notices :: "Notice list"

record mailworld = hubworld +
  w_mail :: "Delivery list"

section \<open>Dispatcher\<close>

definition Channel_Send :: "Delivery \<Rightarrow> ('z mailworld_scheme, unit) action" where
  "Channel_Send m w = (Inr (), w\<lparr>w_mail := w_mail w @ [m]\<rparr>)"

definition SendOwner :: "Notice \<Rightarrow> ('z mailworld_scheme, unit) action" where
  "SendOwner n =
     (if u_Email (n_Owner n) = '''' then ret ()
      else Channel_Send \<lparr> dv_Audience = AudienceOwner, dv_Recipient = u_Email (n_Owner n), dv_Notices = [n] \<rparr>)"

definition UserRepo_List :: "('z world_scheme, User list) action" where
  "UserRepo_List = query (\<lambda>d. map scanUser (sort_key uc_email (users d)))"

definition admin_lister :: "('z world_scheme, User list) action" where
  "admin_lister = bindE UserRepo_List (\<lambda>us. ret (filter IsEnabledAdmin us))"

definition SendAdminDigest :: "Notice list \<Rightarrow> ('z mailworld_scheme, unit) action" where
  "SendAdminDigest ns =
     (if ns = [] then ret ()
      else bindE (tryE admin_lister) (\<lambda>r.
        case r of
          Inl _ \<Rightarrow> ret ()
        | Inr admins \<Rightarrow>
            forE admins (\<lambda>a. Channel_Send
              \<lparr> dv_Audience = AudienceAdmin, dv_Recipient = u_Email a, dv_Notices = ns \<rparr>)))"

section \<open>Candidates\<close>

text \<open>The columns phase 1 selects; the other fields of the embedded \<open>store.Device\<close> stay zero.\<close>

definition scan_candidate :: "device_row \<Rightarrow> Device" where
  "scan_candidate r =
     \<lparr> d_ID = dc_id r, d_UserID = dc_user_id r, d_Label = dc_label r, d_SecretHash = '''',
       d_CurrentIPv4 = scanString (dc_current_ipv4 r), d_CurrentIPv6 = scanString (dc_current_ipv6 r),
       d_Hostname = '''', d_OS = '''', d_ClientVersion = '''', d_LastSeenAt = 0, d_Disabled = False,
       d_CreatedAt = 0, d_UpdatedAt = 0,
       d_V4ConfirmedAt = scanInt64 (dc_v4_confirmed_at r), d_V6ConfirmedAt = scanInt64 (dc_v6_confirmed_at r),
       d_V4WarnLevel = dc_v4_warn_level r, d_V6WarnLevel = dc_v6_warn_level r \<rparr>"

definition feed_eligible :: "database \<Rightarrow> device_row \<Rightarrow> bool" where
  "feed_eligible d r \<longleftrightarrow> \<not> dc_disabled r \<and> (\<exists>u \<in> set (users d). uc_id u = dc_user_id r \<and> \<not> uc_disabled u)"

definition candidateQuery :: "int \<Rightarrow> database \<Rightarrow> device_row list" where
  "candidateQuery bound d =
     sort_key dc_id
       (filter (\<lambda>r. feed_eligible d r \<and>
                    (dc_current_ipv4 r \<noteq> None \<and> scanInt64 (dc_v4_confirmed_at r) \<le> bound \<or>
                     dc_current_ipv6 r \<noteq> None \<and> scanInt64 (dc_v6_confirmed_at r) \<le> bound))
               (devices d))"

definition candidates :: "FeedSection \<Rightarrow> int \<Rightarrow> ('z world_scheme, Device list) action" where
  "candidates cfg now = query (\<lambda>d. map scan_candidate (candidateQuery (now - FirstRung cfg) d))"

definition present :: "Device \<Rightarrow> int \<Rightarrow> bool" where
  "present c family = (if family = 6 then d_CurrentIPv6 c \<noteq> '''' else d_CurrentIPv4 c \<noteq> '''')"

definition confirmedAt :: "Device \<Rightarrow> int \<Rightarrow> int" where
  "confirmedAt c family = (if family = 6 then d_V6ConfirmedAt c else d_V4ConfirmedAt c)"

definition warnLevel :: "Device \<Rightarrow> int \<Rightarrow> int" where
  "warnLevel c family = (if family = 6 then d_V6WarnLevel c else d_V4WarnLevel c)"

definition survivors :: "Device \<Rightarrow> bool \<Rightarrow> bool \<Rightarrow> int list" where
  "survivors c v4Due v6Due =
     (if present c 4 \<and> \<not> v4Due then [4] else []) @ (if present c 6 \<and> \<not> v6Due then [6] else [])"

definition survivingAfter :: "Device \<Rightarrow> int \<Rightarrow> int list" where
  "survivingAfter c family = filter (\<lambda>f. f \<noteq> family \<and> present c f) [4, 6]"

section \<open>Acting on one candidate\<close>

definition deliver :: "Device \<Rightarrow> Notice \<Rightarrow> ('z mailworld_scheme, Notice list) action" where
  "deliver c n0 =
     bindE (tryE (UserRepo_GetByID (d_UserID c))) (\<lambda>r.
       case r of
         Inl _ \<Rightarrow> ret []
       | Inr owner \<Rightarrow>
           (let n = n0\<lparr>n_Owner := owner\<rparr>; to = RecipientsFor (n_Kind n) (n_Rung n) in
            bindE (forE to (\<lambda>a. case a of AudienceOwner \<Rightarrow> SendOwner n | AudienceAdmin \<Rightarrow> ret ()))
              (\<lambda>_. ret (concat (map (\<lambda>a. case a of AudienceOwner \<Rightarrow> [] | AudienceAdmin \<Rightarrow> [n]) to)))))"

text \<open>The loops of \<open>removed\<close> and \<open>warn\<close> range over the families left, accumulating \<open>forAdmins\<close>.\<close>

fun removed_loop ::
  "Device \<Rightarrow> bool \<Rightarrow> bool \<Rightarrow> int \<Rightarrow> Notice list \<Rightarrow> int list \<Rightarrow> ('z mailworld_scheme, Notice list) action" where
  "removed_loop c v4Due v6Due now forAdmins [] = ret forAdmins"
| "removed_loop c v4Due v6Due now forAdmins (f # fs) =
     (if f = 4 \<and> \<not> v4Due \<or> f = 6 \<and> \<not> v6Due then removed_loop c v4Due v6Due now forAdmins fs
      else bindE (deliver c \<lparr> n_Kind = KindRemoved, n_Rung = 0, n_Device = c, n_Owner = zeroUser,
                    n_Family = f, n_ExpiresAt = now, n_Remaining = 0,
                    n_Surviving = survivors c v4Due v6Due \<rparr>)
             (\<lambda>ns. removed_loop c v4Due v6Due now (forAdmins @ ns) fs))"

definition removed :: "Device \<Rightarrow> bool \<Rightarrow> bool \<Rightarrow> int \<Rightarrow> ('z mailworld_scheme, Notice list) action" where
  "removed c v4Due v6Due now = removed_loop c v4Due v6Due now [] [4, 6]"

definition warning :: "Device \<Rightarrow> int \<Rightarrow> int \<Rightarrow> int \<Rightarrow> int \<Rightarrow> Notice" where
  "warning c w now f due =
     \<lparr> n_Kind = KindWarning, n_Rung = due, n_Device = c, n_Owner = zeroUser, n_Family = f,
       n_ExpiresAt = ExpiresAt (confirmedAt c f) w, n_Remaining = ExpiresAt (confirmedAt c f) w - now,
       n_Surviving = survivingAfter c f \<rparr>"

fun warn_loop ::
  "Device \<Rightarrow> int \<Rightarrow> int \<Rightarrow> Notice list \<Rightarrow> int list \<Rightarrow> ('z mailworld_scheme, Notice list) action" where
  "warn_loop c w now forAdmins [] = ret forAdmins"
| "warn_loop c w now forAdmins (f # fs) =
     (if \<not> present c f then warn_loop c w now forAdmins fs
      else
        (let due = DueRung w (now - confirmedAt c f); level = warnLevel c f in
         if due \<le> level then warn_loop c w now forAdmins fs
         else
           bindE (AdvanceWarnLevel (d_ID c) f due level (d_V4ConfirmedAt c) (d_V6ConfirmedAt c) now) (\<lambda>ok.
             if \<not> ok then warn_loop c w now forAdmins fs
             else bindE (deliver c (warning c w now f due))
                    (\<lambda>ns. warn_loop c w now (forAdmins @ ns) fs))))"

definition warn :: "Device \<Rightarrow> int \<Rightarrow> int \<Rightarrow> ('z mailworld_scheme, Notice list) action" where
  "warn c w now = warn_loop c w now [] [4, 6]"

definition act :: "fanout \<Rightarrow> FeedSection \<Rightarrow> int \<Rightarrow> Device \<Rightarrow> int \<Rightarrow> ('z mailworld_scheme, Notice list) action" where
  "act f cfg clk c now =
     (let w = Window cfg;
          v4Due = (present c 4 \<and> now \<ge> ExpiresAt (d_V4ConfirmedAt c) w);
          v6Due = (present c 6 \<and> now \<ge> ExpiresAt (d_V6ConfirmedAt c) w) in
      if v4Due \<or> v6Due
      then bindE (ExpireAddresses f clk c v4Due v6Due \<lparr> cf_V4 = d_V4ConfirmedAt c, cf_V6 = d_V6ConfirmedAt c \<rparr>)
             (\<lambda>ok. if \<not> ok then ret [] else removed c v4Due v6Due now)
      else warn c w now)"

section \<open>A sweep tick\<close>

fun run_loop ::
  "fanout \<Rightarrow> FeedSection \<Rightarrow> int \<Rightarrow> int \<Rightarrow> nat \<Rightarrow> Notice list \<Rightarrow> Device list \<Rightarrow> ('z mailworld_scheme, Notice list) action" where
  "run_loop f cfg clk now k digest [] = ret digest"
| "run_loop f cfg clk now 0 digest (c # cs) = fail ErrDriver"
| "run_loop f cfg clk now (Suc k) digest (c # cs) =
     bindE (tryE (act f cfg clk c now)) (\<lambda>r.
       case r of
         Inl _ \<Rightarrow> run_loop f cfg clk now k digest cs
       | Inr forAdmins \<Rightarrow> run_loop f cfg clk now k (digest @ forAdmins) cs)"

definition sweeper_Run :: "fanout \<Rightarrow> FeedSection \<Rightarrow> int \<Rightarrow> nat \<Rightarrow> int \<Rightarrow> ('z mailworld_scheme, unit) action" where
  "sweeper_Run f cfg clk k now =
     bindE (candidates cfg now) (\<lambda>cands.
       bindE (run_loop f cfg clk now k [] cands) (\<lambda>digest. SendAdminDigest digest))"

end
