(* ===== verification/Sweep_Props.thy ===== *)
theory Sweep_Props
  imports Sweep Samples
begin

text \<open>
  Safety of the staleness sweep: whatever fails, and however stale the candidate it acts on, no
  address is removed before its own window has passed.
\<close>

section \<open>No early expiry\<close>

text \<open>
  \<open>swept_row W now r r'\<close>: the row kept its identity and confirmation instants, and each family kept its
  address or lost it at an instant past its own expiry.
\<close>

definition swept_row :: "int \<Rightarrow> int \<Rightarrow> device_row \<Rightarrow> device_row \<Rightarrow> bool" where
  "swept_row W now r r' \<longleftrightarrow>
     dc_id r' = dc_id r \<and> dc_user_id r' = dc_user_id r \<and> dc_label r' = dc_label r \<and>
     dc_disabled r' = dc_disabled r \<and> dc_secret_hash r' = dc_secret_hash r \<and>
     dc_v4_confirmed_at r' = dc_v4_confirmed_at r \<and> dc_v6_confirmed_at r' = dc_v6_confirmed_at r \<and>
     (dc_current_ipv4 r' = dc_current_ipv4 r \<or>
      dc_current_ipv4 r' = None \<and> ExpiresAt (scanInt64 (dc_v4_confirmed_at r)) W \<le> now) \<and>
     (dc_current_ipv6 r' = dc_current_ipv6 r \<or>
      dc_current_ipv6 r' = None \<and> ExpiresAt (scanInt64 (dc_v6_confirmed_at r)) W \<le> now)"

definition swept :: "int \<Rightarrow> int \<Rightarrow> database \<Rightarrow> database \<Rightarrow> bool" where
  "swept W now d d' \<longleftrightarrow> users d' = users d \<and> list_all2 (swept_row W now) (devices d) (devices d')"

lemma swept_row_refl [simp]: "swept_row W now r r"
  by (simp add: swept_row_def)

lemma swept_row_trans: "swept_row W now a b \<Longrightarrow> swept_row W now b c \<Longrightarrow> swept_row W now a c"
  by (auto simp: swept_row_def)

interpretation swept: db_order "swept W now" for W now
  by unfold_locales
     (auto simp: swept_def list_all2_refl intro: list_all2_trans [OF swept_row_trans])

lemma swept_update:
  "(\<And>r. P r \<Longrightarrow> swept_row W now r (f r)) \<Longrightarrow> swept W now d (snd (update_devices P f d))"
  by (simp add: swept_def update_devices_def upd_where_def list_all2_map2 list_all2_same)

lemma swept_same: "users d' = users d \<Longrightarrow> devices d' = devices d \<Longrightarrow> swept W now d d'"
  by (simp add: swept_def list_all2_refl)

lemma swept_core: "keeps_core m \<Longrightarrow> follows (swept W now) m"
  by (auto simp: follows_def keeps_core_def intro!: swept_same dest: core_eqD)

lemma swept_fanout [follows_intros]:
  "follows (swept W now) (FeedState_Bump t)" "follows (swept W now) (dispatch f t e i p)"
  by (rule swept_core, simp)+

lemma swept_append [follows_intros]: "follows (swept W now) (appendIPHistory t h)"
  unfolding appendIPHistory_def Let_def
  by (intro follows_intros swept.follows_stmt swept_same) (simp_all add: insert_history_def Let_def)

lemma swept_ExpireFamilies:
  assumes "v4 \<Longrightarrow> ExpiresAt p4 W \<le> now" and "v6 \<Longrightarrow> ExpiresAt p6 W \<le> now"
  shows "follows (swept W now) (ExpireFamilies i v4 v6 p4 p6 clk)"
  unfolding ExpireFamilies_def getDeviceTx_def
  by (intro follows_intros swept.follows_exec swept_update)
     (use assms in \<open>auto simp: swept_row_def clear_families_def pinned_def\<close>)

lemma swept_ExpireAddresses:
  assumes "v4 \<Longrightarrow> ExpiresAt (cf_V4 pin) W \<le> now" and "v6 \<Longrightarrow> ExpiresAt (cf_V6 pin) W \<le> now"
  shows "follows (swept W now) (ExpireAddresses f clk d v4 v6 pin)"
  unfolding ExpireAddresses_def Let_def
  by (intro follows_intros swept_ExpireFamilies assms)

lemma swept_AdvanceWarnLevel [follows_intros]:
  "follows (swept W now) (AdvanceWarnLevel i f l fl p4 p6 t)"
  unfolding AdvanceWarnLevel_def
  by (intro follows_intros swept.follows_exec swept_update) (simp add: swept_row_def)

text \<open>Notices do not touch the database.\<close>

lemma Channel_Send_db [simp]: "db (snd (Channel_Send m w)) = db w"
  by (simp add: Channel_Send_def)

abbreviation reads :: "('z world_scheme, 'a) action \<Rightarrow> bool" where
  "reads \<equiv> follows (\<lambda>d d'. d' = d)"

lemma reads_mail [follows_intros]:
  "reads (Channel_Send m)" "reads (SendOwner n)" "reads admin_lister" "reads (SendAdminDigest ns)"
  unfolding SendOwner_def SendAdminDigest_def admin_lister_def UserRepo_List_def
  by (intro follows_intros same.follows_same Channel_Send_db)+

lemma reads_deliver [follows_intros]: "reads (deliver c n)"
  unfolding deliver_def Let_def UserRepo_GetByID_def
  by (intro follows_intros) (auto split: Audience.split intro: follows_intros)

lemma reads_removed [follows_intros]: "reads (removed_loop c v4 v6 t ns fs)"
  by (induction fs arbitrary: ns) (auto intro!: follows_intros)

lemma swept_reads: "reads m \<Longrightarrow> follows (swept W now) m"
  by (erule follows_weaken) (simp add: swept.refl)

lemmas swept_notices [follows_intros] =
  reads_mail(4) [THEN swept_reads] reads_deliver [THEN swept_reads] reads_removed [THEN swept_reads]

lemma swept_warn [follows_intros]: "follows (swept W now) (warn_loop c W' t ns fs)"
  by (induction fs arbitrary: ns) (auto simp: Let_def intro!: follows_intros)

lemma swept_act: "follows (swept (Window cfg) now) (act f cfg clk c now)"
  unfolding act_def Let_def removed_def warn_def
  by (intro follows_intros swept_ExpireAddresses) auto

lemma swept_run_loop: "follows (swept (Window cfg) now) (run_loop f cfg clk now k dig cs)"
  by (induction f cfg clk now k dig cs rule: run_loop.induct)
     (auto intro!: follows_intros swept_act)

lemma swept_Run: "follows (swept (Window cfg) now) (sweeper_Run f cfg clk k now)"
  unfolding sweeper_Run_def candidates_def by (intro follows_intros swept_run_loop)

text \<open>
  No address is removed early. For every database, every configuration, every pattern of driver
  failures and every point of cancellation, a sweep tick leaves each device its identity and
  confirmation instants, and each family its address unless that family's own last
  confirmation lies at least the whole window before \<open>now\<close>.
\<close>

theorem sweeper_no_early_expiry:
  "users (db (snd (sweeper_Run f cfg clk k now w))) = users (db w) \<and>
   list_all2 (swept_row (Window cfg) now) (devices (db w)) (devices (db (snd (sweeper_Run f cfg clk k now w))))"
  using swept_Run [of cfg now f clk] by (auto simp: follows_def swept_def)

text \<open>
  The same holds for each single step of the sweep when the candidate is out of date: whatever
  snapshot \<open>c\<close> the step was given, a device that confirmed an address in the meantime keeps it,
  because the write is pinned to the confirmation instants of the snapshot.
\<close>

theorem act_stale_candidate_safe:
  "users (db (snd (act f cfg clk c now w))) = users (db w) \<and>
   list_all2 (swept_row (Window cfg) now) (devices (db w)) (devices (db (snd (act f cfg clk c now w))))"
  using swept_act [of cfg now f clk] by (auto simp: follows_def swept_def)

end
