(* ===== verification/Sweep_Exact.thy ===== *)
theory Sweep_Exact
  imports Sweep_Props
begin

text \<open>
  The sweep against its specification. \<open>sweep_row\<close> says what one tick does to one row: families past
  their expiry are cleared, otherwise each warning level rises to the rung that is due. Without
  driver failures and cancellation a tick applies it to every device the feed could list,
  and to no other.
\<close>

definition row_has :: "int \<Rightarrow> device_row \<Rightarrow> bool" where
  "row_has f r = (if f = 6 then dc_current_ipv6 r \<noteq> None else dc_current_ipv4 r \<noteq> None)"

definition row_confirmed :: "int \<Rightarrow> device_row \<Rightarrow> int" where
  "row_confirmed f r = scanInt64 (if f = 6 then dc_v6_confirmed_at r else dc_v4_confirmed_at r)"

definition row_level :: "int \<Rightarrow> device_row \<Rightarrow> int" where
  "row_level f r = (if f = 6 then dc_v6_warn_level r else dc_v4_warn_level r)"

definition family_due :: "int \<Rightarrow> int \<Rightarrow> int \<Rightarrow> device_row \<Rightarrow> bool" where
  "family_due W now f r \<longleftrightarrow> row_has f r \<and> row_confirmed f r + W \<le> now"

definition raise_level :: "int \<Rightarrow> int \<Rightarrow> int \<Rightarrow> device_row \<Rightarrow> device_row" where
  "raise_level f level now r =
     (if f = 6 then r\<lparr>dc_v6_warn_level := level\<rparr> else r\<lparr>dc_v4_warn_level := level\<rparr>)\<lparr>dc_updated_at := now\<rparr>"

definition warn_family :: "int \<Rightarrow> int \<Rightarrow> int \<Rightarrow> device_row \<Rightarrow> device_row" where
  "warn_family W now f r =
     (let due = DueRung W (now - row_confirmed f r) in
      if row_has f r \<and> row_level f r < due then raise_level f due now r else r)"

definition sweep_row :: "int \<Rightarrow> int \<Rightarrow> int \<Rightarrow> device_row \<Rightarrow> device_row" where
  "sweep_row W clk now r =
     (if family_due W now 4 r \<or> family_due W now 6 r
      then clear_families (family_due W now 4 r) (family_due W now 6 r) clk r
      else warn_family W now 6 (warn_family W now 4 r))"

lemma row_sel_raise [simp]:
  "row_has f (raise_level g l t r) = row_has f r"
  "row_confirmed f (raise_level g l t r) = row_confirmed f r"
  "row_level 6 (raise_level 4 l t r) = row_level 6 r"
  "dc_id (raise_level g l t r) = dc_id r"
  by (simp_all add: row_has_def row_confirmed_def row_level_def raise_level_def)

lemma raise_level_keyed [simp]: "keyed_update (raise_level f l t)"
  unfolding raise_level_def by simp

lemma warn_family_keyed [simp]: "dc_id (warn_family W now f r) = dc_id r"
  by (simp add: warn_family_def Let_def)

lemma sweep_row_id [simp]: "dc_id (sweep_row W clk now r) = dc_id r"
  by (simp add: sweep_row_def keyed_updateD(1) [OF clear_families_keyed])

section \<open>Single updates\<close>

lemma upd_where_cong:
  "(\<And>x. x \<in> set xs \<Longrightarrow> P x = Q x) \<Longrightarrow> (\<And>x. x \<in> set xs \<Longrightarrow> Q x \<Longrightarrow> f x = g x) \<Longrightarrow>
     upd_where P f xs = upd_where Q g xs"
  by (simp add: upd_where_def)

text \<open>Updating the one row with a given id, whatever further condition that row meets.\<close>

lemma upd_where_one:
  assumes "distinct (map k xs)" and "r \<in> set xs" and "\<And>x. P x \<Longrightarrow> k x = k r" and "P r"
  shows "upd_where P f xs = upd_where (\<lambda>x. k x = k r) (\<lambda>_. f r) xs"
proof (rule upd_where_cong)
  have one: "x = r" if "x \<in> set xs" "k x = k r" for x
    using distinct_key_eq [OF assms(1) that(1) assms(2) that(2)] .
  show "P x = (k x = k r)" if "x \<in> set xs" for x using one [OF that] assms(3,4) by blast
  show "f x = f r" if "x \<in> set xs" "k x = k r" for x using one [OF that] by simp
qed

definition put_row :: "device_row \<Rightarrow> database \<Rightarrow> database" where
  "put_row r d = d\<lparr>devices := upd_where (\<lambda>x. dc_id x = dc_id r) (\<lambda>_. r) (devices d)\<rparr>"

lemma update_devices_put:
  assumes wf: "wf_db d" and r: "r \<in> set (devices d)" and "P r"
    and "\<And>x. P x \<Longrightarrow> dc_id x = dc_id r" and "dc_id (f r) = dc_id r"
  shows "update_devices P f d = (1, put_row (f r) d)"
proof -
  have dist: "distinct (map dc_id (devices d))" using wf by (simp add: wf_db_def wf_devices_def)
  have "filter P (devices d) = filter P (filter (\<lambda>x. dc_id x = dc_id r) (devices d))"
    by (subst filter_filter, rule filter_cong [OF refl]) (use assms(4) in blast)
  also have "filter (\<lambda>x. dc_id x = dc_id r) (devices d) = [r]"
    by (rule filter_key_eq [OF dist find_distinct_key [OF dist r]])
  finally have "length (filter P (devices d)) = 1" using assms(3) by simp
  moreover have "upd_where P f (devices d) = upd_where (\<lambda>x. dc_id x = dc_id r) (\<lambda>_. f r) (devices d)"
    by (rule upd_where_one [where k = dc_id, OF dist r]) (fact assms(4), fact assms(3))
  ultimately show ?thesis by (simp add: update_devices_def put_row_def assms(5))
qed

lemma put_row_mem: "r \<in> set (devices d) \<Longrightarrow> dc_id r' = dc_id r \<Longrightarrow> r' \<in> set (devices (put_row r' d))"
  by (force simp: put_row_def set_upd_where)

lemma put_row_same:
  assumes "wf_db d" and "r \<in> set (devices d)"
  shows "put_row r d = d"
proof -
  have "x = r" if "x \<in> set (devices d)" "dc_id x = dc_id r" for x
    using assms that distinct_key_eq [of dc_id "devices d" x r] by (simp add: wf_db_def wf_devices_def)
  then have "upd_where (\<lambda>x. dc_id x = dc_id r) (\<lambda>_. r) (devices d) = devices d"
    unfolding upd_where_def by (intro map_idI) auto
  then show ?thesis by (simp add: put_row_def)
qed

lemma put_row_put [simp]: "dc_id r = dc_id s \<Longrightarrow> devices (put_row r (put_row s d)) = devices (put_row r d)"
  by (auto simp: put_row_def upd_where_def)


section \<open>One candidate\<close>

lemma reads_db: "reads m \<Longrightarrow> db (snd (m w)) = db w"
  by (simp add: follows_def)

lemma candidate_sels [simp]:
  "d_ID (scan_candidate r) = dc_id r" "d_UserID (scan_candidate r) = dc_user_id r"
  "confirmedAt (scan_candidate r) f = row_confirmed f r" "warnLevel (scan_candidate r) f = row_level f r"
  "d_V4ConfirmedAt (scan_candidate r) = row_confirmed 4 r" "d_V6ConfirmedAt (scan_candidate r) = row_confirmed 6 r"
  by (simp_all add: scan_candidate_def confirmedAt_def warnLevel_def row_confirmed_def row_level_def)

lemma candidate_present:
  "wf_device_row r \<Longrightarrow> present (scan_candidate r) f = row_has f r"
  by (auto simp: present_def scan_candidate_def row_has_def wf_device_row_def scanString_empty_iff)

lemma bindE_tail: "(\<And>a v. g (snd (f a v)) = g v) \<Longrightarrow> g (snd (bindE m f w)) = g (snd (m w))"
  by (auto simp: bindE_def split: prod.split sum.split)

lemma ExpireFamilies_calm:
  fixes w :: "'z world_scheme"
  assumes wf: "wf_db (db w)" and calm: "calm w" and r: "r \<in> set (devices (db w))"
    and due: "holds_due v4 v6 r"
  shows "\<exists>hid w'. ExpireFamilies (dc_id r) v4 v6 (row_confirmed 4 r) (row_confirmed 6 r) clk w = (Inr (hid, True), w') \<and>
           devices (db w') = devices (put_row (clear_families v4 v6 clk r) (db w))"
proof -
  let ?P = "\<lambda>x. pinned (dc_id r) (row_confirmed 4 r) (row_confirmed 6 r) x \<and> holds_due v4 v6 x"
  let ?r = "clear_families v4 v6 clk r"
  have id: "dc_id ?r = dc_id r" by (simp add: clear_families_def)
  have upd: "update_devices ?P (clear_families v4 v6 clk) (db w) = (1, put_row ?r (db w))"
    by (rule update_devices_put [OF wf r]) (use due id in \<open>auto simp: pinned_def row_confirmed_def\<close>)
  have "?r \<in> set (devices (put_row ?r (db w)))" using put_row_mem [OF r id] .
  moreover have "wf_db (put_row ?r (db w))"
    using update_devices_wf [OF wf clear_families_keyed, of ?P v4 v6 clk] upd by simp
  ultimately have f: "find_device (dc_id r) (put_row ?r (db w)) = Some ?r"
    using find_device_unique id by metis
  then have mem: "dc_id r \<in> dc_id ` set (devices (put_row ?r (db w)))"
    by (auto dest!: find_deviceD intro!: image_eqI [of _ _ ?r] simp: id)
  show ?thesis
    using calm f mem
    by (auto simp: ExpireFamilies_def transact_def bindE_def upd getDeviceTx_def appendIPHistory_def
        insert_history_def Let_def)
qed

lemma ExpireAddresses_calm:
  fixes w :: "'z hubworld_scheme"
  assumes "wf_db (db w)" and "calm w" and "r \<in> set (devices (db w))" and "holds_due v4 v6 r"
  shows "devices (db (snd (ExpireAddresses f clk (scan_candidate r) v4 v6
             \<lparr> cf_V4 = row_confirmed 4 r, cf_V6 = row_confirmed 6 r \<rparr> w))) =
         devices (put_row (clear_families v4 v6 clk r) (db w))"
proof -
  obtain hid w1 where e: "ExpireFamilies (dc_id r) v4 v6 (row_confirmed 4 r) (row_confirmed 6 r) clk w = (Inr (hid, True), w1)"
    and d: "devices (db w1) = devices (put_row (clear_families v4 v6 clk r) (db w))"
    using ExpireFamilies_calm [OF assms] by blast
  let ?rest = "\<lambda>ev. bindE (tryE (FeedState_Bump clk)) (\<lambda>_.
            case RenderIPChanged (fo_codec f) ev of
              Inl _ \<Rightarrow> ret True
            | Inr payload \<Rightarrow> bindE (dispatch f clk EventIPChanged hid payload) (\<lambda>_. ret True))"
  have rest: "keeps_core (?rest ev :: ('z hubworld_scheme, bool) action)" for ev
    by (auto intro!: keeps_core_bindE split: sum.splits)
  show ?thesis
    unfolding ExpireAddresses_def
    using keeps_core_devices [OF rest] d by (simp add: bindE_def [of "ExpireFamilies _ _ _ _ _ _"] e Let_def)
qed

lemma act_expire:
  fixes w :: "'z mailworld_scheme"
  assumes wf: "wf_db (db w)" and "calm w" and r: "r \<in> set (devices (db w))"
    and due: "family_due (Window cfg) now 4 r \<or> family_due (Window cfg) now 6 r"
  shows "devices (db (snd (act f cfg clk (scan_candidate r) now w))) =
         devices (put_row (sweep_row (Window cfg) clk now r) (db w))"
proof -
  let ?d4 = "family_due (Window cfg) now 4 r" and ?d6 = "family_due (Window cfg) now 6 r"
  have row: "wf_device_row r" using wf r by (simp add: wf_db_def wf_devices_def list_all_iff)
  have hd: "holds_due ?d4 ?d6 r" using due by (auto simp: holds_due_def family_due_def row_has_def)
  have tail: "db (snd ((if \<not> ok then ret [] else removed (scan_candidate r) ?d4 ?d6 now) v)) = db v"
    for ok and v :: "'z mailworld_scheme"
    by (simp add: removed_def reads_db [OF reads_removed] del: removed_loop.simps)
  have eqs: "(present (scan_candidate r) 4 \<and> ExpiresAt (row_confirmed 4 r) (Window cfg) \<le> now) = ?d4"
    "(present (scan_candidate r) 6 \<and> ExpiresAt (row_confirmed 6 r) (Window cfg) \<le> now) = ?d6"
    by (simp_all add: candidate_present [OF row] family_due_def ExpiresAt_def)
  have "act f cfg clk (scan_candidate r) now w =
    bindE (ExpireAddresses f clk (scan_candidate r) ?d4 ?d6 \<lparr> cf_V4 = row_confirmed 4 r, cf_V6 = row_confirmed 6 r \<rparr>)
       (\<lambda>ok. if \<not> ok then ret [] else removed (scan_candidate r) ?d4 ?d6 now) w"
    using due by (simp only: act_def Let_def candidate_sels eqs if_True)
  moreover have "db (snd (bindE m (\<lambda>ok. if \<not> ok then ret [] else removed (scan_candidate r) ?d4 ?d6 now) w)) = db (snd (m w))"
    for m :: "('z mailworld_scheme, bool) action"
    by (rule bindE_tail) (rule tail)
  ultimately show ?thesis
    using ExpireAddresses_calm [OF assms(1-3) hd] due by (simp add: sweep_row_def)
qed


text \<open>One family of the warning loop: the level rises when a higher rung is due.\<close>

definition warn_step :: "Device \<Rightarrow> int \<Rightarrow> int \<Rightarrow> int \<Rightarrow> ('z mailworld_scheme, Notice list) action" where
  "warn_step c W now f =
     (let due = DueRung W (now - confirmedAt c f); level = warnLevel c f in
      if \<not> present c f \<or> due \<le> level then ret []
      else bindE (AdvanceWarnLevel (d_ID c) f due level (d_V4ConfirmedAt c) (d_V6ConfirmedAt c) now) (\<lambda>ok.
             if \<not> ok then ret [] else deliver c (warning c W now f due)))"

lemma bindE_assoc: "bindE (bindE m f) g w = bindE m (\<lambda>a. bindE (f a) g) w"
  by (simp add: bindE_def split: prod.split sum.split)

lemma warn_loop_step:
  "warn_loop c W now ns (f # fs) w = bindE (warn_step c W now f) (\<lambda>ms. warn_loop c W now (ns @ ms) fs) w"
  by (auto simp: warn_step_def Let_def bindE_def split: prod.split sum.split)

lemma warn_split: "warn c W now w = bindE (warn_step c W now 4) (\<lambda>ms. bindE (warn_step c W now 6) (\<lambda>ms'. ret (ms @ ms'))) w"
proof -
  have "warn c W now w = bindE (warn_step c W now 4) (\<lambda>ms. warn_loop c W now ms [6]) w"
    by (simp only: warn_def warn_loop_step append_Nil)
  also have "(\<lambda>ms. warn_loop c W now ms [6]) = (\<lambda>ms. bindE (warn_step c W now 6) (\<lambda>ms'. ret (ms @ ms')))"
    by (rule ext)+ (simp only: warn_loop_step warn_loop.simps(1))
  finally show ?thesis .
qed

lemma AdvanceWarnLevel_raise:
  "AdvanceWarnLevel i f l fl p4 p6 now =
     bindE (exec (update_devices (\<lambda>r. pinned i p4 p6 r \<and> row_level f r = fl) (raise_level f l now))) (\<lambda>n. ret (n = 1))"
  unfolding AdvanceWarnLevel_def raise_level_def [abs_def] row_level_def ..

lemma warn_step_calm:
  fixes w :: "'z mailworld_scheme"
  assumes wf: "wf_db (db w)" and "calm w" and r: "r \<in> set (devices (db w))"
    and same: "row_level f r = row_level f r0" "row_confirmed 4 r = row_confirmed 4 r0"
      "row_confirmed 6 r = row_confirmed 6 r0" "row_has f r = row_has f r0" "dc_id r = dc_id r0"
    and f: "f = 4 \<or> f = 6" and row: "wf_device_row r0"
  shows "devices (db (snd (warn_step (scan_candidate r0) W now f w))) =
         devices (put_row (warn_family W now f r) (db w))"
    and "\<exists>ns. fst (warn_step (scan_candidate r0) W now f w) = Inr ns"
proof -
  let ?due = "DueRung W (now - row_confirmed f r0)"
  have conf: "row_confirmed f r = row_confirmed f r0" using f same by auto
  have deliver_ok: "\<exists>ns. fst (deliver c n v) = Inr ns" for c n and v :: "'z mailworld_scheme"
    by (auto simp: deliver_def Let_def bindE_def tryE_def RecipientsFor_def SendOwner_def Channel_Send_def
        split: prod.split sum.split)
  have goals: "devices (db (snd (warn_step (scan_candidate r0) W now f w))) =
         devices (put_row (warn_family W now f r) (db w)) \<and>
         (\<exists>ns. fst (warn_step (scan_candidate r0) W now f w) = Inr ns)"
  proof (cases "\<not> row_has f r0 \<or> ?due \<le> row_level f r0")
    case True
    then show ?thesis
      using put_row_same [OF wf r] same conf
      by (auto simp: warn_step_def Let_def candidate_present [OF row] warn_family_def)
  next
    case False
    let ?P = "\<lambda>x. pinned (dc_id r0) (row_confirmed 4 r0) (row_confirmed 6 r0) x \<and> row_level f x = row_level f r0"
    have upd: "update_devices ?P (raise_level f ?due now) (db w) = (1, put_row (raise_level f ?due now r) (db w))"
      by (rule update_devices_put [OF wf r])
         (use same in \<open>auto simp: pinned_def row_confirmed_def\<close>)
    have adv: "AdvanceWarnLevel (dc_id r0) f ?due (row_level f r0) (row_confirmed 4 r0) (row_confirmed 6 r0) now w =
        (Inr True, w\<lparr>db := put_row (raise_level f ?due now r) (db w)\<rparr>)"
      using upd \<open>calm w\<close> by (simp add: AdvanceWarnLevel_raise bindE_def)
    have fam: "warn_family W now f r = raise_level f ?due now r"
      using False same conf by (simp add: warn_family_def Let_def)
    have "warn_step (scan_candidate r0) W now f w =
        deliver (scan_candidate r0) (warning (scan_candidate r0) W now f ?due)
          (w\<lparr>db := put_row (raise_level f ?due now r) (db w)\<rparr>)"
      using False by (simp add: warn_step_def Let_def candidate_present [OF row] bindE_def adv)
    then show ?thesis
      using deliver_ok by (simp add: reads_db [OF reads_deliver] fam)
  qed
  from goals show "devices (db (snd (warn_step (scan_candidate r0) W now f w))) =
         devices (put_row (warn_family W now f r) (db w))" by blast
  from goals show "\<exists>ns. fst (warn_step (scan_candidate r0) W now f w) = Inr ns" by blast
qed


lemma preserves_wf_deliver [preserves_intros]: "reads m \<Longrightarrow> preserves (on_db I) m"
  by (simp add: preserves_def on_db_def follows_def)

lemma calm_mail [preserves_intros]: "preserves calm (Channel_Send m)" "preserves calm (SendOwner n)"
  by (simp_all add: preserves_def SendOwner_def Channel_Send_def)

lemma calm_deliver [preserves_intros]: "preserves calm (deliver c n)"
  unfolding deliver_def Let_def UserRepo_GetByID_def
  by (intro preserves_intros) (auto split: Audience.split intro: preserves_intros)

lemma preserves_warn_step [preserves_intros]:
  "preserves (on_db wf_db) (warn_step c W now f)" "preserves calm (warn_step c W now f)"
  unfolding warn_step_def Let_def AdvanceWarnLevel_raise
  by (intro preserves_intros reads_deliver raise_level_keyed)+

lemma act_warn:
  fixes w :: "'z mailworld_scheme"
  assumes wf: "wf_db (db w)" and calm: "calm w" and r: "r \<in> set (devices (db w))"
    and due: "\<not> (family_due (Window cfg) now 4 r \<or> family_due (Window cfg) now 6 r)"
  shows "devices (db (snd (act f cfg clk (scan_candidate r) now w))) =
         devices (put_row (sweep_row (Window cfg) clk now r) (db w))"
proof -
  let ?W = "Window cfg" and ?c = "scan_candidate r"
  have row: "wf_device_row r" using wf r by (simp add: wf_db_def wf_devices_def list_all_iff)
  let ?r1 = "warn_family ?W now 4 r"
  obtain ns where s1: "fst (warn_step ?c ?W now 4 w) = Inr ns"
    and d1: "devices (db (snd (warn_step ?c ?W now 4 w))) = devices (put_row ?r1 (db w))"
    using warn_step_calm [OF wf calm r refl refl refl refl refl _ row, of 4 ?W now] by auto
  let ?w1 = "snd (warn_step ?c ?W now 4 w)"
  have w1: "wf_db (db ?w1)" "calm ?w1"
    using preserves_warn_step [of ?c ?W now 4] wf calm by (auto simp: preserves_def on_db_def)
  have r1: "?r1 \<in> set (devices (db ?w1))" using put_row_mem [OF r, of ?r1] d1 by simp
  have d2: "devices (db (snd (warn_step ?c ?W now 6 ?w1))) = devices (put_row (warn_family ?W now 6 ?r1) (db ?w1))"
    by (rule warn_step_calm(1) [OF w1 r1]) (simp_all add: warn_family_def Let_def row)
  have "devices (put_row (warn_family ?W now 6 ?r1) (db ?w1)) = devices (put_row (warn_family ?W now 6 ?r1) (put_row ?r1 (db w)))"
    using d1 by (simp add: put_row_def)
  with d2 have d2': "devices (db (snd (warn_step ?c ?W now 6 ?w1))) = devices (put_row (warn_family ?W now 6 ?r1) (db w))"
    by simp
  have "act f cfg clk ?c now w = warn ?c ?W now w"
    using due by (auto simp: act_def Let_def candidate_present [OF row] family_due_def ExpiresAt_def)
  also have "snd \<dots> = snd (bindE (warn_step ?c ?W now 6) (\<lambda>ms'. ret (ns @ ms')) ?w1)"
    by (simp only: warn_split bindE_fst_Inr [where m = "warn_step ?c ?W now 4", OF s1])
  finally have a: "snd (act f cfg clk ?c now w) = snd (bindE (warn_step ?c ?W now 6) (\<lambda>ms'. ret (ns @ ms')) ?w1)" .
  have "db (snd (bindE (warn_step ?c ?W now 6) (\<lambda>ms'. ret (ns @ ms')) ?w1)) = db (snd (warn_step ?c ?W now 6 ?w1))"
    by (rule bindE_tail) simp
  with d2' due show ?thesis unfolding a by (simp only: sweep_row_def if_False)
qed

lemma act_row:
  fixes w :: "'z mailworld_scheme"
  assumes "wf_db (db w)" and "calm w" and "r \<in> set (devices (db w))"
  shows "devices (db (snd (act f cfg clk (scan_candidate r) now w))) =
         devices (put_row (sweep_row (Window cfg) clk now r) (db w))"
  using act_expire [OF assms] act_warn [OF assms] by blast


section \<open>The whole tick\<close>

lemma calm_removed [preserves_intros]: "preserves calm (removed_loop c v4 v6 t ns fs)"
  by (induction fs arbitrary: ns) (auto intro!: preserves_intros)

lemma calm_fanout [preserves_intros]:
  "preserves calm (hub_op g)" "preserves calm (dispatch f t e i p)" "preserves calm (FeedState_Bump t)"
  "preserves calm (ExpireFamilies j v4 v6 p4 p6 t)"
proof -
  show h: "preserves calm (hub_op g)" for g :: "hub \<Rightarrow> hub" by (simp add: preserves_def hub_op_def)
  show "preserves calm (dispatch f t e i p)"
    unfolding dispatch_def Enqueuer_Enqueue_def EndpointRepo_ListEnabled_def DeliveryRepo_Enqueue_def
    by (intro preserves_intros h)
  show "preserves calm (FeedState_Bump t)" unfolding FeedState_Bump_def by (intro preserves_intros)
  show "preserves calm (ExpireFamilies j v4 v6 p4 p6 t)"
    unfolding ExpireFamilies_def getDeviceTx_def appendIPHistory_def Let_def by (intro preserves_intros)
qed

lemma preserves_act:
  "preserves (on_db wf_db) (act f cfg clk c now)" "preserves calm (act f cfg clk c now)"
proof -
  have warn: "preserves I (warn c W now)" if "\<And>g. preserves I (warn_step c W now g)"
    for I :: "'z mailworld_scheme \<Rightarrow> bool" and W
  proof -
    have eq: "warn c W now = bindE (warn_step c W now 4) (\<lambda>ms. bindE (warn_step c W now 6) (\<lambda>ms'. ret (ms @ ms')))"
      by (rule ext) (rule warn_split)
    show ?thesis unfolding eq by (intro preserves_intros that)
  qed
  show "preserves (on_db wf_db) (act f cfg clk c now)"
    unfolding act_def Let_def removed_def by (intro preserves_intros warn reads_removed)
  show "preserves calm (act f cfg clk c now)"
    unfolding act_def Let_def removed_def ExpireAddresses_def by (intro preserves_intros warn)
qed

text \<open>Acting on a list of rows that are all in the table rewrites exactly those rows.\<close>

lemma run_loop_rows:
  fixes w :: "'z mailworld_scheme"
  assumes "wf_db (db w)" and "calm w" and "set rs \<subseteq> set (devices (db w))"
    and "distinct (map dc_id rs)" and "length rs \<le> k"
  shows "devices (db (snd (run_loop f cfg clk now k dig (map scan_candidate rs) w))) =
         upd_where (\<lambda>x. dc_id x \<in> dc_id ` set rs) (sweep_row (Window cfg) clk now) (devices (db w))"
  using assms
proof (induction rs arbitrary: w k dig)
  case Nil
  then show ?case by (simp add: upd_where_def)
next
  case (Cons r rs)
  let ?g = "sweep_row (Window cfg) clk now" and ?w1 = "snd (act f cfg clk (scan_candidate r) now w)"
  obtain k' where k: "k = Suc k'" "length rs \<le> k'" using Cons.prems(5) by (cases k) auto
  have d1: "devices (db ?w1) = devices (put_row (?g r) (db w))"
    using act_row [OF Cons.prems(1,2)] Cons.prems(3) by simp
  have w1: "wf_db (db ?w1)" "calm ?w1"
    using preserves_act [of f cfg clk "scan_candidate r" now] Cons.prems(1,2)
    by (auto simp: preserves_def on_db_def)
  have ne: "dc_id x \<noteq> dc_id r" if "x \<in> set rs" for x using Cons.prems(4) that by (auto simp: image_iff)
  have sub: "set rs \<subseteq> set (devices (db ?w1))"
    using Cons.prems(3) ne by (force simp: d1 put_row_def set_upd_where)
  have step: "snd (run_loop f cfg clk now k dig (map scan_candidate (r # rs)) w) =
      snd (run_loop f cfg clk now k' dig' (map scan_candidate rs) ?w1)"
    if "dig' = (case fst (act f cfg clk (scan_candidate r) now w) of Inl _ \<Rightarrow> dig | Inr ns \<Rightarrow> dig @ ns)" for dig'
    using that by (simp add: k bindE_def tryE_def split: prod.split sum.split)
  have one: "?g r = ?g x" if "x \<in> set (devices (db w))" "dc_id x = dc_id r" for x
    using distinct_key_eq [of dc_id "devices (db w)" x r] that Cons.prems(1,3)
    by (simp add: wf_db_def wf_devices_def)
  have "upd_where (\<lambda>x. dc_id x \<in> dc_id ` set rs) ?g (devices (db ?w1)) =
        upd_where (\<lambda>x. dc_id x \<in> dc_id ` set (r # rs)) ?g (devices (db w))"
    unfolding d1 put_row_def upd_where_def using ne one by (auto simp: image_iff) metis
  then show ?case
    using Cons.IH [OF w1 sub _ k(2)] Cons.prems(4) step by simp
qed


text \<open>A device none of whose families has reached the first rung is left alone.\<close>

definition levels_ok :: "device_row \<Rightarrow> bool" where
  "levels_ok r \<longleftrightarrow> 0 \<le> dc_v4_warn_level r \<and> 0 \<le> dc_v6_warn_level r"

lemma sweep_row_quiet:
  assumes W: "secondsPerDay \<le> W" and lv: "levels_ok r"
    and no: "\<And>f. f = 4 \<or> f = 6 \<Longrightarrow> \<not> (row_has f r \<and> row_confirmed f r \<le> now - Rungs W ! 0)"
  shows "sweep_row W clk now r = r"
proof -
  note rungs = Rungs_increasing [OF W]
  have quiet: "warn_family W now f r = r" if "f = 4 \<or> f = 6" for f
  proof (cases "row_has f r")
    case True
    then have "DueRung W (now - row_confirmed f r) \<le> 0"
      using DueRung_reached [OF W, of 0 "now - row_confirmed f r"] no [OF that] by force
    moreover have "0 \<le> row_level f r" using lv by (simp add: levels_ok_def row_level_def)
    ultimately show ?thesis by (simp add: warn_family_def Let_def)
  qed (simp add: warn_family_def Let_def)
  have "\<not> family_due W now f r" if "f = 4 \<or> f = 6" for f
    using no [OF that] rungs by (auto simp: family_due_def)
  then show ?thesis using quiet by (simp add: sweep_row_def)
qed

lemma candidates_calm:
  "calm w \<Longrightarrow> candidates cfg now w = (Inr (map scan_candidate (candidateQuery (now - FirstRung cfg) (db w))), w)"
  by (simp add: candidates_def)

lemma Run_devices:
  fixes w :: "'z mailworld_scheme"
  assumes wf: "wf_db (db w)" and calm: "calm w" and W: "secondsPerDay \<le> Window cfg"
    and lv: "list_all levels_ok (devices (db w))" and k: "length (devices (db w)) \<le> k"
  shows "devices (db (snd (sweeper_Run f cfg clk k now w))) =
         map (\<lambda>r. if feed_eligible (db w) r then sweep_row (Window cfg) clk now r else r) (devices (db w))"
proof -
  let ?g = "sweep_row (Window cfg) clk now" and ?rs = "candidateQuery (now - FirstRung cfg) (db w)"
  let ?cand = "\<lambda>r. feed_eligible (db w) r \<and>
      (row_has 4 r \<and> row_confirmed 4 r \<le> now - FirstRung cfg \<or> row_has 6 r \<and> row_confirmed 6 r \<le> now - FirstRung cfg)"
  have rs: "set ?rs = {r \<in> set (devices (db w)). ?cand r}"
    by (auto simp: candidateQuery_def row_has_def row_confirmed_def)
  have dist: "distinct (map dc_id (devices (db w)))" using wf by (simp add: wf_db_def wf_devices_def)
  have "length ?rs \<le> length (devices (db w))" by (simp add: candidateQuery_def)
  then have len: "length ?rs \<le> k" using k by simp
  have drs: "distinct (map dc_id ?rs)"
    using dist by (simp add: candidateQuery_def distinct_map inj_on_def)
  have "devices (db (snd (run_loop f cfg clk now k [] (map scan_candidate ?rs) w))) =
        upd_where (\<lambda>x. dc_id x \<in> dc_id ` set ?rs) ?g (devices (db w))"
    by (rule run_loop_rows [OF wf calm _ drs len]) (simp add: rs)
  also have "\<dots> = map (\<lambda>r. if feed_eligible (db w) r then ?g r else r) (devices (db w))"
  proof -
    have "(dc_id x \<in> dc_id ` set ?rs) = ?cand x" if "x \<in> set (devices (db w))" for x
      using distinct_key_eq [OF dist that] that by (auto simp: rs)
    moreover have "?g x = x" if "x \<in> set (devices (db w))" "feed_eligible (db w) x" "\<not> ?cand x" for x
      using that W lv by (intro sweep_row_quiet) (auto simp: FirstRung_def list_all_iff)
    ultimately show ?thesis by (auto simp: upd_where_def)
  qed
  finally have d: "devices (db (snd (run_loop f cfg clk now k [] (map scan_candidate ?rs) w))) =
      map (\<lambda>r. if feed_eligible (db w) r then ?g r else r) (devices (db w))" .
  have "db (snd (bindE (run_loop f cfg clk now k [] (map scan_candidate ?rs)) SendAdminDigest w)) =
        db (snd (run_loop f cfg clk now k [] (map scan_candidate ?rs) w))"
    by (rule bindE_tail) (simp add: reads_db [OF reads_mail(4)])
  with d show ?thesis
    using candidates_calm [OF calm] by (simp add: sweeper_Run_def bindE_def [of "candidates cfg now"])
qed

end
