(* ===== verification/Sweep_Notices.thy ===== *)
theory Sweep_Notices
  imports Sweep_Exact
begin

text \<open>
  The notices of the sweep, and the main theorems about a tick. A warning goes out only after the level
  it announces was written, so an interrupted or failing sweep can lose a notice but never
  repeat one.
\<close>

section \<open>Messages\<close>

abbreviation unsent :: "Delivery list \<Rightarrow> 'z mailworld_scheme \<Rightarrow> bool" where
  "unsent ms \<equiv> (\<lambda>w. w_mail w = ms)"

lemma unsent_stmt [preserves_intros]: "preserves (unsent ms) (stmt q)"
  by (auto simp: preserves_def stmt_def split: fault.split)

lemma unsent_statements [preserves_intros]:
  "preserves (unsent ms) (query f)" "preserves (unsent ms) (queryRow g)" "preserves (unsent ms) (exec h)"
  unfolding query_def queryRow_def exec_def by (rule unsent_stmt)+

lemma unsent_transact [preserves_intros]:
  fixes m :: "('z mailworld_scheme, bool \<times> 'a) action"
  assumes "preserves (unsent ms) m"
  shows "preserves (unsent ms) (transact m)"
proof
  fix w :: "'z mailworld_scheme"
  assume w: "unsent ms w"
  obtain r w1 where m: "m (w\<lparr>faults := tl (faults w)\<rparr>) = (r, w1)" by (cases "m (w\<lparr>faults := tl (faults w)\<rparr>)")
  from preservesD [OF assms _ m] w have "unsent ms w1" by simp
  with w m show "unsent ms (snd (transact m w))"
    by (auto simp: transact_def split: fault.splits sum.splits prod.splits bool.splits)
qed

lemma unsent_ExpireAddresses [preserves_intros]: "preserves (unsent ms) (ExpireAddresses f clk d v4 v6 pin)"
proof -
  have h: "preserves (unsent ms) (hub_op g)" for g by (simp add: preserves_def hub_op_def)
  show ?thesis
    unfolding ExpireAddresses_def Let_def ExpireFamilies_def getDeviceTx_def appendIPHistory_def FeedState_Bump_def
      dispatch_def Enqueuer_Enqueue_def EndpointRepo_ListEnabled_def DeliveryRepo_Enqueue_def
    by (intro preserves_intros h)
qed

lemma unsent_keep: "m w = (r, w') \<Longrightarrow> preserves (unsent (w_mail w)) m \<Longrightarrow> w_mail w' = w_mail w"
  using preservesD [of "unsent (w_mail w)" m w r w'] by simp

definition about :: "Notice \<Rightarrow> Delivery \<Rightarrow> bool" where
  "about n m \<longleftrightarrow> dv_Audience m = AudienceOwner \<and>
     (\<exists>u. dv_Recipient m = u_Email u \<and> u_Email u \<noteq> '''' \<and> dv_Notices m = [n\<lparr>n_Owner := u\<rparr>])"

lemma deliver_mail:
  fixes w :: "'z mailworld_scheme"
  assumes "deliver c n w = (r, w')"
  shows "\<exists>ms. w_mail w' = w_mail w @ ms \<and> list_all (about n) ms"
proof -
  obtain x w1 where g: "UserRepo_GetByID (d_UserID c) w = (x, w1)" by (cases "UserRepo_GetByID (d_UserID c) w")
  have "w_mail w1 = w_mail w"
    using g by (rule unsent_keep) (simp add: UserRepo_GetByID_def preserves_intros)
  with assms g show ?thesis
    by (cases x)
       (auto simp: deliver_def bindE_def tryE_def Let_def RecipientsFor_def SendOwner_def Channel_Send_def about_def
         split: if_splits)
qed

definition removal_mail :: "Delivery \<Rightarrow> bool" where
  "removal_mail m \<longleftrightarrow> list_all (\<lambda>n. n_Kind n = KindRemoved) (dv_Notices m)"

lemma removed_mail:
  fixes w :: "'z mailworld_scheme"
  assumes "removed_loop c v4 v6 t ns fs w = (r, w')"
  shows "\<exists>ms. w_mail w' = w_mail w @ ms \<and> list_all removal_mail ms"
  using assms
proof (induction fs arbitrary: ns w)
  case (Cons f fs)
  show ?case
  proof (cases "f = 4 \<and> \<not> v4 \<or> f = 6 \<and> \<not> v6")
    case True
    with Cons show ?thesis by auto
  next
    case False
    let ?n = "\<lparr> n_Kind = KindRemoved, n_Rung = 0, n_Device = c, n_Owner = zeroUser,
                    n_Family = f, n_ExpiresAt = t, n_Remaining = 0, n_Surviving = survivors c v4 v6 \<rparr>"
    obtain x w1 where d: "deliver c ?n w = (x, w1)" by (cases "deliver c ?n w")
    from deliver_mail [OF d] obtain ms where ms: "w_mail w1 = w_mail w @ ms" "list_all (about ?n) ms" by blast
    then have rm: "list_all removal_mail ms" by (auto simp: list_all_iff about_def removal_mail_def)
    show ?thesis
    proof (cases x)
      case (Inl e)
      with Cons.prems d False ms rm show ?thesis by (auto simp: bindE_def)
    next
      case (Inr a)
      with Cons.prems d False have "removed_loop c v4 v6 t (ns @ a) fs w1 = (r, w')" by (auto simp: bindE_def)
      from Cons.IH [OF this] ms rm show ?thesis by auto
    qed
  qed
qed simp


section \<open>A warning follows its level\<close>

text \<open>Advancing one family's level leaves the other family's level alone.\<close>

definition same_level :: "int \<Rightarrow> database \<Rightarrow> database \<Rightarrow> bool" where
  "same_level g d d' \<longleftrightarrow>
     (\<forall>i. map_option (row_level g) (find_device i d') = map_option (row_level g) (find_device i d))"

interpretation same_level: db_order "same_level g" for g
  by unfold_locales (simp_all add: same_level_def)

lemma same_level_step: "f = 6 \<Longrightarrow> follows (same_level 4) (warn_step c W now f)"
  unfolding warn_step_def Let_def AdvanceWarnLevel_raise
  by (intro follows_intros same_level.follows_exec follows_weaken [OF reads_deliver])
     (auto simp: same_level_def find_device_update option.map_comp comp_def row_level_def raise_level_def
       intro!: option.map_cong)

definition same_v6 :: "database \<Rightarrow> database \<Rightarrow> bool" where
  "same_v6 d d' \<longleftrightarrow>
     (\<forall>i. map_option (\<lambda>r. (row_level 6 r, row_confirmed 6 r)) (find_device i d') =
          map_option (\<lambda>r. (row_level 6 r, row_confirmed 6 r)) (find_device i d))"

interpretation same_v6: db_order same_v6
  by unfold_locales (simp_all add: same_v6_def)

lemma AdvanceWarnLevel_True:
  fixes w :: "'z world_scheme"
  assumes wf: "wf_db (db w)" and "AdvanceWarnLevel i f l fl p4 p6 now w = (Inr True, w')"
  shows "\<exists>r. find_device i (db w) = Some r \<and> pinned i p4 p6 r \<and> row_level f r = fl \<and>
             find_device i (db w') = Some (raise_level f l now r)"
proof -
  let ?P = "\<lambda>r. pinned i p4 p6 r \<and> row_level f r = fl"
  from assms(2) have e: "exec (update_devices ?P (raise_level f l now)) w = (Inr 1, w')"
    by (auto simp: AdvanceWarnLevel_raise bindE_Inr_iff)
  note e' = exec_Inr [OF e]
  then have "filter ?P (devices (db w)) \<noteq> []" by (auto simp: update_devices_def)
  then obtain r where r: "r \<in> set (devices (db w))" "?P r" by (auto simp: filter_empty_conv)
  then have fr: "find_device i (db w) = Some r"
    by (intro find_device_unique [OF wf]) (simp_all add: pinned_def)
  with r e' show ?thesis by (simp add: find_device_update)
qed

text \<open>What one step of the warning loop may have sent, and what it must have written before.\<close>

lemma warn_step_mail:
  fixes w :: "'z mailworld_scheme"
  assumes wf: "wf_db (db w)" and s: "warn_step c W now f w = (res, w')" and f: "f = 4 \<or> f = 6"
  shows "\<exists>ms. w_mail w' = w_mail w @ ms \<and>
           list_all (about (warning c W now f (DueRung W (now - confirmedAt c f)))) ms \<and>
           (ms \<noteq> [] \<longrightarrow> present c f \<and> (\<exists>r. find_device (d_ID c) (db w) = Some r \<and>
              row_level f r < DueRung W (now - confirmedAt c f) \<and> row_confirmed f r = confirmedAt c f \<and>
              find_device (d_ID c) (db w') = Some (raise_level f (DueRung W (now - confirmedAt c f)) now r)))"
proof (cases "\<not> present c f \<or> DueRung W (now - confirmedAt c f) \<le> warnLevel c f")
  case True
  with s show ?thesis by (auto simp: warn_step_def Let_def)
next
  case False
  let ?due = "DueRung W (now - confirmedAt c f)"
  let ?adv = "AdvanceWarnLevel (d_ID c) f ?due (warnLevel c f) (d_V4ConfirmedAt c) (d_V6ConfirmedAt c) now"
  obtain x w1 where a: "?adv w = (x, w1)" by (cases "?adv w")
  have mail1: "w_mail w1 = w_mail w"
    using a by (rule unsent_keep) (simp add: AdvanceWarnLevel_def, intro preserves_intros)
  from s False a have s': "(case x of Inl e \<Rightarrow> (Inl e, w1) | Inr ok \<Rightarrow>
      (if \<not> ok then ret [] else deliver c (warning c W now f ?due)) w1) = (res, w')"
    by (auto simp: warn_step_def Let_def bindE_def split: sum.splits)
  show ?thesis
  proof (cases "x = Inr True")
    case True
    with s' have d: "deliver c (warning c W now f ?due) w1 = (res, w')" by simp
    from deliver_mail [OF d] mail1 obtain ms where
      ms: "w_mail w' = w_mail w @ ms" "list_all (about (warning c W now f ?due)) ms" by auto
    have db: "db w' = db w1" using reads_db [OF reads_deliver, of c "warning c W now f ?due" w1] d by simp
    from AdvanceWarnLevel_True [OF wf] a True obtain r where
      r: "find_device (d_ID c) (db w) = Some r" "pinned (d_ID c) (d_V4ConfirmedAt c) (d_V6ConfirmedAt c) r"
        "row_level f r = warnLevel c f" "find_device (d_ID c) (db w1) = Some (raise_level f ?due now r)"
      by blast
    have "row_confirmed f r = confirmedAt c f"
      using r(2) f by (auto simp: pinned_def row_confirmed_def confirmedAt_def)
    with False ms r db show ?thesis by auto
  next
    case no: False
    with s' mail1 show ?thesis by (cases x) auto
  qed
qed


lemma warn_step4_row:
  assumes "warn_step c W now 4 w = (x, w1)" and "find_device i (db w1) = Some r"
  shows "\<exists>r0. find_device i (db w) = Some r0 \<and> row_level 6 r0 = row_level 6 r \<and> row_confirmed 6 r0 = row_confirmed 6 r"
proof -
  have "follows (same_v6) (warn_step c W now 4)"
    unfolding warn_step_def Let_def AdvanceWarnLevel_raise
    by (intro follows_intros same_v6.follows_exec follows_weaken [OF reads_deliver])
       (auto simp: same_v6_def find_device_update option.map_comp comp_def intro!: option.map_cong)
  from followsD [OF this assms(1)] assms(2) show ?thesis
    by (cases "find_device i (db w)") (auto simp: same_v6_def dest!: spec [of _ i])
qed

text \<open>The claim of \<open>act_warns_once\<close> for one notice.\<close>

definition warned_rightly :: "FeedSection \<Rightarrow> int \<Rightarrow> Device \<Rightarrow> database \<Rightarrow> database \<Rightarrow> Notice \<Rightarrow> bool" where
  "warned_rightly cfg now c d d' n \<longleftrightarrow>
     (\<exists>r r'. find_device (d_ID c) d = Some r \<and> find_device (d_ID c) d' = Some r' \<and>
        row_level (n_Family n) r < n_Rung n \<and> row_level (n_Family n) r' = n_Rung n \<and>
        n_Rung n = DueRung (Window cfg) (now - row_confirmed (n_Family n) r) \<and>
        n_Remaining n = row_confirmed (n_Family n) r + Window cfg - now \<and> 0 < n_Remaining n)"

lemma about_warning:
  assumes "list_all (about (warning c W now f due)) ms" and "m \<in> set ms" and "n \<in> set (dv_Notices m)"
  shows "n_Family n = f \<and> n_Rung n = due \<and> n_Remaining n = confirmedAt c f + W - now"
  using assms by (auto simp: list_all_iff about_def warning_def ExpiresAt_def)

lemma raise_level_sel [simp]: "f = 4 \<or> f = 6 \<Longrightarrow> row_level f (raise_level f l t r) = l"
  by (auto simp: row_level_def raise_level_def)

lemma warn_mail:
  fixes w :: "'z mailworld_scheme"
  assumes wf: "wf_db (db w)" and wn: "warn c (Window cfg) now w = (res, w')"
    and nodue: "\<And>f. f = 4 \<or> f = 6 \<Longrightarrow> present c f \<Longrightarrow> now < confirmedAt c f + Window cfg"
  shows "\<exists>ms. w_mail w' = w_mail w @ ms \<and>
           (\<forall>m \<in> set ms. \<forall>n \<in> set (dv_Notices m). warned_rightly cfg now c (db w) (db w') n)"
proof -
  let ?W = "Window cfg"
  let ?due = "\<lambda>f. DueRung ?W (now - confirmedAt c f)"
  obtain x w1 where s4: "warn_step c ?W now 4 w = (x, w1)" by (cases "warn_step c ?W now 4 w")
  have wf1: "wf_db (db w1)" using preservesD [OF preserves_warn_step(1) _ s4] wf by (simp add: on_db_def)
  from warn_step_mail [OF wf s4] obtain ms where ms: "w_mail w1 = w_mail w @ ms"
      "list_all (about (warning c ?W now 4 (?due 4))) ms"
    and wr: "ms \<noteq> [] \<longrightarrow> present c 4 \<and> (\<exists>r. find_device (d_ID c) (db w) = Some r \<and>
         row_level 4 r < ?due 4 \<and> row_confirmed 4 r = confirmedAt c 4 \<and>
         find_device (d_ID c) (db w1) = Some (raise_level 4 (?due 4) now r))" by auto
  have right4: "warned_rightly cfg now c (db w) d' n"
    if "m \<in> set ms" "n \<in> set (dv_Notices m)" "same_level 4 (db w1) d'" for m n d'
  proof -
    from that(1) wr obtain r where p: "present c 4" and r: "find_device (d_ID c) (db w) = Some r" "row_level 4 r < ?due 4"
        "row_confirmed 4 r = confirmedAt c 4" "find_device (d_ID c) (db w1) = Some (raise_level 4 (?due 4) now r)"
      by (cases ms) auto
    from that(3) r(4) obtain r' where "find_device (d_ID c) d' = Some r'" "row_level 4 r' = ?due 4"
      by (auto simp: same_level_def dest!: spec [of _ "d_ID c"])
    with r p nodue [of 4] about_warning [OF ms(2) that(1,2)] show ?thesis
      by (simp add: warned_rightly_def)
  qed
  show ?thesis
  proof (cases x)
    case (Inl e)
    with wn s4 have "w' = w1" by (simp add: warn_split bindE_def)
    with ms(1) right4 show ?thesis by (auto simp: same_level.refl)
  next
    case (Inr ns)
    let ?k = "bindE (warn_step c ?W now 6) (\<lambda>ms'. ret (ns @ ms'))"
    obtain y w2 where s6: "warn_step c ?W now 6 w1 = (y, w2)" by (cases "warn_step c ?W now 6 w1")
    with wn s4 Inr have w': "w' = w2" by (auto simp: warn_split bindE_def split: sum.splits)
    have lv: "same_level 4 (db w1) (db w2)" using followsD [OF same_level_step s6] by simp
    from warn_step_mail [OF wf1 s6] obtain ms' where ms': "w_mail w2 = w_mail w1 @ ms'"
        "list_all (about (warning c ?W now 6 (?due 6))) ms'"
      and wr': "ms' \<noteq> [] \<longrightarrow> present c 6 \<and> (\<exists>r. find_device (d_ID c) (db w1) = Some r \<and>
           row_level 6 r < ?due 6 \<and> row_confirmed 6 r = confirmedAt c 6 \<and>
           find_device (d_ID c) (db w2) = Some (raise_level 6 (?due 6) now r))" by auto
    have right6: "warned_rightly cfg now c (db w) (db w2) n" if "m \<in> set ms'" "n \<in> set (dv_Notices m)" for m n
    proof -
      from that(1) wr' obtain r where p: "present c 6" and r: "find_device (d_ID c) (db w1) = Some r" "row_level 6 r < ?due 6"
          "row_confirmed 6 r = confirmedAt c 6" "find_device (d_ID c) (db w2) = Some (raise_level 6 (?due 6) now r)"
        by (cases ms') auto
      obtain r0 where "find_device (d_ID c) (db w) = Some r0" "row_level 6 r0 = row_level 6 r"
        "row_confirmed 6 r0 = row_confirmed 6 r"
        using warn_step4_row [OF s4 r(1)] by blast
      with r p nodue [of 6] about_warning [OF ms'(2) that] show ?thesis
        by (simp add: warned_rightly_def)
    qed
    show ?thesis using ms(1) ms'(1) right4 [OF _ _ lv] right6 by (auto simp: w')
  qed
qed


lemma act_mail:
  fixes w :: "'z mailworld_scheme"
  assumes wf: "wf_db (db w)" and a: "act f cfg clk c now w = (res, w')"
  shows "\<exists>ms. w_mail w' = w_mail w @ ms \<and>
           (\<forall>m \<in> set ms. \<forall>n \<in> set (dv_Notices m). n_Kind n = KindWarning \<longrightarrow> warned_rightly cfg now c (db w) (db w') n)"
proof -
  let ?v4 = "present c 4 \<and> now \<ge> ExpiresAt (d_V4ConfirmedAt c) (Window cfg)"
  let ?v6 = "present c 6 \<and> now \<ge> ExpiresAt (d_V6ConfirmedAt c) (Window cfg)"
  show ?thesis
  proof (cases "?v4 \<or> ?v6")
    case False
    then have "warn c (Window cfg) now w = (res, w')" using a by (auto simp: act_def Let_def)
    moreover have "now < confirmedAt c f + Window cfg" if "f = 4 \<or> f = 6" "present c f" for f
      using False that by (auto simp: confirmedAt_def ExpiresAt_def)
    ultimately obtain ms where "w_mail w' = w_mail w @ ms"
      "\<forall>m \<in> set ms. \<forall>n \<in> set (dv_Notices m). warned_rightly cfg now c (db w) (db w') n"
      using warn_mail [OF wf, of c cfg now res w'] by blast
    then show ?thesis by blast
  next
    case True
    let ?e = "ExpireAddresses f clk c ?v4 ?v6 \<lparr> cf_V4 = d_V4ConfirmedAt c, cf_V6 = d_V6ConfirmedAt c \<rparr>"
    obtain x w1 where e: "?e w = (x, w1)" by (cases "?e w")
    have m1: "w_mail w1 = w_mail w" using e by (rule unsent_keep) (intro preserves_intros)
    from a True have "bindE ?e (\<lambda>ok. if \<not> ok then ret [] else removed c ?v4 ?v6 now) w = (res, w')"
      by (simp only: act_def Let_def if_True)
    with e have "w' = w1 \<or> removed_loop c ?v4 ?v6 now [] [4, 6] w1 = (res, w')"
      unfolding removed_def by (auto simp: bindE_def simp del: removed_loop.simps split: sum.splits if_splits)
    then obtain ms where "w_mail w' = w_mail w @ ms" "list_all removal_mail ms"
      using removed_mail m1 by (metis append_Nil2 list.pred_inject(1))
    then show ?thesis by (auto simp: list_all_iff removal_mail_def)
  qed
qed

section \<open>Theorems\<close>

text \<open>
  C5. A tick against its specification: with expiry on, no driver failure and no cancellation, \<open>Run\<close>
  applies \<open>sweep_row\<close> to every device that is enabled under an enabled owner and leaves every
  other row alone. Families past their expiry are cleared with their levels, otherwise each
  level rises to the highest rung that is due; single-stack and partly expired devices are
  not missed by the candidate query.
\<close>

theorem sweeper_Run_refines:
  fixes w :: "'z mailworld_scheme"
  assumes "wf_db (db w)" and "faults w = []" and "validServer cfg" and "ExpiryEnabled (sv_Feed cfg)"
    and "list_all levels_ok (devices (db w))" and "length (devices (db w)) \<le> k"
  shows "devices (db (snd (sweeper_Run f (sv_Feed cfg) clk k now w))) =
         map (\<lambda>r. if feed_eligible (db w) r then sweep_row (Window (sv_Feed cfg)) clk now r else r) (devices (db w))"
  using assms by (intro Run_devices Window_legal(1)) (simp_all add: validServer_def)

definition sample_mail_world :: mailworld where
  "sample_mail_world = \<lparr> db = sample_db_v4, faults = [], w_hub = Hub_New, w_mail = [] \<rparr>"

lemma sample_mail_simps [simp]: "db sample_mail_world = sample_db_v4" "faults sample_mail_world = []" "w_mail sample_mail_world = []"
  by (simp_all add: sample_mail_world_def)

lemma sample_mail_ok: "wf_db (db sample_mail_world)" "list_all levels_ok (devices (db sample_mail_world))"
  using sample_db_wf by (simp_all add: wf_hist_def) (simp add: levels_ok_def sample_defs)

lemma sweeper_Run_refines_witness:
  "devices (db (snd (sweeper_Run plain_fanout (sv_Feed keyDefaults) 7 1 (100 + 21 * 86400) sample_mail_world))) =
     [dev1_v4\<lparr>dc_current_ipv4 := None, dc_updated_at := 7\<rparr>] \<and>
   devices (db (snd (sweeper_Run plain_fanout (sv_Feed keyDefaults) 7 1 (100 + 21 * 86400 - 1) sample_mail_world))) =
     [dev1_v4\<lparr>dc_v4_warn_level := 4, dc_updated_at := 100 + 21 * 86400 - 1\<rparr>]"
proof -
  have k: "length (devices (db sample_mail_world)) \<le> 1" by (simp add: sample_defs)
  note R = sweeper_Run_refines [OF sample_mail_ok(1) sample_mail_simps(2) keyDefaults_valid sample_mail_ok(2) k]
  show ?thesis unfolding R
    by (simp add: sample_defs feed_eligible_def sweep_row_def family_due_def row_has_def row_confirmed_def
        Window_def keyDefaults_def secondsPerDay_def clear_families_def warn_family_def row_level_def
        DueRung_def Rungs_div raise_level_def)
qed



text \<open>
  C7. Warnings are not repeated. Whatever fails and whatever snapshot the step was given, each warning
  a step hands to the mail channel announces a rung above the level the row had before, the
  row has exactly that level afterwards, the rung is the one due, and the time it says is left
  is positive and correct. So a second warning for the same rung needs a confirmation or an
  expiry in between.
\<close>

theorem act_warns_once:
  fixes w :: "'z mailworld_scheme"
  assumes "wf_db (db w)" and "act f cfg clk c now w = (res, w')"
    and "m \<in> set (drop (length (w_mail w)) (w_mail w'))" and "n \<in> set (dv_Notices m)"
    and "n_Kind n = KindWarning"
  shows "warned_rightly cfg now c (db w) (db w') n"
  using act_mail [OF assms(1,2)] assms(3-5) by auto


lemma act_warns_once_witness:
  "\<exists>w' m n. snd (act plain_fanout (sv_Feed keyDefaults) 7 (scan_candidate dev1_v4) (100 + 7 * 86400) sample_mail_world) = w' \<and>
     w_mail w' = [m] \<and> dv_Notices m = [n] \<and> n_Rung n = 1 \<and>
     warned_rightly (sv_Feed keyDefaults) (100 + 7 * 86400) (scan_candidate dev1_v4) sample_db_v4 (db w') n"
proof -
  let ?a = "act plain_fanout (sv_Feed keyDefaults) 7 (scan_candidate dev1_v4) (100 + 7 * 86400) sample_mail_world"
  obtain m n where m: "w_mail (snd ?a) = [m]" "dv_Notices m = [n]" "n_Kind n = KindWarning" "n_Rung n = 1"
    by (simp add: act_def Let_def warn_def sample_defs sample_mail_world_def scan_candidate_def present_def
        Window_def keyDefaults_def secondsPerDay_def ExpiresAt_def DueRung_def Rungs_div confirmedAt_def warnLevel_def
        bindE_def AdvanceWarnLevel_def update_devices_def pinned_def deliver_def tryE_def UserRepo_GetByID_def
        find_user_def RecipientsFor_def SendOwner_def Channel_Send_def warning_def scanUser_def)
  have "m \<in> set (drop (length (w_mail sample_mail_world)) (w_mail (snd ?a)))" "n \<in> set (dv_Notices m)"
    using m by simp_all
  from act_warns_once [OF sample_mail_ok(1) prod.collapse [symmetric, of ?a] this m(3)] m show ?thesis
    by auto
qed

end
