(* ===== verification/Auth_Secret.thy ===== *)
theory Auth_Secret
  imports Text_Codec
begin

text \<open>
  \<open>internal/auth/secret.go\<close> and \<open>internal/shared/hmac.go\<close>: sealing of device secrets and the strings that
  requests and notifications are signed over. The primitives themselves are parameters: SHA-256,
  HMAC-SHA256 and AES-256-GCM are fields of \<open>crypto\<close>; the one law used of them is
  \<open>gcm_opens_sealed\<close>, that \<open>Open\<close> returns what \<open>Seal\<close> was given under the same key, nonce and data.
\<close>

record crypto =
  cr_sha256 :: "string \<Rightarrow> string"
  cr_hmac :: "string \<Rightarrow> string \<Rightarrow> string"
  cr_gcm_seal :: "string \<Rightarrow> string \<Rightarrow> string \<Rightarrow> string \<Rightarrow> string"
  cr_gcm_open :: "string \<Rightarrow> string \<Rightarrow> string \<Rightarrow> string \<Rightarrow> string option"

definition gcm_opens_sealed :: "crypto \<Rightarrow> bool" where
  "gcm_opens_sealed cr \<longleftrightarrow>
     (\<forall>k n p a. length k = 32 \<longrightarrow> length n = 12 \<longrightarrow> cr_gcm_open cr k n (cr_gcm_seal cr k n p a) a = Some p)"

section \<open>Sealed secrets\<close>

text \<open>\<open>newGCM\<close> fails for a key that is not 32 bytes; \<open>NonceSize\<close> is 12. \<open>rnd\<close> is what \<open>randRead\<close> yields.\<close>

definition newGCM :: "string \<Rightarrow> err + unit" where
  "newGCM key = (if length key \<noteq> 32 then Inl ErrSeal else Inr ())"

definition SealWithAAD :: "crypto \<Rightarrow> string option \<Rightarrow> string \<Rightarrow> string \<Rightarrow> string \<Rightarrow> err + string" where
  "SealWithAAD cr rnd key plaintext aad =
     (case newGCM key of
        Inl e \<Rightarrow> Inl e
      | Inr _ \<Rightarrow>
          (case rnd of
             None \<Rightarrow> Inl ErrRandom
           | Some nonce \<Rightarrow> Inr (EncodeToString (nonce @ cr_gcm_seal cr key nonce plaintext aad))))"

definition OpenWithAAD :: "crypto \<Rightarrow> string \<Rightarrow> string \<Rightarrow> string \<Rightarrow> err + string" where
  "OpenWithAAD cr key sealed aad =
     (case newGCM key of
        Inl e \<Rightarrow> Inl e
      | Inr _ \<Rightarrow>
          (case DecodeString sealed of
             None \<Rightarrow> Inl ErrSeal
           | Some raw \<Rightarrow>
               (if length raw < 12 then Inl ErrSeal
                else case cr_gcm_open cr key (take 12 raw) (drop 12 raw) aad of
                       None \<Rightarrow> Inl ErrSeal
                     | Some pt \<Rightarrow> Inr pt)))"

definition SealSecret :: "crypto \<Rightarrow> string option \<Rightarrow> string \<Rightarrow> string \<Rightarrow> err + string" where
  "SealSecret cr rnd key secret =
     (case newGCM key of
        Inl e \<Rightarrow> Inl e
      | Inr _ \<Rightarrow>
          (case rnd of
             None \<Rightarrow> Inl ErrRandom
           | Some nonce \<Rightarrow> Inr (EncodeToString (nonce @ cr_gcm_seal cr key nonce secret []))))"

definition OpenSecret :: "crypto \<Rightarrow> string \<Rightarrow> string \<Rightarrow> err + string" where
  "OpenSecret cr key sealed =
     (case newGCM key of
        Inl e \<Rightarrow> Inl e
      | Inr _ \<Rightarrow>
          (case DecodeString sealed of
             None \<Rightarrow> Inl ErrSeal
           | Some raw \<Rightarrow>
               (if length raw < 12 then Inl ErrSeal
                else case cr_gcm_open cr key (take 12 raw) (drop 12 raw) [] of
                       None \<Rightarrow> Inl ErrSeal
                     | Some pt \<Rightarrow> Inr pt)))"

text \<open>\<open>GenerateSecret\<close>: 32 bytes of the random source, or its failure.\<close>

definition GenerateSecret :: "string option \<Rightarrow> err + string" where
  "GenerateSecret rnd = (case rnd of None \<Rightarrow> Inl ErrRandom | Some b \<Rightarrow> Inr b)"

section \<open>Signed strings\<close>

definition hex_digit :: "nat \<Rightarrow> char" where
  "hex_digit n = ''0123456789abcdef'' ! n"

definition hex_EncodeToString :: "string \<Rightarrow> string" where
  "hex_EncodeToString s = concat (map (\<lambda>c. [hex_digit (byte c div 16), hex_digit (byte c mod 16)]) s)"

definition BodyHashHex :: "crypto \<Rightarrow> string \<Rightarrow> string" where
  "BodyHashHex cr body = hex_EncodeToString (cr_sha256 cr body)"

definition CanonicalRequest :: "string \<Rightarrow> string \<Rightarrow> string \<Rightarrow> string \<Rightarrow> string \<Rightarrow> string" where
  "CanonicalRequest method path timestamp nonce bodyHashHex =
     Join [method, path, timestamp, nonce, bodyHashHex] [char_of (10 :: nat)]"

definition CanonicalNotification :: "string \<Rightarrow> string \<Rightarrow> string \<Rightarrow> string" where
  "CanonicalNotification timestamp nonce bodyHashHex =
     Join [''diyddns-notify-v1'', timestamp, nonce, bodyHashHex] [char_of (10 :: nat)]"

definition Sign :: "crypto \<Rightarrow> string \<Rightarrow> string \<Rightarrow> string" where
  "Sign cr secret canonical = hex_EncodeToString (cr_hmac cr secret canonical)"

section \<open>Theorems\<close>

lemma OpenSecret_sealed:
  assumes "gcm_opens_sealed cr" and "length nonce = 12" and "SealSecret cr (Some nonce) key secret = Inr s"
  shows "OpenSecret cr key s = Inr secret"
  using assms
  by (cases "length key = 32") (auto simp: SealSecret_def OpenSecret_def newGCM_def DecodeString_Encode gcm_opens_sealed_def)

text \<open>
  Sealing round trip: a secret sealed under a 32-byte key opens to itself under that key, with or
  without additional data, whatever the secret and the nonce; under a key of any other length
  both directions fail.
\<close>

theorem seal_roundtrip:
  assumes "gcm_opens_sealed cr" and "length nonce = 12"
  shows "(case SealSecret cr (Some nonce) key secret of
           Inl _ \<Rightarrow> length key \<noteq> 32 \<and> (\<forall>s. \<exists>e. OpenSecret cr key s = Inl e)
         | Inr s \<Rightarrow> OpenSecret cr key s = Inr secret) \<and>
         (case SealWithAAD cr (Some nonce) key secret aad of
           Inl _ \<Rightarrow> length key \<noteq> 32 \<and> (\<forall>s. \<exists>e. OpenWithAAD cr key s aad = Inl e)
         | Inr s \<Rightarrow> OpenWithAAD cr key s aad = Inr secret)"
  using assms
  by (auto simp: SealSecret_def OpenSecret_def SealWithAAD_def OpenWithAAD_def newGCM_def DecodeString_Encode
      gcm_opens_sealed_def split: sum.splits)

definition plain_crypto :: crypto where
  "plain_crypto = \<lparr> cr_sha256 = (\<lambda>s. s), cr_hmac = (\<lambda>k s. k @ s), cr_gcm_seal = (\<lambda>k n p a. p),
     cr_gcm_open = (\<lambda>k n c a. Some c) \<rparr>"

lemma seal_roundtrip_witness:
  "case SealSecret plain_crypto (Some (replicate 12 CHR ''n'')) (replicate 32 CHR ''k'') ''secret'' of
     Inl _ \<Rightarrow> False | Inr s \<Rightarrow> OpenSecret plain_crypto (replicate 32 CHR ''k'') s = Inr ''secret''"
proof -
  have "gcm_opens_sealed plain_crypto" by (simp add: gcm_opens_sealed_def plain_crypto_def)
  from seal_roundtrip [OF this, of "replicate 12 CHR ''n''" "replicate 32 CHR ''k''" "''secret''"] show ?thesis
    by (simp add: SealSecret_def newGCM_def)
qed

lemma plain_crypto_gcm: "gcm_opens_sealed plain_crypto"
  by (simp add: gcm_opens_sealed_def plain_crypto_def)

lemma newline_join_inj:
  assumes "char_of (10 :: nat) \<notin> set a" "char_of (10 :: nat) \<notin> set a'"
    and "Join (a # x # xs) [char_of (10 :: nat)] = Join (a' # y # ys) [char_of (10 :: nat)]"
  shows "a = a' \<and> Join (x # xs) [char_of (10 :: nat)] = Join (y # ys) [char_of (10 :: nat)]"
  using append_sep_inj [OF assms(1,2)] assms(3) by simp

text \<open>
  The string a request is signed over determines the request: two canonical requests are equal only
  if method, path, timestamp, nonce and body hash are, provided the first four fields carry no line
  feed. And no canonical request is a canonical notification, unless its method is the
  notification scheme's own marker.
\<close>

theorem canonical_separation:
  assumes "\<forall>f \<in> {m, p, t, n, m', p', t', n'}. char_of (10 :: nat) \<notin> set f"
  shows "(CanonicalRequest m p t n h = CanonicalRequest m' p' t' n' h' \<longleftrightarrow>
            (m, p, t, n, h) = (m', p', t', n', h')) \<and>
         (m \<noteq> ''diyddns-notify-v1'' \<longrightarrow> CanonicalRequest m p t n h \<noteq> CanonicalNotification t'' n'' h'')"
proof (intro conjI impI)
  have nl: "char_of (10 :: nat) \<notin> set ''diyddns-notify-v1''" by code_simp
  show "m \<noteq> ''diyddns-notify-v1'' \<Longrightarrow> CanonicalRequest m p t n h \<noteq> CanonicalNotification t'' n'' h''"
    using assms nl newline_join_inj [of m "''diyddns-notify-v1''"]
    unfolding CanonicalRequest_def CanonicalNotification_def by blast
  show "CanonicalRequest m p t n h = CanonicalRequest m' p' t' n' h' \<longleftrightarrow> (m, p, t, n, h) = (m', p', t', n', h')"
  proof
    assume "CanonicalRequest m p t n h = CanonicalRequest m' p' t' n' h'"
    then have 1: "Join [m, p, t, n, h] [char_of (10 :: nat)] = Join [m', p', t', n', h'] [char_of (10 :: nat)]"
      by (simp only: CanonicalRequest_def)
    have 2: "m = m' \<and> Join [p, t, n, h] [char_of (10 :: nat)] = Join [p', t', n', h'] [char_of (10 :: nat)]"
      by (rule newline_join_inj [OF _ _ 1]) (use assms in auto)
    have 3: "p = p' \<and> Join [t, n, h] [char_of (10 :: nat)] = Join [t', n', h'] [char_of (10 :: nat)]"
      by (rule newline_join_inj [OF _ _ conjunct2 [OF 2]]) (use assms in auto)
    have 4: "t = t' \<and> Join [n, h] [char_of (10 :: nat)] = Join [n', h'] [char_of (10 :: nat)]"
      by (rule newline_join_inj [OF _ _ conjunct2 [OF 3]]) (use assms in auto)
    have "n = n' \<and> Join [h] [char_of (10 :: nat)] = Join [h'] [char_of (10 :: nat)]"
      by (rule newline_join_inj [OF _ _ conjunct2 [OF 4]]) (use assms in auto)
    with 2 3 4 show "(m, p, t, n, h) = (m', p', t', n', h')" by simp
  qed simp
qed

lemma canonical_separation_witness:
  "CanonicalRequest ''POST'' ''/checkin'' ''100'' ''ab'' ''00'' \<noteq> CanonicalRequest ''POST'' ''/checkin'' ''101'' ''ab'' ''00'' \<and>
   CanonicalRequest ''POST'' ''/checkin'' ''100'' ''ab'' ''00'' \<noteq> CanonicalNotification ''100'' ''ab'' ''00''"
proof -
  have "\<forall>f \<in> {''POST'', ''/checkin'', ''100'', ''ab'', ''POST'', ''/checkin'', ''101'', ''ab''}. char_of (10 :: nat) \<notin> set f"
    by code_simp
  from canonical_separation [OF this, of "''00''" "''00''" "''100''" "''ab''" "''00''"] show ?thesis by simp
qed

end
