(* ===== verification/Auth_Verify.thy ===== *)
theory Auth_Verify
  imports Auth_Secret Sweep
begin

text \<open>
  \<open>internal/auth/hmac.go\<close> and \<open>internal/store/replay_nonces.go\<close>: authentication of agent requests. A request is
  accepted when its device and owner are enabled, its timestamp is within the skew window, its
  signature is the HMAC of the canonical request under the device's secret, and that signature has
  not been recorded yet.

  The replay cache is used through its interface only (\<open>NonceInserter\<close> and the pruner): the
  locale \<open>replay_cache\<close> states its laws, and is interpreted on the table of the store.
  \<open>v_cache\<close> is the verifier's map of opened secrets. \<open>Verify\<close> first reads the database (\<open>Verify_lookup\<close>)
  and then checks the request (\<open>Verify_check\<close>); between the two other requests may run.
\<close>

section \<open>Replay nonces\<close>

definition insert_nonce :: "string \<Rightarrow> int \<Rightarrow> database \<Rightarrow> (err + unit) \<times> database" where
  "insert_nonce signature expiresAt d =
     (if signature \<in> rn_signature ` set (replay_nonces d) then (Inl ErrConflict, d)
      else (Inr (), d\<lparr>replay_nonces := replay_nonces d @ [\<lparr> rn_signature = signature, rn_expires_at = expiresAt \<rparr>]\<rparr>))"

definition ReplayNonce_Insert :: "string \<Rightarrow> int \<Rightarrow> ('z world_scheme, unit) action" where
  "ReplayNonce_Insert signature expiresAt = stmt (insert_nonce signature expiresAt)"

definition ReplayNonce_Exists :: "string \<Rightarrow> ('z world_scheme, bool) action" where
  "ReplayNonce_Exists signature = query (\<lambda>d. signature \<in> rn_signature ` set (replay_nonces d))"

definition ReplayNonce_PruneExpired :: "int \<Rightarrow> ('z world_scheme, nat) action" where
  "ReplayNonce_PruneExpired now =
     exec (\<lambda>d. (length (filter (\<lambda>r. rn_expires_at r < now) (replay_nonces d)),
                d\<lparr>replay_nonces := filter (\<lambda>r. \<not> rn_expires_at r < now) (replay_nonces d)\<rparr>))"

section \<open>Verifier\<close>

record RequestParts =
  rp_Device :: string
  rp_Timestamp :: string
  rp_Nonce :: string
  rp_Signature :: string
  rp_Method :: string
  rp_Path :: string
  rp_Body :: string

record verifier =
  v_crypto :: crypto
  v_key :: string
  v_skew :: int
  v_nonceTTL :: int

record authworld = mailworld +
  v_cache :: "string \<Rightarrow> string option"

text \<open>\<open>gone\<close>: the request's context is cancelled or past its deadline when the look-up fails.\<close>

definition storeRejection :: "bool \<Rightarrow> err \<Rightarrow> string \<Rightarrow> string \<Rightarrow> string \<Rightarrow> err" where
  "storeRejection gone e missing cancelled broken =
     (if e = ErrNotFound then ErrUnauthorized missing
      else if gone then ErrUnauthorized cancelled
      else ErrUnauthorized broken)"

definition ReasonOf :: "err \<Rightarrow> string" where
  "ReasonOf e = (case e of ErrUnauthorized r \<Rightarrow> r | _ \<Rightarrow> ''unknown'')"

definition secretFor :: "verifier \<Rightarrow> Device \<Rightarrow> ('z authworld_scheme, string) action" where
  "secretFor v dev w =
     (case v_cache w (d_ID dev) of
        Some s \<Rightarrow> (Inr s, w)
      | None \<Rightarrow>
          (case OpenSecret (v_crypto v) (v_key v) (d_SecretHash dev) of
             Inl e \<Rightarrow> (Inl e, w)
           | Inr secret \<Rightarrow> (Inr secret, w\<lparr>v_cache := (v_cache w)(d_ID dev \<mapsto> secret)\<rparr>)))"

definition Invalidate :: "string \<Rightarrow> ('z authworld_scheme, unit) action" where
  "Invalidate deviceID w = (Inr (), w\<lparr>v_cache := (v_cache w)(deviceID := None)\<rparr>)"

definition Verify_lookup :: "bool \<Rightarrow> bool \<Rightarrow> RequestParts \<Rightarrow> ('z world_scheme, Device) action" where
  "Verify_lookup gone_d gone_u p =
     bindE (tryE (DeviceRepo_GetByID (rp_Device p))) (\<lambda>r.
       case r of
         Inl e \<Rightarrow> fail (storeRejection gone_d e ''unknown_device'' ''device_lookup_cancelled'' ''device_store_error'')
       | Inr dev \<Rightarrow>
           if d_Disabled dev then fail (ErrUnauthorized ''device_disabled'')
           else bindE (tryE (UserRepo_GetByID (d_UserID dev))) (\<lambda>q.
             case q of
               Inl e \<Rightarrow> fail (storeRejection gone_u e ''unknown_user'' ''user_lookup_cancelled'' ''user_store_error'')
             | Inr usr \<Rightarrow> if u_Disabled usr then fail (ErrUnauthorized ''user_disabled'') else ret dev))"

text \<open>Go's 64-bit arithmetic on an attacker's timestamp wraps; \<open>wrap64\<close> keeps that visible.\<close>

definition wrap64 :: "int \<Rightarrow> int" where
  "wrap64 n = (n + 2 ^ 63) mod 2 ^ 64 - 2 ^ 63"

definition skewed :: "verifier \<Rightarrow> int \<Rightarrow> int \<Rightarrow> bool" where
  "skewed v now ts \<longleftrightarrow>
     (let d = wrap64 (now - ts); s = wholeSeconds (v_skew v) in d > s \<or> d < - s)"

definition Verify_check :: "verifier \<Rightarrow> RequestParts \<Rightarrow> int \<Rightarrow> Device \<Rightarrow> ('z authworld_scheme, string) action" where
  "Verify_check v p now dev =
     (case ParseInt (rp_Timestamp p) of
        None \<Rightarrow> fail (ErrUnauthorized ''bad_timestamp'')
      | Some ts \<Rightarrow>
          if skewed v now ts then fail (ErrUnauthorized ''clock_skew'')
          else
            bindE (tryE (secretFor v dev)) (\<lambda>r.
              case r of
                Inl _ \<Rightarrow> fail (ErrUnauthorized ''secret_unavailable'')
              | Inr secret \<Rightarrow>
                  (let canonical = CanonicalRequest (rp_Method p) (rp_Path p) (rp_Timestamp p) (rp_Nonce p)
                                     (BodyHashHex (v_crypto v) (rp_Body p));
                       expected = Sign (v_crypto v) secret canonical in
                   if expected \<noteq> rp_Signature p then fail (ErrUnauthorized ''bad_signature'')
                   else
                     bindE (tryE (ReplayNonce_Insert (rp_Signature p) (wrap64 (ts + wholeSeconds (v_nonceTTL v))))) (\<lambda>q.
                       case q of
                         Inl e \<Rightarrow> fail (ErrUnauthorized (if e = ErrConflict then ''replay'' else ''nonce_store_error''))
                       | Inr _ \<Rightarrow> ret (d_ID dev)))))"

definition Verify ::
  "verifier \<Rightarrow> bool \<Rightarrow> bool \<Rightarrow> RequestParts \<Rightarrow> int \<Rightarrow> ('z authworld_scheme, string) action" where
  "Verify v gone_d gone_u p now = bindE (Verify_lookup gone_d gone_u p) (Verify_check v p now)"

section \<open>The interface of the replay cache\<close>

text \<open>
  \<open>holds w s e\<close>: the cache of \<open>w\<close> has an entry for signature \<open>s\<close> that expires at \<open>e\<close>.
\<close>

locale replay_cache =
  fixes Insert :: "string \<Rightarrow> int \<Rightarrow> 'w \<Rightarrow> (err + unit) \<times> 'w"
    and Prune :: "int \<Rightarrow> 'w \<Rightarrow> (err + nat) \<times> 'w"
    and holds :: "'w \<Rightarrow> string \<Rightarrow> int \<Rightarrow> bool"
  assumes insert_fresh: "Insert s e w = (Inr u, w') \<Longrightarrow> \<not> holds w s e'"
    and insert_held: "Insert s e w = (Inr u, w') \<Longrightarrow> holds w' s e"
    and insert_keeps: "Insert s e w = (r, w') \<Longrightarrow> holds w s' e' \<Longrightarrow> holds w' s' e'"
    and prune_keeps: "Prune now w = (n, w') \<Longrightarrow> holds w s e \<Longrightarrow> now \<le> e \<Longrightarrow> holds w' s e"
begin

text \<open>Any sequence of inserts, prunes and steps that leave the cache alone.\<close>

inductive cache_run :: "'w \<Rightarrow> int list \<Rightarrow> 'w \<Rightarrow> bool" where
  stop: "cache_run w [] w"
| inserts: "Insert s e w = (r, w1) \<Longrightarrow> cache_run w1 ts w2 \<Longrightarrow> cache_run w (t # ts) w2"
| prunes: "Prune t w = (n, w1) \<Longrightarrow> cache_run w1 ts w2 \<Longrightarrow> cache_run w (t # ts) w2"
| other: "(\<And>s e. holds w s e \<Longrightarrow> holds w1 s e) \<Longrightarrow> cache_run w1 ts w2 \<Longrightarrow> cache_run w (t # ts) w2"

lemma cache_run_keeps:
  assumes "cache_run w ts w'" and "holds w s e" and "\<And>t. t \<in> set ts \<Longrightarrow> t \<le> e"
  shows "holds w' s e"
  using assms
proof (induction rule: cache_run.induct)
  case (inserts s' e' w r w1 ts w2 t)
  then show ?case using insert_keeps by auto
next
  case (prunes t w n w1 ts w2)
  then show ?case using prune_keeps by auto
next
  case (other w w1 ts w2 t)
  then show ?case by auto
qed simp

text \<open>A signature is not accepted again while its entry lives.\<close>

lemma no_second_insert:
  assumes "Insert s e w = (Inr u, w1)" and "cache_run w1 ts w2" and "\<And>t. t \<in> set ts \<Longrightarrow> t \<le> e"
  shows "fst (Insert s e' w2) \<noteq> Inr u'"
proof
  assume "fst (Insert s e' w2) = Inr u'"
  then obtain w3 where "Insert s e' w2 = (Inr u', w3)" by (cases "Insert s e' w2") auto
  from insert_fresh [OF this, of e] cache_run_keeps [OF assms(2) insert_held [OF assms(1)] assms(3)]
  show False by blast
qed

end

definition nonce_held :: "'z world_scheme \<Rightarrow> string \<Rightarrow> int \<Rightarrow> bool" where
  "nonce_held w s e \<longleftrightarrow> \<lparr> rn_signature = s, rn_expires_at = e \<rparr> \<in> set (replay_nonces (db w))"

lemma ReplayNonce_Insert_Inr:
  assumes "ReplayNonce_Insert s e w = (Inr u, w')"
  shows "s \<notin> rn_signature ` set (replay_nonces (db w))"
    and "replay_nonces (db w') = replay_nonces (db w) @ [\<lparr> rn_signature = s, rn_expires_at = e \<rparr>]"
  using stmt_Inr [OF assms [unfolded ReplayNonce_Insert_def]]
  by (auto simp: insert_nonce_def split: if_splits) (metis database.select_convs(6) database.surjective database.update_convs(6))

lemma ReplayNonce_Insert_grows:
  "ReplayNonce_Insert s e w = (r, w') \<Longrightarrow> set (replay_nonces (db w)) \<subseteq> set (replay_nonces (db w'))"
  by (auto simp: ReplayNonce_Insert_def stmt_def insert_nonce_def split: fault.splits if_splits)

lemma ReplayNonce_Prune_keeps:
  "ReplayNonce_PruneExpired now w = (r, w') \<Longrightarrow> x \<in> set (replay_nonces (db w)) \<Longrightarrow> now \<le> rn_expires_at x \<Longrightarrow>
     x \<in> set (replay_nonces (db w'))"
  by (auto simp: ReplayNonce_PruneExpired_def exec_def stmt_def split: fault.splits)

interpretation nonces: replay_cache ReplayNonce_Insert ReplayNonce_PruneExpired nonce_held
proof
  fix s e e' s' now and u :: unit and r :: "err + unit" and n :: "err + nat" and w w' :: "'a world_scheme"
  show "ReplayNonce_Insert s e w = (Inr u, w') \<Longrightarrow> \<not> nonce_held w s e'"
    by (drule ReplayNonce_Insert_Inr(1)) (force simp: nonce_held_def)
  show "ReplayNonce_Insert s e w = (Inr u, w') \<Longrightarrow> nonce_held w' s e"
    by (drule ReplayNonce_Insert_Inr(2)) (simp add: nonce_held_def)
  show "ReplayNonce_Insert s e w = (r, w') \<Longrightarrow> nonce_held w s' e' \<Longrightarrow> nonce_held w' s' e'"
    by (drule ReplayNonce_Insert_grows) (auto simp: nonce_held_def)
  show "ReplayNonce_PruneExpired now w = (n, w') \<Longrightarrow> nonce_held w s e \<Longrightarrow> now \<le> e \<Longrightarrow> nonce_held w' s e"
    by (auto simp: nonce_held_def dest: ReplayNonce_Prune_keeps)
qed

end
