(* ===== verification/History_Page.thy ===== *)
theory History_Page
  imports Text_Codec Samples
begin

text \<open>
  The paged reading of \<open>internal/store/ip_history.go\<close>: opaque cursors and \<open>Page\<close>. The cursor round trip
  rests on the codecs of \<open>Text_Codec\<close>; following the cursors from the empty one yields the whole
  history of the device, newest first, each row once.
\<close>

definition encodeCursor :: "int \<Rightarrow> int \<Rightarrow> string" where
  "encodeCursor observedAt i = EncodeToString (showInt observedAt @ '':'' @ showInt i)"

definition decodeCursor :: "string \<Rightarrow> err + int \<times> int" where
  "decodeCursor c =
     (if c = '''' then Inr (0, 0)
      else case DecodeString c of
             None \<Rightarrow> Inl ErrDecode
           | Some raw \<Rightarrow>
               (case SplitN2 raw (CHR '':'') of
                  [a, b] \<Rightarrow>
                    (case ParseInt a of
                       None \<Rightarrow> Inl ErrDecode
                     | Some observedAt \<Rightarrow>
                         (case ParseInt b of None \<Rightarrow> Inl ErrDecode | Some i \<Rightarrow> Inr (observedAt, i)))
                | _ \<Rightarrow> Inl ErrDecode))"

definition clamp_limit :: "int \<Rightarrow> int" where
  "clamp_limit limit = (let l = (if limit \<le> 0 then 50 else limit) in if l > 500 then 500 else l)"

definition page_query :: "string \<Rightarrow> (int \<times> int) option \<Rightarrow> int \<Rightarrow> database \<Rightarrow> ip_history_row list" where
  "page_query deviceID cur limit d =
     take (nat limit)
       (newest_first
         (filter (\<lambda>r. case cur of None \<Rightarrow> True
                       | Some (t, i) \<Rightarrow> hc_observed_at r < t \<or> hc_observed_at r = t \<and> hc_id r < i)
           (device_history deviceID d)))"

definition page_result :: "int \<Rightarrow> ip_history_row list \<Rightarrow> HistoryPage" where
  "page_result limit rs =
     (let result = map scanIPHistory rs in
      \<lparr> hp_Rows = result,
        hp_NextCursor = (if int (length result) = limit
                         then encodeCursor (h_ObservedAt (last result)) (h_ID (last result)) else '''') \<rparr>)"

definition IPHistory_Page :: "string \<Rightarrow> string \<Rightarrow> int \<Rightarrow> ('z world_scheme, HistoryPage) action" where
  "IPHistory_Page deviceID cursor limit0 =
     (let limit = clamp_limit limit0 in
      if cursor = ''''
      then bindE (query (page_query deviceID None limit)) (\<lambda>rs. ret (page_result limit rs))
      else case decodeCursor cursor of
             Inl e \<Rightarrow> fail e
           | Inr c \<Rightarrow> bindE (query (page_query deviceID (Some c) limit)) (\<lambda>rs. ret (page_result limit rs)))"

section \<open>Cursors\<close>

lemma decode_encode_cursor:
  assumes "int64_ok t" and "int64_ok i"
  shows "decodeCursor (encodeCursor t i) = Inr (t, i)" and "encodeCursor t i \<noteq> ''''"
proof -
  show ne: "encodeCursor t i \<noteq> ''''"
    using DecodeString_Encode [of "showInt t @ '':'' @ showInt i"] by (auto simp: encodeCursor_def DecodeString_def)
  have "SplitN2 (showInt t @ CHR '':'' # showInt i) (CHR '':'') = [showInt t, showInt i]"
    by (rule SplitN2_join) (rule showInt_no_colon)
  with ne show "decodeCursor (encodeCursor t i) = Inr (t, i)"
    by (simp add: decodeCursor_def) (simp add: encodeCursor_def DecodeString_Encode ParseInt_showInt assms)
qed

text \<open>
  A cursor decodes to the position it was made from, for every pair of 64-bit integers, and it is
  never the empty string that stands for the first page.
\<close>

theorem cursor_roundtrip:
  assumes "int64_ok t" and "int64_ok i"
  shows "decodeCursor (encodeCursor t i) = Inr (t, i) \<and> encodeCursor t i \<noteq> ''''"
  using decode_encode_cursor [OF assms] by blast

lemma cursor_roundtrip_witness: "decodeCursor (encodeCursor 1700000000 (- 42)) = Inr (1700000000, - 42)"
  using cursor_roundtrip [of 1700000000 "- 42"] by (simp add: int64_ok_def)

lemma clamp_limit_bounds: "1 \<le> clamp_limit l \<and> clamp_limit l \<le> 500"
  by (simp add: clamp_limit_def Let_def)

section \<open>Following the cursors\<close>

abbreviation row_key :: "ip_history_row \<Rightarrow> int \<times> int" where
  "row_key r \<equiv> (hc_observed_at r, hc_id r)"

abbreviation before :: "int \<times> int \<Rightarrow> ip_history_row \<Rightarrow> bool" where
  "before c r \<equiv> row_key r < c"

lemma newest_first_filter: "newest_first (filter P rs) = filter P (newest_first rs)"
  by (simp add: newest_first_def rev_filter [symmetric] filter_sort)

lemma newest_first_strict:
  assumes "wf_history d"
  shows "sorted_wrt (\<lambda>a b. row_key b < row_key a) (newest_first (device_history i d))"
proof -
  let ?rs = "device_history i d"
  have "distinct (map hc_id ?rs)" using wf_history_distinct [OF assms] by (simp add: device_history_def)
  then have "distinct (map row_key ?rs)" by (auto simp: distinct_map inj_on_def)
  then have "distinct (map row_key (sort_key row_key ?rs))" by (simp add: distinct_map)
  then have "sorted_wrt (<) (map row_key (sort_key row_key ?rs))"
    by (simp add: strict_sorted_iff)
  then have "sorted_wrt (\<lambda>a b. row_key a < row_key b) (sort_key row_key ?rs)"
    by (simp add: sorted_wrt_map)
  then show ?thesis by (simp add: newest_first_def sorted_wrt_rev)
qed

text \<open>In a strictly decreasing list the elements before position \<open>n\<close>'s predecessor are the rest.\<close>

lemma filter_before_drop:
  assumes "sorted_wrt (\<lambda>a b. row_key b < row_key a) L" and "0 < n" and "n \<le> length L"
  shows "filter (before (row_key (L ! (n - 1)))) L = drop n L"
proof -
  let ?c = "row_key (L ! (n - 1))"
  have split: "L = take n L @ drop n L" by simp
  have "\<not> before ?c x" if "x \<in> set (take n L)" for x
  proof -
    from that obtain j where j: "j < n" "j < length L" "x = L ! j" by (auto simp: in_set_conv_nth)
    show ?thesis
    proof (cases "j = n - 1")
      case False
      with j assms have "row_key (L ! (n - 1)) < row_key (L ! j)" by (auto simp: sorted_wrt_iff_nth_less)
      with j show ?thesis by (metis order.asym)
    qed (use j in simp)
  qed
  moreover have "before ?c x" if "x \<in> set (drop n L)" for x
  proof -
    from that obtain j where j: "j < length L - n" "x = L ! (n + j)" by (auto simp: in_set_conv_nth)
    with assms have "row_key (L ! (n + j)) < row_key (L ! (n - 1))" by (auto simp: sorted_wrt_iff_nth_less)
    with j show ?thesis by simp
  qed
  ultimately show ?thesis by (subst split, subst filter_append) (simp add: filter_empty_conv filter_id_conv)
qed

definition newest :: "string \<Rightarrow> database \<Rightarrow> ip_history_row list" where
  "newest i d = newest_first (device_history i d)"

text \<open>The cursor that stands for the rows after the first \<open>n\<close>.\<close>

definition position :: "string \<Rightarrow> database \<Rightarrow> nat \<Rightarrow> string" where
  "position i d n =
     (if n = 0 then '''' else encodeCursor (hc_observed_at (newest i d ! (n - 1))) (hc_id (newest i d ! (n - 1))))"

definition keys_ok :: "database \<Rightarrow> bool" where
  "keys_ok d \<longleftrightarrow> list_all (\<lambda>r. int64_ok (hc_observed_at r) \<and> int64_ok (hc_id r)) (ip_history d)"

lemma keys_ok_nth:
  assumes "keys_ok d" and "n < length (newest i d)"
  shows "int64_ok (hc_observed_at (newest i d ! n)) \<and> int64_ok (hc_id (newest i d ! n))"
proof -
  have "newest i d ! n \<in> set (newest i d)" using assms(2) by simp
  then have "newest i d ! n \<in> set (ip_history d)" by (simp add: newest_def device_history_def)
  with assms(1) show ?thesis by (simp add: keys_ok_def list_all_iff)
qed

lemma page_query_position:
  assumes "wf_history d" and "0 < n" and "n \<le> length (newest i d)"
  shows "page_query i (Some (row_key (newest i d ! (n - 1)))) l d = take (nat l) (drop n (newest i d))"
proof -
  have "filter (\<lambda>r. hc_observed_at r < t \<or> hc_observed_at r = t \<and> hc_id r < j) xs = filter (before (t, j)) xs" for t j xs
    by (rule filter_cong) auto
  then show ?thesis
    using filter_before_drop [OF newest_first_strict [OF assms(1), of i] assms(2)] assms(3)
    by (simp add: page_query_def newest_first_filter newest_def)
qed

text \<open>One page, at any position of the history, under any limit.\<close>

lemma Page_at:
  fixes w :: "'z world_scheme" and limit :: int
  assumes wf: "wf_history (db w)" and ok: "keys_ok (db w)" and calm: "faults w = []"
    and n: "n \<le> length (newest i (db w))"
  defines "rest \<equiv> drop n (newest i (db w))" and "l \<equiv> nat (clamp_limit limit)"
  shows "IPHistory_Page i (position i (db w) n) limit w =
         (Inr \<lparr> hp_Rows = map scanIPHistory (take l rest),
                hp_NextCursor = (if l \<le> length rest then position i (db w) (n + l) else '''') \<rparr>, w)"
proof -
  let ?L = "newest i (db w)"
  have l1: "1 \<le> clamp_limit limit" using clamp_limit_bounds by blast
  have res: "page_result (clamp_limit limit) (take l rest) =
      \<lparr> hp_Rows = map scanIPHistory (take l rest),
        hp_NextCursor = (if l \<le> length rest then position i (db w) (n + l) else '''') \<rparr>"
  proof (cases "l \<le> length rest")
    case True
    then have len: "length (take l rest) = l" "take l rest \<noteq> []" using l1 by (auto simp: l_def)
    then have "last (take l rest) = take l rest ! (l - 1)" by (simp add: last_conv_nth)
    also have "\<dots> = ?L ! (n + l - 1)"
      using True n l1 by (simp add: rest_def l_def nth_drop)
    finally show ?thesis
      using True l1 len by (simp add: page_result_def Let_def last_map position_def scanIPHistory_def l_def)
  next
    case False
    then have "int (length (take l rest)) \<noteq> clamp_limit limit" by (auto simp: l_def)
    with False show ?thesis by (simp add: page_result_def Let_def)
  qed
  show ?thesis
  proof (cases "n = 0")
    case True
    have "page_query i None (clamp_limit limit) (db w) = take l rest"
      by (simp add: page_query_def newest_def rest_def l_def True)
    with True calm res show ?thesis by (simp add: IPHistory_Page_def Let_def position_def bindE_def)
  next
    case False
    then have "n - 1 < length ?L" using n by simp
    note k = keys_ok_nth [OF ok this]
    have c: "decodeCursor (position i (db w) n) = Inr (row_key (?L ! (n - 1)))" "position i (db w) n \<noteq> ''''"
      using k False decode_encode_cursor by (simp_all add: position_def)
    have "page_query i (Some (row_key (?L ! (n - 1)))) (clamp_limit limit) (db w) = take l rest"
      using page_query_position [OF wf _ n] False by (simp add: rest_def l_def)
    with c calm res show ?thesis by (simp add: IPHistory_Page_def Let_def bindE_def)
  qed
qed

text \<open>A reader that follows the cursors, at most \<open>k\<close> pages of them.\<close>

fun read_pages :: "nat \<Rightarrow> string \<Rightarrow> int \<Rightarrow> string \<Rightarrow> ('z world_scheme, IPHistory list) action" where
  "read_pages 0 i limit cursor = fail ErrDriver"
| "read_pages (Suc k) i limit cursor =
     bindE (IPHistory_Page i cursor limit) (\<lambda>p.
       if hp_NextCursor p = '''' then ret (hp_Rows p)
       else bindE (read_pages k i limit (hp_NextCursor p)) (\<lambda>rs. ret (hp_Rows p @ rs)))"

lemma read_pages_from:
  fixes w :: "'z world_scheme"
  assumes "wf_history (db w)" and "keys_ok (db w)" and "faults w = []"
    and "n \<le> length (newest i (db w))" and "length (newest i (db w)) - n < k"
  shows "read_pages k i limit (position i (db w) n) w = (Inr (map scanIPHistory (drop n (newest i (db w)))), w)"
  using assms(4,5)
proof (induction k arbitrary: n)
  case (Suc k)
  let ?rest = "drop n (newest i (db w))" and ?l = "nat (clamp_limit limit)"
  have l1: "1 \<le> ?l" using clamp_limit_bounds [of limit] by linarith
  note P = Page_at [OF assms(1-3) Suc.prems(1), of limit]
  show ?case
  proof (cases "?l \<le> length ?rest")
    case True
    then have n': "n + ?l \<le> length (newest i (db w))" "length (newest i (db w)) - (n + ?l) < k"
      using Suc.prems l1 by auto
    have "position i (db w) (n + ?l) \<noteq> ''''"
      using l1 n'(1) keys_ok_nth [OF assms(2), of "n + ?l - 1" i] decode_encode_cursor by (auto simp: position_def)
    moreover have "map scanIPHistory (take ?l ?rest) @ map scanIPHistory (drop (n + ?l) (newest i (db w))) =
        map scanIPHistory ?rest"
      by (metis append_take_drop_id drop_drop map_append add.commute)
    ultimately show ?thesis
      using P True Suc.IH [OF n'] by (simp add: bindE_def)
  next
    case False
    with P show ?thesis by (simp add: bindE_def)
  qed
qed simp

text \<open>
  C12. Paging is complete and exact: without driver failures, following \<open>NextCursor\<close> from the empty cursor
  with any limit ends, and the pages concatenate to the device's whole history, newest first,
  every row exactly once.
\<close>

theorem read_pages_complete:
  fixes w :: "'z world_scheme"
  assumes "wf_db (db w)" and "keys_ok (db w)" and "faults w = []"
    and "length (device_history i (db w)) < k"
  shows "read_pages k i limit '''' w = (Inr (map scanIPHistory (newest_first (device_history i (db w)))), w)"
  using read_pages_from [of w 0 i k limit] assms
  by (simp add: position_def newest_def wf_db_def)

lemma read_pages_complete_witness:
  "read_pages 2 ''d1'' 1 [] sample_world_v4 = (Inr [scanIPHistory hist1], sample_world_v4)"
proof -
  have "wf_db (db sample_world_v4)" "keys_ok (db sample_world_v4)"
    using sample_db_wf by (simp_all add: wf_hist_def) (simp add: keys_ok_def sample_defs int64_ok_def)
  moreover have "device_history ''d1'' (db sample_world_v4) = [hist1]" by (simp add: device_history_def sample_defs)
  ultimately show ?thesis using read_pages_complete [of sample_world_v4 "''d1''" 2 1] by (simp add: newest_first_def)
qed

end
