(* ===== verification/Device_Service.thy ===== *)
theory Device_Service
  imports Auth_Verify History_Page
begin

text \<open>
  \<open>internal/server/service/device.go\<close>, the membership half of \<open>internal/server/service/feed.go\<close>, and the audit
  writer they share (\<open>internal/store/audit_log.go\<close>, \<open>internal/server/service/enrollment.go\<close>): owner-scoped
  device management. The notifier of feed membership is a pair of arguments, as the Go interface
  \<open>DeviceNotifier\<close>; randomness is what \<open>randRead\<close> yields for the secret and for the sealing nonce.
\<close>

section \<open>Audit log\<close>

record AuditEntry =
  ae_ID :: int
  ae_ActorUserID :: string
  ae_EventType :: string
  ae_TargetType :: string
  ae_TargetID :: string
  ae_DetailsJSON :: string
  ae_IP :: string
  ae_UserAgent :: string
  ae_CreatedAt :: int

definition insert_audit :: "AuditEntry \<Rightarrow> database \<Rightarrow> (err + int) \<times> database" where
  "insert_audit e d =
     (let i = audit_log_seq d + 1 in
      (Inr i,
       d\<lparr>audit_log := audit_log d @
           [\<lparr> al_id = i, al_actor_user_id = nullIfEmpty (ae_ActorUserID e), al_event_type = ae_EventType e,
              al_target_type = nullIfEmpty (ae_TargetType e), al_target_id = nullIfEmpty (ae_TargetID e),
              al_details_json = nullIfEmpty (ae_DetailsJSON e), al_ip = nullIfEmpty (ae_IP e),
              al_user_agent = nullIfEmpty (ae_UserAgent e), al_created_at = ae_CreatedAt e \<rparr>],
         audit_log_seq := i\<rparr>))"

definition AuditLog_Append :: "int \<Rightarrow> AuditEntry \<Rightarrow> ('z world_scheme, AuditEntry) action" where
  "AuditLog_Append now e =
     (let e' = (if ae_CreatedAt e = 0 then e\<lparr>ae_CreatedAt := now\<rparr> else e) in
      bindE (stmt (insert_audit e')) (\<lambda>i. ret (e'\<lparr>ae_ID := i\<rparr>)))"

definition auditWriter_Log :: "int \<Rightarrow> AuditEntry \<Rightarrow> ('z world_scheme, unit) action" where
  "auditWriter_Log now e = bindE (tryE (AuditLog_Append now e)) (\<lambda>_. ret ())"

definition device_audit :: "string \<Rightarrow> string \<Rightarrow> string \<Rightarrow> AuditEntry" where
  "device_audit actor event target =
     \<lparr> ae_ID = 0, ae_ActorUserID = actor, ae_EventType = event, ae_TargetType = ''device'', ae_TargetID = target,
       ae_DetailsJSON = '''', ae_IP = '''', ae_UserAgent = '''', ae_CreatedAt = 0 \<rparr>"

section \<open>Feed membership\<close>

definition inFeed :: "Device \<Rightarrow> User \<Rightarrow> bool" where
  "inFeed d u \<longleftrightarrow> \<not> d_Disabled d \<and> \<not> u_Disabled u \<and> (d_CurrentIPv4 d \<noteq> '''' \<or> d_CurrentIPv6 d \<noteq> '''')"

type_synonym 'w device_hook = "int \<Rightarrow> Device \<Rightarrow> ('w, unit) action"

definition emitMembership ::
  "'w device_hook \<Rightarrow> 'w device_hook \<Rightarrow> int \<Rightarrow> Device \<Rightarrow> bool \<Rightarrow> bool \<Rightarrow> ('w, unit) action" where
  "emitMembership DeviceAdded DeviceRemoved now d was becomes =
     bindE (tryE (if \<not> was \<and> becomes then DeviceAdded now d
                  else if was \<and> \<not> becomes then DeviceRemoved now d else ret ())) (\<lambda>_. ret ())"

definition flipDisabled ::
  "'z world_scheme device_hook \<Rightarrow> 'z world_scheme device_hook \<Rightarrow> int \<Rightarrow> Device \<Rightarrow> User \<Rightarrow> bool \<Rightarrow> AuditEntry \<Rightarrow>
   ('z world_scheme, Device) action" where
  "flipDisabled DeviceAdded DeviceRemoved now dev owner disabled entry =
     bindE (DeviceRepo_SetDisabled now (d_ID dev) disabled) (\<lambda>_.
     bindE (auditWriter_Log now entry) (\<lambda>_.
       (let after = dev\<lparr>d_Disabled := disabled\<rparr> in
        bindE (emitMembership DeviceAdded DeviceRemoved now after (inFeed dev owner) (inFeed after owner)) (\<lambda>_.
        DeviceRepo_GetByID (d_ID dev)))))"

section \<open>Owner-scoped operations\<close>

definition ownedDevice :: "string \<Rightarrow> string \<Rightarrow> ('z world_scheme, Device) action" where
  "ownedDevice userID i =
     bindE (DeviceRepo_GetByID i) (\<lambda>dev. if d_UserID dev \<noteq> userID then fail ErrNotFound else ret dev)"

definition DeviceService_List :: "string \<Rightarrow> ('z world_scheme, Device list) action" where
  "DeviceService_List userID = DeviceRepo_ListByUser userID"

definition DeviceService_latestAddresses :: "Device list \<Rightarrow> ('z world_scheme, string \<Rightarrow> LatestAddress option) action" where
  "DeviceService_latestAddresses ds = LatestAddressPerFamily (map d_ID ds)"

definition DeviceService_ListWithExpiry ::
  "string \<Rightarrow> ('z world_scheme, Device list \<times> (string \<Rightarrow> LatestAddress option)) action" where
  "DeviceService_ListWithExpiry userID =
     bindE (DeviceRepo_ListByUser userID) (\<lambda>ds.
     bindE (DeviceService_latestAddresses ds) (\<lambda>latest. ret (ds, latest)))"

definition DeviceService_LatestAddress :: "string \<Rightarrow> string \<Rightarrow> ('z world_scheme, LatestAddress) action" where
  "DeviceService_LatestAddress userID i =
     bindE (ownedDevice userID i) (\<lambda>_.
     bindE (LatestAddressPerFamily [i]) (\<lambda>latest.
       ret (case latest i of None \<Rightarrow> no_LatestAddress | Some a \<Rightarrow> a)))"

definition DeviceService_Get :: "string \<Rightarrow> string \<Rightarrow> ('z world_scheme, Device) action" where
  "DeviceService_Get userID i = ownedDevice userID i"

definition DeviceService_Rename :: "int \<Rightarrow> string \<Rightarrow> string \<Rightarrow> string \<Rightarrow> ('z world_scheme, Device) action" where
  "DeviceService_Rename now userID i newLabel =
     bindE (ownedDevice userID i) (\<lambda>_.
     bindE (DeviceRepo_Rename now i newLabel) (\<lambda>_.
     bindE (auditWriter_Log now (device_audit userID ''device.renamed'' i)) (\<lambda>_.
     DeviceRepo_GetByID i)))"

definition DeviceService_SetEnabled ::
  "'z world_scheme device_hook \<Rightarrow> 'z world_scheme device_hook \<Rightarrow> int \<Rightarrow> string \<Rightarrow> string \<Rightarrow> bool \<Rightarrow>
   ('z world_scheme, Device) action" where
  "DeviceService_SetEnabled DeviceAdded DeviceRemoved now userID i disabled =
     bindE (ownedDevice userID i) (\<lambda>dev.
     bindE (UserRepo_GetByID (d_UserID dev)) (\<lambda>owner.
     flipDisabled DeviceAdded DeviceRemoved now dev owner disabled
       (device_audit userID (if disabled then ''device.disabled'' else ''device.enabled'') i)))"

definition DeviceService_Delete ::
  "'z world_scheme device_hook \<Rightarrow> 'z world_scheme device_hook \<Rightarrow> int \<Rightarrow> string \<Rightarrow> string \<Rightarrow> ('z world_scheme, unit) action" where
  "DeviceService_Delete DeviceAdded DeviceRemoved now userID i =
     bindE (ownedDevice userID i) (\<lambda>dev.
     bindE (UserRepo_GetByID (d_UserID dev)) (\<lambda>owner.
     bindE (DeviceRepo_Delete i) (\<lambda>_.
     bindE (auditWriter_Log now (device_audit userID ''device.deleted'' i)) (\<lambda>_.
     emitMembership DeviceAdded DeviceRemoved now dev (inFeed dev owner) False))))"

definition DeviceService_RotateSecret ::
  "crypto \<Rightarrow> string \<Rightarrow> string option \<Rightarrow> string option \<Rightarrow> int \<Rightarrow> string \<Rightarrow> string \<Rightarrow> ('z authworld_scheme, string) action" where
  "DeviceService_RotateSecret cr key rnd nonce now userID i =
     bindE (ownedDevice userID i) (\<lambda>_.
     bindE (lift_res (GenerateSecret rnd)) (\<lambda>secret.
     bindE (lift_res (SealSecret cr nonce key secret)) (\<lambda>sealed.
     bindE (DeviceRepo_RotateSecret now i sealed) (\<lambda>_.
     bindE (Invalidate i) (\<lambda>_.
     bindE (auditWriter_Log now (device_audit userID ''device.secret.rotated'' i)) (\<lambda>_.
     ret secret))))))"

definition DeviceService_History :: "string \<Rightarrow> string \<Rightarrow> string \<Rightarrow> int \<Rightarrow> ('z world_scheme, HistoryPage) action" where
  "DeviceService_History userID i cursor limit =
     bindE (ownedDevice userID i) (\<lambda>_. IPHistory_Page i cursor limit)"

section \<open>Membership in Go and in SQL\<close>

lemma listFeedQuery_inFeed:
  assumes wf: "wf_db d" and r: "r \<in> set (devices d)" and u: "find_user (dc_user_id r) d = Some u"
  shows "r \<in> set (listFeedQuery d) \<longleftrightarrow> inFeed (scanDevice r) (scanUser u)"
proof -
  have row: "wf_device_row r" using wf r by (simp add: wf_db_def wf_devices_def list_all_iff)
  have dist: "distinct (map uc_id (users d))" using wf by (simp add: wf_db_def wf_users_def)
  have um: "u \<in> set (users d)" "uc_id u = dc_user_id r" using u by (auto simp: find_user_def dest: find_SomeD)
  have only: "x = u" if "x \<in> set (users d)" "uc_id x = dc_user_id r" for x
    using distinct_key_eq [OF dist that(1) um(1)] that(2) um(2) by simp
  have addr: "(scanString (dc_current_ipv4 r) \<noteq> '''') = (dc_current_ipv4 r \<noteq> None)"
    "(scanString (dc_current_ipv6 r) \<noteq> '''') = (dc_current_ipv6 r \<noteq> None)"
    using row by (auto simp: wf_device_row_def scanString_empty_iff)
  show ?thesis
  proof -
    have ex: "(\<exists>x \<in> set (users d). uc_id x = dc_user_id r \<and> \<not> dc_disabled r \<and> \<not> uc_disabled x) \<longleftrightarrow>
        \<not> dc_disabled r \<and> \<not> uc_disabled u"
      using um only by blast
    show ?thesis using r by (simp add: listFeedQuery_def ex inFeed_def scanDevice_def scanUser_def addr)
  qed
qed

section \<open>Owner scope\<close>

text \<open>The operations of another user on this device stop at \<open>ownedDevice\<close>.\<close>

lemma ownedDevice_Inr:
  assumes "ownedDevice userID i w = (Inr dev, w')"
  shows "\<exists>r. find_device i (db w) = Some r \<and> dev = scanDevice r \<and> dc_user_id r = userID \<and>
             db w' = db w \<and> w' = w\<lparr>faults := faults w'\<rparr>"
  using assms
  by (auto simp: ownedDevice_def bindE_Inr_iff DeviceRepo_GetByID_def scanDevice_def split: if_splits dest!: queryRow_Inr)

lemma ownedDevice_foreign:
  fixes w :: "'z world_scheme"
  assumes "\<And>r. find_device i (db w) = Some r \<Longrightarrow> dc_user_id r \<noteq> userID"
  shows "\<exists>e w'. ownedDevice userID i w = (Inl e, w') \<and> (e = ErrNotFound \<or> e = ErrDriver) \<and> db w' = db w"
proof (cases "ownedDevice userID i w")
  case (Pair x w')
  show ?thesis
  proof (cases x)
    case (Inr dev)
    with ownedDevice_Inr [of userID i w dev w'] Pair assms show ?thesis by auto
  next
    case (Inl e)
    with Pair have "(e = ErrNotFound \<or> e = ErrDriver) \<and> db w' = db w"
      by (auto simp: ownedDevice_def bindE_Inl_iff DeviceRepo_GetByID_def split: if_splits
          dest!: queryRow_Inr queryRow_Inl)
    with Pair Inl show ?thesis by simp
  qed
qed

end
