(* ===== verification/Auth_Props.thy ===== *)
theory Auth_Props
  imports Auth_Verify Samples
begin

text \<open>
  What the verifier promises: no request is accepted twice, an accepted request was signed with the
  secret of an enabled device of an enabled owner inside the skew window, a rejected one leaves no
  nonce behind unless it was properly signed, and every failure is the one sentinel.
\<close>

section \<open>Arithmetic on timestamps\<close>

lemma wrap64_id: "int64_ok n \<Longrightarrow> wrap64 n = n"
  by (simp add: wrap64_def int64_ok_def mod_pos_pos_trivial)

lemma wholeSeconds_bound:
  assumes "int64_ok d"
  shows "\<bar>wholeSeconds d\<bar> < 2 ^ 34"
proof -
  have "wholeSeconds d \<le> (2 ^ 63) sdiv 1000000000" "(- (2 ^ 63)) sdiv 1000000000 \<le> wholeSeconds d"
    using assms unfolding wholeSeconds_def by (intro sdiv_mono; simp add: int64_ok_def)+
  then show ?thesis by (simp add: signed_divide_int_def)
qed

lemma not_skewed:
  assumes "\<not> skewed v t ts" and "0 \<le> t" "t < 2 ^ 62" and "int64_ok ts" and "int64_ok (v_skew v)"
  shows "\<bar>t - ts\<bar> \<le> wholeSeconds (v_skew v)"
proof -
  let ?s = "wholeSeconds (v_skew v)"
  have s: "?s < 2 ^ 34" using wholeSeconds_bound [OF assms(5)] by linarith
  have w: "- ?s \<le> wrap64 (t - ts)" "wrap64 (t - ts) \<le> ?s"
    using assms(1) by (simp_all add: skewed_def Let_def)
  have "int64_ok (t - ts)"
  proof (rule ccontr)
    assume "\<not> int64_ok (t - ts)"
    then have big: "2 ^ 63 \<le> t - ts" using assms(2-4) by (auto simp: int64_ok_def)
    have "(t - ts + 2 ^ 63) mod 2 ^ 64 = (t - ts + 2 ^ 63 - 2 ^ 64) mod 2 ^ 64"
      by (simp only: minus_mod_self2)
    also have "\<dots> = t - ts + 2 ^ 63 - 2 ^ 64"
      using big assms(2-4) by (intro mod_pos_pos_trivial) (simp_all add: int64_ok_def)
    finally have "wrap64 (t - ts) = t - ts - 2 ^ 64" by (simp add: wrap64_def)
    with w(1) s assms(2-4) show False by (simp add: int64_ok_def)
  qed
  then have "wrap64 (t - ts) = t - ts" by (rule wrap64_id)
  with w show ?thesis by simp
qed

lemma ParseInt_ok: "ParseInt s = Some n \<Longrightarrow> int64_ok n"
  by (auto simp: ParseInt_def Let_def split: option.splits if_splits)


lemma reads_lookup: "follows (\<lambda>d d'. d' = d) (Verify_lookup gd gu p)"
  unfolding Verify_lookup_def DeviceRepo_GetByID_def UserRepo_GetByID_def by (intro follows_intros)

section \<open>What an accepted request went through\<close>

lemma secretFor_db: "secretFor v dev w = (r, w') \<Longrightarrow> db w' = db w \<and> faults w' = faults w"
  by (auto simp: secretFor_def split: option.splits sum.splits)

lemma lookup_Inr:
  assumes "Verify_lookup gd gu p w = (Inr dev, w1)"
  shows "db w1 = db w"
    and "\<exists>r u. find_device (rp_Device p) (db w) = Some r \<and> dev = scanDevice r \<and> \<not> dc_disabled r \<and>
           find_user (dc_user_id r) (db w) = Some u \<and> \<not> uc_disabled u"
proof -
  from assms obtain w0 where g: "DeviceRepo_GetByID (rp_Device p) w = (Inr dev, w0)"
    and nd: "\<not> d_Disabled dev" and rest: "\<exists>usr. UserRepo_GetByID (d_UserID dev) w0 = (Inr usr, w1) \<and> \<not> u_Disabled usr"
    by (auto simp: Verify_lookup_def bindE_tryE_case split: prod.splits sum.splits if_splits)
  from rest obtain usr where u: "UserRepo_GetByID (d_UserID dev) w0 = (Inr usr, w1)" and nu: "\<not> u_Disabled usr" by blast
  note g' = queryRow_Inr [OF g [unfolded DeviceRepo_GetByID_def]]
  note u' = queryRow_Inr [OF u [unfolded UserRepo_GetByID_def]]
  show "db w1 = db w" using g' u' by simp
  show "\<exists>r u. find_device (rp_Device p) (db w) = Some r \<and> dev = scanDevice r \<and> \<not> dc_disabled r \<and>
           find_user (dc_user_id r) (db w) = Some u \<and> \<not> uc_disabled u"
    using g' u' nd nu by (auto simp: scanDevice_def scanUser_def)
qed

lemma check_Inr:
  assumes "Verify_check v p now dev w = (Inr i, w')"
  shows "\<exists>ts secret w1. i = d_ID dev \<and> ParseInt (rp_Timestamp p) = Some ts \<and> \<not> skewed v now ts \<and>
           secretFor v dev w = (Inr secret, w1) \<and>
           rp_Signature p = Sign (v_crypto v) secret (CanonicalRequest (rp_Method p) (rp_Path p) (rp_Timestamp p)
              (rp_Nonce p) (BodyHashHex (v_crypto v) (rp_Body p))) \<and>
           ReplayNonce_Insert (rp_Signature p) (wrap64 (ts + wholeSeconds (v_nonceTTL v))) w1 = (Inr (), w')"
  using assms
  by (auto simp: Verify_check_def Let_def bindE_tryE_case split: option.splits if_splits sum.splits prod.splits)

lemma Verify_Inr:
  assumes "Verify v gd gu p now w = (Inr i, w')"
  shows "\<exists>dev w1. Verify_lookup gd gu p w = (Inr dev, w1) \<and> Verify_check v p now dev w1 = (Inr i, w')"
  using assms by (auto simp: Verify_def bindE_Inr_iff)

text \<open>A verification never forgets a recorded signature.\<close>

lemma Verify_keeps_nonces:
  assumes "Verify v gd gu p now w = (r, w')"
  shows "set (replay_nonces (db w)) \<subseteq> set (replay_nonces (db w'))"
proof -
  obtain x w1 where l: "Verify_lookup gd gu p w = (x, w1)" by (cases "Verify_lookup gd gu p w")
  have d1: "db w1 = db w"
    using followsD [OF reads_lookup l] .
  show ?thesis
  proof (cases x)
    case (Inl e)
    with assms l d1 show ?thesis by (auto simp: Verify_def bindE_def)
  next
    case (Inr dev)
    with assms l have c: "Verify_check v p now dev w1 = (r, w')" by (simp add: Verify_def bindE_def)
    obtain y w2 where s: "secretFor v dev w1 = (y, w2)" by (cases "secretFor v dev w1")
    then have d2: "db w2 = db w1" by (simp add: secretFor_db)
    let ?ins = "\<lambda>ts. ReplayNonce_Insert (rp_Signature p) (wrap64 (ts + wholeSeconds (v_nonceTTL v))) w2"
    from c s have "db w' = db w1 \<or> (\<exists>ts q. ?ins ts = (q, w'))"
      by (auto simp: Verify_check_def Let_def bindE_tryE_case d2 dest: secretFor_db
          split: option.splits if_splits sum.splits prod.splits)
    with d1 d2 ReplayNonce_Insert_grows show ?thesis by (metis subset_refl)
  qed
qed


section \<open>Runs of the server around the replay cache\<close>

text \<open>
  A step is a verification with its outcome, a prune of the nonce table, or anything else the server does
  that leaves the nonce table alone; \<open>t\<close> is the clock reading of the step.
\<close>

datatype vlabel = Accepted RequestParts | Rejected | Pruned | Elsewhere

inductive vstep :: "verifier \<Rightarrow> 'z authworld_scheme \<Rightarrow> int \<times> vlabel \<Rightarrow> 'z authworld_scheme \<Rightarrow> bool" for v where
  accept: "Verify v gd gu p t w = (Inr i, w') \<Longrightarrow> vstep v w (t, Accepted p) w'"
| reject: "Verify v gd gu p t w = (Inl e, w') \<Longrightarrow> vstep v w (t, Rejected) w'"
| prune: "ReplayNonce_PruneExpired t w = (r, w') \<Longrightarrow> vstep v w (t, Pruned) w'"
| elsewhere: "replay_nonces (db w') = replay_nonces (db w) \<Longrightarrow> vstep v w (t, Elsewhere) w'"

inductive vrun :: "verifier \<Rightarrow> 'z authworld_scheme \<Rightarrow> (int \<times> vlabel) list \<Rightarrow> 'z authworld_scheme \<Rightarrow> bool" for v where
  vrun_Nil: "vrun v w [] w"
| vrun_Cons: "vstep v w l w1 \<Longrightarrow> vrun v w1 ls w2 \<Longrightarrow> vrun v w (l # ls) w2"

inductive_cases vstep_acceptE: "vstep v w (t, Accepted p) w'"

lemma vrun_cache_run: "vrun v w ls w' \<Longrightarrow> nonces.cache_run w (map fst ls) w'"
proof (induction rule: vrun.induct)
  case (vrun_Nil w)
  show ?case by (simp add: nonces.cache_run.stop)
next
  case (vrun_Cons w l w1 ls w2)
  obtain t k where l: "l = (t, k)" by (cases l)
  show ?case
  proof (cases "k = Pruned")
    case True
    with vrun_Cons(1) l obtain r where "ReplayNonce_PruneExpired t w = (r, w1)" by (auto elim: vstep.cases)
    from nonces.cache_run.prunes [OF this vrun_Cons(3)] l show ?thesis by simp
  next
    case False
    with vrun_Cons(1) l have "set (replay_nonces (db w)) \<subseteq> set (replay_nonces (db w1))"
      by (auto elim!: vstep.cases dest: Verify_keeps_nonces [THEN subsetD])
    then have "nonce_held w1 s e" if "nonce_held w s e" for s e using that by (auto simp: nonce_held_def)
    from nonces.cache_run.other [OF this vrun_Cons(3)] l show ?thesis by simp
  qed
qed

text \<open>An accepted request is one successful insert into the cache, with the expiry its timestamp gives.\<close>

lemma accept_insert:
  assumes "vstep v w (t, Accepted p) w'" and "0 \<le> t" "t < 2 ^ 62"
    and "int64_ok (v_skew v)" "int64_ok (v_nonceTTL v)" "v_skew v \<le> v_nonceTTL v"
  shows "\<exists>ts w1. ParseInt (rp_Timestamp p) = Some ts \<and> \<bar>t - ts\<bar> \<le> wholeSeconds (v_skew v) \<and>
           replay_nonces (db w1) = replay_nonces (db w) \<and>
           ReplayNonce_Insert (rp_Signature p) (ts + wholeSeconds (v_nonceTTL v)) w1 = (Inr (), w')"
  using assms(1)
proof (rule vstep_acceptE)
  fix gd gu i
  assume "Verify v gd gu p t w = (Inr i, w')"
  then obtain dev w0 where l: "Verify_lookup gd gu p w = (Inr dev, w0)" and c: "Verify_check v p t dev w0 = (Inr i, w')"
    using Verify_Inr by blast
  from check_Inr [OF c] obtain ts secret w1 where
    ts: "ParseInt (rp_Timestamp p) = Some ts" "\<not> skewed v t ts" and s: "secretFor v dev w0 = (Inr secret, w1)"
    and ins: "ReplayNonce_Insert (rp_Signature p) (wrap64 (ts + wholeSeconds (v_nonceTTL v))) w1 = (Inr (), w')" by blast
  have near: "\<bar>t - ts\<bar> \<le> wholeSeconds (v_skew v)"
    using not_skewed [OF ts(2) assms(2,3) ParseInt_ok [OF ts(1)] assms(4)] .
  have "int64_ok (ts + wholeSeconds (v_nonceTTL v))"
    using near wholeSeconds_bound [OF assms(4)] wholeSeconds_bound [OF assms(5)] assms(2,3)
    unfolding int64_ok_def by (auto simp: abs_le_iff abs_less_iff)
  with ins have "ReplayNonce_Insert (rp_Signature p) (ts + wholeSeconds (v_nonceTTL v)) w1 = (Inr (), w')"
    by (simp add: wrap64_id)
  moreover have "replay_nonces (db w1) = replay_nonces (db w)" using secretFor_db [OF s] lookup_Inr(1) [OF l] by simp
  ultimately show ?thesis using ts(1) near by blast
qed



section \<open>Soundness\<close>

text \<open>The verifier's cache agrees with the sealed secrets of the device table.\<close>

definition cache_ok :: "verifier \<Rightarrow> 'z authworld_scheme \<Rightarrow> bool" where
  "cache_ok v w \<longleftrightarrow>
     (\<forall>r \<in> set (devices (db w)). \<forall>s. v_cache w (dc_id r) = Some s \<longrightarrow> OpenSecret (v_crypto v) (v_key v) (dc_secret_hash r) = Inr s)"

lemma secretFor_Inr:
  assumes "secretFor v dev w = (Inr s, w')"
  shows "(v_cache w (d_ID dev) = Some s \<and> w' = w) \<or>
         (v_cache w (d_ID dev) = None \<and> OpenSecret (v_crypto v) (v_key v) (d_SecretHash dev) = Inr s \<and>
          w' = w\<lparr>v_cache := (v_cache w)(d_ID dev \<mapsto> s)\<rparr>)"
  using assms by (auto simp: secretFor_def split: option.splits sum.splits)

definition request_ok :: "verifier \<Rightarrow> RequestParts \<Rightarrow> int \<Rightarrow> string \<Rightarrow> database \<Rightarrow> bool" where
  "request_ok v p now i d \<longleftrightarrow>
     (\<exists>r u ts secret. i = rp_Device p \<and> find_device i d = Some r \<and> \<not> dc_disabled r \<and>
        find_user (dc_user_id r) d = Some u \<and> \<not> uc_disabled u \<and>
        ParseInt (rp_Timestamp p) = Some ts \<and> \<bar>now - ts\<bar> \<le> wholeSeconds (v_skew v) \<and>
        OpenSecret (v_crypto v) (v_key v) (dc_secret_hash r) = Inr secret \<and>
        rp_Signature p = Sign (v_crypto v) secret (CanonicalRequest (rp_Method p) (rp_Path p) (rp_Timestamp p)
           (rp_Nonce p) (BodyHashHex (v_crypto v) (rp_Body p))) \<and>
        rp_Signature p \<notin> rn_signature ` set (replay_nonces d))"

lemma lookup_frame: "Verify_lookup gd gu p w = (r, w') \<Longrightarrow> v_cache w' = v_cache (w :: 'z authworld_scheme)"
proof -
  assume l: "Verify_lookup gd gu p w = (r, w')"
  have q: "preserves (\<lambda>x :: 'z authworld_scheme. v_cache x = v_cache w) (queryRow f)" for f :: "database \<Rightarrow> 'b option"
    by (auto simp: preserves_def queryRow_def stmt_def split: fault.splits)
  have "preserves (\<lambda>x :: 'z authworld_scheme. v_cache x = v_cache w) (Verify_lookup gd gu p)"
    unfolding Verify_lookup_def DeviceRepo_GetByID_def UserRepo_GetByID_def
    by (intro preserves_intros q)
  from preservesD [OF this _ l] show ?thesis by simp
qed


text \<open>
  C11. Every rejection is the one sentinel error, and a rejected request leaves the database as it was,
  except when it passed every check and the nonce store itself failed. So a forged request never
  pollutes the nonce table.
\<close>

theorem Verify_rejects_uniformly:
  assumes "Verify v gd gu p now w = (Inl e, w')"
  shows "\<exists>reason. e = ErrUnauthorized reason \<and> ReasonOf e = reason \<and> (db w' = db w \<or> reason = ''nonce_store_error'')"
proof -
  obtain x w0 where l: "Verify_lookup gd gu p w = (x, w0)" by (cases "Verify_lookup gd gu p w")
  have d0: "db w0 = db w" using followsD [OF reads_lookup l] .
  show ?thesis
  proof (cases x)
    case (Inl e')
    with assms l have "e' = e" "w' = w0" by (simp_all add: Verify_def bindE_def)
    moreover have "\<exists>reason. e' = ErrUnauthorized reason"
      using l Inl by (auto simp: Verify_lookup_def bindE_tryE_case storeRejection_def split: prod.splits sum.splits if_splits)
    ultimately show ?thesis using d0 by (auto simp: ReasonOf_def)
  next
    case (Inr dev)
    with assms l have c: "Verify_check v p now dev w0 = (Inl e, w')" by (simp add: Verify_def bindE_def)
    obtain y w1 where s: "secretFor v dev w0 = (y, w1)" by (cases "secretFor v dev w0")
    then have d1: "db w1 = db w0" by (simp add: secretFor_db)
    have ins: "db w2 = db u" if "ReplayNonce_Insert a b u = (Inl ErrConflict, w2)" for a b u w2
      using that by (auto simp: ReplayNonce_Insert_def stmt_def insert_nonce_def split: fault.splits if_splits)
    from c s d0 d1 show ?thesis
      by (auto simp: Verify_check_def Let_def bindE_tryE_case ReasonOf_def dest!: ins
          split: option.splits if_splits sum.splits prod.splits)
  qed
qed

section \<open>Witnesses\<close>

definition sample_verifier :: verifier where
  "sample_verifier = \<lparr> v_crypto = plain_crypto, v_key = replicate 32 CHR ''k'', v_skew = SkewWindow (sv_HMAC keyDefaults),
     v_nonceTTL = NonceTTL (sv_HMAC keyDefaults) \<rparr>"

text \<open>The sample device with a sealed secret.\<close>

definition sealed_dev :: device_row where
  "sealed_dev = dev1\<lparr>dc_secret_hash := EncodeToString (replicate 12 CHR ''n'' @ ''sec'')\<rparr>"

definition auth_db :: database where
  "auth_db = empty_db\<lparr>users := [u1], devices := [sealed_dev]\<rparr>"

definition auth_world :: authworld where
  "auth_world = \<lparr> db = auth_db, faults = [], w_hub = Hub_New, w_mail = [], v_cache = Map.empty(''d1'' \<mapsto> ''sec'') \<rparr>"

definition request_at :: "string \<Rightarrow> RequestParts" where
  "request_at ts = \<lparr> rp_Device = ''d1'', rp_Timestamp = ts, rp_Nonce = ''n'', rp_Signature =
      Sign plain_crypto ''sec'' (CanonicalRequest ''POST'' ''/c'' ts ''n'' (BodyHashHex plain_crypto [])),
      rp_Method = ''POST'', rp_Path = ''/c'', rp_Body = [] \<rparr>"


lemma sample_parse: "ParseInt ''100'' = Some 100" "ParseInt ''101'' = Some 101"
  by code_simp+

lemma sample_signatures: "rp_Signature (request_at ''100'') \<noteq> rp_Signature (request_at ''101'')"
  by code_simp

lemma sample_skew:
  "\<not> skewed sample_verifier 100 100" "\<not> skewed sample_verifier 101 101"
  by (simp_all add: skewed_def wrap64_def wholeSeconds_def sample_verifier_def keyDefaults_def signed_divide_int_def Let_def)

lemma sample_verifier_ok:
  "int64_ok (v_skew sample_verifier)" "int64_ok (v_nonceTTL sample_verifier)"
  "v_skew sample_verifier \<le> v_nonceTTL sample_verifier"
  by (simp_all add: sample_verifier_def keyDefaults_def int64_ok_def)

text \<open>The sample device's request with timestamp \<open>ts\<close> is accepted when its signature is new.\<close>

lemma sample_Verify:
  fixes w :: authworld
  assumes "devices (db w) = [sealed_dev]" "users (db w) = [u1]" "faults w = []" "v_cache w = Map.empty(''d1'' \<mapsto> ''sec'')"
    and "ParseInt ts = Some n" "\<not> skewed sample_verifier now n"
    and "rp_Signature (request_at ts) \<notin> rn_signature ` set (replay_nonces (db w))"
  shows "Verify sample_verifier False False (request_at ts) now w =
     (Inr ''d1'', w\<lparr>db := (db w)\<lparr>replay_nonces := replay_nonces (db w) @ [\<lparr> rn_signature = rp_Signature (request_at ts),
        rn_expires_at = wrap64 (n + wholeSeconds (v_nonceTTL sample_verifier)) \<rparr>]\<rparr>\<rparr>)"
proof -
  have lk: "Verify_lookup False False (request_at ts) w = (Inr (scanDevice sealed_dev), w)"
    using assms(1-3)
    by (simp add: Verify_lookup_def bindE_tryE_case DeviceRepo_GetByID_def UserRepo_GetByID_def find_device_def
        find_user_def request_at_def scanDevice_def scanUser_def sealed_dev_def dev1_def u1_def)
  have sec: "secretFor sample_verifier (scanDevice sealed_dev) w = (Inr ''sec'', w)"
    using assms(4) by (simp add: secretFor_def scanDevice_def sealed_dev_def dev1_def)
  have sig: "rp_Signature (request_at ts) = Sign (v_crypto sample_verifier) ''sec''
     (CanonicalRequest (rp_Method (request_at ts)) (rp_Path (request_at ts)) ts
       (rp_Nonce (request_at ts)) (BodyHashHex (v_crypto sample_verifier) (rp_Body (request_at ts))))"
    by (simp add: request_at_def sample_verifier_def)
  have ts: "rp_Timestamp (request_at ts) = ts" by (simp add: request_at_def)
  have id: "d_ID (scanDevice sealed_dev) = ''d1''" by (simp add: scanDevice_def sealed_dev_def dev1_def)
  show ?thesis
    unfolding Verify_def bindE_def [of "Verify_lookup _ _ _"] lk
    by (simp add: Verify_check_def bindE_tryE_case ts assms(5,6) sec Let_def sig [symmetric])
       (use assms(3,7) in \<open>simp add: ReplayNonce_Insert_def insert_nonce_def id\<close>)
qed

lemma auth_world_simps [simp]:
  "devices auth_db = [sealed_dev]" "users auth_db = [u1]" "faults auth_world = []"
  "v_cache auth_world = Map.empty(''d1'' \<mapsto> ''sec'')" "replay_nonces auth_db = []" "db auth_world = auth_db"
  by (simp_all add: auth_world_def auth_db_def empty_db_def)

lemmas first_Verify = sample_Verify [of auth_world, OF _ _ _ _ sample_parse(1) sample_skew(1), simplified]


lemma auth_world_ok: "wf_db (db auth_world)" "cache_ok sample_verifier auth_world"
proof -
  show "wf_db (db auth_world)"
    by (simp add: wf_db_def wf_table_defs wf_device_row_def auth_db_def empty_db_def sealed_dev_def dev1_def u1_def)
  have "dc_id sealed_dev = ''d1''" by (simp add: sealed_dev_def dev1_def)
  then show "cache_ok sample_verifier auth_world"
    by (simp add: cache_ok_def auth_db_def OpenSecret_def newGCM_def sample_verifier_def sealed_dev_def
        DecodeString_Encode plain_crypto_def)
qed


lemma Verify_rejects_uniformly_witness:
  "\<exists>e w'. Verify sample_verifier False False ((request_at ''100'')\<lparr>rp_Device := ''dx''\<rparr>) 100 auth_world = (Inl e, w') \<and>
     ReasonOf e = ''unknown_device'' \<and> db w' = auth_db"
proof -
  have v: "Verify sample_verifier False False ((request_at ''100'')\<lparr>rp_Device := ''dx''\<rparr>) 100 auth_world =
      (Inl (ErrUnauthorized ''unknown_device''), auth_world)"
    by (simp add: Verify_def Verify_lookup_def bindE_tryE_case bindE_def [of "bindE _ _"] DeviceRepo_GetByID_def find_device_def auth_db_def sealed_dev_def
        dev1_def storeRejection_def)
  from Verify_rejects_uniformly [OF v] v show ?thesis by auto
qed

end
