(* ===== verification/Device_Props.thy ===== *)
theory Device_Props
  imports Device_Service Auth_Props
begin

text \<open>
  What device management promises: another user's device cannot be seen or changed, the Go membership
  predicate agrees with the feed query, the feed counter moves exactly when membership flips, and a
  rotated secret takes effect, except for a verification that was already under way.
\<close>

section \<open>Owner scope\<close>

definition hidden :: "('z world_scheme, 'a) action \<Rightarrow> 'z world_scheme \<Rightarrow> bool" where
  "hidden m w \<longleftrightarrow> (\<exists>e w'. m w = (Inl e, w') \<and> (e = ErrNotFound \<or> e = ErrDriver) \<and> db w' = db w)"

lemma hidden_bind: "hidden m w \<Longrightarrow> hidden (bindE m f) w"
  by (auto simp: hidden_def bindE_def)

text \<open>
  C13. Owner isolation: for a device that does not exist or belongs to someone else, every operation of the
  device service fails with ErrNotFound (or the driver's own error), the same in both cases, and
  leaves the database unchanged: nothing is read out, renamed, disabled, deleted, rotated or logged.
\<close>

theorem foreign_device_hidden:
  fixes w :: "'z authworld_scheme"
  assumes "\<forall>r. find_device i (db w) = Some r \<longrightarrow> dc_user_id r \<noteq> userID"
  shows "hidden (DeviceService_Get userID i) w \<and> hidden (DeviceService_LatestAddress userID i) w \<and>
         hidden (DeviceService_Rename now userID i l) w \<and> hidden (DeviceService_SetEnabled a b now userID i x) w \<and>
         hidden (DeviceService_Delete a b now userID i) w \<and>
         hidden (DeviceService_RotateSecret cr key rnd nonce now userID i) w \<and>
         hidden (DeviceService_History userID i cursor limit) w"
proof -
  have "hidden (ownedDevice userID i) w" using ownedDevice_foreign [of i w userID] assms by (auto simp: hidden_def)
  then show ?thesis
    unfolding DeviceService_Get_def DeviceService_LatestAddress_def DeviceService_Rename_def DeviceService_SetEnabled_def
      DeviceService_Delete_def DeviceService_RotateSecret_def DeviceService_History_def
    by (intro conjI hidden_bind)
qed

lemma foreign_device_hidden_witness:
  "hidden (DeviceService_Delete Nop_DeviceAdded Nop_DeviceRemoved 7 ''u2'' ''d1'') auth_world"
proof -
  have f: "find_device ''d1'' (db auth_world) = Some sealed_dev" by (simp add: find_device_def sealed_dev_def dev1_def)
  have "\<forall>r. find_device ''d1'' (db auth_world) = Some r \<longrightarrow> dc_user_id r \<noteq> ''u2''"
    unfolding f by (simp add: sealed_dev_def dev1_def)
  from foreign_device_hidden [OF this] show ?thesis by blast
qed

text \<open>
  The two halves of the membership predicate agree: a device row is listed by the feed query exactly
  when the Go predicate holds of the device and owner as the services read them.
\<close>

theorem inFeed_agrees:
  assumes "wf_db d" and "r \<in> set (devices d)" and "find_user (dc_user_id r) d = Some u"
  shows "r \<in> set (listFeedQuery d) \<longleftrightarrow> inFeed (scanDevice r) (scanUser u)"
  using assms by (rule listFeedQuery_inFeed)

lemma inFeed_agrees_witness: "dev1_v4 \<in> set (listFeedQuery sample_db_v4) \<and> inFeed (scanDevice dev1_v4) (scanUser u1)"
proof -
  have "wf_db sample_db_v4" "dev1_v4 \<in> set (devices sample_db_v4)" "find_user (dc_user_id dev1_v4) sample_db_v4 = Some u1"
    using sample_db_wf by (simp_all add: wf_hist_def) (simp_all add: find_user_def sample_defs)
  from inFeed_agrees [OF this] show ?thesis by (auto simp: inFeed_def scanDevice_def scanUser_def sample_defs)
qed

section \<open>The feed counter follows membership\<close>

lemma dispatch_seq: "calm w \<Longrightarrow> feed_seq (db (snd (dispatch f now t i p w))) = feed_seq (db w)"
  by (simp add: dispatch_def bindE_def hub_op_def Enqueue_no_fault)

lemma membership_seq:
  fixes w :: "'z hubworld_scheme"
  assumes "calm w"
  shows "feed_seq (db (snd (membership f now t d render w))) = feed_seq (db w) + 1"
  using assms
  by (auto simp: dispatch_seq membership_def bindE_tryE_case FeedState_Bump_def split: sum.split)

lemma membership_core:
  "devices (db (snd (membership f now t d render w))) = devices (db w)"
  "users (db (snd (membership f now t d render w))) = users (db w)"
  by (rule keeps_core_devices keeps_core_users, rule keeps_core_membership)+

lemma emit_seq:
  fixes w :: "'z hubworld_scheme"
  assumes "calm w"
  shows "feed_seq (db (snd (emitMembership (fanout_DeviceAdded f) (fanout_DeviceRemoved f) now d b a w))) =
           feed_seq (db w) + (if b \<noteq> a then 1 else 0) \<and>
         devices (db (snd (emitMembership (fanout_DeviceAdded f) (fanout_DeviceRemoved f) now d b a w))) = devices (db w) \<and>
         users (db (snd (emitMembership (fanout_DeviceAdded f) (fanout_DeviceRemoved f) now d b a w))) = users (db w)"
proof -
  have tail: "snd (bindE (tryE m) (\<lambda>_. ret ()) w) = snd (m w)" for m :: "('z hubworld_scheme, unit) action"
    by (auto simp: bindE_def tryE_def split: prod.split)
  show ?thesis
    unfolding emitMembership_def tail
    using membership_seq [OF assms]
    by (auto simp: membership_core fanout_DeviceAdded_def fanout_DeviceRemoved_def)
qed

lemma auditWriter_calm:
  fixes w :: "'z world_scheme"
  assumes "calm w"
  shows "fst (auditWriter_Log now e w) = Inr ()" "calm (snd (auditWriter_Log now e w))"
    "devices (db (snd (auditWriter_Log now e w))) = devices (db w)"
    "users (db (snd (auditWriter_Log now e w))) = users (db w)"
    "feed_seq (db (snd (auditWriter_Log now e w))) = feed_seq (db w)"
  using assms
  by (simp_all add: auditWriter_Log_def AuditLog_Append_def Let_def bindE_def tryE_def insert_audit_def)

definition listed :: "string \<Rightarrow> database \<Rightarrow> bool" where
  "listed i d \<longleftrightarrow> i \<in> dc_id ` set (listFeedQuery d)"

lemma listFeedQuery_sub: "set (listFeedQuery d) \<subseteq> set (devices d)"
  by (auto simp: listFeedQuery_def)

lemma listed_inFeed:
  assumes wf: "wf_db d" and r: "find_device i d = Some r" and u: "find_user (dc_user_id r) d = Some u"
  shows "listed i d \<longleftrightarrow> inFeed (scanDevice r) (scanUser u)"
proof -
  have m: "r \<in> set (devices d)" "dc_id r = i" using find_deviceD [OF r] by auto
  have dist: "distinct (map dc_id (devices d))" using wf by (simp add: wf_db_def wf_devices_def)
  have "listed i d \<longleftrightarrow> r \<in> set (listFeedQuery d)"
    using listFeedQuery_sub [of d] distinct_key_eq [OF dist _ m(1)] m(2) by (auto simp: listed_def)
  with listFeedQuery_inFeed [OF wf m(1) u] show ?thesis by simp
qed

lemma listFeedQuery_cong:
  "devices d = devices d' \<Longrightarrow> users d = users d' \<Longrightarrow> listFeedQuery d = listFeedQuery d'"
  by (simp add: listFeedQuery_def)

lemma owner_calm:
  fixes w :: "'z world_scheme"
  assumes wf: "wf_db (db w)" and calm: "calm w" and r: "find_device i (db w) = Some r" and own: "dc_user_id r = userID"
  obtains u where "find_user userID (db w) = Some u" "ownedDevice userID i w = (Inr (scanDevice r), w)"
    "UserRepo_GetByID (d_UserID (scanDevice r)) w = (Inr (scanUser u), w)"
proof -
  have "r \<in> set (devices (db w))" using find_deviceD [OF r] by simp
  then have "userID \<in> uc_id ` set (users (db w))" using wf own by (auto simp: wf_db_def wf_devices_def)
  then obtain u where u: "find_user userID (db w) = Some u"
    by (metis (full_types) find_user_def find_key_None not_None_eq)
  have "ownedDevice userID i w = (Inr (scanDevice r), w)"
    using calm r own by (simp add: ownedDevice_def bindE_def DeviceRepo_GetByID_def scanDevice_def)
  moreover have "UserRepo_GetByID (d_UserID (scanDevice r)) w = (Inr (scanUser u), w)"
    using calm u own by (simp add: UserRepo_GetByID_def scanDevice_def)
  ultimately show thesis using u that by blast
qed

text \<open>
  The feed counter moves exactly with membership: when an owner enables or disables a device, with the
  fan-out wired and no driver failure, the call returns the re-read device, the flag is set, and the
  feed sequence number grows by one if the device thereby enters or leaves the feed query, and
  stays as it was otherwise.
\<close>

theorem SetEnabled_membership:
  fixes w :: "'z hubworld_scheme"
  assumes wf: "wf_db (db w)" and calm: "faults w = []" and r: "find_device i (db w) = Some r"
    and own: "dc_user_id r = userID"
    and res: "DeviceService_SetEnabled (fanout_DeviceAdded f) (fanout_DeviceRemoved f) now userID i disabled w = (res, w')"
  shows "find_device i (db w') = Some (r\<lparr>dc_disabled := disabled, dc_updated_at := now\<rparr>) \<and>
         feed_seq (db w') = feed_seq (db w) + (if listed i (db w) \<noteq> listed i (db w') then 1 else 0)"
proof -
  obtain u where u: "find_user userID (db w) = Some u" and o: "ownedDevice userID i w = (Inr (scanDevice r), w)"
    and g: "UserRepo_GetByID (d_UserID (scanDevice r)) w = (Inr (scanUser u), w)"
    using owner_calm [OF wf calm r own] by blast
  let ?r' = "r\<lparr>dc_disabled := disabled, dc_updated_at := now\<rparr>" and ?dev = "scanDevice r"
  let ?U = "update_devices (\<lambda>r. dc_id r = i) (\<lambda>r. r\<lparr>dc_disabled := disabled, dc_updated_at := now\<rparr>) (db w)"
  let ?e = "device_audit userID (if disabled then ''device.disabled'' else ''device.enabled'') i"
  have id: "d_ID ?dev = i" "dc_id r = i" using find_deviceD [OF r] by (simp_all add: scanDevice_def)
  have s: "DeviceRepo_SetDisabled now i disabled w = (Inr (), w\<lparr>db := snd ?U\<rparr>)"
    using calm update_devices_count_id [OF wf] r by (simp add: DeviceRepo_SetDisabled_def)
  let ?w1 = "w\<lparr>db := snd ?U\<rparr>" and ?w2 = "snd (auditWriter_Log now ?e (w\<lparr>db := snd ?U\<rparr>))"
  have c1: "calm ?w1" using calm by simp
  note a = auditWriter_calm [OF c1, of now ?e]
  have a': "auditWriter_Log now ?e ?w1 = (Inr (), ?w2)" using a(1) by (metis prod.collapse)
  let ?emit = "emitMembership (fanout_DeviceAdded f) (fanout_DeviceRemoved f) now (?dev\<lparr>d_Disabled := disabled\<rparr>)
     (inFeed ?dev (scanUser u)) (inFeed (?dev\<lparr>d_Disabled := disabled\<rparr>) (scanUser u))"
  have eq: "DeviceService_SetEnabled (fanout_DeviceAdded f) (fanout_DeviceRemoved f) now userID i disabled w =
      bindE ?emit (\<lambda>_. DeviceRepo_GetByID i) ?w2"
    unfolding DeviceService_SetEnabled_def flipDisabled_def bindE_Inr [of "ownedDevice _ _", OF o]
      bindE_Inr [of "UserRepo_GetByID _", OF g] id(1) bindE_Inr [of "DeviceRepo_SetDisabled _ _ _", OF s]
      bindE_Inr [of "auditWriter_Log _ _", OF a'] Let_def ..
  have "db w' = db (snd (bindE ?emit (\<lambda>_. DeviceRepo_GetByID i) ?w2))" using res eq by simp
  also have "\<dots> = db (snd (?emit ?w2))"
    by (auto simp: bindE_def DeviceRepo_GetByID_def queryRow_db split: prod.split sum.split)
  finally have d: "db w' = db (snd (?emit ?w2))" .
  note E = emit_seq [OF a(2), of f now "?dev\<lparr>d_Disabled := disabled\<rparr>" "inFeed ?dev (scanUser u)"
      "inFeed (?dev\<lparr>d_Disabled := disabled\<rparr>) (scanUser u)"]
  have dev': "devices (db w') = devices (snd ?U)" "users (db w') = users (db w)"
    using E a unfolding d by simp_all
  have fU: "find_device i (snd ?U) = Some ?r'" using r id by (simp add: find_device_update)
  have wfU: "wf_db (snd ?U)" by (rule update_devices_wf [OF wf]) simp
  have before: "listed i (db w) \<longleftrightarrow> inFeed ?dev (scanUser u)" using listed_inFeed [OF wf r] u own by simp
  have "listed i (db w') \<longleftrightarrow> listed i (snd ?U)"
    using listFeedQuery_cong [of "db w'" "snd ?U"] dev' by (simp add: listed_def)
  also have "\<dots> \<longleftrightarrow> inFeed (scanDevice ?r') (scanUser u)"
    by (rule listed_inFeed [OF wfU fU]) (use u own in \<open>simp add: find_user_def\<close>)
  also have "\<dots> \<longleftrightarrow> inFeed (?dev\<lparr>d_Disabled := disabled\<rparr>) (scanUser u)" by (simp add: inFeed_def scanDevice_def)
  finally have after: "listed i (db w') \<longleftrightarrow> inFeed (?dev\<lparr>d_Disabled := disabled\<rparr>) (scanUser u)" .
  have "find_device i (db w') = Some ?r'" using fU dev'(1) by (simp add: find_device_def)
  moreover have "feed_seq (db w') = feed_seq (db w) + (if inFeed ?dev (scanUser u) \<noteq> inFeed (?dev\<lparr>d_Disabled := disabled\<rparr>) (scanUser u) then 1 else 0)"
    using E a unfolding d by simp
  ultimately show ?thesis unfolding before after by blast
qed

lemma SetEnabled_membership_witness:
  "find_device ''d1'' (db (snd (DeviceService_SetEnabled (fanout_DeviceAdded plain_fanout) (fanout_DeviceRemoved plain_fanout)
      9 ''u1'' ''d1'' True sample_world_v4))) = Some (dev1_v4\<lparr>dc_disabled := True, dc_updated_at := 9\<rparr>)"
proof -
  have wf: "wf_db (db sample_world_v4)" using sample_db_wf by (simp add: wf_hist_def)
  have f: "find_device ''d1'' (db sample_world_v4) = Some dev1_v4" by simp
  have o: "dc_user_id dev1_v4 = ''u1''" by (simp add: sample_defs)
  show ?thesis
    using SetEnabled_membership [OF wf sample_world_simps(4) f o prod.collapse [symmetric], of plain_fanout 9 True] by blast
qed

section \<open>Rotating a secret\<close>

lemma auditWriter_frame:
  fixes w :: "'z authworld_scheme"
  assumes "auditWriter_Log now e w = (r, w')"
  shows "devices (db w') = devices (db w) \<and> v_cache w' = v_cache w \<and> r = Inr ()"
  using assms
  by (auto simp: auditWriter_Log_def AuditLog_Append_def Let_def bindE_def tryE_def stmt_def insert_audit_def
      split: prod.splits sum.splits fault.splits if_splits)

lemma ReplayNonce_Insert_frame:
  fixes w :: "'z authworld_scheme"
  assumes "ReplayNonce_Insert s e w = (r, w')"
  shows "devices (db w') = devices (db w) \<and> users (db w') = users (db w) \<and> v_cache w' = v_cache w"
  using assms by (auto simp: ReplayNonce_Insert_def stmt_def insert_nonce_def split: fault.splits if_splits)

text \<open>What a successful rotation did, whatever driver failures it survived.\<close>

lemma RotateSecret_Inr:
  fixes w :: "'z authworld_scheme"
  assumes "DeviceService_RotateSecret cr key rnd nonce now userID i w = (Inr secret, w')"
  shows "\<exists>sealed. rnd = Some secret \<and> SealSecret cr nonce key secret = Inr sealed \<and>
           devices (db w') = upd_where (\<lambda>r. dc_id r = i) (\<lambda>r. r\<lparr>dc_secret_hash := sealed, dc_updated_at := now\<rparr>) (devices (db w)) \<and>
           v_cache w' = (v_cache w)(i := None)"
proof -
  from assms obtain dev w1 sealed u w2 x w3 y where o: "ownedDevice userID i w = (Inr dev, w1)"
    and s: "GenerateSecret rnd = Inr secret" "SealSecret cr nonce key secret = Inr sealed"
    and ro: "DeviceRepo_RotateSecret now i sealed w1 = (Inr u, w2)" and iv: "Invalidate i w2 = (Inr x, w3)"
    and au: "auditWriter_Log now (device_audit userID ''device.secret.rotated'' i) w3 = (Inr y, w')"
    by (auto simp: DeviceService_RotateSecret_def bindE_Inr_iff)
  from ownedDevice_Inr [OF o] have w1: "db w1 = db w" "w1 = w\<lparr>faults := faults w1\<rparr>" by blast+
  have c1: "v_cache w1 = v_cache w" by (subst w1(2)) simp
  note r = require_rows_Inr [OF ro [unfolded DeviceRepo_RotateSecret_def]]
  have w2: "devices (db w2) = upd_where (\<lambda>r. dc_id r = i) (\<lambda>r. r\<lparr>dc_secret_hash := sealed, dc_updated_at := now\<rparr>) (devices (db w))"
    using r w1(1) by (simp add: update_devices_def)
  have c2: "v_cache w2 = v_cache w"
    using arg_cong [OF conjunct2 [OF conjunct2 [OF r]], of v_cache] c1 by simp
  have "db w3 = db w2" "v_cache w3 = (v_cache w)(i := None)" using iv c2 by (auto simp: Invalidate_def)
  with w2 auditWriter_frame [OF au] s show ?thesis by (auto simp: GenerateSecret_def split: option.splits)
qed

text \<open>
  C14. A rotation takes effect: when it returns, the device row holds the sealed new secret, which opens to
  exactly what the caller was given, and the verifier's cache agrees with the table again; so, by
  the soundness of \<open>Verify\<close>, every request accepted afterwards is signed with the new secret.
\<close>

theorem RotateSecret_takes_effect:
  fixes w :: "'z authworld_scheme"
  assumes "cache_ok v w" and "gcm_opens_sealed (v_crypto v)" and "length n = 12"
    and "DeviceService_RotateSecret (v_crypto v) (v_key v) rnd (Some n) now userID i w = (Inr secret, w')"
  shows "cache_ok v w' \<and> v_cache w' i = None \<and>
         (\<forall>r \<in> set (devices (db w')). dc_id r = i \<longrightarrow> OpenSecret (v_crypto v) (v_key v) (dc_secret_hash r) = Inr secret)"
proof -
  from RotateSecret_Inr [OF assms(4)] obtain sealed where s: "SealSecret (v_crypto v) (Some n) (v_key v) secret = Inr sealed"
    and d: "devices (db w') = upd_where (\<lambda>r. dc_id r = i) (\<lambda>r. r\<lparr>dc_secret_hash := sealed, dc_updated_at := now\<rparr>) (devices (db w))"
    and c: "v_cache w' = (v_cache w)(i := None)" by blast
  have new: "OpenSecret (v_crypto v) (v_key v) sealed = Inr secret" by (rule OpenSecret_sealed [OF assms(2,3) s])
  have row: "r = q\<lparr>dc_secret_hash := sealed, dc_updated_at := now\<rparr> \<and> dc_id q = i \<or> r = q \<and> dc_id q \<noteq> i"
    if "r = (if dc_id q = i then q\<lparr>dc_secret_hash := sealed, dc_updated_at := now\<rparr> else q)" for r q
    using that by simp
  have rows: "dc_id r = i \<and> dc_secret_hash r = sealed \<or> dc_id r \<noteq> i \<and> r \<in> set (devices (db w))"
    if "r \<in> set (devices (db w'))" for r
    using that unfolding d set_upd_where by (auto dest!: row)
  show ?thesis using assms(1) new c rows unfolding cache_ok_def by fastforce
qed

text \<open>The rotation on the sample device, evaluated.\<close>

abbreviation sample_rotation :: "('z authworld_scheme, string) action" where
  "sample_rotation \<equiv> DeviceService_RotateSecret plain_crypto (replicate 32 CHR ''k'') (Some ''new'')
     (Some (replicate 12 CHR ''n'')) 9 ''u1'' ''d1''"

lemma sample_rotation_ok:
  "\<exists>w'. sample_rotation auth_world = (Inr ''new'', w') \<and> faults w' = [] \<and> replay_nonces (db w') = [] \<and> v_cache w' = Map.empty"
proof -
  have o: "ownedDevice ''u1'' ''d1'' auth_world = (Inr (scanDevice sealed_dev), auth_world)"
    by (simp add: ownedDevice_def bindE_def DeviceRepo_GetByID_def find_device_def scanDevice_def sealed_dev_def dev1_def)
  have id: "dc_id sealed_dev = ''d1''" by (simp add: sealed_dev_def dev1_def)
  show ?thesis
    by (simp add: DeviceService_RotateSecret_def bindE_def o tryE_def device_audit_def GenerateSecret_def SealSecret_def newGCM_def DeviceRepo_RotateSecret_def require_rows_def
        update_devices_def id Invalidate_def auditWriter_Log_def AuditLog_Append_def insert_audit_def Let_def lift_res_def)
qed

lemma sample_verifier_key:
  "v_crypto sample_verifier = plain_crypto" "v_key sample_verifier = replicate 32 CHR ''k''"
  by (simp_all add: sample_verifier_def)

lemma RotateSecret_takes_effect_witness:
  "\<exists>w'. sample_rotation auth_world = (Inr ''new'', w') \<and> cache_ok sample_verifier w'"
proof -
  obtain w' where r: "sample_rotation auth_world = (Inr ''new'', w')" using sample_rotation_ok by blast
  from RotateSecret_takes_effect [of sample_verifier, unfolded sample_verifier_key, OF auth_world_ok(2) plain_crypto_gcm _ r] r
  show ?thesis by simp
qed

text \<open>
  The interleaving the cache does not cover: a verification that read the device before the rotation and
  checks it afterwards puts the old secret back into the cache. From then on \<open>cache_ok\<close> fails and the
  old secret authenticates instead of the new one, until the next eviction.
\<close>

theorem rotate_race:
  fixes w :: "'z authworld_scheme"
  assumes "gcm_opens_sealed (v_crypto v)" and "length n = 12"
    and "Verify_lookup gd gu p w = (Inr dev, w1)"
    and "OpenSecret (v_crypto v) (v_key v) (d_SecretHash dev) = Inr old"
    and "DeviceService_RotateSecret (v_crypto v) (v_key v) rnd (Some n) t userID (d_ID dev) w1 = (Inr new, w2)"
    and "Verify_check v p now dev w2 = (Inr i, w3)" and "old \<noteq> new"
  shows "v_cache w3 (d_ID dev) = Some old \<and> \<not> cache_ok v w3"
proof -
  from RotateSecret_Inr [OF assms(5)] obtain sealed where
    s: "SealSecret (v_crypto v) (Some n) (v_key v) new = Inr sealed"
    and d: "devices (db w2) = upd_where (\<lambda>r. dc_id r = d_ID dev) (\<lambda>r. r\<lparr>dc_secret_hash := sealed, dc_updated_at := t\<rparr>) (devices (db w1))"
    and c: "v_cache w2 = (v_cache w1)(d_ID dev := None)" by blast
  note open_new = OpenSecret_sealed [OF assms(1,2) s]
  from check_Inr [OF assms(6)] obtain ts secret u where sec: "secretFor v dev w2 = (Inr secret, u)"
    and ins: "ReplayNonce_Insert (rp_Signature p) (wrap64 (ts + wholeSeconds (v_nonceTTL v))) u = (Inr (), w3)" by blast
  from secretFor_Inr [OF sec] c assms(4) have u: "u = w2\<lparr>v_cache := (v_cache w2)(d_ID dev \<mapsto> old)\<rparr>" by auto
  note fr = ReplayNonce_Insert_frame [OF ins]
  from lookup_Inr [OF assms(3)] obtain r where r: "find_device (rp_Device p) (db w1) = Some r" "dev = scanDevice r" by auto
  have mem: "r \<in> set (devices (db w1))" "dc_id r = d_ID dev" using find_deviceD [OF r(1)] r(2) by (auto simp: scanDevice_def)
  let ?r = "r\<lparr>dc_secret_hash := sealed, dc_updated_at := t\<rparr>"
  have "?r \<in> set (devices (db w3))" using fr u d mem by (force simp: set_upd_where)
  moreover have "v_cache w3 (dc_id ?r) = Some old" using fr u mem by simp
  ultimately have "\<not> cache_ok v w3" using open_new assms(7) by (auto simp: cache_ok_def intro!: bexI [of _ ?r])
  with fr u show ?thesis by simp
qed

lemma rotate_race_witness:
  "\<exists>w2 w3. sample_rotation auth_world = (Inr ''new'', w2) \<and>
     Verify_check sample_verifier (request_at ''100'') 100 (scanDevice sealed_dev) w2 = (Inr ''d1'', w3) \<and>
     v_cache w3 ''d1'' = Some ''sec'' \<and> \<not> cache_ok sample_verifier w3"
proof -
  obtain w2 where r: "sample_rotation auth_world = (Inr ''new'', w2)" and w2: "faults w2 = []" "replay_nonces (db w2) = []"
    "v_cache w2 = Map.empty" using sample_rotation_ok by blast
  have id: "d_ID (scanDevice sealed_dev) = ''d1''" by (simp add: scanDevice_def sealed_dev_def dev1_def)
  have lk: "Verify_lookup False False (request_at ''100'') auth_world = (Inr (scanDevice sealed_dev), auth_world)"
    by (simp add: Verify_lookup_def bindE_tryE_case DeviceRepo_GetByID_def UserRepo_GetByID_def find_device_def
        find_user_def request_at_def scanDevice_def scanUser_def sealed_dev_def dev1_def u1_def)
  have old: "OpenSecret (v_crypto sample_verifier) (v_key sample_verifier) (d_SecretHash (scanDevice sealed_dev)) = Inr ''sec''"
    using auth_world_ok(2) by (simp add: cache_ok_def scanDevice_def sealed_dev_def dev1_def)
  let ?w = "w2\<lparr>v_cache := (v_cache w2)(''d1'' \<mapsto> ''sec'')\<rparr>"
  have sec: "secretFor sample_verifier (scanDevice sealed_dev) w2 = (Inr ''sec'', ?w)"
    using w2(3) old by (simp add: secretFor_def id)
  have sig: "rp_Signature (request_at ''100'') = Sign (v_crypto sample_verifier) ''sec''
     (CanonicalRequest (rp_Method (request_at ''100'')) (rp_Path (request_at ''100'')) ''100''
       (rp_Nonce (request_at ''100'')) (BodyHashHex (v_crypto sample_verifier) (rp_Body (request_at ''100''))))"
    by (simp add: request_at_def sample_verifier_def)
  have ts: "rp_Timestamp (request_at ''100'') = ''100''" by (simp add: request_at_def)
  obtain w3 where c: "Verify_check sample_verifier (request_at ''100'') 100 (scanDevice sealed_dev) w2 = (Inr ''d1'', w3)"
    using w2(1,2)
    by (simp add: Verify_check_def bindE_tryE_case ts sample_parse(1) sample_skew(1) sec Let_def sig [symmetric]
        ReplayNonce_Insert_def insert_nonce_def id)
  note rr = rotate_race [of sample_verifier, unfolded sample_verifier_key, OF plain_crypto_gcm _ lk
      old [unfolded sample_verifier_key] r [folded id] c]
  show ?thesis using rr r c by (simp add: id)
qed

end
