(* ===== verification/Delivery_Worker.thy ===== *)
theory Delivery_Worker
  imports Device_Service
begin

text \<open>
  \<open>internal/server/notify/worker.go\<close> (with \<open>Clients.For\<close> of client.go): the sweep over the delivery outbox, one
  attempt per due row, its classification, and the retry schedule.

  What the process cannot decide is the \<open>attempt_env\<close> of one attempt: the random nonce, the two clock
  readings (before the request and after it), whether \<open>http.NewRequest\<close> accepts the URL, the outcome of
  \<open>client.Do\<close>, and the jittered base of the backoff, a float product in Go. \<open>url.Parse\<close> and the JSON encoder are
  fields of the worker. A sweep takes one environment per attempt; the list ending before the batch
  does is the cancellation of the context between two deliveries. \<open>w_sent\<close> logs the requests given to
  \<open>client.Do\<close>.
\<close>

section \<open>Requests and outcomes\<close>

definition FailureBlocked :: string where "FailureBlocked = ''blocked''"
definition FailureUnreachable :: string where "FailureUnreachable = ''unreachable''"
definition FailureTLS :: string where "FailureTLS = ''tls''"
definition FailureRejected :: string where "FailureRejected = ''rejected''"
definition FailureGone :: string where "FailureGone = ''gone''"
definition FailureInternal :: string where "FailureInternal = ''internal''"

lemmas failure_defs =
  FailureBlocked_def FailureUnreachable_def FailureTLS_def FailureRejected_def FailureGone_def FailureInternal_def

record outgoing =
  og_DeliveryID :: int
  og_URL :: string
  og_Body :: string
  og_Timestamp :: string
  og_Nonce :: string
  og_Signature :: string

text \<open>What \<open>errors.Is\<close> and \<open>errors.AsType\<close> see of an error of \<open>client.Do\<close>, and its text.\<close>

record send_error =
  se_denied :: bool
  se_dns :: bool
  se_tls :: bool
  se_text :: string

text \<open>The flag of \<open>SendFails\<close> is whether the context was cancelled.\<close>

datatype reply = Response int | SendFails send_error bool

record attempt_env =
  at_nonce :: "string option"
  at_ts :: int
  at_request_ok :: bool
  at_reply :: reply
  at_now :: int
  at_jitter :: "int \<Rightarrow> int"

record Worker =
  wk_crypto :: crypto
  wk_key :: string
  wk_maxAttempts :: int
  wk_scheme :: "string \<Rightarrow> string option"
  wk_details :: "string \<Rightarrow> string"

record networld = authworld +
  w_sent :: "outgoing list"

definition Clients_For :: "string \<Rightarrow> string option" where
  "Clients_For scheme =
     (if scheme = ''https'' then Some ''https'' else if scheme = ''http'' then Some ''http'' else None)"

section \<open>One attempt\<close>

definition classifySendError :: "send_error \<Rightarrow> string" where
  "classifySendError e =
     (if se_denied e then FailureBlocked
      else if se_dns e then FailureBlocked
      else if se_tls e then FailureTLS
      else FailureUnreachable)"

definition client_Do :: "outgoing \<Rightarrow> ('z networld_scheme, unit) action" where
  "client_Do q w = (Inr (), w\<lparr>w_sent := w_sent w @ [q]\<rparr>)"

definition auditBlocked :: "Worker \<Rightarrow> int \<Rightarrow> DueDelivery \<Rightarrow> send_error \<Rightarrow> ('z world_scheme, unit) action" where
  "auditBlocked wk now d e =
     auditWriter_Log now
       \<lparr> ae_ID = 0, ae_ActorUserID = '''', ae_EventType = ''notification.target_blocked'',
         ae_TargetType = ''notification_endpoint'', ae_TargetID = nd_EndpointID d,
         ae_DetailsJSON = wk_details wk (se_text e), ae_IP = '''', ae_UserAgent = '''', ae_CreatedAt = 0 \<rparr>"

definition signed_request :: "Worker \<Rightarrow> attempt_env \<Rightarrow> DueDelivery \<Rightarrow> string \<Rightarrow> string \<Rightarrow> outgoing" where
  "signed_request wk e d nonce secret =
     (let ts = showInt (at_ts e);
          canonical = CanonicalNotification ts nonce (BodyHashHex (wk_crypto wk) (nd_Payload d));
          sig = Sign (wk_crypto wk) secret canonical
      in \<lparr> og_DeliveryID = nd_ID d, og_URL = dd_EndpointURL d, og_Body = nd_Payload d,
           og_Timestamp = ts, og_Nonce = nonce, og_Signature = sig \<rparr>)"

definition attempt :: "Worker \<Rightarrow> attempt_env \<Rightarrow> DueDelivery \<Rightarrow> ('z networld_scheme, string) action" where
  "attempt wk e d =
     (case wk_scheme wk (dd_EndpointURL d) of
        None \<Rightarrow> ret FailureInternal
      | Some scheme \<Rightarrow>
     (case Clients_For scheme of
        None \<Rightarrow> ret FailureInternal
      | Some _ \<Rightarrow>
     (case at_nonce e of
        None \<Rightarrow> ret FailureInternal
      | Some nonce \<Rightarrow>
     (case OpenSecret (wk_crypto wk) (wk_key wk) (dd_SecretSealed d) of
        Inl _ \<Rightarrow> ret FailureInternal
      | Inr secret \<Rightarrow>
          if \<not> at_request_ok e then ret FailureInternal
          else bindE (client_Do (signed_request wk e d nonce secret)) (\<lambda>_.
            case at_reply e of
              SendFails err cancelled \<Rightarrow>
                if cancelled then ret ''''
                else bindE (if se_denied err then auditBlocked wk (at_now e) d err else ret ()) (\<lambda>_.
                     ret (classifySendError err))
            | Response code \<Rightarrow>
                ret (if 200 \<le> code \<and> code < 300 then DeliveryDelivered
                     else if code = 410 then FailureGone else FailureRejected))))))"

section \<open>The retry schedule\<close>

definition backoffBase :: int where "backoffBase = 15 * 1000000000"
definition maxBackoff :: int where "maxBackoff = 16 * timeMinute"

text \<open>\<open>None\<close> is the panic. The product and the shift are 64-bit.\<close>

definition backoffFor :: "int \<Rightarrow> (int \<Rightarrow> int) \<Rightarrow> int option" where
  "backoffFor n jitter =
     (if n < 2 then None
      else (let exp = nat (n - 2);
                base = wrap64 (backoffBase * wrap64 (2 ^ exp))
            in Some (min (jitter base) maxBackoff)))"

text \<open>
  The documented jitter: a factor in [0.9, 1.1]. The bound is left a tenth wider for the rounding of
  the float product.
\<close>

definition jitter_ok :: "(int \<Rightarrow> int) \<Rightarrow> bool" where
  "jitter_ok jitter \<longleftrightarrow> (\<forall>b. 0 \<le> b \<longrightarrow> 8 * b \<le> 10 * jitter b \<and> 10 * jitter b \<le> 12 * b)"

section \<open>The sweep\<close>

definition attempt_limit :: "Worker \<Rightarrow> string \<Rightarrow> int" where
  "attempt_limit wk eventType = (if eventType = EventTest then 1 else wk_maxAttempts wk)"

definition outcome :: "Worker \<Rightarrow> attempt_env \<Rightarrow> DueDelivery \<Rightarrow> string \<Rightarrow> err + string \<times> int \<times> string" where
  "outcome wk e d cls =
     (let attempts = nd_Attempts d + 1 in
      if cls = DeliveryDelivered then Inr (DeliveryDelivered, 0, '''')
      else if cls = FailureGone \<or> attempts \<ge> attempt_limit wk (nd_EventType d) then Inr (DeliveryFailed, 0, cls)
      else (case backoffFor (attempts + 1) (at_jitter e) of
              None \<Rightarrow> Inl ErrPanic
            | Some b \<Rightarrow> Inr (DeliveryPending, at_now e + wholeSeconds b, cls)))"

definition deliverOne :: "Worker \<Rightarrow> attempt_env \<Rightarrow> DueDelivery \<Rightarrow> ('z networld_scheme, unit) action" where
  "deliverOne wk e d =
     bindE (attempt wk e d) (\<lambda>cls.
       if cls = '''' then ret ()
       else bindE (lift_res (outcome wk e d cls)) (\<lambda>(status, nextAttemptAt, lastFailure).
            bindE (tryE (UpdateAfterAttempt (at_now e) (nd_ID d) (nd_Attempts d + 1) status nextAttemptAt lastFailure))
              (\<lambda>_. ret ())))"

definition deliveryBatchSize :: nat where "deliveryBatchSize = 20"

fun sweep_loop :: "Worker \<Rightarrow> attempt_env list \<Rightarrow> DueDelivery list \<Rightarrow> ('z networld_scheme, unit) action" where
  "sweep_loop wk es [] = ret ()"
| "sweep_loop wk [] (d # ds) = ret ()"
| "sweep_loop wk (e # es) (d # ds) = bindE (deliverOne wk e d) (\<lambda>_. sweep_loop wk es ds)"

definition Worker_sweep :: "Worker \<Rightarrow> int \<Rightarrow> attempt_env list \<Rightarrow> ('z networld_scheme, unit) action" where
  "Worker_sweep wk now es =
     bindE (tryE (DueForAttempt now deliveryBatchSize)) (\<lambda>r.
       case r of Inl _ \<Rightarrow> ret () | Inr due \<Rightarrow> sweep_loop wk es due)"

text \<open>\<open>Worker.Run\<close>: the ticks until the context is cancelled, each with its clock reading and its attempts.\<close>

fun Worker_Run :: "Worker \<Rightarrow> (int \<times> attempt_env list) list \<Rightarrow> ('z networld_scheme, unit) action" where
  "Worker_Run wk [] = ret ()"
| "Worker_Run wk ((now, es) # ticks) = bindE (Worker_sweep wk now es) (\<lambda>_. Worker_Run wk ticks)"

end
