(* ===== verification/Delivery_Props.thy ===== *)
theory Delivery_Props
  imports Delivery_Worker Device_Props "HOL-Library.Sublist"
begin

text \<open>
  Properties of the delivery worker: the outbox invariant under every interleaving of the operations that
  touch it, the retry schedule, that retries end, and that every request carries a valid signature.
\<close>

section \<open>One attempt\<close>

definition failure_classes :: "string set" where
  "failure_classes = {FailureBlocked, FailureUnreachable, FailureTLS, FailureRejected, FailureGone, FailureInternal}"

lemma failure_ne [simp]:
  "FailureGone \<noteq> ''''" "FailureInternal \<noteq> ''''" "FailureRejected \<noteq> ''''" "DeliveryDelivered \<noteq> ''''"
  "FailureGone \<noteq> DeliveryDelivered" "FailureInternal \<noteq> DeliveryDelivered" "FailureRejected \<noteq> DeliveryDelivered"
  "classifySendError e \<noteq> ''''" "classifySendError e \<noteq> DeliveryDelivered" "classifySendError e \<in> failure_classes"
  "FailureGone \<in> failure_classes" "FailureInternal \<in> failure_classes" "FailureRejected \<in> failure_classes"
  by (simp_all add: failure_classes_def failure_defs DeliveryDelivered_def classifySendError_def)

lemma failure_classes_ne: "c \<in> failure_classes \<Longrightarrow> c \<noteq> '''' \<and> c \<noteq> DeliveryDelivered"
  by (auto simp: failure_classes_def failure_defs DeliveryDelivered_def)

lemma auditBlocked_ok:
  fixes w :: "'z networld_scheme"
  shows "\<exists>w'. auditBlocked wk now d e w = (Inr (), w') \<and>
    notification_deliveries (db w') = notification_deliveries (db w) \<and> w_sent w' = w_sent w \<and> (calm w \<longrightarrow> calm w')"
  by (auto simp: auditBlocked_def auditWriter_Log_def AuditLog_Append_def Let_def bindE_def tryE_def stmt_def
      insert_audit_def split: fault.splits)

text \<open>What an attempt does: a class, at most one request, which is signed, and no write to the outbox.\<close>

definition attempt_post :: "Worker \<Rightarrow> attempt_env \<Rightarrow> DueDelivery \<Rightarrow> 'z networld_scheme \<Rightarrow> string \<Rightarrow> 'z networld_scheme \<Rightarrow> bool" where
  "attempt_post wk e d w c w' \<longleftrightarrow>
     c \<in> insert '''' (insert DeliveryDelivered failure_classes) \<and>
     (c = '''' \<longrightarrow> (\<exists>x. at_reply e = SendFails x True)) \<and>
     (calm w \<longrightarrow> calm w') \<and>
     notification_deliveries (db w') = notification_deliveries (db w) \<and>
     (w_sent w' = w_sent w \<or>
      (\<exists>nonce secret. OpenSecret (wk_crypto wk) (wk_key wk) (dd_SecretSealed d) = Inr secret \<and>
         w_sent w' = w_sent w @ [signed_request wk e d nonce secret]))"

lemma attempt_spec:
  fixes w :: "'z networld_scheme"
  shows "\<exists>c w'. attempt wk e d w = (Inr c, w') \<and> attempt_post wk e d w c w'"
proof (cases "\<exists>nonce secret scheme c. wk_scheme wk (dd_EndpointURL d) = Some scheme \<and> Clients_For scheme = Some c \<and>
    at_nonce e = Some nonce \<and> OpenSecret (wk_crypto wk) (wk_key wk) (dd_SecretSealed d) = Inr secret \<and> at_request_ok e")
  case False
  then have "attempt wk e d w = (Inr FailureInternal, w)"
    by (auto simp: attempt_def split: option.splits sum.splits)
  then show ?thesis by (simp add: attempt_post_def)
next
  case True
  then obtain nonce secret where s: "OpenSecret (wk_crypto wk) (wk_key wk) (dd_SecretSealed d) = Inr secret"
    and a: "attempt wk e d w = (case at_reply e of
              SendFails err cancelled \<Rightarrow>
                if cancelled then ret ''''
                else bindE (if se_denied err then auditBlocked wk (at_now e) d err else ret ()) (\<lambda>_. ret (classifySendError err))
            | Response code \<Rightarrow>
                ret (if 200 \<le> code \<and> code < 300 then DeliveryDelivered
                     else if code = 410 then FailureGone else FailureRejected))
            (w\<lparr>w_sent := w_sent w @ [signed_request wk e d nonce secret]\<rparr>)"
    by (force simp: attempt_def bindE_def client_Do_def)
  show ?thesis
  proof (cases "at_reply e")
    case (Response code)
    with a s show ?thesis by (auto simp: attempt_post_def)
  next
    case (SendFails err cancelled)
    let ?w = "w\<lparr>w_sent := w_sent w @ [signed_request wk e d nonce secret]\<rparr>"
    obtain w' where "auditBlocked wk (at_now e) d err ?w = (Inr (), w')"
      "notification_deliveries (db w') = notification_deliveries (db w)" "w_sent w' = w_sent ?w" "calm w \<longrightarrow> calm w'"
      using auditBlocked_ok [of wk "at_now e" d err ?w] by auto
    with SendFails a s show ?thesis by (auto simp: attempt_post_def bindE_def)
  qed
qed

section \<open>The retry schedule\<close>

lemma wholeSeconds_nonneg: "0 \<le> d \<Longrightarrow> wholeSeconds d = d div 1000000000"
  by (simp add: wholeSeconds_def sdiv_nonneg)

lemma backoff_value:
  assumes "2 \<le> n" and "n \<le> 16" and "jitter_ok jitter"
  shows "\<exists>b. backoffFor n jitter = Some b \<and> min (12 * 2 ^ nat (n - 2)) 960 \<le> wholeSeconds b \<and>
             wholeSeconds b \<le> min (18 * 2 ^ nat (n - 2)) 960"
proof -
  define p where "p = (2 :: int) ^ nat (n - 2)"
  have "nat (n - 2) \<le> 14" using assms by simp
  then have "p \<le> 2 ^ 14" unfolding p_def by (intro power_increasing) auto
  then have p: "1 \<le> p" "p \<le> 16384" by (simp_all add: p_def)
  then have w: "wrap64 p = p" "wrap64 (backoffBase * p) = backoffBase * p"
    by (simp_all add: wrap64_id int64_ok_def backoffBase_def)
  have b: "backoffFor n jitter = Some (min (jitter (backoffBase * p)) maxBackoff)"
    using assms(1) w by (simp add: backoffFor_def Let_def p_def)
  have "0 \<le> backoffBase * p" using p by (simp add: backoffBase_def)
  with assms(3) have j: "8 * (backoffBase * p) \<le> 10 * jitter (backoffBase * p)"
    "10 * jitter (backoffBase * p) \<le> 12 * (backoffBase * p)"
    unfolding jitter_ok_def by blast+
  define x where "x = jitter (backoffBase * p)"
  have x: "12000000000 * p \<le> x" "x \<le> 18000000000 * p" using j by (simp_all add: x_def backoffBase_def)
  have m: "maxBackoff = 960000000000" by (simp add: maxBackoff_def timeMinute_def)
  have "0 \<le> min x maxBackoff" using x p m by simp
  then have sec: "wholeSeconds (min x maxBackoff) = min x maxBackoff div 1000000000" by (rule wholeSeconds_nonneg)
  have "min (12 * p) 960 \<le> wholeSeconds (min x maxBackoff)" unfolding sec using x m by linarith
  moreover have "wholeSeconds (min x maxBackoff) \<le> min (18 * p) 960" unfolding sec using x m by linarith
  ultimately show ?thesis using b by (auto simp: p_def x_def)
qed

text \<open>The three columns an attempt decides, for an attempt count the schedule allows.\<close>

definition outcome_ok :: "Worker \<Rightarrow> attempt_env \<Rightarrow> DueDelivery \<Rightarrow> string \<Rightarrow> string \<times> int \<times> string \<Rightarrow> bool" where
  "outcome_ok wk e d c o' \<longleftrightarrow>
     (case o' of (status, nxt, failure) \<Rightarrow>
        (status = DeliveryDelivered \<and> nxt = 0 \<and> failure = '''' \<and> c = DeliveryDelivered) \<or>
        (status = DeliveryFailed \<and> nxt = 0 \<and> failure = c \<and> c \<in> failure_classes) \<or>
        (status = DeliveryPending \<and> failure = c \<and> c \<in> failure_classes \<and>
         nd_Attempts d + 1 < attempt_limit wk (nd_EventType d) \<and>
         at_now e + min (12 * 2 ^ nat (nd_Attempts d)) 960 \<le> nxt \<and>
         nxt \<le> at_now e + min (18 * 2 ^ nat (nd_Attempts d)) 960))"

lemma outcome_total:
  assumes "0 \<le> nd_Attempts d" and "wk_maxAttempts wk \<le> 16" and "jitter_ok (at_jitter e)"
    and "c \<in> insert DeliveryDelivered failure_classes"
  shows "\<exists>o'. outcome wk e d c = Inr o' \<and> outcome_ok wk e d c o'"
proof (cases "c = DeliveryDelivered \<or> c = FailureGone \<or> nd_Attempts d + 1 \<ge> attempt_limit wk (nd_EventType d)")
  case True
  with assms(4) show ?thesis by (auto simp: outcome_def outcome_ok_def Let_def)
next
  case False
  have n: "2 \<le> nd_Attempts d + 2" "nd_Attempts d + 2 \<le> 16"
    using False assms(1,2) by (auto simp: attempt_limit_def split: if_splits)
  from backoff_value [OF n assms(3)] obtain b where b: "backoffFor (nd_Attempts d + 2) (at_jitter e) = Some b"
    "min (12 * 2 ^ nat (nd_Attempts d)) 960 \<le> wholeSeconds b" "wholeSeconds b \<le> min (18 * 2 ^ nat (nd_Attempts d)) 960"
    by auto
  have o: "outcome wk e d c = Inr (DeliveryPending, at_now e + wholeSeconds b, c)"
    using False b(1) by (simp add: outcome_def Let_def add.commute)
  show ?thesis using False b(2,3) assms(4) unfolding o by (simp add: outcome_ok_def)
qed

section \<open>The outbox invariant\<close>

definition row_ok :: "delivery_row \<Rightarrow> bool" where
  "row_ok r \<longleftrightarrow>
     0 \<le> dl_attempts r \<and>
     (dl_status r = DeliveryPending \<and> dl_next_attempt_at r \<noteq> None \<or>
      dl_status r \<in> set deliveryTerminalStatuses \<and> dl_next_attempt_at r = None) \<and>
     (dl_last_failure r = None \<or> dl_last_failure r \<in> Some ` failure_classes) \<and>
     (dl_status r = DeliveryDelivered \<longrightarrow> dl_last_failure r = None) \<and>
     (dl_status r = DeliveryFailed \<longrightarrow> dl_last_failure r \<noteq> None)"

definition outbox_ok :: "database \<Rightarrow> bool" where
  "outbox_ok d \<longleftrightarrow> (\<forall>r \<in> set (notification_deliveries d). row_ok r)"

lemma status_distinct [simp]:
  "DeliveryPending \<noteq> DeliveryDelivered" "DeliveryPending \<noteq> DeliveryFailed" "DeliveryDelivered \<noteq> DeliveryFailed"
  "DeliveryDelivered \<noteq> DeliveryPending" "DeliveryFailed \<noteq> DeliveryPending" "DeliveryFailed \<noteq> DeliveryDelivered"
  by (simp_all add: DeliveryPending_def DeliveryDelivered_def DeliveryFailed_def)

lemma outcome_row_ok:
  assumes "outcome_ok wk e d c (status, nxt, failure)" and "0 < at_now e" and "0 \<le> nd_Attempts d"
  shows "row_ok (r\<lparr>dl_attempts := nd_Attempts d + 1, dl_status := status, dl_next_attempt_at := nullIfZero nxt,
           dl_last_failure := nullIfEmpty failure, dl_updated_at := t\<rparr>)"
proof -
  have "nxt \<noteq> 0" if "at_now e + min (12 * 2 ^ nat (nd_Attempts d)) 960 \<le> nxt"
  proof -
    have "0 \<le> min (12 * 2 ^ nat (nd_Attempts d)) (960 :: int)" by simp
    with that assms(2) show ?thesis by linarith
  qed
  then show ?thesis
    using assms(1,3)
    by (auto simp: outcome_ok_def row_ok_def nullIfZero_def nullIfEmpty_def deliveryTerminalStatuses_def
        dest: failure_classes_ne)
qed

section \<open>One delivery\<close>

definition env_ok :: "attempt_env \<Rightarrow> bool" where
  "env_ok e \<longleftrightarrow> 0 < at_now e \<and> jitter_ok (at_jitter e)"

abbreviation cancelled :: "attempt_env \<Rightarrow> bool" where
  "cancelled e \<equiv> (\<exists>x. at_reply e = SendFails x True)"

fun write_back :: "attempt_env \<Rightarrow> DueDelivery \<Rightarrow> string \<times> int \<times> string \<Rightarrow> delivery_row \<Rightarrow> delivery_row" where
  "write_back e d (status, nxt, failure) r =
     r\<lparr>dl_attempts := nd_Attempts d + 1, dl_status := status, dl_next_attempt_at := nullIfZero nxt,
       dl_last_failure := nullIfEmpty failure, dl_updated_at := at_now e\<rparr>"

lemma write_back_fun:
  "write_back e d (status, nxt, failure) = (\<lambda>r. r\<lparr>dl_attempts := nd_Attempts d + 1, dl_status := status,
     dl_next_attempt_at := nullIfZero nxt, dl_last_failure := nullIfEmpty failure, dl_updated_at := at_now e\<rparr>)"
  by (simp add: fun_eq_iff)

lemma write_back_keys [simp]:
  "dl_id (write_back e d o' r) = dl_id r" "dl_event_type (write_back e d o' r) = dl_event_type r"
  "dl_endpoint_id (write_back e d o' r) = dl_endpoint_id r" "dl_attempts (write_back e d o' r) = nd_Attempts d + 1"
  by (cases o'; simp)+

definition signed_sends :: "Worker \<Rightarrow> DueDelivery \<Rightarrow> outgoing list \<Rightarrow> bool" where
  "signed_sends wk d qs \<longleftrightarrow> qs = [] \<or>
     (\<exists>e nonce secret. OpenSecret (wk_crypto wk) (wk_key wk) (dd_SecretSealed d) = Inr secret \<and>
        qs = [signed_request wk e d nonce secret])"

text \<open>
  A delivery never panics. It writes the outbox not at all (a cancelled attempt, a driver failure) or by
  one update of its own row with a legal outcome; without driver failures only a cancellation
  skips the write.
\<close>

lemma deliverOne_spec:
  fixes w :: "'z networld_scheme"
  assumes "0 \<le> nd_Attempts d" and "wk_maxAttempts wk \<le> 16" and "env_ok e"
  shows "\<exists>w' qs. deliverOne wk e d w = (Inr (), w') \<and> w_sent w' = w_sent w @ qs \<and> signed_sends wk d qs \<and>
     (calm w \<longrightarrow> calm w') \<and>
     (notification_deliveries (db w') = notification_deliveries (db w) \<and> (calm w \<longrightarrow> cancelled e) \<or>
      (\<exists>c o'. outcome_ok wk e d c o' \<and>
         notification_deliveries (db w') = upd_where (\<lambda>r. dl_id r = nd_ID d) (write_back e d o') (notification_deliveries (db w))))"
proof -
  obtain c w1 where a: "attempt wk e d w = (Inr c, w1)" and p: "attempt_post wk e d w c w1" using attempt_spec by blast
  from p obtain qs where qs: "w_sent w1 = w_sent w @ qs" "signed_sends wk d qs"
    unfolding attempt_post_def signed_sends_def by (metis append_Nil2)
  have w1: "notification_deliveries (db w1) = notification_deliveries (db w)" "calm w \<longrightarrow> calm w1"
    using p by (simp_all add: attempt_post_def)
  show ?thesis
  proof (cases "c = ''''")
    case True
    with p have "cancelled e" by (simp add: attempt_post_def)
    with True a w1 qs show ?thesis by (auto simp: deliverOne_def bindE_def)
  next
    case False
    with p have "c \<in> insert DeliveryDelivered failure_classes" by (simp add: attempt_post_def)
    with outcome_total assms obtain o' where o': "outcome wk e d c = Inr o'" "outcome_ok wk e d c o'"
      unfolding env_ok_def by blast
    obtain st nx fl where sp: "o' = (st, nx, fl)" by (cases o')
    obtain x w2 where u: "UpdateAfterAttempt (at_now e) (nd_ID d) (nd_Attempts d + 1) st nx fl w1 = (x, w2)"
      by (cases "UpdateAfterAttempt (at_now e) (nd_ID d) (nd_Attempts d + 1) st nx fl w1")
    then have w2: "w_sent w2 = w_sent w1" "calm w1 \<longrightarrow> calm w2"
      "notification_deliveries (db w2) = notification_deliveries (db w1) \<and> \<not> calm w1 \<or>
       notification_deliveries (db w2) = upd_where (\<lambda>r. dl_id r = nd_ID d) (write_back e d o') (notification_deliveries (db w1))"
      by (auto simp: UpdateAfterAttempt_def bindE_def exec_def stmt_def sp write_back_fun split: fault.splits)
    have "deliverOne wk e d w = (Inr (), w2)"
      using False a o'(1) u by (simp add: deliverOne_def bindE_def tryE_def sp)
    then show ?thesis using w2(1) [unfolded qs(1)] qs(2) w2(2) w1(2) w2(3) [unfolded w1(1)] o'(2) by blast
  qed
qed

lemma deliverOne_outbox_ok:
  fixes w :: "'z networld_scheme"
  assumes "0 \<le> nd_Attempts d" and "wk_maxAttempts wk \<le> 16" and "env_ok e" and "outbox_ok (db w)"
  shows "outbox_ok (db (snd (deliverOne wk e d w)))"
proof -
  from deliverOne_spec [OF assms(1-3), of w] obtain w' where d: "deliverOne wk e d w = (Inr (), w')"
    and c: "notification_deliveries (db w') = notification_deliveries (db w) \<or>
      (\<exists>c o'. outcome_ok wk e d c o' \<and>
         notification_deliveries (db w') = upd_where (\<lambda>r. dl_id r = nd_ID d) (write_back e d o') (notification_deliveries (db w)))"
    by blast
  have "row_ok (write_back e d o' r)" if "outcome_ok wk e d c o'" for c o' r
    using that outcome_row_ok [of wk e d c "fst o'" "fst (snd o')" "snd (snd o')" "at_now e" r] assms(1,3)
    by (cases o') (simp add: env_ok_def)
  with c assms(4) have "outbox_ok (db w')" unfolding outbox_ok_def by (auto simp: set_upd_where)
  with d show ?thesis by simp
qed

text \<open>
  The operations that touch the outbox, in any order and under any driver failures. A delivery acts on a
  \<open>DueDelivery\<close> read at some earlier time, so the step allows an arbitrary one.
\<close>

inductive outbox_step :: "'z networld_scheme \<Rightarrow> 'z networld_scheme \<Rightarrow> bool" where
  enqueue: "0 < now \<Longrightarrow> outbox_step w (snd (Enqueuer_Enqueue now t i p w))"
| user_test: "0 < now \<Longrightarrow> outbox_step w (snd (InsertUserTest ep p now w))"
| redeliver: "0 < now \<Longrightarrow> outbox_step w (snd (InsertRedelivery j now w))"
| prune: "outbox_step w (snd (DeliveryRepo_Prune pick t b w))"
| create: "outbox_step w (snd (EndpointRepo_Create ep' w))"
| enable: "outbox_step w (snd (EndpointRepo_SetEnabled now ep x w))"
| delete: "outbox_step w (snd (EndpointRepo_Delete ep w))"
| deliver: "0 \<le> nd_Attempts d \<Longrightarrow> wk_maxAttempts wk \<le> 16 \<Longrightarrow> env_ok e \<Longrightarrow> outbox_step w (snd (deliverOne wk e d w))"

inductive_cases outbox_stepE: "outbox_step w w'"

lemma row_ok_fresh: "0 < now \<Longrightarrow>
  row_ok \<lparr> dl_id = i, dl_endpoint_id = ep, dl_event_type = t, dl_event_id = k, dl_payload = p, dl_attempts = 0,
    dl_next_attempt_at = Some now, dl_status = DeliveryPending, dl_last_failure = None, dl_created_at = c, dl_updated_at = u \<rparr>"
  by (simp add: row_ok_def)

lemma outbox_ok_insert: "outbox_ok d \<Longrightarrow> row_ok (r\<lparr>dl_id := notification_deliveries_seq d + 1\<rparr>) \<Longrightarrow> outbox_ok (snd (insert_delivery r d))"
  by (auto simp: outbox_ok_def insert_delivery_def Let_def)

lemma outbox_ok_writes:
  assumes "0 < now"
  shows "preserves (on_db outbox_ok) (Enqueuer_Enqueue now t i p)"
    "preserves (on_db outbox_ok) (InsertUserTest ep p now)"
    "preserves (on_db outbox_ok) (InsertRedelivery j now)"
  using assms
  unfolding Enqueuer_Enqueue_def DeliveryRepo_Enqueue_def InsertUserTest_def InsertRedelivery_def EndpointRepo_ListEnabled_def
  by (intro preserves_intros preserves_exec preserves_stmt;
      auto intro!: outbox_ok_insert row_ok_fresh simp: nullIfZero_def nullIfEmpty_def split: option.splits)+

lemma outbox_ok_endpoint_writes:
  "preserves (on_db outbox_ok) (DeliveryRepo_Prune pick t b)"
  "preserves (on_db outbox_ok) (EndpointRepo_Create ep')"
  "preserves (on_db outbox_ok) (EndpointRepo_SetEnabled now ep x)"
  "preserves (on_db outbox_ok) (EndpointRepo_Delete ep)"
  unfolding DeliveryRepo_Prune_def EndpointRepo_Create_def EndpointRepo_SetEnabled_def EndpointRepo_Delete_def
  by (intro preserves_intros preserves_exec preserves_stmt;
      auto simp: outbox_ok_def insert_endpoint_def Let_def)+

lemma preserves_on_db_snd: "preserves (on_db I) m \<Longrightarrow> I (db w) \<Longrightarrow> I (db (snd (m w)))"
  by (simp add: preserves_def on_db_def)

lemma outbox_step_ok: "outbox_step w w' \<Longrightarrow> outbox_ok (db w) \<Longrightarrow> outbox_ok (db w')"
  by (induction rule: outbox_step.induct)
     (simp_all add: preserves_on_db_snd [OF outbox_ok_writes(1)] preserves_on_db_snd [OF outbox_ok_writes(2)]
       preserves_on_db_snd [OF outbox_ok_writes(3)] preserves_on_db_snd [OF outbox_ok_endpoint_writes(1)]
       preserves_on_db_snd [OF outbox_ok_endpoint_writes(2)] preserves_on_db_snd [OF outbox_ok_endpoint_writes(3)]
       preserves_on_db_snd [OF outbox_ok_endpoint_writes(4)] deliverOne_outbox_ok)

text \<open>
  C15. The outbox invariant: starting from an outbox whose rows are legal, every sequence of enqueues, test
  and manual redeliveries, prunes, endpoint changes and delivery attempts, with any driver failures,
  keeps every row in one of three states: pending with a due time and no more than a failure class,
  delivered with neither, or failed with one of the six fixed failure classes and no due time. No
  detail of a send error ever reaches the row.
\<close>

theorem outbox_reachable_ok:
  assumes "outbox_ok (db w)" and "outbox_step\<^sup>*\<^sup>* w w'"
  shows "outbox_ok (db w')"
  using assms(2,1) by (induction rule: rtranclp_induct) (auto intro: outbox_step_ok)

section \<open>Retries end\<close>

text \<open>The attempts the worker may still owe for a row, and for the outbox.\<close>

definition weight :: "Worker \<Rightarrow> delivery_row \<Rightarrow> nat" where
  "weight wk r = (if dl_status r = DeliveryPending then Suc (nat (attempt_limit wk (dl_event_type r) - dl_attempts r)) else 0)"

definition owed :: "Worker \<Rightarrow> database \<Rightarrow> nat" where
  "owed wk d = sum_list (map (weight wk) (notification_deliveries d))"

lemma sum_list_upd_where:
  fixes f :: "'a \<Rightarrow> nat"
  assumes "distinct (map k xs)" and "x \<in> set xs"
  shows "sum_list (map f (upd_where (\<lambda>r. k r = k x) g xs)) + f x = sum_list (map f xs) + f (g x)"
  using assms
proof (induction xs)
  case (Cons y xs)
  show ?case
  proof (cases "k y = k x")
    case True
    have "k r \<noteq> k x" if "r \<in> set xs" for r using imageI [OF that, of k] True Cons.prems(1) by auto
    then have "filter (\<lambda>r. k r = k x) xs = []" by (simp add: filter_empty_conv)
    moreover have "y = x" using True Cons.prems by (auto simp: image_iff)
    ultimately show ?thesis by simp
  next
    case False
    with Cons show ?thesis by auto
  qed
qed simp

text \<open>A due delivery that still describes its row.\<close>

definition fresh :: "database \<Rightarrow> DueDelivery \<Rightarrow> bool" where
  "fresh d dd \<longleftrightarrow> (\<exists>r \<in> set (notification_deliveries d). dl_id r = nd_ID dd \<and> dl_attempts r = nd_Attempts dd \<and>
     dl_event_type r = nd_EventType dd \<and> dl_status r = DeliveryPending)"

definition outbox_inv :: "database \<Rightarrow> bool" where
  "outbox_inv d \<longleftrightarrow> outbox_ok d \<and> distinct (map dl_id (notification_deliveries d))"

lemma weight_write_back:
  assumes "outcome_ok wk e d c o'" and "dl_attempts r = nd_Attempts d" and "dl_event_type r = nd_EventType d"
    and "dl_status r = DeliveryPending"
  shows "weight wk (write_back e d o' r) < weight wk r"
  using assms by (cases o') (auto simp: outcome_ok_def weight_def)

lemma deliverOne_progress:
  fixes w :: "'z networld_scheme"
  assumes "calm w" and "outbox_inv (db w)" and "fresh (db w) d" and "wk_maxAttempts wk \<le> 16" and "env_ok e" and "\<not> cancelled e"
  shows "\<exists>w'. deliverOne wk e d w = (Inr (), w') \<and> calm w' \<and> outbox_inv (db w') \<and> owed wk (db w') < owed wk (db w) \<and>
    (\<forall>d'. nd_ID d' \<noteq> nd_ID d \<longrightarrow> fresh (db w) d' \<longrightarrow> fresh (db w') d')"
proof -
  from assms(3) obtain r where r: "r \<in> set (notification_deliveries (db w))" "dl_id r = nd_ID d"
    "dl_attempts r = nd_Attempts d" "dl_event_type r = nd_EventType d" "dl_status r = DeliveryPending"
    by (auto simp: fresh_def)
  have nn: "0 \<le> nd_Attempts d" using assms(2) r by (auto simp: outbox_inv_def outbox_ok_def row_ok_def)
  from deliverOne_spec [OF nn assms(4,5), of w] obtain w' where d: "deliverOne wk e d w = (Inr (), w')"
    and calm': "calm w \<longrightarrow> calm w'"
    and or: "notification_deliveries (db w') = notification_deliveries (db w) \<and> (calm w \<longrightarrow> cancelled e) \<or>
      (\<exists>c o'. outcome_ok wk e d c o' \<and>
         notification_deliveries (db w') = upd_where (\<lambda>r. dl_id r = nd_ID d) (write_back e d o') (notification_deliveries (db w)))"
    by blast
  from or assms(1,6) obtain c o' where o': "outcome_ok wk e d c o'"
    and n: "notification_deliveries (db w') = upd_where (\<lambda>x. dl_id x = dl_id r) (write_back e d o') (notification_deliveries (db w))"
    by (auto simp: r(2))
  have dist: "distinct (map dl_id (notification_deliveries (db w)))" using assms(2) by (simp add: outbox_inv_def)
  have "outbox_ok (db w')" using deliverOne_outbox_ok [OF nn assms(4,5), of w] assms(2) d by (simp add: outbox_inv_def)
  moreover have "distinct (map dl_id (notification_deliveries (db w')))" using dist unfolding n by simp
  moreover have "owed wk (db w') < owed wk (db w)"
    using sum_list_upd_where [OF dist r(1), of "weight wk" "write_back e d o'"]
      weight_write_back [OF o' r(3-5)] unfolding owed_def n by linarith
  moreover have "fresh (db w') d'" if "nd_ID d' \<noteq> nd_ID d" "fresh (db w) d'" for d'
    using that r(2) unfolding fresh_def n set_upd_where by force
  ultimately show ?thesis using d calm' assms(1) unfolding outbox_inv_def by blast
qed

lemma sweep_loop_progress:
  fixes w :: "'z networld_scheme"
  assumes "calm w" and "outbox_inv (db w)" and "\<forall>d \<in> set ds. fresh (db w) d" and "distinct (map nd_ID ds)"
    and "wk_maxAttempts wk \<le> 16" and "\<forall>e \<in> set es. env_ok e \<and> \<not> cancelled e"
  shows "\<exists>w'. sweep_loop wk es ds w = (Inr (), w') \<and> calm w' \<and> outbox_inv (db w') \<and>
    owed wk (db w') + min (length es) (length ds) \<le> owed wk (db w)"
  using assms
proof (induction wk es ds arbitrary: w rule: sweep_loop.induct)
  case (3 wk e es d ds)
  from "3.prems" have "calm w" "outbox_inv (db w)" "fresh (db w) d" "wk_maxAttempts wk \<le> 16" "env_ok e" "\<not> cancelled e"
    by auto
  from deliverOne_progress [OF this] obtain w1 where
    w1: "deliverOne wk e d w = (Inr (), w1)" "calm w1" "outbox_inv (db w1)" "owed wk (db w1) < owed wk (db w)"
    "\<forall>d'. nd_ID d' \<noteq> nd_ID d \<longrightarrow> fresh (db w) d' \<longrightarrow> fresh (db w1) d'" by blast
  have "fresh (db w1) d'" if "d' \<in> set ds" for d'
  proof -
    have "nd_ID d' \<noteq> nd_ID d" using "3.prems"(4) that by (metis distinct.simps(2) image_eqI list.simps(9) list.set_map)
    with w1(5) "3.prems"(3) that show ?thesis by simp
  qed
  then obtain w' where "sweep_loop wk es ds w1 = (Inr (), w')" "calm w'" "outbox_inv (db w')"
    "owed wk (db w') + min (length es) (length ds) \<le> owed wk (db w1)"
    using "3.IH" [of w1] w1(2,3) "3.prems" by auto
  with w1(1,4) show ?case by (auto simp: bindE_def)
qed auto

text \<open>The batch of a sweep, as rows of the outbox at the time of the query.\<close>

definition batch :: "int \<Rightarrow> database \<Rightarrow> delivery_row list" where
  "batch now d = take deliveryBatchSize (sort_key (\<lambda>r. scanInt64 (dl_next_attempt_at r)) (due_rows now d))"

lemma batch_mem: "r \<in> set (batch now d) \<Longrightarrow> r \<in> set (due_rows now d) \<and> r \<in> set (notification_deliveries d)"
  by (auto simp: batch_def due_rows_def dest!: in_set_takeD)

lemma batch_empty_iff: "batch now d = [] \<longleftrightarrow> due_rows now d = []"
  by (simp add: batch_def deliveryBatchSize_def) (metis length_0_conv length_sort)

lemma batch_distinct:
  assumes "distinct (map dl_id (notification_deliveries d))"
  shows "distinct (map dl_id (batch now d))"
proof -
  have "distinct (map dl_id (due_rows now d))" using assms by (simp add: due_rows_def)
  then have "distinct (map dl_id (sort_key (\<lambda>r. scanInt64 (dl_next_attempt_at r)) (due_rows now d)))"
    by (simp add: distinct_map)
  then show ?thesis unfolding batch_def take_map [symmetric] by (rule distinct_take)
qed

lemma join_endpoint_keys [simp]:
  "nd_ID (join_endpoint d r) = dl_id r" "nd_Attempts (join_endpoint d r) = dl_attempts r"
  "nd_EventType (join_endpoint d r) = dl_event_type r" "nd_Payload (join_endpoint d r) = dl_payload r"
  by (simp_all add: join_endpoint_def scanDelivery_def NotificationDelivery.defs split: option.split)

lemma Worker_sweep_calm:
  "calm w \<Longrightarrow> Worker_sweep wk now es w = sweep_loop wk es (map (join_endpoint (db w)) (batch now (db w))) w"
  by (simp add: Worker_sweep_def bindE_tryE_case DueForAttempt_def batch_def)

lemma Worker_sweep_progress:
  fixes w :: "'z networld_scheme"
  assumes "calm w" and "outbox_inv (db w)" and "wk_maxAttempts wk \<le> 16" and "\<forall>e \<in> set es. env_ok e \<and> \<not> cancelled e"
  shows "\<exists>w'. Worker_sweep wk now es w = (Inr (), w') \<and> calm w' \<and> outbox_inv (db w') \<and>
    owed wk (db w') + min (length es) (length (batch now (db w))) \<le> owed wk (db w)"
proof -
  have "fresh (db w) d" if "d \<in> set (map (join_endpoint (db w)) (batch now (db w)))" for d
  proof -
    from that obtain r where r: "d = join_endpoint (db w) r" "r \<in> set (due_rows now (db w))"
      "r \<in> set (notification_deliveries (db w))" by (auto dest: batch_mem)
    then have "dl_status r = DeliveryPending"
      using assms(2) by (auto simp: outbox_inv_def outbox_ok_def row_ok_def due_rows_def split: option.splits)
    with r show ?thesis by (auto simp: fresh_def)
  qed
  moreover have "distinct (map nd_ID (map (join_endpoint (db w)) (batch now (db w))))"
    using batch_distinct assms(2) by (simp add: outbox_inv_def comp_def)
  ultimately show ?thesis
    using sweep_loop_progress [OF assms(1,2) _ _ assms(3,4), of "map (join_endpoint (db w)) (batch now (db w))"] assms(1)
    by (simp add: Worker_sweep_calm)
qed

text \<open>The ticks of a run at which something is due.\<close>

fun busy_ticks :: "Worker \<Rightarrow> (int \<times> attempt_env list) list \<Rightarrow> 'z networld_scheme \<Rightarrow> nat" where
  "busy_ticks wk [] w = 0"
| "busy_ticks wk ((now, es) # ticks) w =
     (if due_rows now (db w) = [] then 0 else 1) + busy_ticks wk ticks (snd (Worker_sweep wk now es w))"

text \<open>
  C16. Retries end: on a healthy database, whatever the endpoints answer, a run of the worker on its own
  never panics and makes at most \<open>owed\<close> ticks at which a delivery is due, where \<open>owed\<close> is at most one more
  than the configured attempts for each pending row. No delivery is retried for ever.
\<close>

theorem Worker_retries_end:
  fixes w :: "'z networld_scheme"
  assumes "calm w" and "outbox_inv (db w)" and "wk_maxAttempts wk \<le> 16"
    and "\<forall>(now, es) \<in> set ticks. es \<noteq> [] \<and> (\<forall>e \<in> set es. env_ok e \<and> \<not> cancelled e)"
  shows "\<exists>w'. Worker_Run wk ticks w = (Inr (), w') \<and> busy_ticks wk ticks w + owed wk (db w') \<le> owed wk (db w)"
  using assms
proof (induction ticks arbitrary: w)
  case (Cons t ticks)
  obtain now es where t: "t = (now, es)" by (cases t)
  from Cons.prems(4) t have es: "es \<noteq> []" "\<forall>e \<in> set es. env_ok e \<and> \<not> cancelled e" by auto
  from Worker_sweep_progress [OF Cons.prems(1-3) es(2)] obtain w1 where
    w1: "Worker_sweep wk now es w = (Inr (), w1)" "calm w1" "outbox_inv (db w1)"
    "owed wk (db w1) + min (length es) (length (batch now (db w))) \<le> owed wk (db w)" by blast
  from Cons.IH [OF w1(2,3) Cons.prems(3)] Cons.prems(4) obtain w' where
    w': "Worker_Run wk ticks w1 = (Inr (), w')" "busy_ticks wk ticks w1 + owed wk (db w') \<le> owed wk (db w1)" by auto
  have "(if due_rows now (db w) = [] then 0 else 1) \<le> min (length es) (length (batch now (db w)))"
    using es(1) batch_empty_iff [of now "db w"] by (cases es; cases "batch now (db w)") auto
  with w1 w' show ?case by (auto simp: t bindE_def)
qed simp

section \<open>What leaves the process\<close>

lemma subseq_distinct: "subseq xs ys \<Longrightarrow> distinct ys \<Longrightarrow> distinct xs"
  by (induction rule: list_emb.induct) (auto dest: list_emb_set)

lemma batch_endpoint:
  assumes "r \<in> set (batch now d)"
  shows "\<exists>ep \<in> set (notification_endpoints d). (\<exists>t \<le> now. dl_next_attempt_at r = Some t) \<and>
    en_id ep = dl_endpoint_id r \<and> en_enabled ep \<and>
    dd_EndpointURL (join_endpoint d r) = en_url ep \<and> dd_SecretSealed (join_endpoint d r) = en_secret_sealed ep"
proof -
  from batch_mem [OF assms] obtain t ep where "dl_next_attempt_at r = Some t" "t \<le> now"
    and ep: "find_endpoint (dl_endpoint_id r) d = Some ep" "en_enabled ep"
    by (auto simp: due_rows_def split: option.splits)
  moreover from ep have "ep \<in> set (notification_endpoints d)" "en_id ep = dl_endpoint_id r"
    by (auto simp: find_endpoint_def dest: find_SomeD)
  ultimately show ?thesis by (auto simp: join_endpoint_def NotificationDelivery.defs)
qed

definition signed :: "Worker \<Rightarrow> DueDelivery \<Rightarrow> outgoing \<Rightarrow> bool" where
  "signed wk d q \<longleftrightarrow>
     og_DeliveryID q = nd_ID d \<and> og_URL q = dd_EndpointURL d \<and> og_Body q = nd_Payload d \<and>
     (\<exists>secret. OpenSecret (wk_crypto wk) (wk_key wk) (dd_SecretSealed d) = Inr secret \<and>
        og_Signature q = Sign (wk_crypto wk) secret
          (CanonicalNotification (og_Timestamp q) (og_Nonce q) (BodyHashHex (wk_crypto wk) (og_Body q))))"

lemma deliverOne_sends:
  fixes w :: "'z networld_scheme"
  shows "\<exists>qs. w_sent (snd (deliverOne wk e d w)) = w_sent w @ qs \<and> (qs = [] \<or> (\<exists>q. qs = [q] \<and> signed wk d q))"
proof -
  obtain c w1 where a: "attempt wk e d w = (Inr c, w1)" and p: "attempt_post wk e d w c w1" using attempt_spec by blast
  have s: "signed wk d (signed_request wk e d nonce secret)"
    if "OpenSecret (wk_crypto wk) (wk_key wk) (dd_SecretSealed d) = Inr secret" for nonce secret
    using that by (simp add: signed_def signed_request_def Let_def)
  have "w_sent (snd (deliverOne wk e d w)) = w_sent w1"
    using a by (auto simp: deliverOne_def bindE_def tryE_def UpdateAfterAttempt_def exec_def stmt_def
        split: prod.splits sum.splits fault.splits)
  with p s show ?thesis unfolding attempt_post_def by (metis append_Nil2)
qed

lemma sweep_loop_sends:
  fixes w :: "'z networld_scheme"
  shows "\<exists>qs. w_sent (snd (sweep_loop wk es ds w)) = w_sent w @ qs \<and> subseq (map og_DeliveryID qs) (map nd_ID ds) \<and>
    (\<forall>q \<in> set qs. \<exists>d \<in> set ds. signed wk d q)"
proof (induction wk es ds arbitrary: w rule: sweep_loop.induct)
  case (3 wk e es d ds)
  obtain r w1 where d: "deliverOne wk e d w = (r, w1)" by (cases "deliverOne wk e d w")
  from deliverOne_sends [of wk e d w] d obtain q1 where q1: "w_sent w1 = w_sent w @ q1"
    "q1 = [] \<or> (\<exists>q. q1 = [q] \<and> signed wk d q)" by auto
  from "3.IH" [of w1] obtain q2 where q2: "w_sent (snd (sweep_loop wk es ds w1)) = w_sent w1 @ q2"
    "subseq (map og_DeliveryID q2) (map nd_ID ds)" "\<forall>q \<in> set q2. \<exists>d \<in> set ds. signed wk d q" by blast
  show ?case
  proof (cases r)
    case (Inl e')
    with d q1 show ?thesis
      by (intro exI [of _ q1]) (auto simp: bindE_def signed_def)
  next
    case (Inr u)
    with d q1 q2 show ?thesis
      by (intro exI [of _ "q1 @ q2"]) (auto simp: bindE_def signed_def)
  qed
qed auto

text \<open>
  C17. Every request a sweep hands to the HTTP client belongs to a row that was due and an endpoint that was
  enabled when the sweep read them, goes to that endpoint's URL with that row's payload, and is signed
  with the endpoint's secret over exactly the time stamp, nonce and body it carries; at most one
  request per row and twenty per sweep. This holds whatever the database or the network do.
\<close>

theorem Worker_sweep_signed:
  fixes w :: "'z networld_scheme"
  assumes "wf_db (db w)" and "Worker_sweep wk now es w = (r, w')"
  shows "\<exists>qs. w_sent w' = w_sent w @ qs \<and> length qs \<le> 20 \<and> distinct (map og_DeliveryID qs) \<and>
    (\<forall>q \<in> set qs. \<exists>row \<in> set (notification_deliveries (db w)). \<exists>ep \<in> set (notification_endpoints (db w)).
       dl_id row = og_DeliveryID q \<and> (\<exists>t \<le> now. dl_next_attempt_at row = Some t) \<and>
       en_id ep = dl_endpoint_id row \<and> en_enabled ep \<and> og_URL q = en_url ep \<and> og_Body q = dl_payload row \<and>
       (\<exists>secret. OpenSecret (wk_crypto wk) (wk_key wk) (en_secret_sealed ep) = Inr secret \<and>
          og_Signature q = Sign (wk_crypto wk) secret
            (CanonicalNotification (og_Timestamp q) (og_Nonce q) (BodyHashHex (wk_crypto wk) (og_Body q)))))"
proof (cases "DueForAttempt now deliveryBatchSize w")
  case (Pair x w1)
  have sent: "w_sent w1 = w_sent w" using Pair by (auto simp: DueForAttempt_def query_def stmt_def split: fault.splits)
  show ?thesis
  proof (cases x)
    case (Inl e)
    with Pair assms(2) sent show ?thesis by (intro exI [of _ "[]"]) (auto simp: Worker_sweep_def bindE_tryE_case)
  next
    case (Inr ds)
    with Pair have ds: "ds = map (join_endpoint (db w)) (batch now (db w))"
      by (auto simp: DueForAttempt_def batch_def dest: query_Inr)
    have w': "w' = snd (sweep_loop wk es ds w1)" using Pair Inr assms(2) by (simp add: Worker_sweep_def bindE_tryE_case)
    obtain qs where qs: "w_sent w' = w_sent w @ qs" "subseq (map og_DeliveryID qs) (map nd_ID ds)"
      "\<forall>q \<in> set qs. \<exists>d \<in> set ds. signed wk d q" using sweep_loop_sends [of wk es ds w1] unfolding w' sent by blast
    have "distinct (map dl_id (notification_deliveries (db w)))"
      using assms(1) by (auto simp: wf_db_def wf_outbox_def strict_sorted_iff)
    then have dist: "distinct (map nd_ID ds)" using batch_distinct by (simp add: ds comp_def)
    have "length ds \<le> 20" by (simp add: ds batch_def deliveryBatchSize_def)
    moreover have "length qs \<le> length ds" using list_emb_length [OF qs(2)] by simp
    moreover have "distinct (map og_DeliveryID qs)" using qs(2) dist by (rule subseq_distinct)
    moreover have "\<exists>row \<in> set (notification_deliveries (db w)). \<exists>ep \<in> set (notification_endpoints (db w)).
       dl_id row = og_DeliveryID q \<and> (\<exists>t \<le> now. dl_next_attempt_at row = Some t) \<and>
       en_id ep = dl_endpoint_id row \<and> en_enabled ep \<and> og_URL q = en_url ep \<and> og_Body q = dl_payload row \<and>
       (\<exists>secret. OpenSecret (wk_crypto wk) (wk_key wk) (en_secret_sealed ep) = Inr secret \<and>
          og_Signature q = Sign (wk_crypto wk) secret
            (CanonicalNotification (og_Timestamp q) (og_Nonce q) (BodyHashHex (wk_crypto wk) (og_Body q))))"
      if q: "q \<in> set qs" for q
    proof -
      from q qs(3) obtain row where row: "row \<in> set (batch now (db w))" "signed wk (join_endpoint (db w) row) q"
        by (auto simp: ds)
      from batch_endpoint [OF row(1)] obtain ep where "ep \<in> set (notification_endpoints (db w))"
        "\<exists>t \<le> now. dl_next_attempt_at row = Some t" "en_id ep = dl_endpoint_id row" "en_enabled ep"
        "dd_EndpointURL (join_endpoint (db w) row) = en_url ep"
        "dd_SecretSealed (join_endpoint (db w) row) = en_secret_sealed ep" by blast
      with batch_mem [OF row(1)] row(2) show ?thesis
        by (intro bexI [of _ row] bexI [of _ ep]) (auto simp: signed_def)
    qed
    ultimately show ?thesis using qs(1) by (intro exI [of _ qs]) auto
  qed
qed

text \<open>
  The retry schedule: for every attempt number the configuration allows, the delay doubles from about
  15 seconds (within the jitter) up to 16 minutes, is never zero or negative, and the 64-bit product
  does not overflow; scheduling attempt 1 would panic.
\<close>

theorem backoff_schedule:
  assumes "validateNotifications cfg" and "2 \<le> n" and "n \<le> nt_MaxAttempts (sv_Notifications cfg)" and "jitter_ok jitter"
  shows "\<exists>b. backoffFor n jitter = Some b \<and> 12 \<le> wholeSeconds b \<and> wholeSeconds b \<le> 960 \<and>
    min (12 * 2 ^ nat (n - 2)) 960 \<le> wholeSeconds b \<and> wholeSeconds b \<le> min (18 * 2 ^ nat (n - 2)) 960"
proof -
  have "n \<le> 16" using assms(1,3) by (simp add: validateNotifications_def Let_def)
  from backoff_value [OF assms(2) this assms(4)] obtain b where b: "backoffFor n jitter = Some b"
    "min (12 * 2 ^ nat (n - 2)) 960 \<le> wholeSeconds b" "wholeSeconds b \<le> min (18 * 2 ^ nat (n - 2)) 960" by blast
  have "(1 :: int) \<le> 2 ^ nat (n - 2)" by simp
  then have "12 \<le> wholeSeconds b" using b(2) by linarith
  with b show ?thesis by (intro exI [of _ b]) simp
qed

lemma backoff_schedule_witness: "\<exists>b. backoffFor 5 (\<lambda>x. x) = Some b \<and> 96 \<le> wholeSeconds b \<and> wholeSeconds b \<le> 144"
  using backoff_schedule [of keyDefaults 5 "\<lambda>x. x"] by (auto simp: validateNotifications_def keyDefaults_def jitter_ok_def)

section \<open>A sample outbox\<close>

definition sample_env :: attempt_env where
  "sample_env = \<lparr> at_nonce = Some ''nonce'', at_ts = 200, at_request_ok = True, at_reply = Response 500, at_now = 201,
     at_jitter = (\<lambda>x. x) \<rparr>"

definition sample_worker :: Worker where
  "sample_worker = \<lparr> wk_crypto = plain_crypto, wk_key = replicate 32 CHR ''k'', wk_maxAttempts = 8,
     wk_scheme = (\<lambda>_. Some ''https''), wk_details = (\<lambda>s. s) \<rparr>"

definition sample_endpoint :: endpoint_row where
  "sample_endpoint = \<lparr> en_id = ''e1'', en_label = ''hook'', en_url = ''https://h'',
     en_secret_sealed = EncodeToString (replicate 12 CHR ''n'' @ ''sec''), en_enabled = True, en_created_at = 1, en_updated_at = 1 \<rparr>"

definition sample_delivery :: delivery_row where
  "sample_delivery = \<lparr> dl_id = 1, dl_endpoint_id = ''e1'', dl_event_type = ''device.added'', dl_event_id = 4,
     dl_payload = ''{}'', dl_attempts = 0, dl_next_attempt_at = Some 100, dl_status = DeliveryPending,
     dl_last_failure = None, dl_created_at = 100, dl_updated_at = 100 \<rparr>"

definition outbox_world :: networld where
  "outbox_world = \<lparr> db = empty_db\<lparr>notification_endpoints := [sample_endpoint], notification_deliveries := [sample_delivery],
     notification_deliveries_seq := 1\<rparr>, faults = [], w_hub = Hub_New, w_mail = [], v_cache = Map.empty, w_sent = [] \<rparr>"

lemma outbox_world_ok:
  "wf_db (db outbox_world)" "outbox_inv (db outbox_world)" "calm outbox_world" "env_ok sample_env" "\<not> cancelled sample_env"
  by (simp_all add: outbox_world_def wf_db_def wf_table_defs empty_db_def sample_delivery_def sample_endpoint_def
      outbox_inv_def outbox_ok_def row_ok_def env_ok_def sample_env_def jitter_ok_def)

lemma outbox_reachable_ok_witness:
  "outbox_ok (db (snd (deliverOne sample_worker sample_env (join_endpoint (db outbox_world) sample_delivery) outbox_world)))"
proof (rule outbox_reachable_ok)
  show "outbox_ok (db outbox_world)" using outbox_world_ok by (simp add: outbox_inv_def)
  show "outbox_step\<^sup>*\<^sup>* outbox_world
    (snd (deliverOne sample_worker sample_env (join_endpoint (db outbox_world) sample_delivery) outbox_world))"
    using outbox_world_ok(4) by (intro r_into_rtranclp outbox_step.deliver) (simp_all add: sample_delivery_def sample_worker_def)
qed

lemma Worker_retries_end_witness:
  "\<exists>w'. Worker_Run sample_worker [(200, [sample_env]), (300, [sample_env])] outbox_world = (Inr (), w') \<and>
     busy_ticks sample_worker [(200, [sample_env]), (300, [sample_env])] outbox_world \<le> 9"
proof -
  have "owed sample_worker (db outbox_world) = 9"
    by (simp add: owed_def outbox_world_def weight_def sample_delivery_def sample_worker_def attempt_limit_def EventTest_def)
  moreover have "wk_maxAttempts sample_worker \<le> 16" by (simp add: sample_worker_def)
  ultimately show ?thesis
    using Worker_retries_end [OF outbox_world_ok(3,2), of sample_worker "[(200, [sample_env]), (300, [sample_env])]"] outbox_world_ok(4,5)
    by fastforce
qed

lemma sample_due: "batch 200 (db outbox_world) = [sample_delivery]"
  by (simp add: batch_def due_rows_def outbox_world_def sample_delivery_def find_endpoint_def sample_endpoint_def deliveryBatchSize_def)

lemma sample_attempt:
  "\<exists>w'. deliverOne sample_worker sample_env (join_endpoint (db outbox_world) sample_delivery) outbox_world = (Inr (), w') \<and>
     length (w_sent w') = 1"
proof -
  have j: "join_endpoint (db outbox_world) sample_delivery =
    NotificationDelivery.extend (scanDelivery sample_delivery)
      \<lparr> dd_EndpointURL = ''https://h'', dd_SecretSealed = EncodeToString (replicate 12 CHR ''n'' @ ''sec'') \<rparr>"
    by (simp add: join_endpoint_def find_endpoint_def outbox_world_def sample_endpoint_def sample_delivery_def)
  have o: "OpenSecret plain_crypto (replicate 32 CHR ''k'') (EncodeToString (replicate 12 CHR ''n'' @ ''sec'')) = Inr ''sec''"
    by (simp add: OpenSecret_def newGCM_def DecodeString_Encode plain_crypto_def)
  have "outcome sample_worker sample_env (join_endpoint (db outbox_world) sample_delivery) FailureRejected \<noteq> Inl e" for e
    using outcome_total [of "join_endpoint (db outbox_world) sample_delivery" sample_worker sample_env FailureRejected]
      outbox_world_ok(4) by (auto simp: env_ok_def sample_worker_def sample_delivery_def)
  then obtain o' where o': "outcome sample_worker sample_env (join_endpoint (db outbox_world) sample_delivery) FailureRejected = Inr o'"
    by (cases "outcome sample_worker sample_env (join_endpoint (db outbox_world) sample_delivery) FailureRejected") auto
  have a: "\<exists>q. attempt sample_worker sample_env (join_endpoint (db outbox_world) sample_delivery) outbox_world =
      (Inr FailureRejected, outbox_world\<lparr>w_sent := [q]\<rparr>)"
    by (simp add: attempt_def sample_worker_def sample_env_def j NotificationDelivery.defs o Clients_For_def bindE_def client_Do_def)
       (simp add: outbox_world_def)
  then show ?thesis
    using o' by (auto simp: deliverOne_def bindE_def tryE_def UpdateAfterAttempt_def outbox_world_def split: prod.split)
qed

lemma Worker_sweep_signed_witness:
  "\<exists>q w'. Worker_sweep sample_worker 200 [sample_env] outbox_world = (Inr (), w') \<and> w_sent w' = [q] \<and> og_URL q = ''https://h''"
proof -
  obtain w' where s: "Worker_sweep sample_worker 200 [sample_env] outbox_world = (Inr (), w')" and l: "length (w_sent w') = 1"
    using sample_attempt outbox_world_ok(3) by (auto simp: Worker_sweep_calm sample_due bindE_def)
  from Worker_sweep_signed [OF outbox_world_ok(1) s] obtain qs where qs: "w_sent w' = w_sent outbox_world @ qs"
    "\<forall>q \<in> set qs. \<exists>ep \<in> set (notification_endpoints (db outbox_world)). og_URL q = en_url ep" by fast
  with l obtain q where "qs = [q]" "w_sent w' = [q]" by (auto simp: outbox_world_def length_Suc_conv)
  with s qs(2) show ?thesis by (auto simp: outbox_world_def sample_endpoint_def)
qed

end
