(* ===== verification/Netip.thy ===== *)
theory Netip
  imports Prelude "HOL-Library.Word"
begin

text \<open>
  The part of Go's \<open>net/netip\<close> the server decides with: addresses as machine words with their family and
  zone, prefixes, the address classes, and the order of \<open>Addr.Compare\<close>. \<open>internal/store/addrs.go\<close> is built
  on it. The text forms (\<open>ParseAddr\<close>, \<open>String\<close>) stay with the library: they are the fields of \<open>netip_text\<close>.
\<close>

unbundle bit_operations_syntax

section \<open>Addresses\<close>

text \<open>\<open>ZeroAddr\<close> is the zero \<open>netip.Addr\<close>; only an IPv6 address can carry a zone.\<close>

datatype Addr = ZeroAddr | V4 "32 word" | V6 "128 word" string

definition Zone :: "Addr \<Rightarrow> string" where
  "Zone a = (case a of V6 _ z \<Rightarrow> z | _ \<Rightarrow> '''')"

definition Is4In6 :: "Addr \<Rightarrow> bool" where
  "Is4In6 a = (case a of V6 x _ \<Rightarrow> drop_bit 32 x = 0xffff | _ \<Rightarrow> False)"

definition Unmap :: "Addr \<Rightarrow> Addr" where
  "Unmap a = (case a of V6 x _ \<Rightarrow> if Is4In6 a then V4 (ucast x) else a | _ \<Rightarrow> a)"

definition WithoutZone :: "Addr \<Rightarrow> Addr" where
  "WithoutZone a = (case a of V6 x _ \<Rightarrow> V6 x '''' | _ \<Rightarrow> a)"

definition BitLen :: "Addr \<Rightarrow> nat" where
  "BitLen a = (case a of ZeroAddr \<Rightarrow> 0 | V4 _ \<Rightarrow> 32 | V6 _ _ \<Rightarrow> 128)"

definition IsLoopback :: "Addr \<Rightarrow> bool" where
  "IsLoopback a = (case a of ZeroAddr \<Rightarrow> False | V4 x \<Rightarrow> drop_bit 24 x = 127 | V6 x _ \<Rightarrow> x = 1)"

definition IsMulticast :: "Addr \<Rightarrow> bool" where
  "IsMulticast a = (case a of ZeroAddr \<Rightarrow> False | V4 x \<Rightarrow> drop_bit 28 x = 0xe | V6 x _ \<Rightarrow> drop_bit 120 x = 0xff)"

definition IsLinkLocalUnicast :: "Addr \<Rightarrow> bool" where
  "IsLinkLocalUnicast a =
     (case a of ZeroAddr \<Rightarrow> False | V4 x \<Rightarrow> drop_bit 16 x = 0xa9fe | V6 x _ \<Rightarrow> drop_bit 118 x = 0x3fa)"

definition IsGlobalUnicast :: "Addr \<Rightarrow> bool" where
  "IsGlobalUnicast a =
     (a \<noteq> ZeroAddr \<and> a \<noteq> V4 0 \<and> a \<noteq> V4 0xffffffff \<and>
      a \<noteq> V6 0 '''' \<and> \<not> IsLoopback a \<and> \<not> IsMulticast a \<and> \<not> IsLinkLocalUnicast a)"

section \<open>Prefixes\<close>

type_synonym Prefix = "Addr \<times> nat"

text \<open>A prefix contains no address with a zone and none of another family.\<close>

fun Prefix_Contains :: "Prefix \<Rightarrow> Addr \<Rightarrow> bool" where
  "Prefix_Contains (V4 p, n) (V4 a) = (n \<le> 32 \<and> drop_bit (32 - n) (a XOR p) = 0)"
| "Prefix_Contains (V6 p z', n) (V6 a z) = (z = '''' \<and> n \<le> 128 \<and> (a XOR p) AND NOT (mask (128 - n)) = 0)"
| "Prefix_Contains _ _ = False"

fun Masked :: "Prefix \<Rightarrow> Prefix" where
  "Masked (V4 p, n) = (V4 (p AND NOT (mask (32 - n))), n)"
| "Masked (V6 p z, n) = (V6 (p AND NOT (mask (128 - n))) z, n)"
| "Masked (ZeroAddr, n) = (ZeroAddr, n)"

section \<open>The order of addresses\<close>

text \<open>\<open>Addr.Compare\<close>: by family, then by value, then by zone.\<close>

instantiation Addr :: linorder
begin

definition less_eq_Addr :: "Addr \<Rightarrow> Addr \<Rightarrow> bool" where
  "a \<le> b \<longleftrightarrow>
     (case (a, b) of
        (V4 x, V4 y) \<Rightarrow> x \<le> y
      | (V6 x z, V6 y z') \<Rightarrow> x < y \<or> x = y \<and> z \<le> z'
      | _ \<Rightarrow> BitLen a \<le> BitLen b)"

definition less_Addr :: "Addr \<Rightarrow> Addr \<Rightarrow> bool" where
  "a < b \<longleftrightarrow> a \<le> b \<and> \<not> b \<le> (a :: Addr)"

instance
  by standard (auto simp: less_eq_Addr_def less_Addr_def BitLen_def split: Addr.splits)

end

section \<open>internal/store/addrs.go\<close>

record netip_text =
  nt_ParseAddr :: "string \<Rightarrow> Addr option"
  nt_String :: "Addr \<Rightarrow> string"

definition ParseAddr :: "netip_text \<Rightarrow> string \<Rightarrow> Addr option" where
  "ParseAddr tx s =
     (if s = '''' then None
      else case nt_ParseAddr tx s of None \<Rightarrow> None | Some a \<Rightarrow> Some (WithoutZone (Unmap a)))"

text \<open>\<open>slices.Compact\<close> removes equal neighbours.\<close>

definition DedupeAddrs :: "Addr list \<Rightarrow> Addr list" where
  "DedupeAddrs addrs = remdups_adj (sort addrs)"

lemma distinct_remdups_adj_sorted: "sorted xs \<Longrightarrow> distinct (remdups_adj (xs :: 'a :: linorder list))"
  by (induction xs rule: remdups_adj.induct) (auto simp: order.antisym)

lemma DedupeAddrs_spec: "set (DedupeAddrs as) = set as" "sorted_wrt (<) (DedupeAddrs as)"
  by (simp_all add: DedupeAddrs_def strict_sorted_iff distinct_remdups_adj_sorted)

section \<open>Prefixes as ranges\<close>

lemma word_xor_eq_0: "x XOR y = 0 \<longleftrightarrow> x = (y :: 'a :: len word)"
  by (metis xor.assoc xor.left_neutral xor.right_neutral xor_self_eq)

lemma drop_bit_xor_eq_0: "drop_bit k (a XOR b) = 0 \<longleftrightarrow> drop_bit k a = drop_bit k (b :: 'a :: len word)"
  by (simp add: drop_bit_xor word_xor_eq_0)

lemma and_not_mask_eq_0: "w AND NOT (mask k) = 0 \<longleftrightarrow> drop_bit k w = (0 :: 'a :: len word)"
proof -
  have "w AND NOT (mask k) = 0 \<longleftrightarrow> take_bit k w = w"
    by (auto simp: bit_eq_iff bit_simps)
  then show ?thesis by (simp add: take_bit_eq_self_iff_drop_bit_eq_0)
qed

lemma uint_drop_bit: "uint (drop_bit k a) = uint (a :: 'a :: len word) div 2 ^ k"
proof -
  have "take_bit LENGTH('a) (uint a) = uint a" using uint_lt2p [of a] by (intro take_bit_int_eq_self) simp_all
  then show ?thesis unfolding unsigned_drop_bit_eq by (simp add: drop_bit_eq_div)
qed

lemma int_div_range:
  fixes a q :: int
  shows "a div 2 ^ k = q \<longleftrightarrow> q * 2 ^ k \<le> a \<and> a < q * 2 ^ k + 2 ^ k"
proof
  assume e: "a div 2 ^ k = q"
  have "a = q * 2 ^ k + a mod 2 ^ k" using div_mult_mod_eq [of a "2 ^ k"] unfolding e by (rule sym)
  moreover have "0 \<le> a mod 2 ^ k" "a mod 2 ^ k < 2 ^ k" by simp_all
  ultimately show "q * 2 ^ k \<le> a \<and> a < q * 2 ^ k + 2 ^ k" by linarith
next
  assume "q * 2 ^ k \<le> a \<and> a < q * 2 ^ k + 2 ^ k"
  then show "a div 2 ^ k = q" by (intro int_div_pos_eq [of _ _ _ "a - q * 2 ^ k"]) simp_all
qed

lemma drop_bit_eq_iff_range:
  fixes a p :: "'a :: len word"
  assumes "take_bit k p = 0"
  shows "drop_bit k a = drop_bit k p \<longleftrightarrow> uint p \<le> uint a \<and> uint a < uint p + 2 ^ k"
proof -
  have "uint p mod 2 ^ k = 0"
    using arg_cong [OF assms, of uint] by (simp only: unsigned_take_bit_eq) (simp add: take_bit_eq_mod)
  then have q: "uint p div 2 ^ k * 2 ^ k = uint p" by (metis add.right_neutral div_mult_mod_eq)
  have "drop_bit k a = drop_bit k p \<longleftrightarrow> uint a div 2 ^ k = uint p div 2 ^ k"
    by (simp only: word_uint_eq_iff uint_drop_bit)
  then show ?thesis unfolding int_div_range q .
qed

text \<open>A shifted word equal to a constant is the range of the words that start with it.\<close>

lemma drop_bit_const_range:
  "drop_bit k a = c \<longleftrightarrow> uint c * 2 ^ k \<le> uint a \<and> uint a < uint c * 2 ^ k + 2 ^ k" for a c :: "'a :: len word"
  unfolding word_uint_eq_iff uint_drop_bit by (rule int_div_range)

text \<open>A prefix with no bits below its length is the range of its size from its address.\<close>

lemma Contains_V4_range:
  assumes "n \<le> 32" and "take_bit (32 - n) p = 0"
  shows "Prefix_Contains (V4 p, n) (V4 a) \<longleftrightarrow> uint p \<le> uint a \<and> uint a < uint p + 2 ^ (32 - n)"
  using assms(1) drop_bit_eq_iff_range [OF assms(2), of a] unfolding Prefix_Contains.simps drop_bit_xor_eq_0 by blast

lemma Contains_V6_range:
  assumes "n \<le> 128" and "take_bit (128 - n) p = 0"
  shows "Prefix_Contains (V6 p z', n) (V6 a '''') \<longleftrightarrow> uint p \<le> uint a \<and> uint a < uint p + 2 ^ (128 - n)"
  using assms(1) drop_bit_eq_iff_range [OF assms(2), of a]
  unfolding Prefix_Contains.simps and_not_mask_eq_0 drop_bit_xor_eq_0 by blast

end
