(* ===== verification/Dest_Policy.thy ===== *)
theory Dest_Policy
  imports Netip
begin

text \<open>
  \<open>internal/server/notify/policy.go\<close> and the dial guard of \<open>internal/server/notify/client.go\<close>: which
  addresses an outbound webhook may connect to. The table is the source's, entry by entry. The
  reference it is compared with is written independently, as ranges of integers.
\<close>

section \<open>The table\<close>

definition ip4 :: "int \<Rightarrow> int \<Rightarrow> int \<Rightarrow> int \<Rightarrow> 32 word" where
  "ip4 a b c d = word_of_int (((a * 256 + b) * 256 + c) * 256 + d)"

text \<open>The first groups of an IPv6 address; the remaining groups are zero.\<close>

definition ip6 :: "int list \<Rightarrow> 128 word" where
  "ip6 gs = word_of_int (foldl (\<lambda>x g. x * 65536 + g) 0 gs * 2 ^ (16 * (8 - length gs)))"

definition mp4 :: "int \<Rightarrow> int \<Rightarrow> int \<Rightarrow> int \<Rightarrow> nat \<Rightarrow> Prefix" where
  "mp4 a b c d n = (V4 (ip4 a b c d), n)"

definition mp6 :: "int list \<Rightarrow> nat \<Rightarrow> Prefix" where
  "mp6 gs n = (V6 (ip6 gs) '''', n)"

definition denied :: "Prefix list" where
  "denied =
     [mp4 0 0 0 0 8, mp4 10 0 0 0 8, mp4 100 64 0 0 10, mp4 127 0 0 0 8,
      mp4 169 254 0 0 16, mp4 172 16 0 0 12, mp4 192 0 0 0 24, mp4 192 0 2 0 24,
      mp4 192 31 196 0 24, mp4 192 52 193 0 24, mp4 192 88 99 0 24, mp4 192 168 0 0 16,
      mp4 192 175 48 0 24, mp4 198 18 0 0 15, mp4 198 51 100 0 24, mp4 203 0 113 0 24,
      mp4 240 0 0 0 4,
      mp6 [0, 0, 0, 0, 0, 0, 0, 1] 128, mp6 [] 128, mp6 [0, 0, 0, 0, 0, 0xffff] 96, mp6 [0x64, 0xff9b] 96,
      mp6 [0x64, 0xff9b, 1] 48, mp6 [0x100] 64, mp6 [0x100, 0, 0, 1] 64, mp6 [0x2001] 23,
      mp6 [0x2001, 0xdb8] 32, mp6 [0x2002] 16, mp6 [0x2620, 0x4f, 0x8000] 48, mp6 [0x3fff] 20,
      mp6 [0x5f00] 16, mp6 [0xfc00] 7, mp6 [0xfe80] 10,
      mp6 [] 96,
      mp6 [0xfec0] 10,
      mp6 [0, 0, 0, 0, 0xffff] 96]"

section \<open>The decision\<close>

definition ErrDenied :: err where
  "ErrDenied = ErrSentinel ''notify: destination denied by policy''"

fun matchPrefix :: "Prefix list \<Rightarrow> Addr \<Rightarrow> Prefix option" where
  "matchPrefix [] a = None"
| "matchPrefix (p # ps) a = (if Prefix_Contains p a then Some p else matchPrefix ps a)"

definition containsAddr :: "Prefix list \<Rightarrow> Addr \<Rightarrow> bool" where
  "containsAddr ps a \<longleftrightarrow> matchPrefix ps a \<noteq> None"

definition Permit :: "string \<Rightarrow> Addr \<Rightarrow> Prefix list \<Rightarrow> err + unit" where
  "Permit scheme a0 allowed =
     (if Zone a0 \<noteq> '''' then Inl ErrDenied
      else let a = Unmap a0 in
        if \<not> containsAddr allowed a \<and> \<not> IsGlobalUnicast a then Inl ErrDenied
        else if \<not> containsAddr allowed a \<and> containsAddr denied a then Inl ErrDenied
        else if scheme = ''https'' then Inr ()
        else if scheme = ''http'' then (if IsLoopback a then Inr () else Inl ErrDenied)
        else Inl ErrDenied)"

text \<open>\<open>dialControl\<close>: \<open>parse\<close> is \<open>netip.ParseAddrPort\<close>, reduced to the address.\<close>

definition dialControl :: "(string \<Rightarrow> Addr option) \<Rightarrow> string \<Rightarrow> Prefix list \<Rightarrow> string \<Rightarrow> err + unit" where
  "dialControl parse scheme allowed address =
     (case parse address of None \<Rightarrow> Inl ErrDecode | Some a \<Rightarrow> Permit scheme a allowed)"

text \<open>\<open>ParseAllowed\<close>: \<open>parse\<close> is \<open>netip.ParsePrefix\<close>.\<close>

fun ParseAllowed :: "(string \<Rightarrow> Prefix option) \<Rightarrow> string list \<Rightarrow> err + Prefix list" where
  "ParseAllowed parse [] = Inr []"
| "ParseAllowed parse (c # cs) =
     (case parse c of
        None \<Rightarrow> Inl ErrDecode
      | Some p \<Rightarrow> (case ParseAllowed parse cs of Inl e \<Rightarrow> Inl e | Inr ps \<Rightarrow> Inr (Masked p # ps)))"

section \<open>The reference: ranges of integers\<close>

text \<open>The ranges that must not be reached: the first address and the first one after the range.\<close>

definition reserved4 :: "(int \<times> int) list" where
  "reserved4 =
     [(0x00000000, 0x1000000), (0x0a000000, 0xb000000), (0x64400000, 0x64800000), (0x7f000000, 0x80000000),
      (0xa9fe0000, 0xa9ff0000), (0xac100000, 0xac200000), (0xc0000000, 0xc0000100), (0xc0000200, 0xc0000300),
      (0xc01fc400, 0xc01fc500), (0xc034c100, 0xc034c200), (0xc0586300, 0xc0586400), (0xc0a80000, 0xc0a90000),
      (0xc0af3000, 0xc0af3100), (0xc6120000, 0xc6140000), (0xc6336400, 0xc6336500), (0xcb007100, 0xcb007200),
      (0xe0000000, 0x100000000)]"

definition reserved6 :: "(int \<times> int) list" where
  "reserved6 =
     [(0, 2 ^ 32),
      (0xffff * 2 ^ 48, 0xffff * 2 ^ 48 + 2 ^ 32),
      (0x0064ff9b * 2 ^ 96, 0x0064ff9b * 2 ^ 96 + 2 ^ 32),
      (0x0064ff9b0001 * 2 ^ 80, 0x0064ff9b0001 * 2 ^ 80 + 2 ^ 80),
      (0x0100 * 2 ^ 112, 0x0100 * 2 ^ 112 + 2 * 2 ^ 64),
      (0x2001 * 2 ^ 112, 0x2001 * 2 ^ 112 + 2 ^ 105),
      (0x20010db8 * 2 ^ 96, 0x20010db8 * 2 ^ 96 + 2 ^ 96),
      (0x2002 * 2 ^ 112, 0x2003 * 2 ^ 112),
      (0x2620004f8000 * 2 ^ 80, 0x2620004f8000 * 2 ^ 80 + 2 ^ 80),
      (0x3fff * 2 ^ 112, 0x3fff * 2 ^ 112 + 2 ^ 108),
      (0x5f00 * 2 ^ 112, 0x5f01 * 2 ^ 112),
      (0xfc00 * 2 ^ 112, 0xfe00 * 2 ^ 112),
      (0xfe80 * 2 ^ 112, 2 ^ 128)]"

definition in_ranges :: "(int \<times> int) list \<Rightarrow> int \<Rightarrow> bool" where
  "in_ranges rs n \<longleftrightarrow> (\<exists>(lo, hi) \<in> set rs. lo \<le> n \<and> n < hi)"

text \<open>An address the public internet routes; an IPv4-mapped address is its IPv4 address.\<close>

definition public_addr :: "Addr \<Rightarrow> bool" where
  "public_addr a =
     (case a of
        ZeroAddr \<Rightarrow> False
      | V4 x \<Rightarrow> \<not> in_ranges reserved4 (uint x)
      | V6 x _ \<Rightarrow>
          if 0xffff * 2 ^ 32 \<le> uint x \<and> uint x < 0x10000 * 2 ^ 32
          then \<not> in_ranges reserved4 (uint x - 0xffff * 2 ^ 32)
          else \<not> in_ranges reserved6 (uint x))"

section \<open>The table is the reference\<close>

lemma containsAddr_iff: "containsAddr ps a \<longleftrightarrow> (\<exists>p \<in> set ps. Prefix_Contains p a)"
  by (induction ps) (auto simp: containsAddr_def)

lemma not_V4_V6 [simp]: "\<not> Prefix_Contains (mp4 a b c d n) (V6 x z)" "\<not> Prefix_Contains (mp6 gs n) (V4 y)"
  by (simp_all add: mp4_def mp6_def)

lemma mp4_range:
  assumes "n \<le> 32" and "take_bit (32 - n) (ip4 a b c d) = 0"
  shows "Prefix_Contains (mp4 a b c d n) (V4 x) \<longleftrightarrow>
    uint (ip4 a b c d) \<le> uint x \<and> uint x < uint (ip4 a b c d) + 2 ^ (32 - n)"
  unfolding mp4_def by (rule Contains_V4_range [OF assms])

lemma mp6_range:
  assumes "n \<le> 128" and "take_bit (128 - n) (ip6 gs) = 0"
  shows "Prefix_Contains (mp6 gs n) (V6 x '''') \<longleftrightarrow>
    uint (ip6 gs) \<le> uint x \<and> uint x < uint (ip6 gs) + 2 ^ (128 - n)"
  unfolding mp6_def by (rule Contains_V6_range [OF assms])

lemma in_ranges_append: "in_ranges (xs @ ys) n \<longleftrightarrow> in_ranges xs n \<or> in_ranges ys n"
  by (auto simp: in_ranges_def)

lemma in_ranges_mem: "(lo, hi) \<in> set rs \<Longrightarrow> lo \<le> n \<Longrightarrow> n < hi \<Longrightarrow> in_ranges rs n"
  by (auto simp: in_ranges_def)

text \<open>For each family: not global unicast, or in the table, is in a reserved range.\<close>

lemma reserved_V4: "(\<not> IsGlobalUnicast (V4 x) \<or> containsAddr denied (V4 x)) \<longleftrightarrow> in_ranges reserved4 (uint x)"
proof -
  define B where "B = butlast reserved4"
  have B: "(0, 0x01000000) \<in> set B" "(0x7f000000, 0x80000000) \<in> set B" "(0xa9fe0000, 0xa9ff0000) \<in> set B"
    by (simp_all add: B_def reserved4_def)
  have r: "reserved4 = B @ [(0xe0000000, 0x100000000)]" by (simp add: B_def reserved4_def)
  have t: "containsAddr denied (V4 x) \<longleftrightarrow> in_ranges (B @ [(0xf0000000, 0x100000000)]) (uint x)"
    unfolding containsAddr_iff denied_def B_def by (simp add: mp4_range ip4_def in_ranges_def reserved4_def)
  have g: "\<not> IsGlobalUnicast (V4 x) \<longleftrightarrow> uint x = 0 \<or> uint x = 0xffffffff \<or> 0x7f000000 \<le> uint x \<and> uint x < 0x80000000 \<or>
      0xe0000000 \<le> uint x \<and> uint x < 0xf0000000 \<or> 0xa9fe0000 \<le> uint x \<and> uint x < 0xa9ff0000"
    unfolding IsGlobalUnicast_def IsLoopback_def IsMulticast_def IsLinkLocalUnicast_def Addr.case drop_bit_const_range
    by (simp add: word_uint_eq_iff)
  have last: "in_ranges [(a, b)] n \<longleftrightarrow> a \<le> n \<and> n < b" for a b n by (simp add: in_ranges_def)
  show ?thesis
    unfolding t g r in_ranges_append last
    using in_ranges_mem [OF B(1), of "uint x"] in_ranges_mem [OF B(2), of "uint x"] in_ranges_mem [OF B(3), of "uint x"]
    by auto
qed

lemma in_ranges_mono:
  assumes "\<forall>(lo, hi) \<in> set xs. \<exists>(lo', hi') \<in> set ys. lo' \<le> lo \<and> hi \<le> hi'" and "in_ranges xs n"
  shows "in_ranges ys n"
proof -
  from assms(2) obtain lo hi where "(lo, hi) \<in> set xs" "lo \<le> n" "n < hi" by (auto simp: in_ranges_def)
  moreover from this(1) assms(1) obtain lo' hi' where "(lo', hi') \<in> set ys" "lo' \<le> lo" "hi \<le> hi'" by fast
  ultimately show ?thesis by (intro in_ranges_mem [of lo' hi']) auto
qed

text \<open>The IPv6 half of the table, entry by entry.\<close>

definition table6 :: "(int \<times> int) list" where
  "table6 =
     [(1, 2), (0, 1), (0xffff * 2 ^ 32, 0x10000 * 2 ^ 32), (0x0064ff9b * 2 ^ 96, 0x0064ff9b * 2 ^ 96 + 2 ^ 32),
      (0x0064ff9b0001 * 2 ^ 80, 0x0064ff9b0001 * 2 ^ 80 + 2 ^ 80),
      (0x0100 * 2 ^ 112, 0x0100 * 2 ^ 112 + 2 ^ 64), (0x0100 * 2 ^ 112 + 2 ^ 64, 0x0100 * 2 ^ 112 + 2 * 2 ^ 64),
      (0x2001 * 2 ^ 112, 0x2001 * 2 ^ 112 + 2 ^ 105), (0x20010db8 * 2 ^ 96, 0x20010db8 * 2 ^ 96 + 2 ^ 96),
      (0x2002 * 2 ^ 112, 0x2003 * 2 ^ 112), (0x2620004f8000 * 2 ^ 80, 0x2620004f8000 * 2 ^ 80 + 2 ^ 80),
      (0x3fff * 2 ^ 112, 0x3fff * 2 ^ 112 + 2 ^ 108), (0x5f00 * 2 ^ 112, 0x5f01 * 2 ^ 112),
      (0xfc00 * 2 ^ 112, 0xfe00 * 2 ^ 112), (0xfe80 * 2 ^ 112, 0xfec0 * 2 ^ 112), (0, 2 ^ 32),
      (0xfec0 * 2 ^ 112, 0xff00 * 2 ^ 112), (0xffff * 2 ^ 48, 0xffff * 2 ^ 48 + 2 ^ 32)]"

lemma denied_V6: "containsAddr denied (V6 x '''') \<longleftrightarrow> in_ranges table6 (uint x)"
  unfolding containsAddr_iff denied_def by (simp add: mp6_range ip6_def in_ranges_def table6_def)

lemma not_global_V6:
  "\<not> IsGlobalUnicast (V6 x '''') \<longleftrightarrow> in_ranges [(0, 1), (1, 2), (0xff00 * 2 ^ 112, 2 ^ 128), (0xfe80 * 2 ^ 112, 0xfec0 * 2 ^ 112)] (uint x)"
proof -
  have "uint x = 0 \<longleftrightarrow> 0 \<le> uint x \<and> uint x < 1" "uint x = 1 \<longleftrightarrow> 1 \<le> uint x \<and> uint x < 2"
    using uint_ge_0 [of x] by presburger+
  then show ?thesis
    unfolding IsGlobalUnicast_def IsLoopback_def IsMulticast_def IsLinkLocalUnicast_def Addr.case drop_bit_const_range in_ranges_def
    by (simp add: word_uint_eq_iff)
qed

lemma reserved_V6:
  assumes "\<not> (0xffff * 2 ^ 32 \<le> uint x \<and> uint x < 0x10000 * 2 ^ 32)"
  shows "(\<not> IsGlobalUnicast (V6 x '''') \<or> containsAddr denied (V6 x '''')) \<longleftrightarrow> in_ranges reserved6 (uint x)"
proof -
  define mapped :: "(int \<times> int) list" where "mapped = [(0xffff * 2 ^ 32, 0x10000 * 2 ^ 32)]"
  define G :: "(int \<times> int) list" where
    "G = [(0, 1), (1, 2), (0xff00 * 2 ^ 112, 2 ^ 128), (0xfe80 * 2 ^ 112, 0xfec0 * 2 ^ 112)]"
  have m: "\<not> in_ranges mapped (uint x)" using assms by (simp add: in_ranges_def mapped_def)
  have "in_ranges (reserved6 @ mapped) n" if "in_ranges (G @ table6) n" for n
    by (rule in_ranges_mono [OF _ that]) (simp add: G_def table6_def reserved6_def mapped_def)
  moreover have "in_ranges (G @ table6) n" if "in_ranges reserved6 n" for n
  proof -
    from that obtain lo hi where r: "(lo, hi) \<in> set reserved6" "lo \<le> n" "n < hi" by (auto simp: in_ranges_def)
    have T: "(0x0100 * 2 ^ 112, 0x0100 * 2 ^ 112 + 2 ^ 64) \<in> set (G @ table6)"
      "(0x0100 * 2 ^ 112 + 2 ^ 64, 0x0100 * 2 ^ 112 + 2 * 2 ^ 64) \<in> set (G @ table6)"
      "(0xfe80 * 2 ^ 112, 0xfec0 * 2 ^ 112) \<in> set (G @ table6)" "(0xfec0 * 2 ^ 112, 0xff00 * 2 ^ 112) \<in> set (G @ table6)"
      "(0xff00 * 2 ^ 112, 2 ^ 128) \<in> set (G @ table6)"
      by (simp_all add: G_def table6_def)
    from r(1) have "(lo, hi) \<in> set (G @ table6) \<or> (lo, hi) = (0x0100 * 2 ^ 112, 0x0100 * 2 ^ 112 + 2 * 2 ^ 64) \<or>
        (lo, hi) = (0xfe80 * 2 ^ 112, 2 ^ 128)"
      unfolding reserved6_def table6_def by simp argo
    then consider (same) "(lo, hi) \<in> set (G @ table6)" | (discard) "lo = 0x0100 * 2 ^ 112" "hi = 0x0100 * 2 ^ 112 + 2 * 2 ^ 64"
      | (upper) "lo = 0xfe80 * 2 ^ 112" "hi = 2 ^ 128" by blast
    then show ?thesis
    proof cases
      case same
      with r(2,3) show ?thesis by (intro in_ranges_mem)
    next
      case discard
      with r(2,3) in_ranges_mem [OF T(1), of n] in_ranges_mem [OF T(2), of n] show ?thesis by linarith
    next
      case upper
      with r(2,3) in_ranges_mem [OF T(3), of n] in_ranges_mem [OF T(4), of n] in_ranges_mem [OF T(5), of n]
      show ?thesis by linarith
    qed
  qed
  ultimately show ?thesis
    using m unfolding not_global_V6 denied_V6 G_def [symmetric] in_ranges_append by blast
qed

section \<open>The policy\<close>

lemma Is4In6_range: "Is4In6 (V6 x z) \<longleftrightarrow> 0xffff * 2 ^ 32 \<le> uint x \<and> uint x < 0x10000 * 2 ^ 32"
  unfolding Is4In6_def Addr.case drop_bit_const_range by simp

lemma unmapped_value:
  assumes "Is4In6 (V6 x z)"
  shows "uint (ucast x :: 32 word) = uint x - 0xffff * 2 ^ 32"
proof -
  have "uint (ucast x :: 32 word) = uint x mod 2 ^ 32" by (simp add: unsigned_ucast_eq take_bit_eq_mod)
  also have "\<dots> = (uint x - 0xffff * 2 ^ 32) mod 2 ^ 32" by (simp add: mod_diff_eq [symmetric])
  also have "\<dots> = uint x - 0xffff * 2 ^ 32" using assms unfolding Is4In6_range by (intro mod_pos_pos_trivial) simp_all
  finally show ?thesis .
qed

lemma public_unmap:
  assumes "Zone a = ''''"
  shows "(IsGlobalUnicast (Unmap a) \<and> \<not> containsAddr denied (Unmap a)) \<longleftrightarrow> public_addr a"
proof (cases a)
  case ZeroAddr
  then show ?thesis by (simp add: Unmap_def IsGlobalUnicast_def public_addr_def)
next
  case (V4 x)
  then show ?thesis using reserved_V4 [of x] by (auto simp: Unmap_def public_addr_def)
next
  case (V6 x z)
  with assms have z: "z = ''''" by (simp add: Zone_def)
  show ?thesis
  proof (cases "Is4In6 (V6 x z)")
    case True
    then show ?thesis
      using reserved_V4 [of "ucast x"] unmapped_value [OF True] True [unfolded Is4In6_range]
      unfolding V6 by (auto simp: Unmap_def public_addr_def)
  next
    case False
    then show ?thesis
      using reserved_V6 [OF False [unfolded Is4In6_range]] False [unfolded Is4In6_range]
      unfolding V6 z by (auto simp: Unmap_def public_addr_def)
  qed
qed

text \<open>
  C18. What the destination policy lets through: an address without a zone that the operator listed or that is
  public in the reference sense, over https; over http only a listed loopback address. In particular,
  without an allow-list no loopback, private, link-local or other special-purpose address can be
  reached, in no notation (an IPv4-mapped address is judged as its IPv4 address), and http not at all.
\<close>

theorem Permit_policy:
  "(Permit scheme a allowed = Inr () \<longleftrightarrow>
      Zone a = '''' \<and> (containsAddr allowed (Unmap a) \<or> public_addr a) \<and>
      (scheme = ''https'' \<or> scheme = ''http'' \<and> containsAddr allowed (Unmap a) \<and> IsLoopback (Unmap a))) \<and>
   (Permit scheme a [] = Inr () \<longleftrightarrow> Zone a = '''' \<and> public_addr a \<and> scheme = ''https'')"
proof -
  have loop: "\<not> IsGlobalUnicast b" if "IsLoopback b" for b using that by (simp add: IsGlobalUnicast_def)
  have main: "Permit scheme a al = Inr () \<longleftrightarrow>
      Zone a = '''' \<and> (containsAddr al (Unmap a) \<or> public_addr a) \<and>
      (scheme = ''https'' \<or> scheme = ''http'' \<and> containsAddr al (Unmap a) \<and> IsLoopback (Unmap a))" for al
    using public_unmap [of a] loop [of "Unmap a"] unfolding Permit_def Let_def by auto
  show ?thesis unfolding main by (simp add: containsAddr_def)
qed

text \<open>
  A configured prefix means the same whether or not its host bits are zero: masking it, as \<open>ParseAllowed\<close>
  does, does not change the addresses it contains.
\<close>

lemma drop_bit_and_not_mask: "drop_bit k (p AND NOT (mask k)) = drop_bit k (p :: 'a :: len word)"
  by (auto simp: bit_eq_iff bit_simps dest: bit_imp_le_length)

lemma Masked_Contains: "Prefix_Contains (Masked p) a = Prefix_Contains p a"
proof -
  obtain q n where p: "p = (q, n)" by (cases p)
  show ?thesis
    unfolding p by (cases q; cases a) (simp_all only: Masked.simps Prefix_Contains.simps and_not_mask_eq_0 drop_bit_xor_eq_0 drop_bit_and_not_mask)
qed

lemma ParseAllowed_decision:
  "ParseAllowed parse cs = Inr ps \<Longrightarrow>
     containsAddr ps a \<longleftrightarrow> (\<exists>c \<in> set cs. \<exists>p. parse c = Some p \<and> Prefix_Contains p a)"
proof (induction cs arbitrary: ps)
  case (Cons c cs)
  then obtain p ps' where "parse c = Some p" "ParseAllowed parse cs = Inr ps'" "ps = Masked p # ps'"
    by (auto split: option.splits sum.splits)
  with Cons.IH [of ps'] show ?case by (cases p) (auto simp: containsAddr_iff Masked_Contains)
qed (simp add: containsAddr_def)

end
