(* ===== verification/Feed_Service.thy ===== *)
theory Feed_Service
  imports Delivery_Worker Netip
begin

text \<open>
  \<open>internal/store/feed_tokens.go\<close>, the token half of \<open>internal/server/service/feed.go\<close> with \<open>HashToken\<close> of
  \<open>internal/auth/token.go\<close>, and the HTTP side of the feed: the token middleware (feed/tokenmw.go), the
  rendering of the two documents (feed/snapshot.go) and the conditional GET (feed/handlers.go).

  An HTTP response is the record of what the handlers set. SHA-256 is the field of \<open>crypto\<close>, the JSON
  encoder and the two time formats are the fields of \<open>feed_codec\<close>.
\<close>

section \<open>Feed tokens\<close>

record FeedToken =
  tk_ID :: string
  tk_Label :: string
  tk_TokenHash :: string
  tk_CreatedBy :: string
  tk_CreatedAt :: int
  tk_LastUsedAt :: int

definition FeedTokenPrefix :: string where "FeedTokenPrefix = ''ddf_''"

definition scanFeedToken :: "feed_token_row \<Rightarrow> FeedToken" where
  "scanFeedToken r =
     \<lparr> tk_ID = ft_id r, tk_Label = ft_label r, tk_TokenHash = ft_token_hash r, tk_CreatedBy = scanString (ft_created_by r),
       tk_CreatedAt = ft_created_at r, tk_LastUsedAt = scanInt64 (ft_last_used_at r) \<rparr>"

text \<open>The INSERT with the unique id, label and hash, and the foreign key of \<open>created_by\<close>.\<close>

definition insert_token :: "FeedToken \<Rightarrow> database \<Rightarrow> (err + unit) \<times> database" where
  "insert_token t d =
     (if \<exists>r \<in> set (feed_tokens d). ft_id r = tk_ID t \<or> ft_label r = tk_Label t \<or> ft_token_hash r = tk_TokenHash t
      then (Inl ErrConflict, d)
      else if tk_CreatedBy t \<noteq> '''' \<and> tk_CreatedBy t \<notin> uc_id ` set (users d) then (Inl ErrConstraint, d)
      else (Inr (), d\<lparr>feed_tokens := feed_tokens d @
              [\<lparr> ft_id = tk_ID t, ft_label = tk_Label t, ft_token_hash = tk_TokenHash t,
                 ft_created_by = nullIfEmpty (tk_CreatedBy t), ft_created_at = tk_CreatedAt t, ft_last_used_at = None \<rparr>]\<rparr>))"

definition FeedTokens_Create :: "FeedToken \<Rightarrow> ('z world_scheme, unit) action" where
  "FeedTokens_Create t = stmt (insert_token t)"

definition FeedTokens_GetByHash :: "string \<Rightarrow> ('z world_scheme, FeedToken) action" where
  "FeedTokens_GetByHash hash =
     queryRow (\<lambda>d. map_option scanFeedToken (find (\<lambda>r. ft_token_hash r = hash) (feed_tokens d)))"

definition FeedTokens_GetByID :: "string \<Rightarrow> ('z world_scheme, FeedToken) action" where
  "FeedTokens_GetByID i = queryRow (\<lambda>d. map_option scanFeedToken (find (\<lambda>r. ft_id r = i) (feed_tokens d)))"

definition FeedTokens_List :: "('z world_scheme, FeedToken list) action" where
  "FeedTokens_List = query (\<lambda>d. map scanFeedToken (sort_key (\<lambda>r. (ft_created_at r, ft_id r)) (feed_tokens d)))"

definition FeedTokens_Delete :: "string \<Rightarrow> ('z world_scheme, unit) action" where
  "FeedTokens_Delete i =
     require_rows (exec (\<lambda>d. (length (filter (\<lambda>r. ft_id r = i) (feed_tokens d)),
       d\<lparr>feed_tokens := filter (\<lambda>r. ft_id r \<noteq> i) (feed_tokens d)\<rparr>)))"

definition FeedTokens_TouchLastUsed :: "string \<Rightarrow> int \<Rightarrow> ('z world_scheme, unit) action" where
  "FeedTokens_TouchLastUsed i now =
     bindE (exec (\<lambda>d. (length (filter (\<lambda>r. ft_id r = i) (feed_tokens d)),
       d\<lparr>feed_tokens := upd_where (\<lambda>r. ft_id r = i) (\<lambda>r. r\<lparr>ft_last_used_at := Some now\<rparr>) (feed_tokens d)\<rparr>))) (\<lambda>_. ret ())"

section \<open>The token service\<close>

text \<open>\<open>w_touch\<close> is \<open>FeedService.lastTouch\<close>.\<close>

record feedworld = networld +
  w_touch :: "string \<Rightarrow> int option"

definition HashToken :: "crypto \<Rightarrow> string \<Rightarrow> string" where
  "HashToken cr token = EncodeToString (cr_sha256 cr token)"

definition VerifyToken :: "crypto \<Rightarrow> string \<Rightarrow> string \<Rightarrow> bool" where
  "VerifyToken cr hash token \<longleftrightarrow> HashToken cr token = hash"

definition lastUsedThrottle :: int where "lastUsedThrottle = 60"

definition FeedService_ListTokens :: "('z world_scheme, FeedToken list) action" where
  "FeedService_ListTokens = FeedTokens_List"

text \<open>\<open>rnd\<close> is what \<open>RandToken(32)\<close> yields, \<open>newID\<close> what \<open>store.NewID\<close> does, \<open>details\<close> the JSON encoder.\<close>

definition FeedService_MintToken ::
  "crypto \<Rightarrow> (string \<Rightarrow> string) \<Rightarrow> string option \<Rightarrow> string \<Rightarrow> int \<Rightarrow> string \<Rightarrow> string \<Rightarrow> ('z world_scheme, FeedToken \<times> string) action" where
  "FeedService_MintToken cr details rnd newID now actorID label0 =
     (let label = TrimSpace label0 in
      if label = '''' then fail ErrInvalidLabel
      else bindE (lift_res (case rnd of None \<Rightarrow> Inl ErrRandom | Some r \<Rightarrow> Inr r)) (\<lambda>r.
        let plaintext = FeedTokenPrefix @ r;
            tok = \<lparr> tk_ID = newID, tk_Label = label, tk_TokenHash = HashToken cr plaintext,
                    tk_CreatedBy = actorID, tk_CreatedAt = now, tk_LastUsedAt = 0 \<rparr>
        in bindE (FeedTokens_Create tok) (\<lambda>_.
           bindE (auditWriter_Log now
             \<lparr> ae_ID = 0, ae_ActorUserID = actorID, ae_EventType = ''feed.token_created'', ae_TargetType = ''feed_token'',
               ae_TargetID = newID, ae_DetailsJSON = details label, ae_IP = '''', ae_UserAgent = '''', ae_CreatedAt = 0 \<rparr>) (\<lambda>_.
           ret (tok, plaintext)))))"

definition evict_touch :: "string \<Rightarrow> ('z feedworld_scheme, unit) action" where
  "evict_touch i w = (Inr (), w\<lparr>w_touch := (w_touch w)(i := None)\<rparr>)"

definition FeedService_RevokeToken :: "int \<Rightarrow> string \<Rightarrow> string \<Rightarrow> ('z feedworld_scheme, unit) action" where
  "FeedService_RevokeToken now actorID i =
     bindE (FeedTokens_Delete i) (\<lambda>_.
     bindE (evict_touch i) (\<lambda>_.
     bindE (hub_op (CloseToken i)) (\<lambda>_.
     auditWriter_Log now
       \<lparr> ae_ID = 0, ae_ActorUserID = actorID, ae_EventType = ''feed.token_revoked'', ae_TargetType = ''feed_token'',
         ae_TargetID = i, ae_DetailsJSON = '''', ae_IP = '''', ae_UserAgent = '''', ae_CreatedAt = 0 \<rparr>)))"

text \<open>The throttle: an absent entry reads as 0.\<close>

definition touch_due :: "string \<Rightarrow> int \<Rightarrow> ('z feedworld_scheme, bool) action" where
  "touch_due i now w =
     (let due = now - (case w_touch w i of None \<Rightarrow> 0 | Some t \<Rightarrow> t) \<ge> lastUsedThrottle in
      (Inr due, if due then w\<lparr>w_touch := (w_touch w)(i \<mapsto> now)\<rparr> else w))"

definition FeedService_Authenticate :: "crypto \<Rightarrow> int \<Rightarrow> string \<Rightarrow> ('z feedworld_scheme, FeedToken) action" where
  "FeedService_Authenticate cr now plaintext =
     (if \<not> has_prefix plaintext FeedTokenPrefix then fail ErrTokenMalformed
      else bindE (FeedTokens_GetByHash (HashToken cr plaintext)) (\<lambda>tok.
        bindE (touch_due (tk_ID tok) now) (\<lambda>due.
        if due then bindE (tryE (FeedTokens_TouchLastUsed (tk_ID tok) now)) (\<lambda>_. ret (tok\<lparr>tk_LastUsedAt := now\<rparr>))
        else ret tok)))"

section \<open>Responses\<close>

record response =
  rs_Status :: int
  rs_ContentType :: string
  rs_CacheControl :: string
  rs_ETag :: string
  rs_LastModified :: string
  rs_Body :: string

definition plain_response :: "int \<Rightarrow> string \<Rightarrow> string \<Rightarrow> string \<Rightarrow> response" where
  "plain_response status ctype cache body =
     \<lparr> rs_Status = status, rs_ContentType = ctype, rs_CacheControl = cache, rs_ETag = '''', rs_LastModified = '''', rs_Body = body \<rparr>"

definition unauthorizedBody :: string where
  "unauthorizedBody = ''{'' @ [CHR 0x22] @ ''error'' @ [CHR 0x22] @ '':'' @ [CHR 0x22] @ ''unauthorized'' @ [CHR 0x22] @ ''}''"

definition reject401 :: response where
  "reject401 = plain_response 401 ''application/json'' ''no-store'' unauthorizedBody"

text \<open>
  The middleware: \<open>Inl\<close> is the rejection it answers itself, \<open>Inr\<close> the token id it passes on. The reasons differ
  only in the log, so the branches for an unknown token, a cancelled request and a store failure are
  one.
\<close>

definition TokenMiddleware :: "crypto \<Rightarrow> int \<Rightarrow> string \<Rightarrow> ('z feedworld_scheme, response + string) action" where
  "TokenMiddleware cr now header =
     (if header = '''' then ret (Inl reject401)
      else if \<not> has_prefix header ''Bearer '' then ret (Inl reject401)
      else let plaintext = drop (length ''Bearer '') header in
        if \<not> has_prefix plaintext FeedTokenPrefix \<or> CHR '' '' \<in> set plaintext \<or> CHR 0x09 \<in> set plaintext
        then ret (Inl reject401)
        else bindE (tryE (FeedService_Authenticate cr now plaintext)) (\<lambda>r.
          case r of Inl _ \<Rightarrow> ret (Inl reject401) | Inr tok \<Rightarrow> ret (Inr (tk_ID tok))))"

end
