(* ===== verification/Stream_Access.thy ===== *)
theory Stream_Access
  imports Feed_Service
begin

text \<open>
  The access control of a feed stream across its three parties: the stream handler (\<open>serveStream\<close> and
  \<open>tokenStillLive\<close> in feed/stream.go), the token service's revocation, and the hub. The handler runs
  in steps (the middleware's authentication, subscribing, re-reading the token, streaming, the
  deferred unsubscribe), a revocation in two (the row, then the hub); the step relation interleaves any
  number of handlers and revocations with everything else that touches the hub or the database.
\<close>

section \<open>The handler\<close>

definition json_error :: "string \<Rightarrow> string" where
  "json_error m = ''{'' @ [CHR 0x22] @ ''error'' @ [CHR 0x22] @ '':'' @ [CHR 0x22] @ m @ [CHR 0x22] @ ''}''"

text \<open>Subscribing, with the refusal the handler writes itself.\<close>

definition stream_subscribe :: "string \<Rightarrow> ('z hubworld_scheme, response + nat) action" where
  "stream_subscribe tokenID w =
     (case subscribe tokenID (w_hub w) of
        (Inl e, h) \<Rightarrow>
          (Inr (Inl (plain_response 503 ''application/json'' ''no-store''
             (json_error (if e = ErrShuttingDown then ''shutting down'' else ''too many streams'')))), w\<lparr>w_hub := h\<rparr>)
      | (Inr i, h) \<Rightarrow> (Inr (Inr i), w\<lparr>w_hub := h\<rparr>))"

definition tokenStillLive :: "string \<Rightarrow> ('z world_scheme, response + unit) action" where
  "tokenStillLive tokenID =
     bindE (tryE (FeedTokens_GetByID tokenID)) (\<lambda>r.
       case r of
         Inr _ \<Rightarrow> ret (Inr ())
       | Inl e \<Rightarrow>
           ret (Inl (if e = ErrNotFound then reject401
                     else plain_response 503 ''application/json'' ''no-store'' (json_error ''feed unavailable''))))"

section \<open>The interleaving\<close>

text \<open>
  \<open>ac_passed\<close> are the token ids of requests past the middleware, \<open>ac_conn\<close> the subscribed handlers by subscriber
  number: the token and whether the re-read has let it stream. \<open>ac_revoking\<close> are the tokens whose row a
  running \<open>RevokeToken\<close> has deleted, \<open>ac_revoked\<close> those whose \<open>RevokeToken\<close> has closed the streams.
\<close>

record access =
  ac_world :: feedworld
  ac_passed :: "string list"
  ac_conn :: "nat \<Rightarrow> (string \<times> bool) option"
  ac_revoking :: "string list"
  ac_revoked :: "string list"

abbreviation ac_hub :: "access \<Rightarrow> hub" where
  "ac_hub s \<equiv> w_hub (ac_world s)"

abbreviation token_ids :: "database \<Rightarrow> string set" where
  "token_ids d \<equiv> ft_id ` set (feed_tokens d)"

inductive access_step :: "access \<Rightarrow> access \<Rightarrow> bool" where
  pass: "TokenMiddleware cr now hdr (ac_world s) = (Inr (Inr t), w) \<Longrightarrow>
    access_step s (s\<lparr>ac_world := w, ac_passed := t # ac_passed s\<rparr>)"
| reject: "TokenMiddleware cr now hdr (ac_world s) = (Inr (Inl rsp), w) \<Longrightarrow> access_step s (s\<lparr>ac_world := w\<rparr>)"
| subscribed: "t \<in> set (ac_passed s) \<Longrightarrow> stream_subscribe t (ac_world s) = (Inr (Inr i), w) \<Longrightarrow>
    access_step s (s\<lparr>ac_world := w, ac_conn := (ac_conn s)(i \<mapsto> (t, False))\<rparr>)"
| refused: "t \<in> set (ac_passed s) \<Longrightarrow> stream_subscribe t (ac_world s) = (Inr (Inl rsp), w) \<Longrightarrow>
    access_step s (s\<lparr>ac_world := w\<rparr>)"
| stream: "ac_conn s i = Some (t, False) \<Longrightarrow> tokenStillLive t (ac_world s) = (Inr (Inr ()), w) \<Longrightarrow>
    access_step s (s\<lparr>ac_world := w, ac_conn := (ac_conn s)(i \<mapsto> (t, True))\<rparr>)"
| leave: "ac_conn s i = Some (t, b) \<Longrightarrow>
    access_step s (s\<lparr>ac_world := (ac_world s)\<lparr>w_hub := unsubscribe i (ac_hub s)\<rparr>, ac_conn := (ac_conn s)(i := None)\<rparr>)"
| revoke_row: "FeedTokens_Delete t (ac_world s) = (Inr (), w) \<Longrightarrow>
    access_step s (s\<lparr>ac_world := w, ac_revoking := t # ac_revoking s\<rparr>)"
| revoke_failed: "FeedTokens_Delete t (ac_world s) = (Inl e, w) \<Longrightarrow> access_step s (s\<lparr>ac_world := w\<rparr>)"
| revoke_close: "t \<in> set (ac_revoking s) \<Longrightarrow>
    access_step s (s\<lparr>ac_world := (ac_world s)\<lparr>w_hub := CloseToken t (ac_hub s)\<rparr>,
      ac_revoking := removeAll t (ac_revoking s), ac_revoked := t # ac_revoked s\<rparr>)"
| mint: "newID \<notin> set (ac_revoking s) \<union> set (ac_revoked s) \<Longrightarrow>
    FeedService_MintToken cr details rnd newID now actor label (ac_world s) = (r, w) \<Longrightarrow> access_step s (s\<lparr>ac_world := w\<rparr>)"
| broadcast: "access_step s (s\<lparr>ac_world := (ac_world s)\<lparr>w_hub := Broadcast p (ac_hub s)\<rparr>\<rparr>)"
| shutdown: "access_step s (s\<lparr>ac_world := (ac_world s)\<lparr>w_hub := Hub_Shutdown (ac_hub s)\<rparr>\<rparr>)"
| pump: "access_step s (s\<lparr>ac_world := (ac_world s)\<lparr>w_hub := pump_take i (ac_hub s)\<rparr>\<rparr>)"
| cut: "access_step s (s\<lparr>ac_world := (ac_world s)\<lparr>w_hub := upd_sub i (cancel_sub c) (ac_hub s)\<rparr>\<rparr>)"
| other: "feed_tokens (db w) = feed_tokens (db (ac_world s)) \<Longrightarrow> w_hub w = ac_hub s \<Longrightarrow> access_step s (s\<lparr>ac_world := w\<rparr>)"

definition access_start :: "feedworld \<Rightarrow> access" where
  "access_start w = \<lparr> ac_world = w, ac_passed = [], ac_conn = Map.empty, ac_revoking = [], ac_revoked = [] \<rparr>"

section \<open>What the hub keeps of a subscriber\<close>

definition cut_off :: "hub \<Rightarrow> nat \<Rightarrow> bool" where
  "cut_off h i \<longleftrightarrow> i < length (hb_objs h) \<and> s_cause (hb_objs h ! i) \<noteq> None"

definition keeps :: "nat \<Rightarrow> hub \<Rightarrow> hub \<Rightarrow> bool" where
  "keeps i h h' \<longleftrightarrow>
     (i < length (hb_objs h) \<longrightarrow> i < length (hb_objs h') \<and> s_tokenID (hb_objs h' ! i) = s_tokenID (hb_objs h ! i)) \<and>
     (cut_off h i \<longrightarrow> cut_off h' i) \<and>
     (i \<in> set (hb_subs h) \<longrightarrow> i \<in> set (hb_subs h') \<or> cut_off h' i)"

lemma keeps_refl [simp]: "keeps i h h"
  by (simp add: keeps_def)

lemma keeps_trans: "keeps i h h1 \<Longrightarrow> keeps i h1 h2 \<Longrightarrow> keeps i h h2"
  by (auto simp: keeps_def)

lemma keeps_fold: "(\<And>x h. keeps i h (f x h)) \<Longrightarrow> keeps i h (fold f xs h)"
  by (induction xs arbitrary: h) (auto intro: keeps_trans)

lemma keeps_upd_sub:
  assumes "\<And>s. s_tokenID (f s) = s_tokenID s" and "\<And>s. s_cause s \<noteq> None \<Longrightarrow> s_cause (f s) \<noteq> None"
  shows "keeps i h (upd_sub k f h)"
  using assms by (auto simp: keeps_def cut_off_def nth_upd_sub)

lemma keeps_cancel [simp]: "keeps i h (upd_sub k (cancel_sub c) h)"
  by (rule keeps_upd_sub) (auto simp: cancel_sub_def split: option.split)

lemma keeps_unsubscribe: "k \<noteq> i \<or> cut_off h i \<Longrightarrow> keeps i h (unsubscribe k h)"
proof (cases "k < length (hb_objs h) \<and> \<not> s_once (hb_objs h ! k)")
  case True
  assume "k \<noteq> i \<or> cut_off h i"
  with True show ?thesis by (auto simp: keeps_def cut_off_def unsubscribe_def nth_upd_sub)
next
  case False
  then have "unsubscribe k h = h" by (auto simp: unsubscribe_def)
  then show ?thesis by simp
qed

lemma keeps_drop_slow: "i < length (hb_objs h) \<Longrightarrow> keeps i h (drop_slow k h)"
proof -
  assume i: "i < length (hb_objs h)"
  let ?h = "upd_sub k (cancel_sub causeSlowConsumer) h"
  have "k \<noteq> i \<or> cut_off ?h i" using i by (auto simp: cut_off_def nth_upd_sub cancel_sub_def split: option.split)
  then have "keeps i ?h (unsubscribe k ?h)" by (rule keeps_unsubscribe)
  then show ?thesis unfolding drop_slow_def by (rule keeps_trans [OF keeps_cancel])
qed

lemma keeps_fold_in:
  assumes "\<And>x h. i < length (hb_objs h) \<Longrightarrow> keeps i h (f x h)" and "i < length (hb_objs h)"
  shows "keeps i h (fold f xs h)"
  using assms(2)
proof (induction xs arbitrary: h)
  case (Cons x xs)
  have k: "keeps i h (f x h)" using assms(1) Cons.prems by blast
  then have "i < length (hb_objs (f x h))" using Cons.prems by (simp add: keeps_def)
  from Cons.IH [OF this] k show ?case by (simp add: keeps_trans)
qed simp

lemma keeps_Broadcast: "i < length (hb_objs h) \<Longrightarrow> keeps i h (Broadcast p h)"
proof -
  assume i: "i < length (hb_objs h)"
  let ?h = "fold (offer p) (hb_subs h) h"
  have o: "keeps i h ?h" by (rule keeps_fold) (auto simp: offer_def intro: keeps_upd_sub)
  have "keeps i ?h (Broadcast p h)"
    unfolding Broadcast_def Let_def using i by (intro keeps_fold_in keeps_drop_slow) simp_all
  with o show ?thesis by (rule keeps_trans)
qed

lemma keeps_others [simp]:
  "keeps i h (CloseToken t h)" "keeps i h (pump_take k h)"
  "i < length (hb_objs h) \<Longrightarrow> keeps i h (Hub_Shutdown h)" "i < length (hb_objs h) \<Longrightarrow> keeps i h (snd (subscribe t h))"
  unfolding CloseToken_def pump_take_def
  by (rule keeps_fold keeps_upd_sub; simp)+
     (auto simp: keeps_def cut_off_def Hub_Shutdown_def subscribe_def Let_def nth_append cancel_sub_def split: option.splits)

text \<open>After \<open>CloseToken\<close> every registered subscriber of the token is cancelled.\<close>

lemma CloseToken_cuts:
  assumes "i < length (hb_objs h)" and "i \<in> set (hb_subs h)" and "s_tokenID (hb_objs h ! i) = t"
  shows "cut_off (CloseToken t h) i"
proof -
  let ?ks = "filter (\<lambda>i. s_tokenID (hb_objs h ! i) = t) (hb_subs h)"
  have "i \<in> set ?ks" using assms by simp
  then obtain xs ys where ks: "?ks = xs @ i # ys" by (meson split_list)
  let ?f = "\<lambda>i. upd_sub i (cancel_sub causeRevoked)"
  have "keeps i h (fold ?f xs h)" by (rule keeps_fold) simp
  then have "i < length (hb_objs (fold ?f xs h))" using assms(1) by (simp add: keeps_def)
  then have "cut_off (?f i (fold ?f xs h)) i" by (auto simp: cut_off_def nth_upd_sub cancel_sub_def split: option.split)
  moreover have "keeps i (?f i (fold ?f xs h)) (fold ?f ys (?f i (fold ?f xs h)))" by (rule keeps_fold) simp
  ultimately have "cut_off (fold ?f ys (?f i (fold ?f xs h))) i" by (simp add: keeps_def)
  then show ?thesis by (simp add: CloseToken_def ks)
qed

section \<open>The invariant\<close>

definition access_inv :: "access \<Rightarrow> bool" where
  "access_inv s \<longleftrightarrow>
     (\<forall>i t b. ac_conn s i = Some (t, b) \<longrightarrow>
        i < length (hb_objs (ac_hub s)) \<and> s_tokenID (hb_objs (ac_hub s) ! i) = t \<and>
        (i \<in> set (hb_subs (ac_hub s)) \<or> cut_off (ac_hub s) i)) \<and>
     (\<forall>i t. ac_conn s i = Some (t, True) \<longrightarrow> t \<in> set (ac_revoked s) \<longrightarrow> cut_off (ac_hub s) i) \<and>
     (\<forall>t \<in> set (ac_revoking s) \<union> set (ac_revoked s). t \<notin> token_ids (db (ac_world s)))"

text \<open>A step that adds no connection, no finished revocation and no token id.\<close>

lemma access_inv_frame:
  assumes "access_inv s"
    and "\<And>i t b. ac_conn s' i = Some (t, b) \<Longrightarrow> ac_conn s i = Some (t, b) \<and> keeps i (ac_hub s) (ac_hub s')"
    and "set (ac_revoked s') = set (ac_revoked s)" and "set (ac_revoking s') \<subseteq> set (ac_revoking s)"
    and "token_ids (db (ac_world s')) \<subseteq> token_ids (db (ac_world s))"
  shows "access_inv s'"
proof -
  have "i < length (hb_objs (ac_hub s')) \<and> s_tokenID (hb_objs (ac_hub s') ! i) = t \<and>
      (i \<in> set (hb_subs (ac_hub s')) \<or> cut_off (ac_hub s') i) \<and> (cut_off (ac_hub s) i \<longrightarrow> cut_off (ac_hub s') i)"
    if "ac_conn s' i = Some (t, b)" for i t b
  proof -
    from assms(2) [OF that] have c: "ac_conn s i = Some (t, b)" and k: "keeps i (ac_hub s) (ac_hub s')" by simp_all
    from c assms(1) have "i < length (hb_objs (ac_hub s))" "s_tokenID (hb_objs (ac_hub s) ! i) = t"
      "i \<in> set (hb_subs (ac_hub s)) \<or> cut_off (ac_hub s) i" by (simp_all add: access_inv_def)
    with k show ?thesis unfolding keeps_def by blast
  qed
  moreover have "cut_off (ac_hub s') i" if "ac_conn s' i = Some (t, True)" "t \<in> set (ac_revoked s')" for i t
  proof -
    from assms(2) [OF that(1)] have "ac_conn s i = Some (t, True)" by simp
    with that(2) assms(1,3) have "cut_off (ac_hub s) i" unfolding access_inv_def by blast
    with assms(2) [OF that(1)] show ?thesis by (simp add: keeps_def)
  qed
  moreover have "\<forall>t \<in> set (ac_revoking s') \<union> set (ac_revoked s'). t \<notin> token_ids (db (ac_world s'))"
  proof
    fix t assume "t \<in> set (ac_revoking s') \<union> set (ac_revoked s')"
    then have "t \<notin> token_ids (db (ac_world s))" using assms(1,3,4) unfolding access_inv_def by blast
    then show "t \<notin> token_ids (db (ac_world s'))" using assms(5) by blast
  qed
  ultimately show ?thesis unfolding access_inv_def by blast
qed

lemma GetByHash_frame: "FeedTokens_GetByHash h w = (r, w') \<Longrightarrow> feed_tokens (db w') = feed_tokens (db w) \<and> w_hub w' = w_hub w"
  by (auto simp: FeedTokens_GetByHash_def queryRow_def stmt_def split: fault.splits)

lemma TouchLastUsed_frame:
  assumes "FeedTokens_TouchLastUsed i now w = (r, w')"
  shows "token_ids (db w') = token_ids (db w) \<and> w_hub w' = w_hub w"
proof -
  have k: "ft_id ` set (upd_where P (\<lambda>r. r\<lparr>ft_last_used_at := Some now\<rparr>) xs) = ft_id ` set xs" for P xs
    by (metis (no_types, lifting) feed_token_row.select_convs(1) feed_token_row.surjective feed_token_row.update_convs(6)
        list.set_map map_upd_where)
  have w': "w' = snd (FeedTokens_TouchLastUsed i now w)" using assms by simp
  show ?thesis
    unfolding w' by (cases "next_fault w") (simp_all add: FeedTokens_TouchLastUsed_def bindE_def exec_def stmt_def k)
qed

lemma Authenticate_frame:
  assumes "FeedService_Authenticate cr now p w = (r, w')"
  shows "token_ids (db w') = token_ids (db w) \<and> w_hub w' = w_hub w"
proof (cases "has_prefix p FeedTokenPrefix")
  case False
  with assms show ?thesis by (auto simp: FeedService_Authenticate_def)
next
  case True
  obtain x w1 where g: "FeedTokens_GetByHash (HashToken cr p) w = (x, w1)" by (cases "FeedTokens_GetByHash (HashToken cr p) w")
  note f = GetByHash_frame [OF g]
  show ?thesis
  proof (cases x)
    case (Inl e)
    with assms True g f show ?thesis by (auto simp: FeedService_Authenticate_def bindE_def)
  next
    case (Inr tok)
    obtain due w2 where t: "touch_due (tk_ID tok) now w1 = (Inr due, w2)" by (simp add: touch_due_def Let_def)
    then have w2: "db w2 = db w1" "w_hub w2 = w_hub w1" by (auto simp: touch_due_def Let_def split: if_splits)
    obtain y w3 where l: "FeedTokens_TouchLastUsed (tk_ID tok) now w2 = (y, w3)"
      by (cases "FeedTokens_TouchLastUsed (tk_ID tok) now w2")
    have "w' = w2 \<or> w' = w3"
      using assms True g Inr t l by (auto simp: FeedService_Authenticate_def bindE_def tryE_def split: if_splits)
    with f w2 TouchLastUsed_frame [OF l] show ?thesis by auto
  qed
qed

lemma TokenMiddleware_frame:
  assumes "TokenMiddleware cr now hdr w = (r, w')"
  shows "token_ids (db w') = token_ids (db w) \<and> w_hub w' = w_hub w"
proof -
  obtain x w1 where a: "FeedService_Authenticate cr now (drop (length ''Bearer '') hdr) w = (x, w1)"
    by (cases "FeedService_Authenticate cr now (drop (length ''Bearer '') hdr) w")
  have "w' = w \<or> w' = w1"
    using assms a by (auto simp: TokenMiddleware_def Let_def bindE_tryE_case split: if_splits sum.splits)
  with Authenticate_frame [OF a] show ?thesis by auto
qed

lemma tokenStillLive_frame:
  assumes "tokenStillLive t w = (Inr r, w')"
  shows "feed_tokens (db w') = feed_tokens (db w) \<and> w_hub w' = w_hub w \<and> (r = Inr () \<longrightarrow> t \<in> token_ids (db w))"
proof -
  obtain x w1 where g: "FeedTokens_GetByID t w = (x, w1)" by (cases "FeedTokens_GetByID t w")
  then have "feed_tokens (db w1) = feed_tokens (db w) \<and> w_hub w1 = w_hub w \<and> ((\<exists>a. x = Inr a) \<longrightarrow> t \<in> token_ids (db w))"
    by (auto simp: FeedTokens_GetByID_def queryRow_def stmt_def find_Some_iff split: fault.splits option.splits)
  with g assms show ?thesis by (auto simp: tokenStillLive_def bindE_tryE_case split: sum.splits)
qed

lemma stream_subscribe_hub:
  "stream_subscribe t w = (r, w') \<Longrightarrow> w' = w\<lparr>w_hub := snd (subscribe t (w_hub w))\<rparr>"
  by (auto simp: stream_subscribe_def split: prod.splits sum.splits)

lemma Delete_frame:
  assumes "FeedTokens_Delete t w = (r, w')"
  shows "token_ids (db w') \<subseteq> token_ids (db w) \<and> w_hub w' = w_hub w \<and> (r = Inr () \<longrightarrow> t \<notin> token_ids (db w'))"
proof -
  have w': "w' = snd (FeedTokens_Delete t w)" and r: "r = fst (FeedTokens_Delete t w)" using assms by simp_all
  show ?thesis
    unfolding w' r
    by (cases "next_fault w") (auto simp: FeedTokens_Delete_def require_rows_def bindE_def exec_def stmt_def)
qed

lemma preserves_stmt_hub:
  fixes H :: hub
  assumes "\<And>d. P d \<Longrightarrow> P (snd (q d))"
  shows "preserves (\<lambda>w :: 'z hubworld_scheme. P (db w) \<and> w_hub w = H) (stmt q)"
  using assms by (auto simp: preserves_def stmt_def split: fault.split)

lemma MintToken_frame:
  fixes w :: "'z hubworld_scheme"
  assumes "FeedService_MintToken cr details rnd newID now actor label w = (r, w')"
  shows "token_ids (db w') \<subseteq> insert newID (token_ids (db w)) \<and> w_hub w' = w_hub w"
proof -
  let ?T = "insert newID (token_ids (db w))"
  let ?I = "\<lambda>v :: 'z hubworld_scheme. token_ids (db v) \<subseteq> ?T \<and> w_hub v = w_hub w"
  have a: "preserves ?I (auditWriter_Log now e)" for e
    unfolding auditWriter_Log_def AuditLog_Append_def Let_def
    by (intro preserves_intros preserves_stmt_hub) (simp add: insert_audit_def Let_def)
  have c: "preserves ?I (FeedTokens_Create t)" if "tk_ID t = newID" for t
    unfolding FeedTokens_Create_def using that by (intro preserves_stmt_hub) (auto simp: insert_token_def)
  have "preserves ?I (FeedService_MintToken cr details rnd newID now actor label)"
    unfolding FeedService_MintToken_def Let_def by (intro preserves_intros a c) simp
  from preservesD [OF this _ assms] show ?thesis by blast
qed

lemma access_step_inv:
  assumes "access_step s s'" and "access_inv s"
  shows "access_inv s'"
  using assms(1)
proof cases
  case (pass cr now hdr t w)
  from TokenMiddleware_frame [OF pass(2)] have f: "token_ids (db w) = token_ids (db (ac_world s))" "w_hub w = ac_hub s" by simp_all
  show ?thesis by (rule access_inv_frame [OF assms(2)]) (simp_all add: pass(1) f)
next
  case (reject cr now hdr rsp w)
  from TokenMiddleware_frame [OF reject(2)] have f: "token_ids (db w) = token_ids (db (ac_world s))" "w_hub w = ac_hub s" by simp_all
  show ?thesis by (rule access_inv_frame [OF assms(2)]) (simp_all add: reject(1) f)
next
  case (subscribed t i w)
  from subscribed(3) have w: "w = (ac_world s)\<lparr>w_hub := snd (subscribe t (ac_hub s))\<rparr>" by (rule stream_subscribe_hub)
  have i: "i = length (hb_objs (ac_hub s))" "i < length (hb_objs (w_hub w))" "i \<in> set (hb_subs (w_hub w))"
    "s_tokenID (hb_objs (w_hub w) ! i) = t"
    using subscribed(3) unfolding w
    by (auto simp: stream_subscribe_def subscribe_def Let_def split: if_splits)
  have "ac_conn s i = None" using assms(2) i(1) unfolding access_inv_def by (cases "ac_conn s i") auto
  then have "access_inv (s\<lparr>ac_world := w\<rparr>)"
    using assms(2) unfolding w by - (rule access_inv_frame [OF assms(2)], auto simp: access_inv_def)
  with i(2-4) show ?thesis unfolding subscribed(1) access_inv_def by auto
next
  case (refused t rsp w)
  from refused(3) have "w = (ac_world s)\<lparr>w_hub := snd (subscribe t (ac_hub s))\<rparr>" by (rule stream_subscribe_hub)
  with refused(1) assms(2) show ?thesis by - (rule access_inv_frame [OF assms(2)], auto simp: access_inv_def)
next
  case (stream i t w)
  from tokenStillLive_frame [OF stream(3)] have w: "feed_tokens (db w) = feed_tokens (db (ac_world s))" "w_hub w = ac_hub s"
    and t: "t \<in> token_ids (db (ac_world s))" by simp_all
  from t assms(2) have "t \<notin> set (ac_revoked s)" unfolding access_inv_def by blast
  with stream(1,2) w assms(2) show ?thesis unfolding access_inv_def by auto
next
  case (leave i t b)
  have "keeps k (ac_hub s) (unsubscribe i (ac_hub s))" if "k \<noteq> i" for k using that by (intro keeps_unsubscribe) simp
  with leave(1) assms(2) show ?thesis by - (rule access_inv_frame [OF assms(2)], auto split: if_splits)
next
  case (revoke_row t w)
  note f = Delete_frame [OF revoke_row(2)]
  have "access_inv (s\<lparr>ac_world := w\<rparr>)" using f by - (rule access_inv_frame [OF assms(2)], auto)
  with f show ?thesis unfolding revoke_row(1) access_inv_def by simp
next
  case (revoke_failed t e w)
  with assms(2) Delete_frame [OF revoke_failed(2)] show ?thesis by - (rule access_inv_frame [OF assms(2)], auto)
next
  case (revoke_close t)
  let ?h = "CloseToken t (ac_hub s)"
  have "access_inv (s\<lparr>ac_world := (ac_world s)\<lparr>w_hub := ?h\<rparr>\<rparr>)"
    using assms(2) by - (rule access_inv_frame [OF assms(2)], auto)
  moreover have "cut_off ?h i" if "ac_conn s i = Some (t, b)" for i b
  proof -
    from that assms(2) have "i < length (hb_objs (ac_hub s))" "s_tokenID (hb_objs (ac_hub s) ! i) = t"
      "i \<in> set (hb_subs (ac_hub s)) \<or> cut_off (ac_hub s) i" by (simp_all add: access_inv_def)
    then show ?thesis using CloseToken_cuts [of i "ac_hub s" t] keeps_others(1) [of i "ac_hub s" t] unfolding keeps_def by blast
  qed
  ultimately show ?thesis using revoke_close unfolding access_inv_def by auto
next
  case (mint newID cr details rnd now actor label r w)
  have f: "token_ids (db w) \<subseteq> insert newID (token_ids (db (ac_world s)))" "w_hub w = ac_hub s"
    using MintToken_frame [OF mint(3)] by simp_all
  have "\<forall>t \<in> set (ac_revoking s) \<union> set (ac_revoked s). t \<notin> token_ids (db w)"
  proof (intro ballI notI)
    fix t assume t: "t \<in> set (ac_revoking s) \<union> set (ac_revoked s)" "t \<in> token_ids (db w)"
    then have "t = newID \<or> t \<in> token_ids (db (ac_world s))" using f(1) by (meson insertE subsetD)
    moreover have "t \<notin> token_ids (db (ac_world s))" using assms(2) t(1) by (simp add: access_inv_def)
    ultimately show False using mint(2) t(1) by simp
  qed
  with f(2) assms(2) show ?thesis unfolding mint(1) access_inv_def by simp
next
  case (other w)
  with assms(2) show ?thesis by - (rule access_inv_frame [OF assms(2)], auto)
qed (use assms(2) in \<open>(rule access_inv_frame [of s]; auto simp: access_inv_def intro: keeps_Broadcast)+\<close>)

text \<open>
  C19. Revocation is complete: in every interleaving of stream handlers, revocations, broadcasts, a shutdown
  and any other activity, under any driver failures, once \<open>RevokeToken\<close> has closed the streams of a
  token, no stream of that token is open: every handler that got past the re-read has its context
  cancelled, and no handler that read the token before its deletion can start streaming afterwards.
\<close>

theorem revocation_complete:
  assumes "access_step\<^sup>*\<^sup>* (access_start w) s" and "t \<in> set (ac_revoked s)" and "ac_conn s i = Some (t, True)"
  shows "cut_off (ac_hub s) i \<and> t \<notin> token_ids (db (ac_world s))"
proof -
  have "access_inv (access_start w)" by (simp add: access_inv_def access_start_def)
  with assms(1) have "access_inv s" by (induction rule: rtranclp_induct) (auto intro: access_step_inv)
  with assms(2,3) show ?thesis unfolding access_inv_def by blast
qed

section \<open>The life of a token\<close>

lemma Authenticate_calm:
  assumes "calm w" and "has_prefix p FeedTokenPrefix"
  shows "case find (\<lambda>r. ft_token_hash r = HashToken cr p) (feed_tokens (db w)) of
           None \<Rightarrow> FeedService_Authenticate cr now p w = (Inl ErrNotFound, w)
         | Some r \<Rightarrow> (\<exists>tok w'. FeedService_Authenticate cr now p w = (Inr tok, w') \<and> tk_ID tok = ft_id r)"
  using assms
  by (auto simp: FeedService_Authenticate_def bindE_def FeedTokens_GetByHash_def touch_due_def Let_def tryE_def
      FeedTokens_TouchLastUsed_def scanFeedToken_def split: option.split)

lemma Mint_calm:
  assumes "calm w" and "FeedService_MintToken cr details rnd newID now actor label w = (Inr (tok, pt), w1)"
  shows "calm w1 \<and> tk_ID tok = newID \<and> has_prefix pt FeedTokenPrefix \<and> (\<exists>r. rnd = Some r \<and> pt = FeedTokenPrefix @ r) \<and>
    (\<exists>r. feed_tokens (db w1) = feed_tokens (db w) @ [r] \<and> ft_id r = newID \<and> ft_token_hash r = HashToken cr pt) \<and>
    (\<forall>r \<in> set (feed_tokens (db w)). ft_id r \<noteq> newID \<and> ft_token_hash r \<noteq> HashToken cr pt)"
  using assms
  by (auto simp: FeedService_MintToken_def Let_def bindE_def FeedTokens_Create_def insert_token_def auditWriter_Log_def
      AuditLog_Append_def tryE_def insert_audit_def has_prefix_def split: if_splits option.splits)

lemma find_append_last: "(\<And>x. x \<in> set xs \<Longrightarrow> \<not> P x) \<Longrightarrow> find P (xs @ [y]) = (if P y then Some y else None)"
  by (induction xs) auto

lemma Revoke_calm:
  assumes "calm w" and "FeedService_RevokeToken now actor i w = (Inr (), w1)"
  shows "calm w1 \<and> feed_tokens (db w1) = filter (\<lambda>r. ft_id r \<noteq> i) (feed_tokens (db w))"
  using assms
  by (auto simp: FeedService_RevokeToken_def bindE_def FeedTokens_Delete_def require_rows_def evict_touch_def hub_op_def
      auditWriter_Log_def AuditLog_Append_def Let_def tryE_def insert_audit_def split: if_splits)

text \<open>
  C20. A minted token authenticates as itself until it is revoked and never afterwards: the plaintext
  \<open>MintToken\<close> returned, presented in the Authorization header, passes the middleware with the new
  token's id; after a successful \<open>RevokeToken\<close> the same header is answered with the uniform 401.
\<close>

theorem token_lifecycle:
  assumes "calm w" and "FeedService_MintToken cr details (Some r) newID now actor label w = (Inr (tok, pt), w1)"
    and "CHR '' '' \<notin> set r" and "CHR 0x09 \<notin> set r"
  shows "(\<exists>w2. TokenMiddleware cr now' (''Bearer '' @ pt) w1 = (Inr (Inr newID), w2)) \<and>
    (\<forall>w3. FeedService_RevokeToken now' actor' newID w1 = (Inr (), w3) \<longrightarrow>
       TokenMiddleware cr now'' (''Bearer '' @ pt) w3 = (Inr (Inl reject401), w3))"
proof -
  from Mint_calm [OF assms(1,2)] obtain row where c: "calm w1" and pt: "pt = FeedTokenPrefix @ r" "has_prefix pt FeedTokenPrefix"
    and row: "feed_tokens (db w1) = feed_tokens (db w) @ [row]" "ft_id row = newID" "ft_token_hash row = HashToken cr pt"
    and old: "\<forall>r \<in> set (feed_tokens (db w)). ft_id r \<noteq> newID \<and> ft_token_hash r \<noteq> HashToken cr pt" by auto
  have mw: "TokenMiddleware cr n (''Bearer '' @ pt) v =
      (case FeedService_Authenticate cr n pt v of (Inl e, v') \<Rightarrow> (Inr (Inl reject401), v') | (Inr t, v') \<Rightarrow> (Inr (Inr (tk_ID t)), v'))" for n v
    using assms(3,4) pt
    by (auto simp: TokenMiddleware_def has_prefix_def Let_def bindE_tryE_case FeedTokenPrefix_def split: prod.split sum.split)
  have f: "find (\<lambda>r. ft_token_hash r = HashToken cr pt) (feed_tokens (db w1)) = Some row"
    using old row by (simp add: find_append_last)
  obtain tok' w2 where "FeedService_Authenticate cr now' pt w1 = (Inr tok', w2)" "tk_ID tok' = newID"
    using Authenticate_calm [OF c pt(2), of cr now'] f row(2) by auto
  then have "TokenMiddleware cr now' (''Bearer '' @ pt) w1 = (Inr (Inr newID), w2)" unfolding mw by simp
  moreover have "TokenMiddleware cr now'' (''Bearer '' @ pt) w3 = (Inr (Inl reject401), w3)"
    if rv: "FeedService_RevokeToken now' actor' newID w1 = (Inr (), w3)" for w3
  proof -
    from Revoke_calm [OF c rv] row(1,2) old have c3: "calm w3" and t3: "feed_tokens (db w3) = feed_tokens (db w)"
      by (auto simp: filter_id_conv)
    have "find (\<lambda>r. ft_token_hash r = HashToken cr pt) (feed_tokens (db w3)) = None"
      using old t3 by (auto simp: find_None_iff)
    with Authenticate_calm [OF c3 pt(2), of cr now''] have "FeedService_Authenticate cr now'' pt w3 = (Inl ErrNotFound, w3)" by simp
    then show ?thesis unfolding mw by simp
  qed
  ultimately show ?thesis by blast
qed

section \<open>A sample run\<close>

definition token_world :: feedworld where
  "token_world = \<lparr> db = empty_db, faults = [], w_hub = Hub_New, w_mail = [], v_cache = Map.empty, w_sent = [], w_touch = Map.empty \<rparr>"

lemma sample_mint:
  "\<exists>tok w1. FeedService_MintToken plain_crypto (\<lambda>s. s) (Some ''rnd'') ''t1'' 100 '''' ''gw'' token_world = (Inr (tok, ''ddf_rnd''), w1)"
proof -
  have "TrimSpace ''gw'' = ''gw''" by code_simp
  then show ?thesis
    by (simp add: FeedService_MintToken_def bindE_def FeedTokens_Create_def insert_token_def auditWriter_Log_def AuditLog_Append_def
        tryE_def insert_audit_def token_world_def empty_db_def FeedTokenPrefix_def Let_def)
qed

lemma token_lifecycle_witness:
  "\<exists>tok w1 w2. FeedService_MintToken plain_crypto (\<lambda>s. s) (Some ''rnd'') ''t1'' 100 '''' ''gw'' token_world = (Inr (tok, ''ddf_rnd''), w1) \<and>
     TokenMiddleware plain_crypto 200 (''Bearer '' @ ''ddf_rnd'') w1 = (Inr (Inr ''t1''), w2)"
proof -
  obtain tok w1 where m: "FeedService_MintToken plain_crypto (\<lambda>s. s) (Some ''rnd'') ''t1'' 100 '''' ''gw'' token_world = (Inr (tok, ''ddf_rnd''), w1)"
    using sample_mint by blast
  have "calm token_world" by (simp add: token_world_def)
  from token_lifecycle [OF this m] m show ?thesis by auto
qed

definition row_t1 :: feed_token_row where
  "row_t1 = \<lparr> ft_id = ''t1'', ft_label = ''gw'', ft_token_hash = HashToken plain_crypto ''ddf_rnd'', ft_created_by = None,
     ft_created_at = 100, ft_last_used_at = None \<rparr>"

definition minted_world :: feedworld where
  "minted_world = token_world\<lparr>db := empty_db\<lparr>feed_tokens := [row_t1]\<rparr>\<rparr>"

text \<open>A stream of the minted token that a revocation then closes.\<close>

lemma sample_revocation:
  "\<exists>s. access_step\<^sup>*\<^sup>* (access_start minted_world) s \<and> ''t1'' \<in> set (ac_revoked s) \<and> ac_conn s 0 = Some (''t1'', True)"
proof -
  have auth: "\<exists>w. TokenMiddleware plain_crypto 10 ''Bearer ddf_rnd'' minted_world = (Inr (Inr ''t1''), w) \<and> w = minted_world"
    by (simp add: TokenMiddleware_def has_prefix_def FeedTokenPrefix_def Let_def FeedService_Authenticate_def
        bindE_def tryE_def FeedTokens_GetByHash_def touch_due_def lastUsedThrottle_def minted_world_def token_world_def row_t1_def scanFeedToken_def)
  let ?s1 = "(access_start minted_world)\<lparr>ac_world := minted_world, ac_passed := [''t1'']\<rparr>"
  have s1: "access_step (access_start minted_world) ?s1"
    using access_step.pass [of plain_crypto 10 "''Bearer ddf_rnd''" "access_start minted_world" "''t1''" minted_world] auth
    by (simp add: access_start_def)
  let ?h = "snd (subscribe ''t1'' Hub_New)"
  let ?w2 = "minted_world\<lparr>w_hub := ?h\<rparr>"
  let ?s2 = "?s1\<lparr>ac_world := ?w2, ac_conn := (ac_conn ?s1)(0 \<mapsto> (''t1'', False))\<rparr>"
  have s2: "access_step ?s1 ?s2"
    by (rule access_step.subscribed)
       (simp_all add: stream_subscribe_def minted_world_def token_world_def subscribe_def Hub_New_def maxStreamConns_def Let_def)
  let ?s3 = "?s2\<lparr>ac_world := ?w2, ac_conn := (ac_conn ?s2)(0 \<mapsto> (''t1'', True))\<rparr>"
  have s3: "access_step ?s2 ?s3"
    by (rule access_step.stream)
       (simp_all add: tokenStillLive_def bindE_tryE_case FeedTokens_GetByID_def minted_world_def token_world_def row_t1_def)
  let ?w4 = "snd (FeedTokens_Delete ''t1'' ?w2)"
  let ?s4 = "?s3\<lparr>ac_world := ?w4, ac_revoking := ''t1'' # ac_revoking ?s3\<rparr>"
  have s4: "access_step ?s3 ?s4"
    by (rule access_step.revoke_row)
       (simp add: FeedTokens_Delete_def require_rows_def bindE_def minted_world_def token_world_def row_t1_def)
  let ?s5 = "?s4\<lparr>ac_world := (ac_world ?s4)\<lparr>w_hub := CloseToken ''t1'' (ac_hub ?s4)\<rparr>,
      ac_revoking := removeAll ''t1'' (ac_revoking ?s4), ac_revoked := ''t1'' # ac_revoked ?s4\<rparr>"
  have s5: "access_step ?s4 ?s5" by (rule access_step.revoke_close) simp
  have "access_step\<^sup>*\<^sup>* (access_start minted_world) ?s5"
    using s1 s2 s3 s4 s5 by (meson converse_rtranclp_into_rtranclp rtranclp.rtrancl_refl)
  then show ?thesis by (intro exI [of _ ?s5] conjI) simp_all
qed

lemma revocation_complete_witness:
  "\<exists>s. access_step\<^sup>*\<^sup>* (access_start minted_world) s \<and> ac_conn s 0 = Some (''t1'', True) \<and> cut_off (ac_hub s) 0"
proof -
  obtain s where s: "access_step\<^sup>*\<^sup>* (access_start minted_world) s" "''t1'' \<in> set (ac_revoked s)" "ac_conn s 0 = Some (''t1'', True)"
    using sample_revocation by blast
  from revocation_complete [OF s] s(1,3) show ?thesis by blast
qed

end
