(* ===== verification/Feed_Documents.thy ===== *)
theory Feed_Documents
  imports Feed_Service Samples
begin

text \<open>
  The two feed documents and the conditional GET: \<open>Render\<close> (feed/snapshot.go, with \<open>CIDRString\<close> of
  store/addrs.go) and \<open>current\<close>, \<open>serve\<close>, \<open>etagMatches\<close> (feed/handlers.go). The JSON encoder and the two time
  formats are the fields of \<open>feed_codec\<close>.
\<close>

section \<open>Rendering\<close>

record jsonDevice =
  jd_ID :: string
  jd_Label :: string
  jd_IPv4 :: "string option"
  jd_IPv6 :: "string option"
  jd_LastSeenAt :: "string option"

record jsonDoc =
  jx_Version :: int
  jx_CIDRs :: "string list"
  jx_Devices :: "jsonDevice list"

record feed_codec =
  fc_text :: netip_text
  fc_crypto :: crypto
  fc_json :: "jsonDoc \<Rightarrow> string option"
  fc_rfc3339 :: "int \<Rightarrow> string"
  fc_httpTime :: "int \<Rightarrow> string"

record Snapshot =
  sn_Text :: string
  sn_JSON :: string
  sn_TextETag :: string
  sn_JSONETag :: string

definition newline :: string where "newline = [char_of (10 :: nat)]"

definition headerLine :: string where "headerLine = ''# diyddns feed v1'' @ newline"

definition CIDRString :: "netip_text \<Rightarrow> Addr \<Rightarrow> string" where
  "CIDRString tx a = nt_String tx a @ ''/'' @ showInt (int (BitLen a))"

definition strongETag :: "crypto \<Rightarrow> string \<Rightarrow> string" where
  "strongETag cr body = [CHR 0x22] @ hex_EncodeToString (cr_sha256 cr body) @ [CHR 0x22]"

definition device_addrs :: "netip_text \<Rightarrow> FeedDevice \<Rightarrow> Addr list" where
  "device_addrs tx d =
     (case ParseAddr tx (fd_IPv4 d) of None \<Rightarrow> [] | Some a \<Rightarrow> [a]) @
     (case ParseAddr tx (fd_IPv6 d) of None \<Rightarrow> [] | Some a \<Rightarrow> [a])"

definition json_device :: "feed_codec \<Rightarrow> FeedDevice \<Rightarrow> jsonDevice" where
  "json_device cd d =
     \<lparr> jd_ID = fd_ID d, jd_Label = fd_Label d,
       jd_IPv4 = map_option (nt_String (fc_text cd)) (ParseAddr (fc_text cd) (fd_IPv4 d)),
       jd_IPv6 = map_option (nt_String (fc_text cd)) (ParseAddr (fc_text cd) (fd_IPv6 d)),
       jd_LastSeenAt = (if fd_LastSeenAt d \<noteq> 0 then Some (fc_rfc3339 cd (fd_LastSeenAt d)) else None) \<rparr>"

definition Render :: "feed_codec \<Rightarrow> FeedDevice list \<Rightarrow> err + Snapshot" where
  "Render cd ds =
     (let addrs = DedupeAddrs (concat (map (device_addrs (fc_text cd)) ds));
          cidrs = map (CIDRString (fc_text cd)) addrs;
          text = headerLine @ concat (map (\<lambda>c. c @ newline) cidrs)
      in case fc_json cd \<lparr> jx_Version = 1, jx_CIDRs = cidrs, jx_Devices = map (json_device cd) ds \<rparr> of
           None \<Rightarrow> Inl ErrDecode
         | Some j0 \<Rightarrow>
             (let j = j0 @ newline in
              Inr \<lparr> sn_Text = text, sn_JSON = j, sn_TextETag = strongETag (fc_crypto cd) text,
                    sn_JSONETag = strongETag (fc_crypto cd) j \<rparr>))"

section \<open>Serving\<close>

definition handler_current :: "feed_codec \<Rightarrow> ('z world_scheme, Snapshot \<times> int) action" where
  "handler_current cd =
     bindE ListFeed (\<lambda>ds.
     bindE (lift_res (Render cd ds)) (\<lambda>snap.
     bindE FeedState_Get (\<lambda>st. ret (snap, fs_ChangedAt st))))"

fun split_on :: "char \<Rightarrow> string \<Rightarrow> string list" where
  "split_on c [] = [[]]"
| "split_on c (x # xs) =
     (if x = c then [] # split_on c xs
      else case split_on c xs of [] \<Rightarrow> [[x]] | y # ys \<Rightarrow> (x # y) # ys)"

definition etagMatches :: "string \<Rightarrow> string \<Rightarrow> bool" where
  "etagMatches header0 etag =
     (let header = TrimSpace header0 in
      if header = '''' then False
      else if header = ''*'' then True
      else list_ex (\<lambda>candidate. TrimSpace candidate = etag) (split_on (CHR '','') header))"

definition serve ::
  "feed_codec \<Rightarrow> string \<Rightarrow> (Snapshot \<Rightarrow> string \<times> string) \<Rightarrow> string \<Rightarrow> string \<Rightarrow> ('z world_scheme, response) action" where
  "serve cd contentType pick failBody ifNoneMatch =
     bindE (tryE (handler_current cd)) (\<lambda>r.
       case r of
         Inl _ \<Rightarrow> ret (plain_response 500 contentType ''no-store'' failBody)
       | Inr (snap, changedAt) \<Rightarrow>
           (let (body, etag) = pick snap in
            if etagMatches ifNoneMatch etag
            then ret \<lparr> rs_Status = 304, rs_ContentType = '''', rs_CacheControl = ''no-cache'', rs_ETag = etag,
                       rs_LastModified = fc_httpTime cd changedAt, rs_Body = '''' \<rparr>
            else ret \<lparr> rs_Status = 200, rs_ContentType = contentType, rs_CacheControl = ''no-cache'', rs_ETag = etag,
                       rs_LastModified = fc_httpTime cd changedAt, rs_Body = body \<rparr>))"

definition serveText :: "feed_codec \<Rightarrow> string \<Rightarrow> ('z world_scheme, response) action" where
  "serveText cd inm =
     serve cd ''text/plain; charset=utf-8'' (\<lambda>s. (sn_Text s, sn_TextETag s)) (''# diyddns feed unavailable'' @ newline) inm"

definition serveJSON :: "feed_codec \<Rightarrow> string \<Rightarrow> ('z world_scheme, response) action" where
  "serveJSON cd inm =
     serve cd ''application/json'' (\<lambda>s. (sn_JSON s, sn_JSONETag s))
       (''{'' @ [CHR 0x22] @ ''error'' @ [CHR 0x22] @ '':'' @ [CHR 0x22] @ ''feed unavailable'' @ [CHR 0x22] @ ''}'') inm"

section \<open>What the feed contains\<close>

text \<open>The addresses of the devices the feed query lists: those of the enabled devices of enabled owners.\<close>

definition feed_addresses :: "netip_text \<Rightarrow> database \<Rightarrow> Addr set" where
  "feed_addresses tx d =
     {a. \<exists>r \<in> set (devices d). \<exists>u \<in> set (users d). uc_id u = dc_user_id r \<and> \<not> dc_disabled r \<and> \<not> uc_disabled u \<and>
        (ParseAddr tx (scanString (dc_current_ipv4 r)) = Some a \<or> ParseAddr tx (scanString (dc_current_ipv6 r)) = Some a)}"

text \<open>The text document of a set of addresses: the header line, then one line per address in order.\<close>

definition feed_text :: "netip_text \<Rightarrow> Addr list \<Rightarrow> string" where
  "feed_text tx as = headerLine @ concat (map (\<lambda>a. CIDRString tx a @ newline) as)"

definition current_text :: "feed_codec \<Rightarrow> database \<Rightarrow> string" where
  "current_text cd d = feed_text (fc_text cd) (sorted_list_of_set (feed_addresses (fc_text cd) d))"

lemma ParseAddr_empty [simp]: "ParseAddr tx '''' = None"
  by (simp add: ParseAddr_def)

lemma feed_addresses_query:
  "set (concat (map (device_addrs tx) (map scanFeedDevice (listFeedQuery d)))) = feed_addresses tx d"
proof -
  have "a \<in> set (device_addrs tx (scanFeedDevice r)) \<longleftrightarrow>
      ParseAddr tx (scanString (dc_current_ipv4 r)) = Some a \<or> ParseAddr tx (scanString (dc_current_ipv6 r)) = Some a" for a r
    by (auto simp: device_addrs_def scanFeedDevice_def split: option.splits)
  moreover have "dc_current_ipv4 r \<noteq> None \<or> dc_current_ipv6 r \<noteq> None"
    if "ParseAddr tx (scanString (dc_current_ipv4 r)) = Some a \<or> ParseAddr tx (scanString (dc_current_ipv6 r)) = Some a" for a r
    using that by (cases "dc_current_ipv4 r"; cases "dc_current_ipv6 r") auto
  ultimately show ?thesis unfolding feed_addresses_def listFeedQuery_def by fastforce
qed

lemma handler_current_Inr:
  assumes "handler_current cd w = (Inr (snap, t), w')"
  shows "sn_Text snap = feed_text (fc_text cd) (sorted_list_of_set (feed_addresses (fc_text cd) (db w))) \<and>
    sn_TextETag snap = strongETag (fc_crypto cd) (sn_Text snap) \<and> sn_JSONETag snap = strongETag (fc_crypto cd) (sn_JSON snap) \<and>
    db w' = db w"
proof -
  from assms obtain ds w1 st where l: "ListFeed w = (Inr ds, w1)" and r: "Render cd ds = Inr snap" and s: "FeedState_Get w1 = (Inr st, w')"
    by (auto simp: handler_current_def bindE_Inr_iff)
  have ds: "ds = map scanFeedDevice (listFeedQuery (db w))" "db w1 = db w" using l by (auto simp: ListFeed_def dest: query_Inr)
  have w': "db w' = db w1" using s by (auto simp: FeedState_Get_def dest: query_Inr)
  let ?as = "DedupeAddrs (concat (map (device_addrs (fc_text cd)) ds))"
  have "set ?as = feed_addresses (fc_text cd) (db w)" "sorted_wrt (<) ?as"
    unfolding DedupeAddrs_spec(1) ds(1) by (rule feed_addresses_query, rule DedupeAddrs_spec(2))
  then have "?as = sorted_list_of_set (feed_addresses (fc_text cd) (db w))"
    by (metis sorted_list_of_set.idem_if_sorted_distinct strict_sorted_iff)
  with r ds w' show ?thesis
    by (auto simp: Render_def Let_def feed_text_def comp_def split: option.splits)
qed

section \<open>Entity tags\<close>

lemma white_space_heads:
  "p \<in> set white_space \<Longrightarrow> hd p \<noteq> CHR 0x22 \<and> last p \<noteq> CHR 0x22 \<and> p \<noteq> []"
  by (auto simp: white_space_def char_of_eq_iff)

lemma trim_left_quoted:
  assumes "\<And>p. p \<in> set ps \<Longrightarrow> p \<noteq> [] \<Longrightarrow> hd p \<noteq> CHR 0x22"
  shows "trim_left ps (CHR 0x22 # s) = CHR 0x22 # s"
proof -
  have "\<not> has_prefix (CHR 0x22 # s) p" if "p \<in> set ps" "p \<noteq> []" for p
    using assms [OF that] that(2) by (cases p) (auto simp: has_prefix_def)
  then have "trim_step ps (CHR 0x22 # s) = None" by (auto simp: trim_step_def find_Some_iff split: option.split)
  then show ?thesis by (simp add: trim_left.simps)
qed

lemma TrimSpace_quoted: "TrimSpace (CHR 0x22 # s @ [CHR 0x22]) = CHR 0x22 # s @ [CHR 0x22]"
proof -
  have a: "trim_left white_space (CHR 0x22 # s @ [CHR 0x22]) = CHR 0x22 # s @ [CHR 0x22]"
    by (rule trim_left_quoted) (use white_space_heads in blast)
  have b: "trim_left (map rev white_space) (CHR 0x22 # rev s @ [CHR 0x22]) = CHR 0x22 # rev s @ [CHR 0x22]"
    by (rule trim_left_quoted) (use white_space_heads in \<open>auto simp: hd_rev\<close>)
  show ?thesis by (simp add: TrimSpace_def a b)
qed

lemma split_on_none: "c \<notin> set s \<Longrightarrow> split_on c s = [s]"
  by (induction s) auto

lemma hex_chars: "n < 16 \<Longrightarrow> hex_digit n \<in> set ''0123456789abcdef''"
  unfolding hex_digit_def by (rule nth_mem) simp

lemma hex_no_comma: "CHR '','' \<notin> set (hex_EncodeToString s)"
proof -
  have "hex_digit n \<noteq> CHR '',''" if "n < 16" for n using hex_chars [OF that] by auto
  moreover have "byte c div 16 < 16" "byte c mod 16 < 16" for c using byte_less [of c] by (auto simp: less_mult_imp_div_less)
  ultimately show ?thesis unfolding hex_EncodeToString_def by (auto dest: sym)
qed

text \<open>A client that presents a tag of an earlier document is told "not modified" only if the digests agree.\<close>

lemma etagMatches_own:
  "etagMatches (strongETag cr body0) (strongETag cr body) \<longleftrightarrow> strongETag cr body0 = strongETag cr body"
proof -
  have "CHR '','' \<notin> set (strongETag cr body0)" using hex_no_comma by (simp add: strongETag_def)
  then show ?thesis
    using TrimSpace_quoted [of "hex_EncodeToString (cr_sha256 cr body0)"]
    by (auto simp: etagMatches_def Let_def strongETag_def split_on_none)
qed

section \<open>The text feed\<close>


definition plain_feed_codec :: feed_codec where
  "plain_feed_codec = \<lparr> fc_text = \<lparr> nt_ParseAddr = (\<lambda>s. Some (V4 7)), nt_String = (\<lambda>a. ''192.0.2.1'') \<rparr>, fc_crypto = plain_crypto,
     fc_json = (\<lambda>j. Some ''{}''), fc_rfc3339 = (\<lambda>t. ''t''), fc_httpTime = (\<lambda>t. ''t'') \<rparr>"


end
