(* ===== verification/Store_Users.thy ===== *)
theory Store_Users
  imports Device_Service
begin

text \<open>
  The writers and look-ups of \<open>internal/store/users.go\<close>. The table has three unique keys besides the id:
  the email, the pair of OIDC provider and subject (rows where either is NULL never collide) and
  the WebAuthn handle; \<open>role\<close> has a CHECK constraint. \<open>Delete\<close> carries the foreign keys of the schema:
  sessions, devices with their history, enrollment codes, recovery tokens, API keys and credentials
  go with the account, a feed token it created stays without its creator.
\<close>

section \<open>Constraints\<close>

definition role_ok :: "string \<Rightarrow> bool" where
  "role_ok role \<longleftrightarrow> role = ''admin'' \<or> role = ''user''"

definition same_oidc :: "user_row \<Rightarrow> user_row \<Rightarrow> bool" where
  "same_oidc r s \<longleftrightarrow>
     uc_oidc_provider r \<noteq> None \<and> uc_oidc_subject r \<noteq> None \<and>
     uc_oidc_provider r = uc_oidc_provider s \<and> uc_oidc_subject r = uc_oidc_subject s"

definition same_handle :: "user_row \<Rightarrow> user_row \<Rightarrow> bool" where
  "same_handle r s \<longleftrightarrow> uc_webauthn_handle r \<noteq> None \<and> uc_webauthn_handle r = uc_webauthn_handle s"

definition user_clash :: "user_row \<Rightarrow> user_row \<Rightarrow> bool" where
  "user_clash r s \<longleftrightarrow> uc_email r = uc_email s \<or> same_oidc r s \<or> same_handle r s"

definition insert_user :: "user_row \<Rightarrow> database \<Rightarrow> (err + unit) \<times> database" where
  "insert_user r d =
     (if \<not> role_ok (uc_role r) then (Inl ErrConstraint, d)
      else if \<exists>s \<in> set (users d). uc_id s = uc_id r \<or> user_clash r s then (Inl ErrConflict, d)
      else (Inr (), d\<lparr>users := users d @ [r]\<rparr>))"

text \<open>An UPDATE of one row, selected by its id and a condition; it yields the number of rows matched.\<close>

definition update_user ::
  "string \<Rightarrow> (user_row \<Rightarrow> bool) \<Rightarrow> (user_row \<Rightarrow> user_row) \<Rightarrow> database \<Rightarrow> (err + nat) \<times> database" where
  "update_user i P f d =
     (let hit = filter (\<lambda>r. uc_id r = i \<and> P r) (users d) in
      if \<exists>r \<in> set hit. \<not> role_ok (uc_role (f r)) then (Inl ErrConstraint, d)
      else if \<exists>r \<in> set hit. \<exists>s \<in> set (users d). uc_id s \<noteq> i \<and> user_clash (f r) s then (Inl ErrConflict, d)
      else (Inr (length hit), d\<lparr>users := upd_where (\<lambda>r. uc_id r = i \<and> P r) f (users d)\<rparr>))"

section \<open>Operations\<close>

definition UserRepo_Create :: "string \<Rightarrow> int \<Rightarrow> User \<Rightarrow> ('z world_scheme, User) action" where
  "UserRepo_Create newID now u =
     (let u1 = (if u_ID u = '''' then u\<lparr>u_ID := newID\<rparr> else u);
          u2 = u1\<lparr>u_CreatedAt := now, u_UpdatedAt := now\<rparr>
      in bindE (stmt (insert_user
           \<lparr> uc_id = u_ID u2, uc_email = u_Email u2, uc_role = u_Role u2,
             uc_oidc_provider = nullIfEmpty (u_OIDCProvider u2), uc_oidc_subject = nullIfEmpty (u_OIDCSubject u2),
             uc_disabled = u_Disabled u2, uc_created_at = u_CreatedAt u2, uc_updated_at = u_UpdatedAt u2,
             uc_pending_email = None, uc_pending_email_hash = None, uc_pending_email_expires_at = None,
             uc_webauthn_handle = None \<rparr>)) (\<lambda>_. ret u2))"

definition UserRepo_GetByEmail :: "string \<Rightarrow> ('z world_scheme, User) action" where
  "UserRepo_GetByEmail email = queryRow (\<lambda>d. map_option scanUser (find (\<lambda>r. uc_email r = email) (users d)))"

definition UserRepo_GetByOIDC :: "string \<Rightarrow> string \<Rightarrow> ('z world_scheme, User) action" where
  "UserRepo_GetByOIDC provider subject =
     queryRow (\<lambda>d. map_option scanUser
       (find (\<lambda>r. uc_oidc_provider r = Some provider \<and> uc_oidc_subject r = Some subject) (users d)))"

definition UserRepo_Update :: "int \<Rightarrow> User \<Rightarrow> ('z world_scheme, unit) action" where
  "UserRepo_Update now u =
     require_rows (stmt (update_user (u_ID u) (\<lambda>_. True)
       (\<lambda>r. r\<lparr>uc_email := u_Email u, uc_role := u_Role u, uc_oidc_provider := nullIfEmpty (u_OIDCProvider u),
              uc_oidc_subject := nullIfEmpty (u_OIDCSubject u), uc_disabled := u_Disabled u, uc_updated_at := now\<rparr>)))"

definition UserRepo_SetRole :: "int \<Rightarrow> string \<Rightarrow> string \<Rightarrow> ('z world_scheme, unit) action" where
  "UserRepo_SetRole now i role =
     require_rows (stmt (update_user i (\<lambda>_. True) (\<lambda>r. r\<lparr>uc_role := role, uc_updated_at := now\<rparr>)))"

definition UserRepo_LinkOIDC :: "int \<Rightarrow> User \<Rightarrow> string \<Rightarrow> string \<Rightarrow> string \<Rightarrow> ('z world_scheme, unit) action" where
  "UserRepo_LinkOIDC now matched canonical provider subject =
     bindE (stmt (update_user (u_ID matched)
        (\<lambda>r. uc_email r = u_Email matched \<and> uc_role r = u_Role matched \<and> uc_oidc_subject r = None)
        (\<lambda>r. r\<lparr>uc_email := canonical, uc_oidc_provider := Some provider, uc_oidc_subject := Some subject,
               uc_updated_at := now\<rparr>)))
       (\<lambda>n. if n = 0 then fail ErrConflict else ret ())"

definition UserRepo_SetDisabled :: "int \<Rightarrow> string \<Rightarrow> bool \<Rightarrow> ('z world_scheme, unit) action" where
  "UserRepo_SetDisabled now i disabled =
     require_rows (stmt (update_user i (\<lambda>_. True) (\<lambda>r. r\<lparr>uc_disabled := disabled, uc_updated_at := now\<rparr>)))"

definition delete_user :: "string \<Rightarrow> database \<Rightarrow> nat \<times> database" where
  "delete_user i d =
     (let devs = dc_id ` set (filter (\<lambda>r. dc_user_id r = i) (devices d)) in
      (length (filter (\<lambda>r. uc_id r = i) (users d)),
       d\<lparr>users := filter (\<lambda>r. uc_id r \<noteq> i) (users d),
         sessions := filter (\<lambda>r. ss_user_id r \<noteq> i) (sessions d),
         devices := filter (\<lambda>r. dc_user_id r \<noteq> i) (devices d),
         ip_history := filter (\<lambda>r. hc_device_id r \<notin> devs) (ip_history d),
         enrollment_codes :=
           upd_where (\<lambda>c. \<exists>k \<in> devs. ec_device_id c = Some k) (\<lambda>c. c\<lparr>ec_device_id := None\<rparr>)
             (filter (\<lambda>c. ec_user_id c \<noteq> i) (enrollment_codes d)),
         webauthn_credentials := filter (\<lambda>r. wc_user_id r \<noteq> i) (webauthn_credentials d),
         account_recovery_tokens := filter (\<lambda>r. rt_user_id r \<noteq> i) (account_recovery_tokens d),
         api_keys := filter (\<lambda>r. ak_user_id r \<noteq> i) (api_keys d),
         feed_tokens := upd_where (\<lambda>t. ft_created_by t = Some i) (\<lambda>t. t\<lparr>ft_created_by := None\<rparr>) (feed_tokens d)\<rparr>))"

definition UserRepo_Delete :: "string \<Rightarrow> ('z world_scheme, unit) action" where
  "UserRepo_Delete i = require_rows (exec (\<lambda>d. if i \<in> uc_id ` set (users d) then delete_user i d else (0, d)))"

definition UserRepo_SetWebAuthnHandle :: "string \<Rightarrow> string \<Rightarrow> ('z world_scheme, unit) action" where
  "UserRepo_SetWebAuthnHandle userID handle =
     require_rows (stmt (update_user userID (\<lambda>_. True) (\<lambda>r. r\<lparr>uc_webauthn_handle := Some handle\<rparr>)))"

definition UserRepo_GetByWebAuthnHandle :: "string \<Rightarrow> ('z world_scheme, User) action" where
  "UserRepo_GetByWebAuthnHandle handle =
     (if handle = '''' then fail ErrNotFound
      else queryRow (\<lambda>d. map_option scanUser (find (\<lambda>r. uc_webauthn_handle r = Some handle) (users d))))"

text \<open>The result \<open>None\<close> is Go's nil slice.\<close>

definition UserRepo_GetWebAuthnHandle :: "string \<Rightarrow> ('z world_scheme, string option) action" where
  "UserRepo_GetWebAuthnHandle userID = queryRow (\<lambda>d. map_option uc_webauthn_handle (find_user userID d))"

section \<open>Pending addresses\<close>

definition clear_pending :: "user_row \<Rightarrow> user_row" where
  "clear_pending r =
     r\<lparr>uc_pending_email := None, uc_pending_email_hash := None, uc_pending_email_expires_at := None\<rparr>"

definition UserRepo_SetPendingEmail :: "string \<Rightarrow> string \<Rightarrow> string \<Rightarrow> int \<Rightarrow> ('z world_scheme, unit) action" where
  "UserRepo_SetPendingEmail userID newEmail tokenHash expiresAt =
     (if newEmail = '''' then fail (ErrSentinel ''newEmail must not be empty'')
      else require_rows (stmt (update_user userID (\<lambda>_. True)
        (\<lambda>r. r\<lparr>uc_pending_email := Some newEmail, uc_pending_email_hash := Some tokenHash,
               uc_pending_email_expires_at := Some expiresAt\<rparr>))))"

definition UserRepo_ClearPendingEmail :: "string \<Rightarrow> ('z world_scheme, unit) action" where
  "UserRepo_ClearPendingEmail userID = require_rows (stmt (update_user userID (\<lambda>_. True) clear_pending))"

text \<open>The WHERE clause of the confirmation: a comparison with NULL is never true.\<close>

definition confirmable :: "string \<Rightarrow> int \<Rightarrow> user_row \<Rightarrow> bool" where
  "confirmable tokenHash now r \<longleftrightarrow>
     uc_pending_email r \<noteq> None \<and> uc_pending_email_hash r = Some tokenHash \<and>
     (case uc_pending_email_expires_at r of None \<Rightarrow> False | Some e \<Rightarrow> now < e)"

definition UserRepo_ConfirmPendingEmail :: "string \<Rightarrow> string \<Rightarrow> int \<Rightarrow> ('z world_scheme, unit) action" where
  "UserRepo_ConfirmPendingEmail userID tokenHash now =
     require_rows (stmt (update_user userID (confirmable tokenHash now)
       (\<lambda>r. (clear_pending r)\<lparr>uc_email := scanString (uc_pending_email r), uc_updated_at := now\<rparr>)))"

definition UserRepo_SetEmail :: "string \<Rightarrow> string \<Rightarrow> int \<Rightarrow> ('z world_scheme, unit) action" where
  "UserRepo_SetEmail userID email now =
     (if email = '''' then fail (ErrSentinel ''email must not be empty'')
      else require_rows (stmt (update_user userID (\<lambda>_. True)
        (\<lambda>r. (clear_pending r)\<lparr>uc_email := email, uc_updated_at := now\<rparr>))))"

definition pending_expired :: "int \<Rightarrow> user_row \<Rightarrow> bool" where
  "pending_expired now r \<longleftrightarrow> (case uc_pending_email_expires_at r of None \<Rightarrow> False | Some e \<Rightarrow> e < now)"

definition UserRepo_ClearExpiredPendingEmails :: "int \<Rightarrow> ('z world_scheme, nat) action" where
  "UserRepo_ClearExpiredPendingEmails now =
     exec (\<lambda>d. (length (filter (pending_expired now) (users d)),
                d\<lparr>users := upd_where (pending_expired now) clear_pending (users d)\<rparr>))"

end
