(* ===== verification/Store_Accounts.thy ===== *)
theory Store_Accounts
  imports Store_Users
begin

text \<open>
  The login and account tables of \<open>internal/store\<close>: browser sessions (sessions.go), enrollment codes
  (enrollment_codes.go), registration grants (account_recovery.go), pending OIDC device flows
  (oidc_device_flows.go), API keys (api_keys.go), passkeys (webauthn_credentials.go) and the bootstrap
  record (bootstrap.go). Every repository method is one definition.
\<close>

section \<open>Sessions\<close>

record Session =
  se_ID :: string
  se_UserID :: string
  se_CSRFToken :: string
  se_IP :: string
  se_UserAgent :: string
  se_CreatedAt :: int
  se_LastSeenAt :: int
  se_ExpiresAt :: int

definition scanSession :: "session_row \<Rightarrow> Session" where
  "scanSession r =
     \<lparr> se_ID = ss_id r, se_UserID = ss_user_id r, se_CSRFToken = ss_csrf_token r, se_IP = scanString (ss_ip r),
       se_UserAgent = scanString (ss_user_agent r), se_CreatedAt = ss_created_at r,
       se_LastSeenAt = ss_last_seen_at r, se_ExpiresAt = ss_expires_at r \<rparr>"

text \<open>\<open>Create\<close> does not look for a UNIQUE violation: a taken id is an error like any other constraint.\<close>

definition insert_session :: "session_row \<Rightarrow> database \<Rightarrow> (err + unit) \<times> database" where
  "insert_session r d =
     (if ss_id r \<in> ss_id ` set (sessions d) \<or> ss_user_id r \<notin> uc_id ` set (users d) then (Inl ErrConstraint, d)
      else (Inr (), d\<lparr>sessions := sessions d @ [r]\<rparr>))"

definition SessionRepo_Create :: "string \<Rightarrow> int \<Rightarrow> Session \<Rightarrow> ('z world_scheme, Session) action" where
  "SessionRepo_Create newID now s =
     (let s1 = (if se_ID s = '''' then s\<lparr>se_ID := newID\<rparr> else s);
          s2 = s1\<lparr>se_CreatedAt := now\<rparr>;
          s3 = (if se_LastSeenAt s2 = 0 then s2\<lparr>se_LastSeenAt := now\<rparr> else s2)
      in bindE (stmt (insert_session
           \<lparr> ss_id = se_ID s3, ss_user_id = se_UserID s3, ss_csrf_token = se_CSRFToken s3,
             ss_ip = nullIfEmpty (se_IP s3), ss_user_agent = nullIfEmpty (se_UserAgent s3),
             ss_created_at = se_CreatedAt s3, ss_last_seen_at = se_LastSeenAt s3, ss_expires_at = se_ExpiresAt s3 \<rparr>))
         (\<lambda>_. ret s3))"

definition find_session :: "string \<Rightarrow> database \<Rightarrow> session_row option" where
  "find_session i d = find (\<lambda>r. ss_id r = i) (sessions d)"

definition SessionRepo_GetByID :: "string \<Rightarrow> ('z world_scheme, Session) action" where
  "SessionRepo_GetByID i = queryRow (\<lambda>d. map_option scanSession (find_session i d))"

definition SessionRepo_Touch :: "int \<Rightarrow> string \<Rightarrow> int \<Rightarrow> ('z world_scheme, unit) action" where
  "SessionRepo_Touch now i expiresAt =
     require_rows (exec (\<lambda>d. (length (filter (\<lambda>r. ss_id r = i) (sessions d)),
       d\<lparr>sessions := upd_where (\<lambda>r. ss_id r = i) (\<lambda>r. r\<lparr>ss_last_seen_at := now, ss_expires_at := expiresAt\<rparr>) (sessions d)\<rparr>)))"

text \<open>The DELETE statements on this table, with the number of rows they remove.\<close>

definition delete_sessions :: "(session_row \<Rightarrow> bool) \<Rightarrow> database \<Rightarrow> nat \<times> database" where
  "delete_sessions P d = (length (filter P (sessions d)), d\<lparr>sessions := filter (\<lambda>r. \<not> P r) (sessions d)\<rparr>)"

definition SessionRepo_Delete :: "string \<Rightarrow> ('z world_scheme, unit) action" where
  "SessionRepo_Delete i = require_rows (exec (delete_sessions (\<lambda>r. ss_id r = i)))"

definition SessionRepo_DeleteByUser :: "string \<Rightarrow> ('z world_scheme, nat) action" where
  "SessionRepo_DeleteByUser userID = exec (delete_sessions (\<lambda>r. ss_user_id r = userID))"

definition SessionRepo_PruneExpired :: "int \<Rightarrow> ('z world_scheme, nat) action" where
  "SessionRepo_PruneExpired now = exec (delete_sessions (\<lambda>r. ss_expires_at r < now))"

section \<open>Enrollment codes\<close>

record EnrollmentCode =
  co_Code :: string
  co_UserID :: string
  co_Label :: string
  co_ExpiresAt :: int
  co_UsedAt :: int
  co_DeviceID :: string

definition scanEnrollmentCode :: "enrollment_code_row \<Rightarrow> EnrollmentCode" where
  "scanEnrollmentCode r =
     \<lparr> co_Code = ec_code r, co_UserID = ec_user_id r, co_Label = ec_label r, co_ExpiresAt = ec_expires_at r,
       co_UsedAt = scanInt64 (ec_used_at r), co_DeviceID = scanString (ec_device_id r) \<rparr>"

definition insert_code :: "EnrollmentCode \<Rightarrow> database \<Rightarrow> (err + unit) \<times> database" where
  "insert_code c d =
     (if co_Code c \<in> ec_code ` set (enrollment_codes d) then (Inl ErrConflict, d)
      else if co_UserID c \<notin> uc_id ` set (users d) \<or>
              (co_DeviceID c \<noteq> '''' \<and> co_DeviceID c \<notin> dc_id ` set (devices d)) then (Inl ErrConstraint, d)
      else (Inr (), d\<lparr>enrollment_codes := enrollment_codes d @
              [\<lparr> ec_code = co_Code c, ec_user_id = co_UserID c, ec_label = co_Label c, ec_expires_at = co_ExpiresAt c,
                 ec_used_at = nullIfZero (co_UsedAt c), ec_device_id = nullIfEmpty (co_DeviceID c) \<rparr>]\<rparr>))"

definition EnrollmentCodeRepo_Create :: "EnrollmentCode \<Rightarrow> ('z world_scheme, EnrollmentCode) action" where
  "EnrollmentCodeRepo_Create c = bindE (stmt (insert_code c)) (\<lambda>_. ret c)"

definition find_code :: "string \<Rightarrow> database \<Rightarrow> enrollment_code_row option" where
  "find_code code d = find (\<lambda>r. ec_code r = code) (enrollment_codes d)"

definition EnrollmentCodeRepo_Get :: "string \<Rightarrow> ('z world_scheme, EnrollmentCode) action" where
  "EnrollmentCodeRepo_Get code = queryRow (\<lambda>d. map_option scanEnrollmentCode (find_code code d))"

text \<open>
  The single-use gate: one conditional UPDATE. A row that it would point at a device that does not
  exist violates the foreign key.
\<close>

definition redeemable :: "string \<Rightarrow> int \<Rightarrow> enrollment_code_row \<Rightarrow> bool" where
  "redeemable code now r \<longleftrightarrow> ec_code r = code \<and> ec_used_at r = None \<and> now < ec_expires_at r"

definition consume_code :: "string \<Rightarrow> string \<Rightarrow> int \<Rightarrow> database \<Rightarrow> (err + nat) \<times> database" where
  "consume_code code deviceID now d =
     (let n = length (filter (redeemable code now) (enrollment_codes d)) in
      if n \<noteq> 0 \<and> deviceID \<notin> dc_id ` set (devices d) then (Inl ErrConstraint, d)
      else (Inr n, d\<lparr>enrollment_codes := upd_where (redeemable code now)
              (\<lambda>r. r\<lparr>ec_used_at := Some now, ec_device_id := Some deviceID\<rparr>) (enrollment_codes d)\<rparr>))"

definition EnrollmentCodeRepo_Consume :: "string \<Rightarrow> string \<Rightarrow> int \<Rightarrow> ('z world_scheme, EnrollmentCode) action" where
  "EnrollmentCodeRepo_Consume code deviceID now =
     bindE (require_rows (stmt (consume_code code deviceID now))) (\<lambda>_. EnrollmentCodeRepo_Get code)"

definition EnrollmentCodeRepo_PruneExpired :: "int \<Rightarrow> ('z world_scheme, nat) action" where
  "EnrollmentCodeRepo_PruneExpired now =
     exec (\<lambda>d. (length (filter (\<lambda>r. ec_expires_at r < now) (enrollment_codes d)),
       d\<lparr>enrollment_codes := filter (\<lambda>r. \<not> ec_expires_at r < now) (enrollment_codes d)\<rparr>))"

section \<open>Registration grants\<close>

record RecoveryToken =
  ro_TokenHash :: string
  ro_UserID :: string
  ro_Reason :: string
  ro_ExpiresAt :: int
  ro_UsedAt :: int

definition scanRecoveryToken :: "recovery_row \<Rightarrow> RecoveryToken" where
  "scanRecoveryToken r =
     \<lparr> ro_TokenHash = rt_token_hash r, ro_UserID = rt_user_id r, ro_Reason = rt_reason r,
       ro_ExpiresAt = rt_expires_at r, ro_UsedAt = scanInt64 (rt_used_at r) \<rparr>"

definition insert_recovery :: "RecoveryToken \<Rightarrow> database \<Rightarrow> (err + unit) \<times> database" where
  "insert_recovery t d =
     (if ro_TokenHash t \<in> rt_token_hash ` set (account_recovery_tokens d) then (Inl ErrConflict, d)
      else if ro_UserID t \<notin> uc_id ` set (users d) then (Inl ErrConstraint, d)
      else (Inr (), d\<lparr>account_recovery_tokens := account_recovery_tokens d @
              [\<lparr> rt_token_hash = ro_TokenHash t, rt_user_id = ro_UserID t, rt_reason = ro_Reason t,
                 rt_expires_at = ro_ExpiresAt t, rt_used_at = nullIfZero (ro_UsedAt t) \<rparr>]\<rparr>))"

definition AccountRecoveryRepo_Create :: "RecoveryToken \<Rightarrow> ('z world_scheme, unit) action" where
  "AccountRecoveryRepo_Create t = stmt (insert_recovery t)"

definition find_recovery :: "string \<Rightarrow> database \<Rightarrow> recovery_row option" where
  "find_recovery h d = find (\<lambda>r. rt_token_hash r = h) (account_recovery_tokens d)"

definition AccountRecoveryRepo_Get :: "string \<Rightarrow> ('z world_scheme, RecoveryToken) action" where
  "AccountRecoveryRepo_Get h = queryRow (\<lambda>d. map_option scanRecoveryToken (find_recovery h d))"

definition grant_live :: "int \<Rightarrow> recovery_row \<Rightarrow> bool" where
  "grant_live now r \<longleftrightarrow> rt_used_at r = None \<and> now < rt_expires_at r"

definition consume_recovery :: "string \<Rightarrow> int \<Rightarrow> database \<Rightarrow> nat \<times> database" where
  "consume_recovery h now d =
     (length (filter (\<lambda>r. rt_token_hash r = h \<and> grant_live now r) (account_recovery_tokens d)),
      d\<lparr>account_recovery_tokens := upd_where (\<lambda>r. rt_token_hash r = h \<and> grant_live now r)
          (\<lambda>r. r\<lparr>rt_used_at := Some now\<rparr>) (account_recovery_tokens d)\<rparr>)"

definition AccountRecoveryRepo_Consume :: "string \<Rightarrow> int \<Rightarrow> ('z world_scheme, RecoveryToken) action" where
  "AccountRecoveryRepo_Consume h now =
     bindE (require_rows (exec (consume_recovery h now))) (\<lambda>_. AccountRecoveryRepo_Get h)"

definition delete_recovery :: "(recovery_row \<Rightarrow> bool) \<Rightarrow> database \<Rightarrow> nat \<times> database" where
  "delete_recovery P d =
     (length (filter P (account_recovery_tokens d)),
      d\<lparr>account_recovery_tokens := filter (\<lambda>r. \<not> P r) (account_recovery_tokens d)\<rparr>)"

definition AccountRecoveryRepo_PruneExpired :: "int \<Rightarrow> ('z world_scheme, nat) action" where
  "AccountRecoveryRepo_PruneExpired now = exec (delete_recovery (\<lambda>r. rt_expires_at r < now))"

definition AccountRecoveryRepo_DeleteUnusedByUser :: "string \<Rightarrow> ('z world_scheme, nat) action" where
  "AccountRecoveryRepo_DeleteUnusedByUser userID =
     exec (delete_recovery (\<lambda>r. rt_user_id r = userID \<and> rt_used_at r = None))"

record LiveGrant =
  lg_Reason :: string
  lg_ExpiresAt :: int

text \<open>\<open>ORDER BY user_id, expires_at DESC, reason = 'recovery' DESC\<close>, then the first row per user.\<close>

definition grant_order :: "recovery_row list \<Rightarrow> recovery_row list" where
  "grant_order rs =
     sort_key rt_user_id (sort_key (\<lambda>r. - rt_expires_at r) (sort_key (\<lambda>r. rt_reason r \<noteq> ''recovery'') rs))"

fun first_per_user :: "recovery_row list \<Rightarrow> (string \<Rightarrow> LiveGrant option) \<Rightarrow> string \<Rightarrow> LiveGrant option" where
  "first_per_user [] seen = seen"
| "first_per_user (r # rs) seen =
     first_per_user rs
       (if seen (rt_user_id r) = None
        then seen(rt_user_id r \<mapsto> \<lparr> lg_Reason = rt_reason r, lg_ExpiresAt = rt_expires_at r \<rparr>) else seen)"

definition AccountRecoveryRepo_LiveByUser :: "int \<Rightarrow> ('z world_scheme, string \<Rightarrow> LiveGrant option) action" where
  "AccountRecoveryRepo_LiveByUser now =
     query (\<lambda>d. first_per_user (grant_order (filter (grant_live now) (account_recovery_tokens d))) (\<lambda>_. None))"

section \<open>OIDC device flows\<close>

record OIDCDeviceFlow =
  of_FlowID :: string
  of_DeviceCode :: string
  of_Interval :: int
  of_ExpiresAt :: int
  of_LastPolledAt :: int
  of_CreatedAt :: int

definition scanOIDCDeviceFlow :: "flow_row \<Rightarrow> OIDCDeviceFlow" where
  "scanOIDCDeviceFlow r =
     \<lparr> of_FlowID = fl_flow_id r, of_DeviceCode = fl_device_code r, of_Interval = fl_interval r,
       of_ExpiresAt = fl_expires_at r, of_LastPolledAt = fl_last_polled_at r, of_CreatedAt = fl_created_at r \<rparr>"

definition OIDCDeviceFlowRepo_Create :: "OIDCDeviceFlow \<Rightarrow> ('z world_scheme, OIDCDeviceFlow) action" where
  "OIDCDeviceFlowRepo_Create f =
     bindE (stmt (\<lambda>d.
       if of_FlowID f \<in> fl_flow_id ` set (oidc_device_flows d) then (Inl ErrConflict, d)
       else (Inr (), d\<lparr>oidc_device_flows := oidc_device_flows d @
               [\<lparr> fl_flow_id = of_FlowID f, fl_device_code = of_DeviceCode f, fl_interval = of_Interval f,
                  fl_expires_at = of_ExpiresAt f, fl_last_polled_at = of_LastPolledAt f, fl_created_at = of_CreatedAt f \<rparr>]\<rparr>)))
       (\<lambda>_. ret f)"

definition OIDCDeviceFlowRepo_Get :: "string \<Rightarrow> ('z world_scheme, OIDCDeviceFlow) action" where
  "OIDCDeviceFlowRepo_Get flowID =
     queryRow (\<lambda>d. map_option scanOIDCDeviceFlow (find (\<lambda>r. fl_flow_id r = flowID) (oidc_device_flows d)))"

definition update_flows :: "(flow_row \<Rightarrow> bool) \<Rightarrow> (flow_row \<Rightarrow> flow_row) \<Rightarrow> database \<Rightarrow> nat \<times> database" where
  "update_flows P f d =
     (length (filter P (oidc_device_flows d)), d\<lparr>oidc_device_flows := upd_where P f (oidc_device_flows d)\<rparr>)"

definition pollable :: "string \<Rightarrow> int \<Rightarrow> flow_row \<Rightarrow> bool" where
  "pollable flowID now r \<longleftrightarrow>
     fl_flow_id r = flowID \<and> now < fl_expires_at r \<and> fl_interval r \<le> now - fl_last_polled_at r"

definition OIDCDeviceFlowRepo_TryPoll :: "string \<Rightarrow> int \<Rightarrow> ('z world_scheme, OIDCDeviceFlow \<times> bool) action" where
  "OIDCDeviceFlowRepo_TryPoll flowID now =
     bindE (exec (update_flows (pollable flowID now) (\<lambda>r. r\<lparr>fl_last_polled_at := now\<rparr>))) (\<lambda>n.
     bindE (OIDCDeviceFlowRepo_Get flowID) (\<lambda>f.
       if of_ExpiresAt f \<le> now then fail ErrNotFound else ret (f, n = 1)))"

definition OIDCDeviceFlowRepo_BumpInterval :: "string \<Rightarrow> int \<Rightarrow> ('z world_scheme, unit) action" where
  "OIDCDeviceFlowRepo_BumpInterval flowID delta =
     bindE (exec (update_flows (\<lambda>r. fl_flow_id r = flowID) (\<lambda>r. r\<lparr>fl_interval := fl_interval r + delta\<rparr>))) (\<lambda>_. ret ())"

definition delete_flows :: "(flow_row \<Rightarrow> bool) \<Rightarrow> database \<Rightarrow> nat \<times> database" where
  "delete_flows P d =
     (length (filter P (oidc_device_flows d)), d\<lparr>oidc_device_flows := filter (\<lambda>r. \<not> P r) (oidc_device_flows d)\<rparr>)"

definition OIDCDeviceFlowRepo_Delete :: "string \<Rightarrow> ('z world_scheme, unit) action" where
  "OIDCDeviceFlowRepo_Delete flowID = bindE (exec (delete_flows (\<lambda>r. fl_flow_id r = flowID))) (\<lambda>_. ret ())"

definition OIDCDeviceFlowRepo_PruneExpired :: "int \<Rightarrow> ('z world_scheme, nat) action" where
  "OIDCDeviceFlowRepo_PruneExpired now = exec (delete_flows (\<lambda>r. fl_expires_at r \<le> now))"

section \<open>API keys\<close>

record APIKey =
  kk_ID :: string
  kk_UserID :: string
  kk_Label :: string
  kk_KeyHash :: string
  kk_AdminScope :: bool
  kk_CreatedAt :: int
  kk_LastUsedAt :: int

definition APIKeyPrefix :: string where "APIKeyPrefix = ''dak_''"

definition scanAPIKey :: "api_key_row \<Rightarrow> APIKey" where
  "scanAPIKey r =
     \<lparr> kk_ID = ak_id r, kk_UserID = ak_user_id r, kk_Label = ak_label r, kk_KeyHash = ak_key_hash r,
       kk_AdminScope = ak_admin_scope r, kk_CreatedAt = ak_created_at r, kk_LastUsedAt = scanInt64 (ak_last_used_at r) \<rparr>"

definition insert_key :: "APIKey \<Rightarrow> database \<Rightarrow> (err + unit) \<times> database" where
  "insert_key k d =
     (if \<exists>r \<in> set (api_keys d). ak_id r = kk_ID k \<or> ak_key_hash r = kk_KeyHash k \<or>
                               (ak_user_id r = kk_UserID k \<and> ak_label r = kk_Label k)
      then (Inl ErrConflict, d)
      else if kk_UserID k \<notin> uc_id ` set (users d) then (Inl ErrConstraint, d)
      else (Inr (), d\<lparr>api_keys := api_keys d @
              [\<lparr> ak_id = kk_ID k, ak_user_id = kk_UserID k, ak_label = kk_Label k, ak_key_hash = kk_KeyHash k,
                 ak_admin_scope = kk_AdminScope k, ak_created_at = kk_CreatedAt k, ak_last_used_at = None \<rparr>]\<rparr>))"

definition APIKeyRepo_Create :: "APIKey \<Rightarrow> ('z world_scheme, unit) action" where
  "APIKeyRepo_Create k = stmt (insert_key k)"

definition APIKeyRepo_GetByHash :: "string \<Rightarrow> ('z world_scheme, APIKey) action" where
  "APIKeyRepo_GetByHash hash = queryRow (\<lambda>d. map_option scanAPIKey (find (\<lambda>r. ak_key_hash r = hash) (api_keys d)))"

definition APIKeyRepo_GetByID :: "string \<Rightarrow> ('z world_scheme, APIKey) action" where
  "APIKeyRepo_GetByID i = queryRow (\<lambda>d. map_option scanAPIKey (find (\<lambda>r. ak_id r = i) (api_keys d)))"

definition APIKeyRepo_List :: "string \<Rightarrow> ('z world_scheme, APIKey list) action" where
  "APIKeyRepo_List userID =
     query (\<lambda>d. map scanAPIKey (sort_key ak_created_at (sort_key ak_id
       (filter (\<lambda>r. ak_user_id r = userID) (api_keys d)))))"

definition APIKeyRepo_Delete :: "string \<Rightarrow> ('z world_scheme, unit) action" where
  "APIKeyRepo_Delete i =
     require_rows (exec (\<lambda>d. (length (filter (\<lambda>r. ak_id r = i) (api_keys d)),
       d\<lparr>api_keys := filter (\<lambda>r. ak_id r \<noteq> i) (api_keys d)\<rparr>)))"

definition APIKeyRepo_TouchLastUsed :: "string \<Rightarrow> int \<Rightarrow> ('z world_scheme, unit) action" where
  "APIKeyRepo_TouchLastUsed i now =
     bindE (exec (\<lambda>d. (length (filter (\<lambda>r. ak_id r = i) (api_keys d)),
       d\<lparr>api_keys := upd_where (\<lambda>r. ak_id r = i) (\<lambda>r. r\<lparr>ak_last_used_at := Some now\<rparr>) (api_keys d)\<rparr>))) (\<lambda>_. ret ())"

section \<open>Passkeys\<close>

record WebAuthnCredential =
  cd_CredentialID :: string
  cd_UserID :: string
  cd_CredentialJSON :: string
  cd_Name :: string
  cd_AAGUID :: "string option"
  cd_CreatedAt :: int
  cd_LastUsedAt :: int

definition scanWebAuthnCredential :: "credential_row \<Rightarrow> WebAuthnCredential" where
  "scanWebAuthnCredential r =
     \<lparr> cd_CredentialID = wc_credential_id r, cd_UserID = wc_user_id r, cd_CredentialJSON = wc_credential_json r,
       cd_Name = wc_name r, cd_AAGUID = wc_aaguid r, cd_CreatedAt = wc_created_at r,
       cd_LastUsedAt = scanInt64 (wc_last_used_at r) \<rparr>"

definition insert_credential :: "WebAuthnCredential \<Rightarrow> database \<Rightarrow> (err + unit) \<times> database" where
  "insert_credential c d =
     (if cd_CredentialID c \<in> wc_credential_id ` set (webauthn_credentials d) then (Inl ErrConflict, d)
      else if cd_UserID c \<notin> uc_id ` set (users d) then (Inl ErrConstraint, d)
      else (Inr (), d\<lparr>webauthn_credentials := webauthn_credentials d @
              [\<lparr> wc_credential_id = cd_CredentialID c, wc_user_id = cd_UserID c, wc_credential_json = cd_CredentialJSON c,
                 wc_name = cd_Name c, wc_aaguid = cd_AAGUID c, wc_created_at = cd_CreatedAt c,
                 wc_last_used_at = nullIfZero (cd_LastUsedAt c) \<rparr>]\<rparr>))"

definition WebAuthnCredentialRepo_Create :: "WebAuthnCredential \<Rightarrow> ('z world_scheme, WebAuthnCredential) action" where
  "WebAuthnCredentialRepo_Create c = bindE (stmt (insert_credential c)) (\<lambda>_. ret c)"

definition WebAuthnCredentialRepo_GetByID :: "string \<Rightarrow> ('z world_scheme, WebAuthnCredential) action" where
  "WebAuthnCredentialRepo_GetByID i =
     queryRow (\<lambda>d. map_option scanWebAuthnCredential (find (\<lambda>r. wc_credential_id r = i) (webauthn_credentials d)))"

definition WebAuthnCredentialRepo_ListByUser :: "string \<Rightarrow> ('z world_scheme, WebAuthnCredential list) action" where
  "WebAuthnCredentialRepo_ListByUser userID =
     query (\<lambda>d. map scanWebAuthnCredential (sort_key wc_created_at
       (filter (\<lambda>r. wc_user_id r = userID) (webauthn_credentials d))))"

definition update_credential :: "string \<Rightarrow> (credential_row \<Rightarrow> credential_row) \<Rightarrow> database \<Rightarrow> nat \<times> database" where
  "update_credential i f d =
     (length (filter (\<lambda>r. wc_credential_id r = i) (webauthn_credentials d)),
      d\<lparr>webauthn_credentials := upd_where (\<lambda>r. wc_credential_id r = i) f (webauthn_credentials d)\<rparr>)"

definition WebAuthnCredentialRepo_Rename :: "string \<Rightarrow> string \<Rightarrow> ('z world_scheme, unit) action" where
  "WebAuthnCredentialRepo_Rename i name = require_rows (exec (update_credential i (\<lambda>r. r\<lparr>wc_name := name\<rparr>)))"

definition delete_credentials :: "(credential_row \<Rightarrow> bool) \<Rightarrow> database \<Rightarrow> nat \<times> database" where
  "delete_credentials P d =
     (length (filter P (webauthn_credentials d)),
      d\<lparr>webauthn_credentials := filter (\<lambda>r. \<not> P r) (webauthn_credentials d)\<rparr>)"

definition WebAuthnCredentialRepo_Delete :: "string \<Rightarrow> ('z world_scheme, unit) action" where
  "WebAuthnCredentialRepo_Delete i = require_rows (exec (delete_credentials (\<lambda>r. wc_credential_id r = i)))"

definition WebAuthnCredentialRepo_DeleteAllByUser :: "string \<Rightarrow> ('z world_scheme, nat) action" where
  "WebAuthnCredentialRepo_DeleteAllByUser userID = exec (delete_credentials (\<lambda>r. wc_user_id r = userID))"

definition WebAuthnCredentialRepo_Update :: "WebAuthnCredential \<Rightarrow> ('z world_scheme, unit) action" where
  "WebAuthnCredentialRepo_Update c =
     require_rows (exec (update_credential (cd_CredentialID c)
       (\<lambda>r. r\<lparr>wc_credential_json := cd_CredentialJSON c, wc_last_used_at := nullIfZero (cd_LastUsedAt c)\<rparr>)))"

definition CountWebAuthnCredentials :: "string \<Rightarrow> ('z world_scheme, nat) action" where
  "CountWebAuthnCredentials userID =
     query (\<lambda>d. length (filter (\<lambda>r. wc_user_id r = userID) (webauthn_credentials d)))"

definition CountAllByUser :: "('z world_scheme, string \<Rightarrow> nat option) action" where
  "CountAllByUser =
     query (\<lambda>d u. let n = length (filter (\<lambda>r. wc_user_id r = u) (webauthn_credentials d)) in
                  if n = 0 then None else Some n)"

section \<open>The bootstrap record\<close>

record BootstrapState =
  bo_TokenHash :: string
  bo_CreatedAt :: int
  bo_ConsumedAt :: int

definition BootstrapRepo_Get :: "('z world_scheme, BootstrapState) action" where
  "BootstrapRepo_Get =
     queryRow (\<lambda>d. map_option (\<lambda>r. \<lparr> bo_TokenHash = scanString (bs_token_hash r), bo_CreatedAt = bs_created_at r,
                                     bo_ConsumedAt = scanInt64 (bs_consumed_at r) \<rparr>) (bootstrap d))"

definition BootstrapRepo_SetTokenHash :: "int \<Rightarrow> string \<Rightarrow> ('z world_scheme, unit) action" where
  "BootstrapRepo_SetTokenHash now tokenHash =
     bindE (exec (\<lambda>d. (1, d\<lparr>bootstrap := Some \<lparr> bs_token_hash = nullIfEmpty tokenHash, bs_created_at = now,
                                              bs_consumed_at = None \<rparr>\<rparr>))) (\<lambda>_. ret ())"

definition consume_bootstrap :: "int \<Rightarrow> database \<Rightarrow> nat \<times> database" where
  "consume_bootstrap now d =
     (case bootstrap d of
        None \<Rightarrow> (0, d)
      | Some r \<Rightarrow> if bs_consumed_at r = None
                  then (1, d\<lparr>bootstrap := Some (r\<lparr>bs_token_hash := None, bs_consumed_at := Some now\<rparr>)\<rparr>)
                  else (0, d))"

definition BootstrapRepo_Consume :: "int \<Rightarrow> ('z world_scheme, unit) action" where
  "BootstrapRepo_Consume now = require_rows (exec (consume_bootstrap now))"

end
