(* ===== verification/Account_Inv.thy ===== *)
theory Account_Inv
  imports Store_Accounts
begin

text \<open>
  The invariant of the account tables: keys are unique, every row points at an existing account,
  no two accounts share an email, an OIDC identity or a WebAuthn handle, a pending address has all
  three of its columns or none, and a consumed bootstrap record holds no token. Every operation of
  \<open>Store_Users\<close> and \<open>Store_Accounts\<close> keeps it, together with the invariant of the device tables.
\<close>

section \<open>The invariant\<close>

abbreviation user_ids :: "database \<Rightarrow> string set" where
  "user_ids d \<equiv> uc_id ` set (users d)"

definition pending_whole :: "user_row \<Rightarrow> bool" where
  "pending_whole r \<longleftrightarrow>
     (uc_pending_email r = None \<longleftrightarrow> uc_pending_email_expires_at r = None) \<and>
     (uc_pending_email r = None \<longleftrightarrow> uc_pending_email_hash r = None)"

definition wf_identity :: "database \<Rightarrow> bool" where
  "wf_identity d \<longleftrightarrow>
     (\<forall>r \<in> set (users d). role_ok (uc_role r) \<and> pending_whole r) \<and>
     (\<forall>r \<in> set (users d). \<forall>s \<in> set (users d). uc_id r \<noteq> uc_id s \<longrightarrow> \<not> user_clash r s)"

definition wf_accounts :: "database \<Rightarrow> bool" where
  "wf_accounts d \<longleftrightarrow>
     distinct (map ss_id (sessions d)) \<and> ss_user_id ` set (sessions d) \<subseteq> user_ids d \<and>
     distinct (map rt_token_hash (account_recovery_tokens d)) \<and> rt_user_id ` set (account_recovery_tokens d) \<subseteq> user_ids d \<and>
     distinct (map fl_flow_id (oidc_device_flows d)) \<and>
     distinct (map ak_id (api_keys d)) \<and> distinct (map ak_key_hash (api_keys d)) \<and>
     distinct (map (\<lambda>r. (ak_user_id r, ak_label r)) (api_keys d)) \<and> ak_user_id ` set (api_keys d) \<subseteq> user_ids d \<and>
     distinct (map wc_credential_id (webauthn_credentials d)) \<and> wc_user_id ` set (webauthn_credentials d) \<subseteq> user_ids d"

definition wf_bootstrap :: "database \<Rightarrow> bool" where
  "wf_bootstrap d \<longleftrightarrow>
     (case bootstrap d of None \<Rightarrow> True | Some r \<Rightarrow> bs_consumed_at r \<noteq> None \<longrightarrow> bs_token_hash r = None)"

definition wf_audit :: "database \<Rightarrow> bool" where
  "wf_audit d \<longleftrightarrow> distinct (map al_id (audit_log d)) \<and> (\<forall>r \<in> set (audit_log d). al_id r \<le> audit_log_seq d)"

definition sound :: "database \<Rightarrow> bool" where
  "sound d \<longleftrightarrow> wf_hist d \<and> wf_identity d \<and> wf_accounts d \<and> wf_bootstrap d \<and> wf_audit d"

lemma follows_at: "follows R m \<Longrightarrow> R (db w) (db (snd (m w)))"
  by (simp add: follows_def)

lemma sound_at: "preserves (on_db sound) m \<Longrightarrow> sound (db w) \<Longrightarrow> sound (db (snd (m w)))"
  by (simp add: preserves_def on_db_def)

section \<open>Updates of the user table\<close>

lemma clash_sym: "user_clash r s \<longleftrightarrow> user_clash s r"
  by (auto simp: user_clash_def same_oidc_def same_handle_def)

lemma hist_agrees_users [simp]: "hist_agrees (d\<lparr>users := us\<rparr>) = hist_agrees d"
  by (simp add: hist_agrees_def recorded_def device_history_def)

text \<open>Anything that keeps the ids and emails of the user table keeps the device invariant.\<close>

lemma wf_hist_users:
  assumes wf: "wf_hist d" and ids: "map uc_id us = map uc_id (users d)" and em: "distinct (map uc_email us)"
  shows "wf_hist (d\<lparr>users := us\<rparr>)"
proof -
  have ids_set: "uc_id ` set us = user_ids d" using ids by (metis set_map)
  show ?thesis
    using wf ids em ids_set
    by (simp add: wf_hist_def wf_db_def wf_table_defs)
qed

lemma emails_distinct:
  assumes "distinct (map uc_id us)"
    and "\<And>r s. r \<in> set us \<Longrightarrow> s \<in> set us \<Longrightarrow> uc_id r \<noteq> uc_id s \<Longrightarrow> uc_email r \<noteq> uc_email s"
  shows "distinct (map uc_email us)"
  using assms by (auto simp: distinct_map inj_on_def)

lemma sound_users:
  assumes s: "sound d" and ids: "map uc_id us = map uc_id (users d)"
    and rows: "\<And>r. r \<in> set us \<Longrightarrow> role_ok (uc_role r) \<and> pending_whole r"
    and clash: "\<And>r s. r \<in> set us \<Longrightarrow> s \<in> set us \<Longrightarrow> uc_id r \<noteq> uc_id s \<Longrightarrow> \<not> user_clash r s"
  shows "sound (d\<lparr>users := us\<rparr>)"
proof -
  have "distinct (map uc_id us)"
    using s ids by (simp add: sound_def wf_hist_def wf_db_def wf_users_def)
  then have em: "distinct (map uc_email us)"
    using clash by (auto intro!: emails_distinct simp: user_clash_def)
  have ids_set: "uc_id ` set us = user_ids d" using ids by (metis set_map)
  show ?thesis
    using s rows clash ids_set wf_hist_users [OF _ ids em]
    by (simp add: sound_def wf_identity_def wf_accounts_def wf_bootstrap_def wf_audit_def)
qed

lemma update_user_sound:
  assumes s: "sound d" and id: "\<And>r. uc_id (f r) = uc_id r"
    and whole: "\<And>r. P r \<Longrightarrow> pending_whole r \<Longrightarrow> pending_whole (f r)"
  shows "sound (snd (update_user i P f d))"
proof -
  let ?Q = "\<lambda>r. uc_id r = i \<and> P r"
  have wf: "wf_identity d" using s by (simp add: sound_def)
  show ?thesis
  proof (cases "snd (update_user i P f d) = d")
    case False
    then have ok: "\<And>r. r \<in> set (users d) \<Longrightarrow> ?Q r \<Longrightarrow> role_ok (uc_role (f r))"
      "\<And>r t. r \<in> set (users d) \<Longrightarrow> ?Q r \<Longrightarrow> t \<in> set (users d) \<Longrightarrow> uc_id t \<noteq> i \<Longrightarrow> \<not> user_clash (f r) t"
      and out: "snd (update_user i P f d) = d\<lparr>users := upd_where ?Q f (users d)\<rparr>"
      by (auto simp: update_user_def Let_def split: if_splits)
    show ?thesis
      unfolding out
    proof (rule sound_users [OF s])
      show "map uc_id (upd_where ?Q f (users d)) = map uc_id (users d)" by (simp add: id)
      show "role_ok (uc_role r) \<and> pending_whole r" if "r \<in> set (upd_where ?Q f (users d))" for r
        using that wf ok(1) whole by (auto simp: set_upd_where wf_identity_def)
      fix r t
      assume "r \<in> set (upd_where ?Q f (users d))" "t \<in> set (upd_where ?Q f (users d))" "uc_id r \<noteq> uc_id t"
      then obtain r0 t0 where "r0 \<in> set (users d)" "t0 \<in> set (users d)"
        "r = (if ?Q r0 then f r0 else r0)" "t = (if ?Q t0 then f t0 else t0)" "uc_id r0 \<noteq> uc_id t0"
        by (auto simp: set_upd_where id split: if_splits)
      then show "\<not> user_clash r t"
        using wf ok(2) by (auto simp: wf_identity_def clash_sym split: if_splits)
    qed
  qed (use s in simp)
qed

lemma preserves_update_user [preserves_intros]:
  assumes "\<And>r. uc_id (f r) = uc_id r" and "\<And>r. P r \<Longrightarrow> pending_whole r \<Longrightarrow> pending_whole (f r)"
  shows "preserves (on_db sound) (stmt (update_user i P f))"
  by (rule preserves_stmt) (rule update_user_sound [OF _ assms])

lemma pending_clear [simp]: "pending_whole (clear_pending r)" "uc_id (clear_pending r) = uc_id r"
  by (simp_all add: pending_whole_def clear_pending_def)

lemma preserves_user_updates [preserves_intros]:
  "preserves (on_db sound) (UserRepo_Update now u)"
  "preserves (on_db sound) (UserRepo_SetRole now i role)"
  "preserves (on_db sound) (UserRepo_LinkOIDC now m c p sub)"
  "preserves (on_db sound) (UserRepo_SetDisabled now i x)"
  "preserves (on_db sound) (UserRepo_SetWebAuthnHandle i h)"
  "preserves (on_db sound) (UserRepo_SetPendingEmail i e th ex)"
  "preserves (on_db sound) (UserRepo_ClearPendingEmail i)"
  "preserves (on_db sound) (UserRepo_ConfirmPendingEmail i th now)"
  "preserves (on_db sound) (UserRepo_SetEmail i e now)"
  unfolding UserRepo_Update_def UserRepo_SetRole_def UserRepo_LinkOIDC_def UserRepo_SetDisabled_def
    UserRepo_SetWebAuthnHandle_def UserRepo_SetPendingEmail_def UserRepo_ClearPendingEmail_def
    UserRepo_ConfirmPendingEmail_def UserRepo_SetEmail_def
  by (intro preserves_intros; force simp: pending_whole_def clear_pending_def)+

lemma preserves_ClearExpired [preserves_intros]: "preserves (on_db sound) (UserRepo_ClearExpiredPendingEmails now)"
  unfolding UserRepo_ClearExpiredPendingEmails_def
proof (rule preserves_exec)
  fix d assume s: "sound d"
  let ?us = "upd_where (pending_expired now) clear_pending (users d)"
  have c: "user_clash (clear_pending r) t = user_clash r t" "user_clash t (clear_pending r) = user_clash t r" for r t
    by (simp_all add: user_clash_def same_oidc_def same_handle_def clear_pending_def)
  have wf: "wf_identity d" using s by (simp add: sound_def)
  have "sound (d\<lparr>users := ?us\<rparr>)"
  proof (rule sound_users [OF s])
    show "map uc_id ?us = map uc_id (users d)" by simp
    show "role_ok (uc_role r) \<and> pending_whole r" if "r \<in> set ?us" for r
      using that wf by (auto simp: set_upd_where wf_identity_def clear_pending_def pending_whole_def)
    show "\<not> user_clash r t" if "r \<in> set ?us" "t \<in> set ?us" "uc_id r \<noteq> uc_id t" for r t
      using that wf by (auto simp: set_upd_where wf_identity_def c split: if_splits)
  qed
  then show "sound (snd (length (filter (pending_expired now) (users d)), d\<lparr>users := ?us\<rparr>))" by simp
qed

lemma insert_user_sound:
  assumes s: "sound d" and p: "pending_whole r"
  shows "sound (snd (insert_user r d))"
proof (cases "snd (insert_user r d) = d")
  case False
  then have ok: "role_ok (uc_role r)" "uc_id r \<notin> user_ids d" "\<And>t. t \<in> set (users d) \<Longrightarrow> \<not> user_clash r t"
    and out: "snd (insert_user r d) = d\<lparr>users := users d @ [r]\<rparr>"
    by (auto simp: insert_user_def split: if_splits)
  have "wf_hist (d\<lparr>users := users d @ [r]\<rparr>)"
    using s ok by (auto simp: sound_def wf_hist_def wf_db_def wf_table_defs user_clash_def image_iff)
  then show ?thesis
    unfolding out using s p ok
    by (auto simp: sound_def wf_identity_def wf_accounts_def wf_bootstrap_def wf_audit_def clash_sym)
qed (use s in simp)

lemma preserves_UserRepo_Create [preserves_intros]: "preserves (on_db sound) (UserRepo_Create newID now u)"
  unfolding UserRepo_Create_def Let_def
  by (intro preserves_intros preserves_stmt insert_user_sound) (simp_all add: pending_whole_def)

section \<open>Deleting an account\<close>

lemma recorded_delete_user:
  assumes r: "r \<in> set (devices d)" "dc_user_id r \<noteq> i" and dist: "distinct (map dc_id (devices d))"
  shows "recorded (dc_id r) (snd (delete_user i d)) = recorded (dc_id r) d"
proof -
  have "dc_id r \<notin> dc_id ` set (filter (\<lambda>s. dc_user_id s = i) (devices d))"
    using r distinct_key_eq [OF dist] by fastforce
  then have "device_history (dc_id r) (snd (delete_user i d)) = device_history (dc_id r) d"
    by (auto simp: device_history_def delete_user_def Let_def image_iff intro!: filter_cong)
  then show ?thesis by (simp add: recorded_def)
qed

lemma delete_user_wf:
  assumes wf: "wf_db d"
  shows "wf_db (snd (delete_user i d))"
proof -
  let ?d = "snd (delete_user i d)"
  let ?devs = "dc_id ` set (filter (\<lambda>r. dc_user_id r = i) (devices d))"
  have dist: "distinct (map dc_id (devices d))" using wf by (simp add: wf_db_def wf_devices_def)
  have "wf_users ?d" "wf_outbox ?d" "wf_nonces ?d"
    using wf by (simp_all add: wf_db_def wf_table_defs delete_user_def Let_def)
  moreover have "wf_devices ?d"
    using wf by (auto simp: wf_db_def wf_devices_def delete_user_def Let_def list_all_iff)
  moreover have "wf_history ?d"
  proof -
    have "hc_device_id r \<in> dc_id ` {x \<in> set (devices d). dc_user_id x \<noteq> i}"
      if r: "r \<in> set (ip_history d)" "hc_device_id r \<notin> ?devs" for r
    proof -
      from wf r(1) have "hc_device_id r \<in> dc_id ` set (devices d)" by (auto simp: wf_db_def wf_history_def)
      with r(2) show ?thesis by fastforce
    qed
    then show ?thesis
      using wf by (auto simp: wf_db_def wf_history_def delete_user_def Let_def list_all_iff sorted_wrt_map sorted_wrt_filter)
  qed
  moreover have "wf_codes ?d"
  proof -
    let ?P = "\<lambda>c. \<exists>k \<in> ?devs. ec_device_id c = Some k"
    let ?cs = "filter (\<lambda>c. ec_user_id c \<noteq> i) (enrollment_codes d)"
    let ?out = "upd_where ?P (\<lambda>c. c\<lparr>ec_device_id := None\<rparr>) ?cs"
    have codes: "enrollment_codes ?d = ?out" "user_ids ?d = user_ids d - {i}"
      "dc_id ` set (devices ?d) = dc_id ` {x \<in> set (devices d). dc_user_id x \<noteq> i}"
      by (auto simp: delete_user_def Let_def)
    have "distinct (map ec_code ?out)"
      using wf by (simp add: wf_db_def wf_codes_def)
    moreover have "ec_user_id c \<in> user_ids d - {i}" if "c \<in> set ?out" for c
      using that wf by (auto simp: set_upd_where wf_db_def wf_codes_def split: if_splits)
    moreover have "j \<in> dc_id ` {x \<in> set (devices d). dc_user_id x \<noteq> i}" if "c \<in> set ?out" "ec_device_id c = Some j" for c j
    proof -
      from that obtain b where b: "b \<in> set (enrollment_codes d)" "ec_device_id b = Some j" "\<not> ?P b"
        by (auto simp: set_upd_where split: if_splits)
      then have "j \<in> dc_id ` set (devices d)" using wf by (auto simp: wf_db_def wf_codes_def)
      with b show ?thesis by auto
    qed
    ultimately show ?thesis
      unfolding wf_codes_def codes by blast
  qed
  ultimately show ?thesis by (simp add: wf_db_def)
qed

lemma delete_user_sound:
  assumes s: "sound d"
  shows "sound (snd (delete_user i d))"
proof -
  let ?d = "snd (delete_user i d)"
  have wf: "wf_db d" "hist_agrees d" using s by (simp_all add: sound_def wf_hist_def)
  have dist: "distinct (map dc_id (devices d))" using wf by (simp add: wf_db_def wf_devices_def)
  have devs: "r \<in> set (devices ?d) \<longleftrightarrow> r \<in> set (devices d) \<and> dc_user_id r \<noteq> i" for r
    by (simp add: delete_user_def Let_def)
  have "wf_hist ?d"
    using delete_user_wf [OF wf(1)] wf(2) recorded_delete_user [OF _ _ dist] devs
    by (simp add: wf_hist_def hist_agrees_def)
  moreover have "wf_identity ?d" "wf_bootstrap ?d" "wf_audit ?d"
    using s by (simp_all add: sound_def wf_identity_def wf_bootstrap_def wf_audit_def delete_user_def Let_def)
  moreover have "wf_accounts ?d"
    using s by (auto simp: sound_def wf_accounts_def delete_user_def Let_def)
  ultimately show ?thesis by (simp add: sound_def)
qed

lemma preserves_UserRepo_Delete [preserves_intros]: "preserves (on_db sound) (UserRepo_Delete i)"
  unfolding UserRepo_Delete_def
  by (intro preserves_require_rows preserves_exec) (simp add: delete_user_sound)

section \<open>The other tables\<close>

lemma wf_hist_frame [simp]:
  "wf_hist (d\<lparr>sessions := a\<rparr>) = wf_hist d" "wf_hist (d\<lparr>account_recovery_tokens := b\<rparr>) = wf_hist d"
  "wf_hist (d\<lparr>oidc_device_flows := c\<rparr>) = wf_hist d" "wf_hist (d\<lparr>api_keys := e\<rparr>) = wf_hist d"
  "wf_hist (d\<lparr>webauthn_credentials := f\<rparr>) = wf_hist d" "wf_hist (d\<lparr>bootstrap := g\<rparr>) = wf_hist d"
  by (simp_all add: wf_hist_def wf_db_def wf_table_defs hist_agrees_def recorded_def device_history_def)

lemma hist_agrees_codes [simp]: "hist_agrees (d\<lparr>enrollment_codes := cs\<rparr>) = hist_agrees d"
  by (simp add: hist_agrees_def recorded_def device_history_def)

lemma wf_hist_codes:
  "wf_hist d \<Longrightarrow> wf_codes (d\<lparr>enrollment_codes := cs\<rparr>) \<Longrightarrow> wf_hist (d\<lparr>enrollment_codes := cs\<rparr>)"
  by (simp add: wf_hist_def wf_db_def wf_table_defs)

lemma sound_codes:
  "sound d \<Longrightarrow> wf_codes (d\<lparr>enrollment_codes := cs\<rparr>) \<Longrightarrow> sound (d\<lparr>enrollment_codes := cs\<rparr>)"
  by (simp add: sound_def wf_hist_codes wf_identity_def wf_accounts_def wf_bootstrap_def wf_audit_def)

lemmas sound_frame_defs = sound_def wf_identity_def wf_accounts_def wf_bootstrap_def wf_audit_def

lemma sound_sessions:
  "sound d \<Longrightarrow> sound (snd (insert_session r d))"
  "sound d \<Longrightarrow> sound (snd (delete_sessions P d))"
  by (auto simp: insert_session_def delete_sessions_def sound_frame_defs)

lemma preserves_sessions [preserves_intros]:
  "preserves (on_db sound) (SessionRepo_Create newID now se)"
  "preserves (on_db sound) (SessionRepo_Touch now i e)"
  "preserves (on_db sound) (SessionRepo_Delete i)"
  "preserves (on_db sound) (SessionRepo_DeleteByUser u)"
  "preserves (on_db sound) (SessionRepo_PruneExpired now)"
  unfolding SessionRepo_Create_def SessionRepo_Touch_def SessionRepo_Delete_def SessionRepo_DeleteByUser_def
    SessionRepo_PruneExpired_def Let_def
      apply (intro preserves_intros preserves_stmt sound_sessions; assumption)
     apply (intro preserves_intros preserves_exec)
     apply (auto simp: sound_frame_defs set_upd_where)[1]
    apply (intro preserves_intros preserves_exec sound_sessions; assumption)+
  done

lemma sound_code_writes:
  assumes s: "sound d"
  shows "sound (snd (insert_code c d))" "sound (snd (consume_code k dev now d))"
    "sound (d\<lparr>enrollment_codes := filter Q (enrollment_codes d)\<rparr>)"
proof -
  have wf: "wf_codes d" using s by (simp add: sound_def wf_hist_def wf_db_def)
  show "sound (snd (insert_code c d))"
    using wf by (auto simp: insert_code_def s wf_codes_def nullIfEmpty_def intro!: sound_codes)
  show "sound (d\<lparr>enrollment_codes := filter Q (enrollment_codes d)\<rparr>)"
    using wf by (auto simp: s wf_codes_def intro!: sound_codes)
  show "sound (snd (consume_code k dev now d))"
  proof (cases "dev \<in> dc_id ` set (devices d)")
    case True
    let ?f = "\<lambda>r. r\<lparr>ec_used_at := Some now, ec_device_id := Some dev\<rparr>"
    have "distinct (map ec_code (upd_where (redeemable k now) ?f (enrollment_codes d)))"
      using wf by (simp add: wf_codes_def)
    then have "wf_codes (d\<lparr>enrollment_codes := upd_where (redeemable k now) ?f (enrollment_codes d)\<rparr>)"
      using wf True by (auto simp: wf_codes_def set_upd_where split: if_splits)
    with True s show ?thesis by (simp add: consume_code_def Let_def sound_codes)
  next
    case False
    then show ?thesis
      using s by (cases "filter (redeemable k now) (enrollment_codes d) = []") (simp_all add: consume_code_def Let_def)
  qed
qed

lemma preserves_account_reads [preserves_intros]:
  "preserves (on_db I) (EnrollmentCodeRepo_Get k)" "preserves (on_db I) (AccountRecoveryRepo_Get h)"
  "preserves (on_db I) (OIDCDeviceFlowRepo_Get fid)" "preserves (on_db I) (SessionRepo_GetByID i)"
  "preserves (on_db I) (APIKeyRepo_GetByHash h)" "preserves (on_db I) (APIKeyRepo_GetByID i)" "preserves (on_db I) (APIKeyRepo_List u)"
  "preserves (on_db I) (WebAuthnCredentialRepo_GetByID i)" "preserves (on_db I) (WebAuthnCredentialRepo_ListByUser u)"
  "preserves (on_db I) (CountWebAuthnCredentials u)" "preserves (on_db I) CountAllByUser"
  "preserves (on_db I) BootstrapRepo_Get" "preserves (on_db I) (AccountRecoveryRepo_LiveByUser now)"
  "preserves (on_db I) UserRepo_List" "preserves (on_db I) (UserRepo_GetByEmail e)" "preserves (on_db I) (UserRepo_GetByOIDC p sb)"
  "preserves (on_db I) (UserRepo_GetWebAuthnHandle u)"
  unfolding EnrollmentCodeRepo_Get_def AccountRecoveryRepo_Get_def OIDCDeviceFlowRepo_Get_def SessionRepo_GetByID_def
    APIKeyRepo_GetByHash_def APIKeyRepo_GetByID_def APIKeyRepo_List_def WebAuthnCredentialRepo_GetByID_def
    WebAuthnCredentialRepo_ListByUser_def CountWebAuthnCredentials_def CountAllByUser_def BootstrapRepo_Get_def
    AccountRecoveryRepo_LiveByUser_def UserRepo_List_def UserRepo_GetByEmail_def UserRepo_GetByOIDC_def UserRepo_GetWebAuthnHandle_def
  by (rule preserves_query preserves_queryRow)+

lemma preserves_codes [preserves_intros]:
  "preserves (on_db sound) (EnrollmentCodeRepo_Create c)"
  "preserves (on_db sound) (EnrollmentCodeRepo_Consume k dev now)"
  "preserves (on_db sound) (EnrollmentCodeRepo_PruneExpired now)"
  unfolding EnrollmentCodeRepo_Create_def EnrollmentCodeRepo_Consume_def EnrollmentCodeRepo_PruneExpired_def
    apply (intro preserves_intros preserves_stmt sound_code_writes; assumption)
   apply (intro preserves_intros preserves_stmt sound_code_writes; assumption)
  apply (rule preserves_exec)
  apply (simp add: sound_code_writes)
  done

lemma sound_recovery:
  "sound d \<Longrightarrow> sound (snd (insert_recovery t d))"
  "sound d \<Longrightarrow> sound (snd (delete_recovery P d))"
  "sound d \<Longrightarrow> sound (snd (consume_recovery h now d))"
  by (auto simp: insert_recovery_def delete_recovery_def consume_recovery_def sound_frame_defs set_upd_where)

lemma preserves_recovery [preserves_intros]:
  "preserves (on_db sound) (AccountRecoveryRepo_Create t)"
  "preserves (on_db sound) (AccountRecoveryRepo_Consume h now)"
  "preserves (on_db sound) (AccountRecoveryRepo_PruneExpired now)"
  "preserves (on_db sound) (AccountRecoveryRepo_DeleteUnusedByUser u)"
  unfolding AccountRecoveryRepo_Create_def AccountRecoveryRepo_Consume_def AccountRecoveryRepo_PruneExpired_def
    AccountRecoveryRepo_DeleteUnusedByUser_def
  by (intro preserves_intros preserves_stmt preserves_exec sound_recovery; assumption)+

lemma sound_flows:
  "sound d \<Longrightarrow> (\<And>r. fl_flow_id (f r) = fl_flow_id r) \<Longrightarrow> sound (snd (update_flows P f d))"
  "sound d \<Longrightarrow> sound (snd (delete_flows P d))"
  by (simp_all add: update_flows_def delete_flows_def sound_frame_defs)

lemma preserves_flows [preserves_intros]:
  "preserves (on_db sound) (OIDCDeviceFlowRepo_Create fl)"
  "preserves (on_db sound) (OIDCDeviceFlowRepo_TryPoll fid now)"
  "preserves (on_db sound) (OIDCDeviceFlowRepo_BumpInterval fid dl)"
  "preserves (on_db sound) (OIDCDeviceFlowRepo_Delete fid)"
  "preserves (on_db sound) (OIDCDeviceFlowRepo_PruneExpired now)"
  unfolding OIDCDeviceFlowRepo_Create_def OIDCDeviceFlowRepo_TryPoll_def OIDCDeviceFlowRepo_BumpInterval_def
    OIDCDeviceFlowRepo_Delete_def OIDCDeviceFlowRepo_PruneExpired_def
  by (intro preserves_intros preserves_stmt preserves_exec sound_flows; auto simp: sound_frame_defs)+

lemma preserves_keys [preserves_intros]:
  "preserves (on_db sound) (APIKeyRepo_Create k)"
  "preserves (on_db sound) (APIKeyRepo_Delete i)"
  "preserves (on_db sound) (APIKeyRepo_TouchLastUsed i now)"
  unfolding APIKeyRepo_Create_def APIKeyRepo_Delete_def APIKeyRepo_TouchLastUsed_def
  by (intro preserves_intros preserves_stmt preserves_exec;
      auto simp: insert_key_def sound_frame_defs set_upd_where split: if_splits)+

lemma sound_credentials:
  "sound d \<Longrightarrow> sound (snd (insert_credential c d))"
  "sound d \<Longrightarrow> sound (snd (delete_credentials P d))"
  "sound d \<Longrightarrow> (\<And>r. wc_credential_id (f r) = wc_credential_id r \<and> wc_user_id (f r) = wc_user_id r) \<Longrightarrow>
     sound (snd (update_credential i f d))"
  by (auto simp: insert_credential_def delete_credentials_def update_credential_def sound_frame_defs set_upd_where)

lemma preserves_credentials [preserves_intros]:
  "preserves (on_db sound) (WebAuthnCredentialRepo_Create c)"
  "preserves (on_db sound) (WebAuthnCredentialRepo_Rename i n)"
  "preserves (on_db sound) (WebAuthnCredentialRepo_Delete i)"
  "preserves (on_db sound) (WebAuthnCredentialRepo_DeleteAllByUser u)"
  "preserves (on_db sound) (WebAuthnCredentialRepo_Update c)"
  unfolding WebAuthnCredentialRepo_Create_def WebAuthnCredentialRepo_Rename_def WebAuthnCredentialRepo_Delete_def
    WebAuthnCredentialRepo_DeleteAllByUser_def WebAuthnCredentialRepo_Update_def
  by (intro preserves_intros preserves_stmt preserves_exec sound_credentials; simp)+

lemma preserves_bootstrap [preserves_intros]:
  "preserves (on_db sound) (BootstrapRepo_SetTokenHash now h)"
  "preserves (on_db sound) (BootstrapRepo_Consume now)"
  unfolding BootstrapRepo_SetTokenHash_def BootstrapRepo_Consume_def
  by (intro preserves_intros preserves_exec; auto simp: consume_bootstrap_def sound_frame_defs split: option.splits)+

section \<open>Audit rows\<close>

lemma hist_agrees_audit [simp]:
  "hist_agrees (d\<lparr>audit_log := a\<rparr>) = hist_agrees d" "hist_agrees (d\<lparr>audit_log_seq := n\<rparr>) = hist_agrees d"
  by (simp_all add: hist_agrees_def recorded_def device_history_def)

lemma insert_audit_sound: "sound d \<Longrightarrow> sound (snd (insert_audit e d))"
proof -
  assume s: "sound d"
  have "wf_hist (snd (insert_audit e d))"
    using s by (simp add: sound_def wf_hist_def wf_db_def wf_table_defs insert_audit_def Let_def)
  moreover have "wf_audit (snd (insert_audit e d))"
    using s by (fastforce simp: sound_def wf_audit_def insert_audit_def Let_def)
  ultimately show ?thesis
    using s by (simp add: sound_def wf_identity_def wf_accounts_def wf_bootstrap_def insert_audit_def Let_def)
qed

lemma preserves_audit [preserves_intros]:
  "preserves (on_db sound) (AuditLog_Append now e)"
  "preserves (on_db sound) (auditWriter_Log now e)"
  unfolding AuditLog_Append_def auditWriter_Log_def Let_def
  by (intro preserves_intros preserves_stmt insert_audit_sound; assumption)+

end
