(* ===== verification/Sessions.thy ===== *)
theory Sessions
  imports Account_Inv Feed_Service Samples
begin

text \<open>
  \<open>internal/auth/session.go\<close> and \<open>internal/auth/csrf.go\<close>: browser sessions over the session table. A session is
  accepted while it is unexpired and its owner enabled, and its expiry slides on use. Random bytes
  are what \<open>randRead\<close> yields, \<open>None\<close> its failure; \<open>gone\<close> flags say whether the request's context had
  ended when a look-up failed, which changes the reason in the log only.
\<close>

section \<open>Tokens\<close>

text \<open>\<open>base64.RawURLEncoding\<close>: the URL alphabet, no padding.\<close>

definition url_char :: "char \<Rightarrow> char" where
  "url_char c = (if c = CHR ''+'' then CHR ''-'' else if c = CHR ''/'' then CHR ''_'' else c)"

definition RawURLEncode :: "string \<Rightarrow> string" where
  "RawURLEncode s = map url_char (takeWhile (\<lambda>c. c \<noteq> CHR ''='') (EncodeToString s))"

definition RandToken :: "string option \<Rightarrow> err + string" where
  "RandToken rnd = (case rnd of None \<Rightarrow> Inl ErrRandom | Some b \<Rightarrow> Inr (RawURLEncode b))"

definition GenerateCSRFToken :: "string option \<Rightarrow> err + string" where
  "GenerateCSRFToken rnd = RandToken rnd"

definition ValidCSRF :: "Session \<Rightarrow> string \<Rightarrow> bool" where
  "ValidCSRF sess token \<longleftrightarrow> se_CSRFToken sess \<noteq> '''' \<and> token = se_CSRFToken sess"

section \<open>The session manager\<close>

record session_manager =
  sm_ttl :: int
  sm_slide :: int

definition SessionManager_Create ::
  "session_manager \<Rightarrow> string option \<Rightarrow> string option \<Rightarrow> string \<Rightarrow> int \<Rightarrow> string \<Rightarrow> string \<Rightarrow> string \<Rightarrow>
   ('z world_scheme, Session) action" where
  "SessionManager_Create sm rndID rndCSRF newID now userID ip ua =
     bindE (lift_res (RandToken rndID)) (\<lambda>i.
     bindE (lift_res (GenerateCSRFToken rndCSRF)) (\<lambda>csrf.
     SessionRepo_Create newID now
       \<lparr> se_ID = i, se_UserID = userID, se_CSRFToken = csrf, se_IP = ip, se_UserAgent = ua,
         se_CreatedAt = now, se_LastSeenAt = now, se_ExpiresAt = now + wholeSeconds (sm_ttl sm) \<rparr>))"

definition SessionManager_Authenticate ::
  "session_manager \<Rightarrow> bool \<Rightarrow> bool \<Rightarrow> int \<Rightarrow> string \<Rightarrow> ('z world_scheme, User \<times> Session) action" where
  "SessionManager_Authenticate sm gone_s gone_u now sessionID =
     bindE (tryE (SessionRepo_GetByID sessionID)) (\<lambda>r.
       case r of
         Inl e \<Rightarrow> fail (storeRejection gone_s e ''unknown_session'' ''session_lookup_cancelled'' ''session_store_error'')
       | Inr sess \<Rightarrow>
           if se_ExpiresAt sess \<le> now then fail (ErrUnauthorized ''session_expired'')
           else bindE (tryE (UserRepo_GetByID (se_UserID sess))) (\<lambda>q.
             case q of
               Inl e \<Rightarrow> fail (storeRejection gone_u e ''unknown_user'' ''user_lookup_cancelled'' ''user_store_error'')
             | Inr usr \<Rightarrow>
                 if u_Disabled usr then fail (ErrUnauthorized ''user_disabled'')
                 else if wholeSeconds (sm_slide sm) \<le> now - se_LastSeenAt sess
                 then (let newExp = now + wholeSeconds (sm_ttl sm) in
                       bindE (tryE (SessionRepo_Touch now (se_ID sess) newExp)) (\<lambda>t.
                         ret (usr, case t of Inl _ \<Rightarrow> sess | Inr _ \<Rightarrow> sess\<lparr>se_ExpiresAt := newExp\<rparr>)))
                 else ret (usr, sess)))"

text \<open>\<open>cookie\<close> is the value of the session cookie, \<open>None\<close> when the request has none.\<close>

definition AuthenticateRequest ::
  "session_manager \<Rightarrow> bool \<Rightarrow> bool \<Rightarrow> int \<Rightarrow> string option \<Rightarrow> ('z world_scheme, User \<times> Session) action" where
  "AuthenticateRequest sm gone_s gone_u now cookie =
     (case cookie of
        None \<Rightarrow> fail (ErrUnauthorized ''no_cookie'')
      | Some v \<Rightarrow> if v = '''' then fail (ErrUnauthorized ''no_cookie'')
                  else SessionManager_Authenticate sm gone_s gone_u now v)"

definition SessionManager_Destroy :: "string \<Rightarrow> ('z world_scheme, unit) action" where
  "SessionManager_Destroy sessionID =
     bindE (tryE (SessionRepo_Delete sessionID)) (\<lambda>r.
       case r of Inl e \<Rightarrow> if e = ErrNotFound then ret () else fail e | Inr _ \<Rightarrow> ret ())"

lemma preserves_session_manager [preserves_intros]:
  "preserves (on_db sound) (SessionManager_Create sm a b nid now u ip ua)"
  "preserves (on_db sound) (SessionManager_Authenticate sm g1 g2 now i)"
  "preserves (on_db sound) (AuthenticateRequest sm g1 g2 now ck)"
  "preserves (on_db sound) (SessionManager_Destroy i)"
  unfolding SessionManager_Create_def AuthenticateRequest_def SessionManager_Authenticate_def SessionManager_Destroy_def Let_def
  by (intro preserves_intros)+

section \<open>Reachable sessions\<close>

text \<open>
  The steps of the session table: logins, authentications, logouts, the removal of all sessions of an
  account, pruning, and any other activity, which leaves the table alone or removes rows from it
  (deleting an account). Time does not go back.
\<close>

definition only_removes :: "('z world_scheme, 'a) action \<Rightarrow> bool" where
  "only_removes m \<longleftrightarrow> (\<forall>w. set (sessions (db (snd (m w)))) \<subseteq> set (sessions (db w)) \<and>
     (distinct (map ss_id (sessions (db w))) \<longrightarrow> distinct (map ss_id (sessions (db (snd (m w)))))))"

text \<open>A step is labelled with the session ids its login draws; \<open>randRead\<close> fills the buffer it is given.\<close>

definition rand_bytes :: "nat \<Rightarrow> string option \<Rightarrow> bool" where
  "rand_bytes n rnd \<longleftrightarrow> (case rnd of None \<Rightarrow> True | Some b \<Rightarrow> length b = n)"

definition drawn :: "string option \<Rightarrow> string set" where
  "drawn rnd = (case RandToken rnd of Inl _ \<Rightarrow> {} | Inr i \<Rightarrow> {i})"

inductive session_step ::
  "session_manager \<Rightarrow> string set \<Rightarrow> int \<times> 'z world_scheme \<Rightarrow> int \<times> 'z world_scheme \<Rightarrow> bool" for sm where
  login: "t \<le> now \<Longrightarrow> rand_bytes 32 a \<Longrightarrow>
    session_step sm (drawn a) (t, w) (now, snd (SessionManager_Create sm a b nid now u ip ua w))"
| authenticate: "t \<le> now \<Longrightarrow> session_step sm {} (t, w) (now, snd (SessionManager_Authenticate sm g1 g2 now i w))"
| logout: "session_step sm {} (t, w) (t, snd (SessionManager_Destroy i w))"
| drop_all: "session_step sm {} (t, w) (t, snd (SessionRepo_DeleteByUser u w))"
| prune: "session_step sm {} (t, w) (t, snd (SessionRepo_PruneExpired now w))"
| other: "t \<le> now \<Longrightarrow> only_removes (m :: ('z world_scheme, unit) action) \<Longrightarrow> session_step sm {} (t, w) (now, snd (m w))"

inductive session_run ::
  "session_manager \<Rightarrow> string set \<Rightarrow> int \<times> 'z world_scheme \<Rightarrow> int \<times> 'z world_scheme \<Rightarrow> bool" for sm where
  stop: "session_run sm {} s s"
| step: "session_run sm M s s1 \<Longrightarrow> session_step sm N s1 s2 \<Longrightarrow> session_run sm (M \<union> N) s s2"

text \<open>Every session expires exactly one lifetime after it was last extended, and was not extended in the future.\<close>

definition windows_ok :: "session_manager \<Rightarrow> int \<Rightarrow> database \<Rightarrow> bool" where
  "windows_ok sm t d \<longleftrightarrow>
     distinct (map ss_id (sessions d)) \<and>
     (\<forall>r \<in> set (sessions d). ss_expires_at r = ss_last_seen_at r + wholeSeconds (sm_ttl sm) \<and> ss_last_seen_at r \<le> t)"

definition session_ids :: "database \<Rightarrow> string set" where
  "session_ids d = ss_id ` set (sessions d)"

text \<open>What one step does to the table, as a relation: it only adds ids of \<open>N\<close> and keeps the windows up to \<open>now\<close>.\<close>

definition session_grows :: "session_manager \<Rightarrow> string set \<Rightarrow> int \<Rightarrow> database \<Rightarrow> database \<Rightarrow> bool" where
  "session_grows sm N now d d' \<longleftrightarrow>
     session_ids d' \<subseteq> session_ids d \<union> N \<and> (windows_ok sm now d \<longrightarrow> windows_ok sm now d')"

interpretation session_order: db_order "session_grows sm N now"
  by unfold_locales (auto simp: session_grows_def)

lemma follows_delete_sessions: "follows (session_grows sm N now) (exec (delete_sessions P))"
  by (rule session_order.follows_exec) (auto simp: session_grows_def session_ids_def delete_sessions_def windows_ok_def)

lemma follows_Touch:
  "follows (session_grows sm N now) (SessionRepo_Touch now i (now + wholeSeconds (sm_ttl sm)))"
  unfolding SessionRepo_Touch_def require_rows_def
  by (intro session_order.follows_bindE session_order.follows_exec session_order.follows_if
        session_order.follows_fail session_order.follows_ret)
     (auto simp: session_grows_def session_ids_def windows_ok_def set_upd_where)

lemma RawURLEncode_ne: "b \<noteq> [] \<Longrightarrow> RawURLEncode b \<noteq> []"
proof -
  have "b64_char n \<noteq> CHR ''=''" if "n < 64" for n using b64_char_facts(2) [OF that] .
  moreover have "byte a div 4 < 64" for a using byte_less [of a] by (simp add: less_mult_imp_div_less)
  moreover assume "b \<noteq> []"
  ultimately show ?thesis
    by (cases b rule: EncodeToString.cases) (simp_all add: RawURLEncode_def sextets_def)
qed

lemma follows_SessionRepo_Create:
  assumes "se_LastSeenAt s = now" "se_ExpiresAt s = now + wholeSeconds (sm_ttl sm)" "se_ID s \<noteq> ''''"
  shows "follows (session_grows sm {se_ID s} now) (SessionRepo_Create nid now s)"
  unfolding SessionRepo_Create_def Let_def
  by (intro session_order.follows_bindE session_order.follows_stmt session_order.follows_ret)
     (auto simp: assms insert_session_def session_grows_def session_ids_def windows_ok_def)

lemma follows_session_ops:
  assumes "rand_bytes 32 a"
  shows "follows (session_grows sm (drawn a) now) (SessionManager_Create sm a b nid now u ip ua)"
    "follows (session_grows sm {} now) (SessionManager_Authenticate sm g1 g2 now i)"
    "follows (session_grows sm {} now) (SessionManager_Destroy i)"
proof -
  show "follows (session_grows sm (drawn a) now) (SessionManager_Create sm a b nid now u ip ua)"
  proof (cases a)
    case None
    then show ?thesis
      by (simp add: follows_def SessionManager_Create_def RandToken_def bindE_def session_order.refl)
  next
    case (Some bytes)
    with assms have ne: "RawURLEncode bytes \<noteq> []" by (intro RawURLEncode_ne) (auto simp: rand_bytes_def)
    show ?thesis
    proof (cases "GenerateCSRFToken b")
      case (Inl e)
      with Some show ?thesis
        by (simp add: follows_def SessionManager_Create_def RandToken_def bindE_def session_order.refl)
    next
      case (Inr csrf)
      have d: "drawn a = {RawURLEncode bytes}" using Some by (simp add: drawn_def RandToken_def)
      let ?s = "\<lparr> se_ID = RawURLEncode bytes, se_UserID = u, se_CSRFToken = csrf, se_IP = ip, se_UserAgent = ua,
         se_CreatedAt = now, se_LastSeenAt = now, se_ExpiresAt = now + wholeSeconds (sm_ttl sm) \<rparr>"
      have eq: "SessionManager_Create sm a b nid now u ip ua = SessionRepo_Create nid now ?s"
        using Some Inr by (simp add: fun_eq_iff SessionManager_Create_def RandToken_def bindE_def)
      have fol: "follows (session_grows sm {se_ID ?s} now) (SessionRepo_Create nid now ?s)"
        using ne by (intro follows_SessionRepo_Create) simp_all
      show ?thesis unfolding eq d using fol by simp
    qed
  qed
  show "follows (session_grows sm {} now) (SessionManager_Authenticate sm g1 g2 now i)"
    unfolding SessionManager_Authenticate_def Let_def SessionRepo_GetByID_def UserRepo_GetByID_def
    by (intro follows_intros follows_Touch)
  show "follows (session_grows sm {} now) (SessionManager_Destroy i)"
    unfolding SessionManager_Destroy_def SessionRepo_Delete_def require_rows_def
    by (intro follows_intros follows_delete_sessions)
qed

lemma windows_later: "windows_ok sm t d \<Longrightarrow> t \<le> t' \<Longrightarrow> windows_ok sm t' d"
  by (auto simp: windows_ok_def)

lemma session_step_grows:
  assumes "session_step sm N s s'"
  shows "fst s \<le> fst s' \<and> session_ids (db (snd s')) \<subseteq> session_ids (db (snd s)) \<union> N \<and>
         (windows_ok sm (fst s) (db (snd s)) \<longrightarrow> windows_ok sm (fst s') (db (snd s')))"
  using assms
proof cases
  case (login t now a w b nid u ip ua)
  have "session_grows sm N now (db w) (db (snd s'))"
    unfolding login(1,3) snd_conv by (rule follows_at, rule follows_session_ops(1), rule login(5))
  with login show ?thesis by (auto simp: session_grows_def windows_later)
next
  case (authenticate t now w g1 g2 i)
  have "session_grows sm {} now (db w) (db (snd s'))"
    unfolding authenticate(3) snd_conv by (rule follows_at, rule follows_session_ops(2) [of None]) (simp add: rand_bytes_def)
  with authenticate show ?thesis by (auto simp: session_grows_def windows_later)
next
  case (logout t w i)
  have "session_grows sm {} t (db w) (db (snd s'))"
    unfolding logout(3) snd_conv by (rule follows_at, rule follows_session_ops(3) [of None]) (simp add: rand_bytes_def)
  with logout show ?thesis by (auto simp: session_grows_def)
next
  case (drop_all t w u)
  have "session_grows sm {} t (db w) (db (snd s'))"
    unfolding drop_all(3) snd_conv SessionRepo_DeleteByUser_def by (rule follows_at, rule follows_delete_sessions)
  with drop_all show ?thesis by (auto simp: session_grows_def)
next
  case (prune t w now)
  have "session_grows sm {} t (db w) (db (snd s'))"
    unfolding prune(3) snd_conv SessionRepo_PruneExpired_def by (rule follows_at, rule follows_delete_sessions)
  with prune show ?thesis by (auto simp: session_grows_def)
next
  case (other t now m w)
  then have "set (sessions (db (snd s'))) \<subseteq> set (sessions (db w))"
    "distinct (map ss_id (sessions (db w))) \<longrightarrow> distinct (map ss_id (sessions (db (snd s'))))"
    by (simp_all add: only_removes_def)
  with other show ?thesis by (auto simp: session_ids_def windows_ok_def) (meson order_trans subsetD)
qed

lemma session_run_grows:
  assumes "session_run sm M s s'"
  shows "fst s \<le> fst s' \<and> session_ids (db (snd s')) \<subseteq> session_ids (db (snd s)) \<union> M \<and>
         (windows_ok sm (fst s) (db (snd s)) \<longrightarrow> windows_ok sm (fst s') (db (snd s')))"
  using assms
proof induction
  case (step M s s1 N s2)
  from step.IH session_step_grows [OF step.hyps(2)] show ?case by auto
qed auto

section \<open>What an accepted session means\<close>

lemma Authenticate_Inr:
  assumes "SessionManager_Authenticate sm g1 g2 now i w = (Inr (usr, sess), w')"
  shows "\<exists>r u. find_session i (db w) = Some r \<and> now < ss_expires_at r \<and> find_user (ss_user_id r) (db w) = Some u \<and>
     \<not> uc_disabled u \<and> usr = scanUser u \<and> se_ID sess = i \<and> se_UserID sess = uc_id u \<and>
     se_CSRFToken sess = ss_csrf_token r"
proof -
  obtain x w1 where x: "SessionRepo_GetByID i w = (x, w1)" by (cases "SessionRepo_GetByID i w")
  with assms obtain sr where sr: "x = Inr sr" and live: "\<not> se_ExpiresAt sr \<le> now"
    by (cases x) (auto simp: SessionManager_Authenticate_def bindE_tryE_case split: if_splits)
  have get: "SessionRepo_GetByID i w = (Inr sr, w1)" using x sr by simp
  obtain q w2 where q: "UserRepo_GetByID (se_UserID sr) w1 = (q, w2)" by (cases "UserRepo_GetByID (se_UserID sr) w1")
  with assms get live obtain u0 where u0: "q = Inr u0" "\<not> u_Disabled u0"
    by (cases q) (auto simp: SessionManager_Authenticate_def bindE_tryE_case split: if_splits)
  have out: "usr = u0 \<and> se_ID sess = se_ID sr \<and> se_UserID sess = se_UserID sr \<and> se_CSRFToken sess = se_CSRFToken sr"
  proof (cases "wholeSeconds (sm_slide sm) \<le> now - se_LastSeenAt sr")
    case True
    let ?touch = "SessionRepo_Touch now (se_ID sr) (now + wholeSeconds (sm_ttl sm)) w2"
    obtain v w3 where v: "?touch = (v, w3)" by (cases ?touch)
    with True show ?thesis using assms get live q u0
      by (cases v) (auto simp: SessionManager_Authenticate_def bindE_tryE_case bindE_def tryE_def Let_def)
  next
    case False
    then show ?thesis using assms get live q u0
      by (simp add: SessionManager_Authenticate_def bindE_tryE_case)
  qed
  from get obtain r where r: "find_session i (db w) = Some r" "sr = scanSession r" "db w1 = db w"
    by (auto simp: SessionRepo_GetByID_def dest!: queryRow_Inr)
  from q u0 obtain u where u: "find_user (ss_user_id r) (db w) = Some u" "u0 = scanUser u"
    using r by (auto simp: UserRepo_GetByID_def scanSession_def dest!: queryRow_Inr)
  have "uc_id u = ss_user_id r" "ss_id r = i"
    using u(1) r(1) by (auto simp: find_user_def find_session_def dest: find_SomeD)
  with r u u0 live out show ?thesis by (auto simp: scanSession_def scanUser_def)
qed

lemma Authenticate_unknown:
  assumes "i \<notin> session_ids (db w)"
  shows "\<exists>reason w'. SessionManager_Authenticate sm g1 g2 now i w = (Inl (ErrUnauthorized reason), w')"
proof -
  have none: "find_session i (db w) = None"
    using assms by (simp add: find_session_def find_key_None session_ids_def)
  obtain e w1 where "SessionRepo_GetByID i w = (Inl e, w1)"
  proof (cases "SessionRepo_GetByID i w")
    case (Pair x w1)
    with none that show thesis
      by (cases x) (auto simp: SessionRepo_GetByID_def dest: queryRow_Inr)
  qed
  then show ?thesis
    by (auto simp: SessionManager_Authenticate_def bindE_def tryE_def storeRejection_def)
qed

lemma Destroy_Inr:
  assumes "SessionManager_Destroy i w = (Inr (), w')"
  shows "i \<notin> session_ids (db w')"
proof -
  obtain r w1 where del1: "SessionRepo_Delete i w = (r, w1)" by (cases "SessionRepo_Delete i w")
  with assms have r: "r = Inr () \<or> r = Inl ErrNotFound" and "w1 = w'"
    by (cases r; auto simp: SessionManager_Destroy_def bindE_tryE_case split: if_splits)+
  with del1 have del: "SessionRepo_Delete i w = (r, w')" by simp
  from r have "db w' = snd (delete_sessions (\<lambda>r. ss_id r = i) (db w))"
  proof
    assume "r = Inr ()"
    with del show ?thesis unfolding SessionRepo_Delete_def by (auto dest!: require_rows_Inr)
  next
    assume "r = Inl ErrNotFound"
    with del show ?thesis unfolding SessionRepo_Delete_def by (auto dest!: require_rows_Inl)
  qed
  then show ?thesis by (auto simp: session_ids_def delete_sessions_def)
qed

text \<open>
  C22. Browser sessions. Take any run of logins, authentications, logouts, account-wide removals, prunes
  and other activity from a state whose sessions have consistent windows (an empty table, for one),
  with any driver failures and time moving forward. A session id that is then accepted belongs to an
  enabled account, was extended less than one lifetime ago and not in the future, and was there at the
  start or was drawn by a login of the run; and the returned session has the id presented, the
  CSRF token of the row, and the account as owner.
\<close>

theorem session_accepts:
  assumes "windows_ok sm t0 (db w0)" and "session_run sm M (t0, w0) (t, w)" and "t \<le> now"
    and "SessionManager_Authenticate sm g1 g2 now i w = (Inr (usr, sess), w')"
  shows "(i \<in> session_ids (db w0) \<or> i \<in> M) \<and>
     (\<exists>r u. find_session i (db w) = Some r \<and> ss_last_seen_at r \<le> now \<and>
        now < ss_last_seen_at r + wholeSeconds (sm_ttl sm) \<and>
        find_user (ss_user_id r) (db w) = Some u \<and> \<not> uc_disabled u \<and> usr = scanUser u \<and>
        se_ID sess = i \<and> se_UserID sess = uc_id u \<and> se_CSRFToken sess = ss_csrf_token r)"
proof -
  note run = session_run_grows [OF assms(2)]
  from Authenticate_Inr [OF assms(4)] obtain r u where r: "find_session i (db w) = Some r" "now < ss_expires_at r"
    and rest: "find_user (ss_user_id r) (db w) = Some u" "\<not> uc_disabled u" "usr = scanUser u" "se_ID sess = i"
    "se_UserID sess = uc_id u" "se_CSRFToken sess = ss_csrf_token r" by blast
  have mem: "r \<in> set (sessions (db w))" "ss_id r = i"
    using r(1) by (auto simp: find_session_def dest: find_SomeD)
  then have "ss_expires_at r = ss_last_seen_at r + wholeSeconds (sm_ttl sm)" "ss_last_seen_at r \<le> t"
    using run assms(1) by (auto simp: windows_ok_def)
  moreover have "i \<in> session_ids (db w)" using mem by (auto simp: session_ids_def)
  ultimately show ?thesis using r rest run assms(3) by auto
qed

text \<open>
  Logout is final: once \<open>Destroy\<close> has returned without an error, the session id is refused with
  the uniform rejection in every later state, whatever runs in between and however the driver
  fails, unless a later login draws the same id again.
\<close>

theorem logout_final:
  assumes "SessionManager_Destroy i w0 = (Inr (), w1)" and "session_run sm M (t1, w1) (t, w)" and "i \<notin> M"
  shows "\<exists>reason w'. SessionManager_Authenticate sm g1 g2 now i w = (Inl (ErrUnauthorized reason), w')"
proof (rule Authenticate_unknown)
  show "i \<notin> session_ids (db w)"
    using Destroy_Inr [OF assms(1)] session_run_grows [OF assms(2)] assms(3) by auto
qed

section \<open>A login, its use and its end\<close>

definition sample_sm :: session_manager where
  "sample_sm = \<lparr> sm_ttl = 3600000000000, sm_slide = 60000000000 \<rparr>"

definition sample_sid :: string where
  "sample_sid = RawURLEncode (replicate 32 CHR ''A'')"

definition sample_session :: session_row where
  "sample_session = \<lparr> ss_id = sample_sid, ss_user_id = ''u1'', ss_csrf_token = RawURLEncode ''B'', ss_ip = None, ss_user_agent = None,
     ss_created_at = 100, ss_last_seen_at = 100, ss_expires_at = 3700 \<rparr>"

definition login_world :: hubworld where
  "login_world = sample_world\<lparr>db := sample_db\<lparr>sessions := [sample_session]\<rparr>\<rparr>"

lemma sample_seconds [simp]: "wholeSeconds 3600000000000 = 3600" "wholeSeconds 60000000000 = 60"
  by (simp_all add: wholeSeconds_def signed_divide_int_def)

lemma sample_login:
  "session_run sample_sm {sample_sid} (100, sample_world) (100, login_world)"
proof -
  let ?rnd = "Some (replicate 32 CHR ''A'')"
  have ne: "sample_sid \<noteq> []" unfolding sample_sid_def by (rule RawURLEncode_ne) simp
  have "SessionManager_Create sample_sm ?rnd (Some ''B'') ''n'' 100 ''u1'' [] [] sample_world = (Inr (scanSession sample_session), login_world)"
    using ne
    by (simp add: SessionManager_Create_def RandToken_def GenerateCSRFToken_def SessionRepo_Create_def bindE_def
        insert_session_def sample_sm_def sample_session_def login_world_def sample_db_def empty_db_def u1_def
        scanSession_def nullIfEmpty_def flip: sample_sid_def)
  then have "session_step sample_sm (drawn ?rnd) (100, sample_world) (100, login_world)"
    using session_step.login [of 100 100 ?rnd sample_sm sample_world "Some ''B''" "''n''" "''u1''" "[]" "[]"]
    by (simp add: rand_bytes_def)
  moreover have "drawn ?rnd = {sample_sid}" by (simp add: drawn_def RandToken_def sample_sid_def)
  ultimately show ?thesis using session_run.step [OF session_run.stop] by fastforce
qed

lemma session_accepts_witness:
  "\<exists>sess w'. SessionManager_Authenticate sample_sm False False 200 sample_sid login_world = (Inr (scanUser u1, sess), w') \<and>
     se_ID sess = sample_sid \<and> sample_sid \<in> {sample_sid}"
proof -
  let ?out = "SessionManager_Authenticate sample_sm False False 200 sample_sid login_world"
  have run: "\<exists>sess w'. ?out = (Inr (scanUser u1, sess), w')"
    by (simp add: SessionManager_Authenticate_def SessionRepo_GetByID_def UserRepo_GetByID_def bindE_def tryE_def
        find_session_def find_user_def login_world_def sample_session_def sample_sm_def sample_db_def scanSession_def
        SessionRepo_Touch_def u1_def scanUser_def sample_world_def)
  have ok: "windows_ok sample_sm 100 (db sample_world)"
    by (simp add: windows_ok_def sample_db_def empty_db_def)
  from run obtain sess w' where out: "?out = (Inr (scanUser u1, sess), w')" by blast
  from session_accepts [OF ok sample_login _ out] have "se_ID sess = sample_sid" by auto
  with out show ?thesis by auto
qed

lemma logout_final_witness:
  "\<exists>w1 reason w'. SessionManager_Destroy sample_sid login_world = (Inr (), w1) \<and>
     SessionManager_Authenticate sample_sm False False 200 sample_sid w1 = (Inl (ErrUnauthorized reason), w')"
proof -
  have out: "SessionManager_Destroy sample_sid login_world = (Inr (), login_world\<lparr>db := (db login_world)\<lparr>sessions := []\<rparr>\<rparr>)"
    by (simp add: SessionManager_Destroy_def SessionRepo_Delete_def bindE_def tryE_def delete_sessions_def
        login_world_def sample_session_def sample_world_def)
  from logout_final [OF out session_run.stop, of sample_sm False False 200] out show ?thesis by blast
qed

end
