(* ===== verification/Enrollment.thy ===== *)
theory Enrollment
  imports Sessions
begin

text \<open>
  \<open>internal/server/service/enrollment.go\<close>: enrollment codes become devices. \<open>ConsumeCode\<close> runs in two phases,
  as the code does: \<open>ConsumeCode_prepare\<close> reads the code and creates the device, \<open>ConsumeCode_commit\<close> spends the
  code and rolls the device back when that fails. Between the two any other request may run; the
  single-use theorem interleaves them freely.
\<close>

section \<open>Operations\<close>

record ClientMeta =
  cm_Hostname :: string
  cm_OS :: string
  cm_ClientVersion :: string

record EnrollResult =
  er_DeviceID :: string
  er_Secret :: string

definition CreateCode ::
  "int \<Rightarrow> string option \<Rightarrow> int \<Rightarrow> string \<Rightarrow> string \<Rightarrow> ('z world_scheme, string \<times> int) action" where
  "CreateCode codeTTL rnd now userID label =
     bindE (lift_res (RandToken rnd)) (\<lambda>code.
       let expiresAt = now + wholeSeconds codeTTL in
       bindE (EnrollmentCodeRepo_Create
         \<lparr> co_Code = code, co_UserID = userID, co_Label = label, co_ExpiresAt = expiresAt, co_UsedAt = 0, co_DeviceID = '''' \<rparr>)
         (\<lambda>_. ret (code, expiresAt)))"

text \<open>The sources of randomness of one enrollment: the secret, the sealing nonce, and \<open>NewID\<close>.\<close>

record draws =
  dr_secret :: "string option"
  dr_nonce :: "string option"
  dr_id :: string

definition new_device :: "string \<Rightarrow> string \<Rightarrow> string \<Rightarrow> ClientMeta \<Rightarrow> Device" where
  "new_device userID label sealed meta =
     \<lparr> d_ID = '''', d_UserID = userID, d_Label = label, d_SecretHash = sealed, d_CurrentIPv4 = '''', d_CurrentIPv6 = '''',
       d_Hostname = cm_Hostname meta, d_OS = cm_OS meta, d_ClientVersion = cm_ClientVersion meta, d_LastSeenAt = 0,
       d_Disabled = False, d_CreatedAt = 0, d_UpdatedAt = 0, d_V4ConfirmedAt = 0, d_V6ConfirmedAt = 0,
       d_V4WarnLevel = 0, d_V6WarnLevel = 0 \<rparr>"

definition createSealedDevice ::
  "crypto \<Rightarrow> string \<Rightarrow> draws \<Rightarrow> int \<Rightarrow> string \<Rightarrow> string \<Rightarrow> ClientMeta \<Rightarrow> ('z world_scheme, Device \<times> string) action" where
  "createSealedDevice cr key dr now userID label meta =
     bindE (lift_res (GenerateSecret (dr_secret dr))) (\<lambda>secret.
     bindE (lift_res (SealSecret cr (dr_nonce dr) key secret)) (\<lambda>sealed.
     bindE (DeviceRepo_Create (dr_id dr) now (new_device userID label sealed meta)) (\<lambda>dev.
     ret (dev, secret))))"

definition conflictRejection :: "string \<Rightarrow> err \<Rightarrow> ('z world_scheme, 'a) action" where
  "conflictRejection code e =
     bindE (tryE (EnrollmentCodeRepo_Get code)) (\<lambda>r.
       case r of Inl _ \<Rightarrow> fail e | Inr fresh_code \<Rightarrow> if co_UsedAt fresh_code \<noteq> 0 then fail ErrNotFound else fail e)"

definition rollbackDevice :: "string \<Rightarrow> ('z world_scheme, unit) action" where
  "rollbackDevice deviceID = bindE (tryE (DeviceRepo_Delete deviceID)) (\<lambda>_. ret ())"

definition ConsumeCode_prepare ::
  "crypto \<Rightarrow> string \<Rightarrow> draws \<Rightarrow> int \<Rightarrow> string \<Rightarrow> ClientMeta \<Rightarrow> ('z world_scheme, EnrollmentCode \<times> Device \<times> string) action" where
  "ConsumeCode_prepare cr key dr now code meta =
     bindE (EnrollmentCodeRepo_Get code) (\<lambda>c.
       if co_UsedAt c \<noteq> 0 then fail ErrNotFound
       else if co_ExpiresAt c \<le> now then fail ErrNotFound
       else bindE (tryE (createSealedDevice cr key dr now (co_UserID c) (co_Label c) meta)) (\<lambda>r.
         case r of
           Inl e \<Rightarrow> if e = ErrConflict then conflictRejection code e else fail e
         | Inr (dev, secret) \<Rightarrow> ret (c, dev, secret)))"

definition ConsumeCode_commit ::
  "int \<Rightarrow> string \<Rightarrow> EnrollmentCode \<times> Device \<times> string \<Rightarrow> ('z world_scheme, EnrollResult) action" where
  "ConsumeCode_commit now code p =
     (case p of (c, dev, secret) \<Rightarrow>
        bindE (tryE (EnrollmentCodeRepo_Consume code (d_ID dev) now)) (\<lambda>r.
          case r of
            Inl e \<Rightarrow> bindE (rollbackDevice (d_ID dev)) (\<lambda>_. fail e)
          | Inr _ \<Rightarrow>
              bindE (auditWriter_Log now (device_audit (co_UserID c) ''device.enroll.code'' (d_ID dev))) (\<lambda>_.
              ret \<lparr> er_DeviceID = d_ID dev, er_Secret = secret \<rparr>)))"

definition ConsumeCode ::
  "crypto \<Rightarrow> string \<Rightarrow> draws \<Rightarrow> int \<Rightarrow> string \<Rightarrow> ClientMeta \<Rightarrow> ('z world_scheme, EnrollResult) action" where
  "ConsumeCode cr key dr now code meta =
     bindE (ConsumeCode_prepare cr key dr now code meta) (ConsumeCode_commit now code)"

definition EnrollForUser ::
  "crypto \<Rightarrow> string \<Rightarrow> draws \<Rightarrow> int \<Rightarrow> string \<Rightarrow> string \<Rightarrow> ClientMeta \<Rightarrow> ('z world_scheme, EnrollResult) action" where
  "EnrollForUser cr key dr now userID eventType meta =
     (let label = (if cm_Hostname meta \<noteq> '''' then cm_Hostname meta else ''device'') in
      bindE (createSealedDevice cr key dr now userID label meta) (\<lambda>(dev, secret).
      bindE (auditWriter_Log now (device_audit userID eventType (d_ID dev))) (\<lambda>_.
      ret \<lparr> er_DeviceID = d_ID dev, er_Secret = secret \<rparr>)))"

section \<open>The single-use gate\<close>

text \<open>
  The interface a single-use credential table promises: \<open>unused k d\<close>, the key can still be redeemed in
  some future; \<open>redeems k d d'\<close>, the gate took \<open>d\<close> to \<open>d'\<close> and reported success for \<open>k\<close>. Whatever else
  happens in between, a key is then redeemed at most as often as it was issued.
\<close>

locale single_use =
  fixes unused :: "'k \<Rightarrow> 's \<Rightarrow> bool"
    and redeems :: "'k \<Rightarrow> 's \<Rightarrow> 's \<Rightarrow> bool"
  assumes redeem_takes: "redeems k d d' \<Longrightarrow> unused k d \<and> \<not> unused k d'"
    and redeem_others: "redeems k d d' \<Longrightarrow> unused k' d' \<Longrightarrow> unused k' d"
begin

inductive gate_run :: "'k list \<Rightarrow> 'k list \<Rightarrow> 's \<Rightarrow> 's \<Rightarrow> bool" where
  gate_stop: "gate_run [] [] d d"
| gate_redeem: "gate_run Ms Rs d d1 \<Longrightarrow> redeems k d1 d2 \<Longrightarrow> gate_run Ms (k # Rs) d d2"
| gate_issue: "gate_run Ms Rs d d1 \<Longrightarrow> (\<And>k'. unused k' d2 \<Longrightarrow> unused k' d1 \<or> k' = k) \<Longrightarrow> gate_run (k # Ms) Rs d d2"
| gate_other: "gate_run Ms Rs d d1 \<Longrightarrow> (\<And>k. unused k d2 \<Longrightarrow> unused k d1) \<Longrightarrow> gate_run Ms Rs d d2"

lemma at_most_issued:
  "gate_run Ms Rs d d' \<Longrightarrow>
     count_list Rs k + (if unused k d' then 1 else 0) \<le> count_list Ms k + (if unused k d then 1 else 0)"
proof (induction rule: gate_run.induct)
  case (gate_redeem Ms Rs d d1 j d2)
  with redeem_takes [OF gate_redeem.hyps(2)] redeem_others [OF gate_redeem.hyps(2), of k] show ?case
    by (cases "j = k") (auto split: if_splits)
next
  case (gate_issue Ms Rs d d1 d2 j)
  from gate_issue.IH gate_issue.hyps(2) [of k] show ?case by (auto split: if_splits)
next
  case (gate_other Ms Rs d d1 d2)
  from gate_other.IH gate_other.hyps(2) [of k] show ?case by (auto split: if_splits)
qed simp

end

definition code_unused :: "string \<Rightarrow> database \<Rightarrow> bool" where
  "code_unused k d \<longleftrightarrow> (\<exists>r \<in> set (enrollment_codes d). ec_code r = k \<and> ec_used_at r = None)"

abbreviation codes_distinct :: "database \<Rightarrow> bool" where
  "codes_distinct d \<equiv> distinct (map ec_code (enrollment_codes d))"

text \<open>The database moved by a successful commit, up to what happens to other tables.\<close>

definition code_redeems :: "string \<Rightarrow> database \<Rightarrow> database \<Rightarrow> bool" where
  "code_redeems k d d' \<longleftrightarrow>
     codes_distinct d \<and>
     (\<exists>dev now n. fst (consume_code k dev now d) = Inr (Suc n) \<and>
        enrollment_codes d' = enrollment_codes (snd (consume_code k dev now d)))"

lemma code_redeems_cases:
  assumes "code_redeems k d d'"
  obtains dev now where "enrollment_codes d' = upd_where (redeemable k now)
      (\<lambda>r. r\<lparr>ec_used_at := Some now, ec_device_id := Some dev\<rparr>) (enrollment_codes d)"
    "filter (redeemable k now) (enrollment_codes d) \<noteq> []" "codes_distinct d"
proof -
  from assms obtain dev now n where c: "fst (consume_code k dev now d) = Inr (Suc n)"
    "enrollment_codes d' = enrollment_codes (snd (consume_code k dev now d))"
    and dist: "codes_distinct d" by (auto simp: code_redeems_def)
  then have "length (filter (redeemable k now) (enrollment_codes d)) = Suc n"
    "enrollment_codes d' = upd_where (redeemable k now)
      (\<lambda>r. r\<lparr>ec_used_at := Some now, ec_device_id := Some dev\<rparr>) (enrollment_codes d)"
    by (auto simp: consume_code_def Let_def split: if_splits)
  with dist show thesis by (intro that) auto
qed

interpretation enroll_gate: single_use code_unused code_redeems
proof
  fix k k' d d'
  assume r: "code_redeems k d d'"
  obtain dev now where up: "enrollment_codes d' = upd_where (redeemable k now)
      (\<lambda>r. r\<lparr>ec_used_at := Some now, ec_device_id := Some dev\<rparr>) (enrollment_codes d)"
    and hit: "filter (redeemable k now) (enrollment_codes d) \<noteq> []" and dist: "codes_distinct d"
    using code_redeems_cases [OF r] by blast
  from hit obtain h where h: "h \<in> set (enrollment_codes d)" "redeemable k now h"
    by (meson filter_False)
  have only: "x = h" if "x \<in> set (enrollment_codes d)" "ec_code x = k" for x
    using distinct_key_eq [OF dist that(1) h(1)] that(2) h(2) by (simp add: redeemable_def)
  show "code_unused k d \<and> \<not> code_unused k d'"
  proof
    show "code_unused k d" using h by (auto simp: code_unused_def redeemable_def)
    show "\<not> code_unused k d'"
      using only h by (auto simp: code_unused_def up set_upd_where split: if_splits)
  qed
  show "code_unused k' d" if "code_unused k' d'"
    using that by (auto simp: code_unused_def up set_upd_where split: if_splits)
qed

end
