(* ===== verification/Enrollment_Props.thy ===== *)
theory Enrollment_Props
  imports Enrollment
begin

text \<open>
  What enrollment promises: under every interleaving of redeem requests, their two phases included, a
  code yields at most one device per time it was issued; and a redeem that meets no driver failure
  either yields the device the code was issued for, or changes nothing.
\<close>

section \<open>Relations between database states\<close>

text \<open>Nothing makes a code unused again, and codes stay distinct.\<close>

definition codes_age :: "database \<Rightarrow> database \<Rightarrow> bool" where
  "codes_age d d' \<longleftrightarrow> (\<forall>k. code_unused k d' \<longrightarrow> code_unused k d) \<and> (codes_distinct d \<longrightarrow> codes_distinct d')"

interpretation code_order: db_order codes_age
  by unfold_locales (auto simp: codes_age_def)

lemma codes_age_same: "enrollment_codes d' = enrollment_codes d \<Longrightarrow> codes_age d d'"
  by (simp add: codes_age_def code_unused_def)

lemma codes_age_upd:
  "enrollment_codes d' = upd_where P f (enrollment_codes d) \<Longrightarrow>
   (\<And>r. ec_code (f r) = ec_code r \<and> (ec_used_at (f r) = None \<longrightarrow> ec_used_at r = None)) \<Longrightarrow> codes_age d d'"
  by (auto simp: codes_age_def code_unused_def set_upd_where)

lemma codes_age_filter: "enrollment_codes d' = filter P (enrollment_codes d) \<Longrightarrow> codes_age d d'"
  by (auto simp: codes_age_def code_unused_def)

lemma codes_age_statements:
  "codes_age d (snd (consume_code k dev now d))" "codes_age d (snd (insert_device dv d))"
  "codes_age d (snd (delete_device i d))" "codes_age d (snd (insert_audit e d))" "codes_age d (snd (delete_user i d))"
  by (auto simp: consume_code_def insert_device_def delete_device_def insert_audit_def delete_user_def Let_def
      codes_age_def code_unused_def set_upd_where)

lemma follows_code_reads [follows_intros]:
  "follows codes_age (EnrollmentCodeRepo_Get k)"
  unfolding EnrollmentCodeRepo_Get_def by (rule code_order.follows_queryRow)

lemma follows_lift_res [follows_intros]: "follows codes_age (lift_res r)"
  by (simp add: follows_def code_order.refl)

lemma follows_code_writes [follows_intros]:
  "follows codes_age (DeviceRepo_Create nid now dev)"
  "follows codes_age (DeviceRepo_Delete i)"
  "follows codes_age (auditWriter_Log now e)"
  "follows codes_age (EnrollmentCodeRepo_Consume k i now)"
  "follows codes_age (EnrollmentCodeRepo_PruneExpired now)"
  "follows codes_age (UserRepo_Delete u)"
  unfolding DeviceRepo_Create_def DeviceRepo_Delete_def auditWriter_Log_def AuditLog_Append_def
    EnrollmentCodeRepo_Consume_def EnrollmentCodeRepo_PruneExpired_def UserRepo_Delete_def require_rows_def Let_def
  by (intro follows_intros code_order.follows_stmt code_order.follows_exec codes_age_statements;
      simp add: codes_age_statements code_order.refl codes_age_filter)+

lemma follows_enrollment:
  "follows codes_age (ConsumeCode_prepare cr key dr now k meta)"
  "follows codes_age (ConsumeCode_commit now k p)"
  unfolding ConsumeCode_prepare_def ConsumeCode_commit_def createSealedDevice_def conflictRejection_def rollbackDevice_def
  by (intro follows_intros)+

section \<open>Interleaved redeems\<close>

text \<open>
  A state is the world with the redeem requests that have created their device and not yet spent
  their code. Events record the codes issued (any \<open>CreateCode\<close> that drew the code, even one that
  reported an error) and the redeems that returned a device.
\<close>

datatype code_event = Quiet | Issued string | Redeemed string

type_synonym 'w redeems = "(int \<times> string \<times> EnrollmentCode \<times> Device \<times> string) list \<times> 'w"

inductive code_step :: "code_event \<Rightarrow> 'z world_scheme redeems \<Rightarrow> 'z world_scheme redeems \<Rightarrow> bool" where
  issue: "RandToken rnd = Inr k \<Longrightarrow> code_step (Issued k) (P, w) (P, snd (CreateCode ttl rnd now u l w))"
| prepare: "ConsumeCode_prepare cr key dr now k meta w = (Inr p, w') \<Longrightarrow> code_step Quiet (P, w) ((now, k, p) # P, w')"
| refuse: "ConsumeCode_prepare cr key dr now k meta w = (Inl e, w') \<Longrightarrow> code_step Quiet (P, w) (P, w')"
| commit: "(now, k, p) \<in> set P \<Longrightarrow> ConsumeCode_commit now k p w = (Inr res, w') \<Longrightarrow>
    code_step (Redeemed k) (P, w) (remove1 (now, k, p) P, w')"
| rollback: "(now, k, p) \<in> set P \<Longrightarrow> ConsumeCode_commit now k p w = (Inl e, w') \<Longrightarrow>
    code_step Quiet (P, w) (remove1 (now, k, p) P, w')"
| other: "follows codes_age (m :: ('z world_scheme, unit) action) \<Longrightarrow> code_step Quiet (P, w) (P, snd (m w))"

inductive code_run :: "code_event list \<Rightarrow> 'z world_scheme redeems \<Rightarrow> 'z world_scheme redeems \<Rightarrow> bool" where
  stop: "code_run [] s s"
| step: "code_run es s s1 \<Longrightarrow> code_step e s1 s2 \<Longrightarrow> code_run (e # es) s s2"

lemma CreateCode_issues:
  assumes "RandToken rnd = Inr k"
  shows "(code_unused k' (db (snd (CreateCode ttl rnd now u l w))) \<longrightarrow> code_unused k' (db w) \<or> k' = k) \<and>
         (codes_distinct (db w) \<longrightarrow> codes_distinct (db (snd (CreateCode ttl rnd now u l w))))"
  using assms
  by (auto simp: CreateCode_def EnrollmentCodeRepo_Create_def bindE_def stmt_def insert_code_def code_unused_def
      Let_def split: fault.splits)

lemma commit_redeems:
  assumes dist: "codes_distinct (db w)" and ok: "ConsumeCode_commit now k (c, dev, secret) w = (Inr res, w')"
  shows "code_redeems k (db w) (db w')"
proof -
  obtain r w1 where r: "EnrollmentCodeRepo_Consume k (d_ID dev) now w = (r, w1)"
    by (cases "EnrollmentCodeRepo_Consume k (d_ID dev) now w")
  with ok obtain x where x: "r = Inr x"
    by (cases r) (auto simp: ConsumeCode_commit_def bindE_tryE_case bindE_def rollbackDevice_def tryE_def split: prod.splits)
  with ok r have log: "w' = snd (auditWriter_Log now (device_audit (co_UserID c) ''device.enroll.code'' (d_ID dev)) w1)"
    by (auto simp: ConsumeCode_commit_def bindE_tryE_case bindE_Inr_iff)
  have same: "enrollment_codes (db w') = enrollment_codes (db w1)"
    unfolding log by (auto simp: auditWriter_Log_def AuditLog_Append_def bindE_def tryE_def stmt_def insert_audit_def Let_def
        split: fault.splits)
  from r x obtain n where n: "fst (consume_code k (d_ID dev) now (db w)) = Inr n" "n \<noteq> 0"
    "db w1 = snd (consume_code k (d_ID dev) now (db w))"
    by (auto simp: EnrollmentCodeRepo_Consume_def EnrollmentCodeRepo_Get_def require_rows_def bindE_Inr_iff split: if_splits
        dest!: stmt_Inr queryRow_Inr)
  then obtain m where "n = Suc m" using not0_implies_Suc by blast
  with n same dist show ?thesis by (auto simp: code_redeems_def)
qed

lemma code_step_gate:
  assumes "code_step e s s'" and "codes_distinct (db (snd s))"
  shows "codes_distinct (db (snd s')) \<and>
    (case e of
       Quiet \<Rightarrow> \<forall>k. code_unused k (db (snd s')) \<longrightarrow> code_unused k (db (snd s))
     | Issued k \<Rightarrow> \<forall>k'. code_unused k' (db (snd s')) \<longrightarrow> code_unused k' (db (snd s)) \<or> k' = k
     | Redeemed k \<Rightarrow> code_redeems k (db (snd s)) (db (snd s')))"
  using assms
proof cases
  case (issue rnd k P w ttl now u l)
  with CreateCode_issues [OF issue(4), of _ ttl now u l w] assms(2) show ?thesis by auto
next
  case (prepare cr key dr now k meta w p w' P)
  from followsD [OF follows_enrollment(1) prepare(4)] assms(2) prepare show ?thesis by (auto simp: codes_age_def)
next
  case (refuse cr key dr now k meta w err w' P)
  from followsD [OF follows_enrollment(1) refuse(4)] assms(2) refuse show ?thesis by (auto simp: codes_age_def)
next
  case (commit now k p P w res w')
  obtain c dev secret where p: "p = (c, dev, secret)" by (cases p)
  from followsD [OF follows_enrollment(2) commit(5)] assms(2) commit commit_redeems [of w now k c dev secret res w'] p
  show ?thesis by (auto simp: codes_age_def)
next
  case (rollback now k p P w err w')
  from followsD [OF follows_enrollment(2) rollback(5)] assms(2) rollback show ?thesis by (auto simp: codes_age_def)
next
  case (other m P w)
  from followsD [OF other(4), of w "fst (m w)" "snd (m w)"] assms(2) other show ?thesis by (auto simp: codes_age_def)
qed

fun issued :: "code_event list \<Rightarrow> string list" where
  "issued [] = []"
| "issued (Issued k # es) = k # issued es"
| "issued (_ # es) = issued es"

fun redeemed :: "code_event list \<Rightarrow> string list" where
  "redeemed [] = []"
| "redeemed (Redeemed k # es) = k # redeemed es"
| "redeemed (_ # es) = redeemed es"

lemma code_run_gate:
  assumes "code_run es s s'" and "codes_distinct (db (snd s))"
  shows "codes_distinct (db (snd s')) \<and> enroll_gate.gate_run (issued es) (redeemed es) (db (snd s)) (db (snd s'))"
  using assms
proof (induction rule: code_run.induct)
  case (stop s)
  then show ?case by (simp add: enroll_gate.gate_stop)
next
  case (step es s s1 e s2)
  from step.IH [OF step.prems] have d1: "codes_distinct (db (snd s1))"
    and run: "enroll_gate.gate_run (issued es) (redeemed es) (db (snd s)) (db (snd s1))" by auto
  from code_step_gate [OF step.hyps(2) d1] run show ?case
    by (cases e) (auto intro: enroll_gate.gate_other enroll_gate.gate_issue enroll_gate.gate_redeem)
qed

text \<open>
  C23. Enrollment codes are single use. In every interleaving of code issues, redeem requests (whose
  two phases may be separated by other requests for the same code), roll-backs, pruning, account
  deletion and any other activity that does not reset a code, and with any driver failures, the
  number of devices handed out for a code is at most the number of times the code was issued, plus one
  if it was unused to begin with.
\<close>

theorem code_single_use:
  assumes "code_run es (P, w) (P', w')" and "wf_codes (db w)"
  shows "count_list (redeemed es) k \<le> count_list (issued es) k + (if code_unused k (db w) then 1 else 0)"
proof -
  have "codes_distinct (db w)" using assms(2) by (simp add: wf_codes_def)
  with code_run_gate [OF assms(1)] have "enroll_gate.gate_run (issued es) (redeemed es) (db w) (db w')" by simp
  from enroll_gate.at_most_issued [OF this, of k] show ?thesis by simp
qed

section \<open>A redeem without failures\<close>

lemma find_redeemable:
  assumes dist: "codes_distinct d"
  shows "find (redeemable k now) (enrollment_codes d) =
    (case find_code k d of None \<Rightarrow> None
     | Some r \<Rightarrow> if ec_used_at r = None \<and> now < ec_expires_at r then Some r else None)"
proof (cases "find_code k d")
  case None
  then have "k \<notin> ec_code ` set (enrollment_codes d)" by (simp add: find_code_def find_key_None)
  then have "find (redeemable k now) (enrollment_codes d) = None" by (auto simp: find_None_iff redeemable_def)
  with None show ?thesis by simp
next
  case (Some r)
  then have r: "r \<in> set (enrollment_codes d)" "ec_code r = k" by (auto simp: find_code_def dest: find_SomeD)
  have only: "x = r" if "x \<in> set (enrollment_codes d)" "redeemable k now x" for x
    using distinct_key_eq [OF dist that(1) r(1)] that(2) r(2) by (simp add: redeemable_def)
  show ?thesis
  proof (cases "redeemable k now r")
    case True
    have "find (redeemable k now) (enrollment_codes d) \<noteq> None" using True r by (auto simp: find_None_iff)
    then obtain x where x: "find (redeemable k now) (enrollment_codes d) = Some x" by blast
    with only [of x] Some True show ?thesis by (auto simp: redeemable_def dest!: find_SomeD)
  next
    case False
    then have "find (redeemable k now) (enrollment_codes d) = None" using only by (auto simp: find_None_iff)
    with Some False r(2) show ?thesis by (auto simp: redeemable_def)
  qed
qed

lemma find_code_consume:
  assumes "\<And>x. ec_code (f x) = ec_code x" and "find_code k d = Some r" and "redeemable k now r"
  shows "find_code k (d\<lparr>enrollment_codes := upd_where (redeemable k now) f (enrollment_codes d)\<rparr>) = Some (f r)"
  using assms(2,3) by (simp add: find_code_def find_key_upd_where [of ec_code, OF assms(1)])

lemma createSealedDevice_calm:
  assumes calm: "calm w" and seal: "SealSecret cr (dr_nonce dr) key s = Inr sealed" and dr: "dr_secret dr = Some s"
    and dev: "dev = (new_device u l sealed meta)\<lparr>d_ID := dr_id dr, d_CreatedAt := now, d_UpdatedAt := now\<rparr>"
  shows "createSealedDevice cr key dr now u l meta w =
    (case insert_device dev (db w) of
       (Inl e, d) \<Rightarrow> (Inl e, w\<lparr>db := d\<rparr>) | (Inr _, d) \<Rightarrow> (Inr (dev, s), w\<lparr>db := d\<rparr>))"
proof -
  obtain x d where ins: "insert_device dev (db w) = (x, d)" by (cases "insert_device dev (db w)")
  have "d_ID (new_device u l sealed meta) = []" by (simp add: new_device_def)
  then have "DeviceRepo_Create (dr_id dr) now (new_device u l sealed meta) w =
      bindE (stmt (insert_device dev)) (\<lambda>_. ret dev) w"
    by (simp add: DeviceRepo_Create_def Let_def dev)
  then have "DeviceRepo_Create (dr_id dr) now (new_device u l sealed meta) w =
      (case x of Inl e \<Rightarrow> (Inl e, w\<lparr>db := d\<rparr>) | Inr _ \<Rightarrow> (Inr dev, w\<lparr>db := d\<rparr>))"
    using calm ins by (simp add: bindE_def split: sum.split)
  with seal dr ins show ?thesis
    by (simp add: createSealedDevice_def GenerateSecret_def bindE_def split: sum.split)
qed

text \<open>The second phase, on a code that is still redeemable and a device that is there.\<close>

lemma commit_calm:
  assumes calm: "calm w" and r: "find_code k (db w) = Some r" "redeemable k now r"
    and dev: "d_ID dev \<in> dc_id ` set (devices (db w))"
  shows "\<exists>w'. ConsumeCode_commit now k (c, dev, s) w = (Inr \<lparr> er_DeviceID = d_ID dev, er_Secret = s \<rparr>, w') \<and>
     devices (db w') = devices (db w) \<and>
     find_code k (db w') = Some (r\<lparr>ec_used_at := Some now, ec_device_id := Some (d_ID dev)\<rparr>)"
proof -
  let ?f = "\<lambda>x. x\<lparr>ec_used_at := Some now, ec_device_id := Some (d_ID dev)\<rparr>"
  let ?d = "(db w)\<lparr>enrollment_codes := upd_where (redeemable k now) ?f (enrollment_codes (db w))\<rparr>"
  let ?log = "auditWriter_Log now (device_audit (co_UserID c) ''device.enroll.code'' (d_ID dev)) (w\<lparr>db := ?d\<rparr>)"
  have "r \<in> set (enrollment_codes (db w))" using r(1) by (auto simp: find_code_def dest: find_SomeD)
  with r(2) have hit: "filter (redeemable k now) (enrollment_codes (db w)) \<noteq> []" by (auto simp: filter_empty_conv)
  have gate: "fst (consume_code k (d_ID dev) now (db w)) = Inr (length (filter (redeemable k now) (enrollment_codes (db w))))"
    "snd (consume_code k (d_ID dev) now (db w)) = ?d"
    using dev by (simp_all add: consume_code_def Let_def)
  have found: "find_code k ?d = Some (?f r)" by (rule find_code_consume [OF _ r]) simp
  have cons: "EnrollmentCodeRepo_Consume k (d_ID dev) now w = (Inr (scanEnrollmentCode (?f r)), w\<lparr>db := ?d\<rparr>)"
    using calm gate hit found
    by (simp add: EnrollmentCodeRepo_Consume_def EnrollmentCodeRepo_Get_def require_rows_def bindE_def)
  have "ConsumeCode_commit now k (c, dev, s) w = (Inr \<lparr> er_DeviceID = d_ID dev, er_Secret = s \<rparr>, snd ?log)"
    using cons by (simp add: ConsumeCode_commit_def bindE_def tryE_def auditWriter_Log_def split: prod.splits)
  moreover have "devices (db (snd ?log)) = devices (db w)" "enrollment_codes (db (snd ?log)) = enrollment_codes ?d"
    using calm by (simp_all add: auditWriter_Log_def AuditLog_Append_def insert_audit_def Let_def bindE_def tryE_def)
  ultimately show ?thesis using found by (auto simp: find_code_def)
qed

text \<open>
  A redeem that meets no driver failure, in full: a code that is not redeemable (unknown, used or
  expired) is answered with not-found, a redeemable one whose label is taken on the account with a
  conflict, and both leave the database as it was, so the code stays usable; otherwise exactly one
  device appears, with the code's account and label and a sealed secret that opens to what the client
  is given, and the code is spent on that device.
\<close>

theorem ConsumeCode_exact:
  assumes calm: "calm w" and wf: "wf_db (db w)" and clock: "\<forall>r \<in> set (enrollment_codes (db w)). ec_used_at r \<noteq> Some 0"
    and key: "length key = 32" "gcm_opens_sealed cr" and nonce: "length n = 12"
    and i: "i \<noteq> ''''" "i \<notin> dc_id ` set (devices (db w))"
  shows "case find (redeemable k now) (enrollment_codes (db w)) of
      None \<Rightarrow> ConsumeCode cr key \<lparr> dr_secret = Some s, dr_nonce = Some n, dr_id = i \<rparr> now k meta w = (Inl ErrNotFound, w)
    | Some r \<Rightarrow>
        if (ec_user_id r, ec_label r) \<in> (\<lambda>v. (dc_user_id v, dc_label v)) ` set (devices (db w))
        then ConsumeCode cr key \<lparr> dr_secret = Some s, dr_nonce = Some n, dr_id = i \<rparr> now k meta w = (Inl ErrConflict, w)
        else \<exists>v w'. ConsumeCode cr key \<lparr> dr_secret = Some s, dr_nonce = Some n, dr_id = i \<rparr> now k meta w =
                 (Inr \<lparr> er_DeviceID = i, er_Secret = s \<rparr>, w') \<and>
               devices (db w') = devices (db w) @ [v] \<and> dc_id v = i \<and> dc_user_id v = ec_user_id r \<and> dc_label v = ec_label r \<and>
               \<not> dc_disabled v \<and> shown v = (None, None) \<and> OpenSecret cr key (dc_secret_hash v) = Inr s \<and>
               find_code k (db w') = Some (r\<lparr>ec_used_at := Some now, ec_device_id := Some i\<rparr>)"
proof -
  let ?dr = "\<lparr> dr_secret = Some s, dr_nonce = Some n, dr_id = i \<rparr>"
  have dist: "codes_distinct (db w)" using wf by (simp add: wf_db_def wf_codes_def)
  note found = find_redeemable [OF dist, of k now]
  show ?thesis
  proof (cases "find_code k (db w)")
    case None
    with calm found show ?thesis
      by (simp add: ConsumeCode_def ConsumeCode_prepare_def EnrollmentCodeRepo_Get_def bindE_def)
  next
    case (Some r)
    then have r: "r \<in> set (enrollment_codes (db w))" "ec_code r = k" by (auto simp: find_code_def dest: find_SomeD)
    have get: "EnrollmentCodeRepo_Get k w = (Inr (scanEnrollmentCode r), w)"
      using calm Some by (simp add: EnrollmentCodeRepo_Get_def)
    show ?thesis
    proof (cases "ec_used_at r = None \<and> now < ec_expires_at r")
      case False
      then have "co_UsedAt (scanEnrollmentCode r) \<noteq> 0 \<or> co_ExpiresAt (scanEnrollmentCode r) \<le> now"
        using clock r(1) by (cases "ec_used_at r") (auto simp: scanEnrollmentCode_def)
      with get have "ConsumeCode cr key ?dr now k meta w = (Inl ErrNotFound, w)"
        by (auto simp: ConsumeCode_def ConsumeCode_prepare_def bindE_def)
      with False Some found show ?thesis by auto
    next
      case True
      then have red: "redeemable k now r" using r by (simp add: redeemable_def)
      have c: "co_UsedAt (scanEnrollmentCode r) = 0" "co_ExpiresAt (scanEnrollmentCode r) = ec_expires_at r"
        "co_UserID (scanEnrollmentCode r) = ec_user_id r" "co_Label (scanEnrollmentCode r) = ec_label r"
        using True by (simp_all add: scanEnrollmentCode_def)
      have user: "ec_user_id r \<in> uc_id ` set (users (db w))" using wf r(1) by (auto simp: wf_db_def wf_codes_def)
      obtain sealed where seal: "SealSecret cr (Some n) key s = Inr sealed" using key(1) by (auto simp: SealSecret_def newGCM_def)
      define dev where dev: "dev = (new_device (ec_user_id r) (ec_label r) sealed meta)\<lparr>d_ID := i, d_CreatedAt := now, d_UpdatedAt := now\<rparr>"
      have create: "createSealedDevice cr key ?dr now (ec_user_id r) (ec_label r) meta w =
          (case insert_device dev (db w) of (Inl e, d) \<Rightarrow> (Inl e, w\<lparr>db := d\<rparr>) | (Inr _, d) \<Rightarrow> (Inr (dev, s), w\<lparr>db := d\<rparr>))"
        using seal by (intro createSealedDevice_calm [OF calm]) (simp_all add: dev)
      show ?thesis
      proof (cases "(ec_user_id r, ec_label r) \<in> (\<lambda>v. (dc_user_id v, dc_label v)) ` set (devices (db w))")
        case taken: True
        then have "insert_device dev (db w) = (Inl ErrConflict, db w)"
          by (simp add: insert_device_def dev new_device_def)
        with create get c calm True have "ConsumeCode cr key ?dr now k meta w = (Inl ErrConflict, w)"
          by (simp add: ConsumeCode_def ConsumeCode_prepare_def conflictRejection_def bindE_def tryE_def)
        with taken True Some found show ?thesis by simp
      next
        case free: False
        let ?w1 = "w\<lparr>db := (db w)\<lparr>devices := devices (db w) @ [device_values dev]\<rparr>\<rparr>"
        have id: "d_ID dev = i" by (simp add: dev)
        have "insert_device dev (db w) = (Inr (), db ?w1)"
          using free i user by (simp add: insert_device_def dev new_device_def)
        with create get c True
        have prep: "ConsumeCode_prepare cr key ?dr now k meta w = (Inr (scanEnrollmentCode r, dev, s), ?w1)"
          by (simp add: ConsumeCode_prepare_def bindE_def tryE_def)
        have "find_code k (db ?w1) = Some r" "d_ID dev \<in> dc_id ` set (devices (db ?w1))"
          using Some by (simp_all add: find_code_def device_values_def)
        from commit_calm [OF _ this(1) red this(2), of "scanEnrollmentCode r" s] calm prep id
        obtain w' where "ConsumeCode cr key ?dr now k meta w = (Inr \<lparr> er_DeviceID = i, er_Secret = s \<rparr>, w')"
          "devices (db w') = devices (db w) @ [device_values dev]"
          "find_code k (db w') = Some (r\<lparr>ec_used_at := Some now, ec_device_id := Some i\<rparr>)"
          by (auto simp: ConsumeCode_def bindE_def)
        moreover have "OpenSecret cr key (dc_secret_hash (device_values dev)) = Inr s"
          using OpenSecret_sealed [OF key(2) nonce seal] by (simp add: device_values_def dev new_device_def)
        ultimately show ?thesis
          using free True Some found
          by (auto simp: device_values_def dev new_device_def shown_def nullIfEmpty_def intro!: exI [of _ "device_values dev"])
      qed
    qed
  qed
qed

section \<open>A code redeemed once\<close>

definition code1 :: enrollment_code_row where
  "code1 = \<lparr> ec_code = ''K'', ec_user_id = ''u1'', ec_label = ''new'', ec_expires_at = 1000, ec_used_at = None, ec_device_id = None \<rparr>"

definition enroll_world :: world where
  "enroll_world = \<lparr> db = sample_db\<lparr>enrollment_codes := [code1]\<rparr>, faults = [] \<rparr>"

definition sample_draws :: draws where
  "sample_draws = \<lparr> dr_secret = Some ''secret'', dr_nonce = Some ''twelve-bytes'', dr_id = ''d2'' \<rparr>"

definition sample_meta :: ClientMeta where
  "sample_meta = \<lparr> cm_Hostname = ''h'', cm_OS = ''linux'', cm_ClientVersion = ''1'' \<rparr>"

definition sample_key :: string where
  "sample_key = replicate 32 CHR ''k''"

definition prepared :: "(err + EnrollmentCode \<times> Device \<times> string) \<times> world" where
  "prepared = ConsumeCode_prepare plain_crypto sample_key sample_draws 500 ''K'' sample_meta enroll_world"

definition committed :: "(err + EnrollResult) \<times> world" where
  "committed = ConsumeCode_commit 500 ''K'' (projr (fst prepared)) (snd prepared)"

lemma enroll_world_wf: "wf_db (db enroll_world)"
  by (simp add: enroll_world_def code1_def wf_db_def wf_table_defs wf_device_row_def sample_defs)

lemma prepared_ok: "prepared = (Inr (projr (fst prepared)), snd prepared)"
proof -
  have "\<not> isl (fst prepared)" by code_simp
  then have "fst prepared = Inr (projr (fst prepared))" by simp
  then show ?thesis by (metis prod.collapse)
qed

lemma committed_ok: "committed = (Inr (projr (fst committed)), snd committed)"
proof -
  have "\<not> isl (fst committed)" by code_simp
  then have "fst committed = Inr (projr (fst committed))" by simp
  then show ?thesis by (metis prod.collapse)
qed

lemma code_single_use_witness:
  "code_run [Redeemed ''K'', Quiet] ([], enroll_world) ([], snd committed) \<and>
   count_list (redeemed [Redeemed ''K'', Quiet]) ''K'' \<le> count_list (issued [Redeemed ''K'', Quiet]) ''K'' + 1"
proof -
  have "code_run [Quiet] ([], enroll_world) ([(500, ''K'', projr (fst prepared))], snd prepared)"
    using code_run.step [OF code_run.stop code_step.prepare] prepared_ok unfolding prepared_def by fast
  moreover have "code_step (Redeemed ''K'') ([(500, ''K'', projr (fst prepared))], snd prepared) ([], snd committed)"
    using code_step.commit [of 500 "''K''" "projr (fst prepared)" "[(500, ''K'', projr (fst prepared))]" "snd prepared"
        "projr (fst committed)" "snd committed"] committed_ok
    unfolding committed_def by simp
  ultimately have run: "code_run [Redeemed ''K'', Quiet] ([], enroll_world) ([], snd committed)" by (rule code_run.step)
  have "wf_codes (db enroll_world)" using enroll_world_wf by (simp add: wf_db_def)
  from code_single_use [OF run this, of "''K''"] have
    "count_list (redeemed [Redeemed ''K'', Quiet]) ''K'' \<le> count_list (issued [Redeemed ''K'', Quiet]) ''K'' + 1"
    by (simp split: if_splits)
  with run show ?thesis by blast
qed

lemma ConsumeCode_exact_witness:
  "\<exists>v w'. ConsumeCode plain_crypto sample_key sample_draws 500 ''K'' sample_meta enroll_world =
       (Inr \<lparr> er_DeviceID = ''d2'', er_Secret = ''secret'' \<rparr>, w') \<and>
     devices (db w') = [dev1, v] \<and> OpenSecret plain_crypto sample_key (dc_secret_hash v) = Inr ''secret''"
proof -
  have found: "find (redeemable ''K'' 500) (enrollment_codes (db enroll_world)) = Some code1"
    by (simp add: enroll_world_def code1_def redeemable_def)
  have devs: "devices (db enroll_world) = [dev1]" by (simp add: enroll_world_def sample_db_def)
  have "calm enroll_world" "\<forall>r \<in> set (enrollment_codes (db enroll_world)). ec_used_at r \<noteq> Some 0"
    "length sample_key = 32" "length ''twelve-bytes'' = 12" "''d2'' \<noteq> ''''" "''d2'' \<notin> dc_id ` set (devices (db enroll_world))"
    by (simp_all add: enroll_world_def code1_def sample_key_def devs dev1_def sample_db_def)
  from ConsumeCode_exact [OF this(1) enroll_world_wf this(2,3) plain_crypto_gcm this(4-6),
      where k = "''K''" and now = 500 and s = "''secret''" and meta = sample_meta]
  show ?thesis unfolding found sample_draws_def
    by (simp add: devs dev1_def code1_def) blast
qed

end
