(* ===== verification/Audit_Log.thy ===== *)
theory Audit_Log
  imports Account_Inv
begin

text \<open>
  The reading and pruning half of \<open>internal/store/audit_log.go\<close>: the filtered, cursor-paginated listing and
  the batched prune. \<open>Append\<close> is in \<open>Device_Service\<close>, next to the writer the services share. The
  cursors have the format of the history cursors.
\<close>

section \<open>Listing\<close>

definition scanAuditEntry :: "audit_row \<Rightarrow> AuditEntry" where
  "scanAuditEntry r =
     \<lparr> ae_ID = al_id r, ae_ActorUserID = scanString (al_actor_user_id r), ae_EventType = al_event_type r,
       ae_TargetType = scanString (al_target_type r), ae_TargetID = scanString (al_target_id r),
       ae_DetailsJSON = scanString (al_details_json r), ae_IP = scanString (al_ip r),
       ae_UserAgent = scanString (al_user_agent r), ae_CreatedAt = al_created_at r \<rparr>"

record AuditFilter =
  af_ActorUserID :: string
  af_EventType :: string
  af_Since :: int
  af_Until :: int

record AuditPage =
  ap_Rows :: "AuditEntry list"
  ap_NextCursor :: string

definition encodeAuditCursor :: "int \<Rightarrow> int \<Rightarrow> string" where
  "encodeAuditCursor createdAt i = EncodeToString (showInt createdAt @ '':'' @ showInt i)"

definition decodeAuditCursor :: "string \<Rightarrow> err + int \<times> int" where
  "decodeAuditCursor c =
     (if c = '''' then Inr (0, 0)
      else case DecodeString c of
             None \<Rightarrow> Inl ErrDecode
           | Some raw \<Rightarrow>
               (case SplitN2 raw (CHR '':'') of
                  [a, b] \<Rightarrow>
                    (case ParseInt a of
                       None \<Rightarrow> Inl ErrDecode
                     | Some createdAt \<Rightarrow>
                         (case ParseInt b of None \<Rightarrow> Inl ErrDecode | Some i \<Rightarrow> Inr (createdAt, i)))
                | _ \<Rightarrow> Inl ErrDecode))"

text \<open>The WHERE clause: a filter field with its zero value adds no condition.\<close>

definition audit_matches :: "AuditFilter \<Rightarrow> audit_row \<Rightarrow> bool" where
  "audit_matches f r \<longleftrightarrow>
     (af_ActorUserID f \<noteq> '''' \<longrightarrow> al_actor_user_id r = Some (af_ActorUserID f)) \<and>
     (af_EventType f \<noteq> '''' \<longrightarrow> al_event_type r = af_EventType f) \<and>
     (af_Since f \<noteq> 0 \<longrightarrow> af_Since f \<le> al_created_at r) \<and>
     (af_Until f \<noteq> 0 \<longrightarrow> al_created_at r \<le> af_Until f)"

definition after_cursor :: "(int \<times> int) option \<Rightarrow> audit_row \<Rightarrow> bool" where
  "after_cursor cur r \<longleftrightarrow>
     (case cur of None \<Rightarrow> True | Some (t, i) \<Rightarrow> al_created_at r < t \<or> al_created_at r = t \<and> al_id r < i)"

definition audit_query :: "AuditFilter \<Rightarrow> (int \<times> int) option \<Rightarrow> int \<Rightarrow> database \<Rightarrow> audit_row list" where
  "audit_query f cur limit d =
     take (nat limit) (rev (sort_key (\<lambda>r. (al_created_at r, al_id r))
       (filter (\<lambda>r. audit_matches f r \<and> after_cursor cur r) (audit_log d))))"

definition ListPaginated :: "AuditFilter \<Rightarrow> string \<Rightarrow> int \<Rightarrow> ('z world_scheme, AuditPage) action" where
  "ListPaginated f cursor limit0 =
     (let l = (if limit0 \<le> 0 then 100 else limit0); limit = (if l > 500 then 500 else l) in
      bindE (lift_res (if cursor = '''' then Inr None
                       else case decodeAuditCursor cursor of Inl e \<Rightarrow> Inl e | Inr c \<Rightarrow> Inr (Some c))) (\<lambda>cur.
      bindE (query (audit_query f cur limit)) (\<lambda>rs.
        let result = map scanAuditEntry rs in
        ret \<lparr> ap_Rows = result,
              ap_NextCursor = (if int (length result) = limit
                then encodeAuditCursor (ae_CreatedAt (last result)) (ae_ID (last result)) else '''') \<rparr>)))"

section \<open>Pruning\<close>

definition prunable_audit :: "int \<Rightarrow> database \<Rightarrow> audit_row list" where
  "prunable_audit olderThan d = filter (\<lambda>r. al_created_at r < olderThan) (audit_log d)"

definition AuditLog_Prune ::
  "(nat \<Rightarrow> audit_row list \<Rightarrow> audit_row list) \<Rightarrow> int \<Rightarrow> nat \<Rightarrow> ('z world_scheme, nat) action" where
  "AuditLog_Prune pick olderThan batch_size =
     exec (\<lambda>d. let gone = map al_id (pick batch_size (prunable_audit olderThan d)) in
       (length (filter (\<lambda>r. al_id r \<in> set gone) (audit_log d)),
        d\<lparr>audit_log := filter (\<lambda>r. al_id r \<notin> set gone) (audit_log d)\<rparr>))"

end
