(* ===== verification/Pruner.thy ===== *)
theory Pruner
  imports Audit_Log Samples
begin

text \<open>
  \<open>internal/server/pruner.go\<close>: the hourly pruner. Expired rows go in one statement per table; the operator's
  retention policy is applied in batches, by loops that run until a batch deletes nothing or fails.
  The loops are partial functions, \<open>None\<close> being a loop that never ends; the pruner is shown to return
  under every pattern of driver failures. \<open>started\<close> is the number of devices whose drain begins
  before the context is cancelled.
\<close>

section \<open>The drain loop\<close>

definition pruneBatchSize :: nat where "pruneBatchSize = 5000"

partial_function (option) drain :: "('w, nat) action \<Rightarrow> nat \<Rightarrow> 'w \<Rightarrow> (nat \<times> 'w) option" where
  "drain prune_batch deleted w =
     (case prune_batch w of
        (Inl e, w') \<Rightarrow> Some (deleted, w')
      | (Inr n, w') \<Rightarrow> if n = 0 then Some (deleted + n, w') else drain prune_batch (deleted + n) w')"

fun drain_each :: "('d \<Rightarrow> ('w, nat) action) \<Rightarrow> 'd list \<Rightarrow> nat \<Rightarrow> 'w \<Rightarrow> (nat \<times> 'w) option" where
  "drain_each prune_batch [] deleted w = Some (deleted, w)"
| "drain_each prune_batch (x # xs) deleted w =
     (case drain (prune_batch x) deleted w of
        None \<Rightarrow> None
      | Some (n, w') \<Rightarrow> drain_each prune_batch xs n w')"

section \<open>The pruner\<close>

text \<open>The engine's choice of rows for each of the three batched statements.\<close>

record choices =
  ch_history :: "nat \<Rightarrow> ip_history_row list \<Rightarrow> ip_history_row list"
  ch_audit :: "nat \<Rightarrow> audit_row list \<Rightarrow> audit_row list"
  ch_deliveries :: "nat \<Rightarrow> delivery_row list \<Rightarrow> delivery_row list"

definition history_cutoff :: "RetentionSection \<Rightarrow> int \<Rightarrow> int" where
  "history_cutoff rt now = (if 0 < IPHistoryDays rt then now - IPHistoryDays rt * 86400 else - (2 ^ 63))"

definition pruneIPHistory ::
  "choices \<Rightarrow> nat \<Rightarrow> RetentionSection \<Rightarrow> int \<Rightarrow> 'z world_scheme \<Rightarrow> (nat \<times> 'z world_scheme) option" where
  "pruneIPHistory ch started rt now w =
     (case DeviceRepo_ListAll w of
        (Inl e, w') \<Rightarrow> Some (0, w')
      | (Inr devs, w') \<Rightarrow>
          drain_each (\<lambda>dev. IPHistory_Prune (ch_history ch) (d_ID dev) (history_cutoff rt now) (IPHistoryPerDeviceMax rt) pruneBatchSize)
            (take started devs) 0 w')"

definition pruneAuditLog :: "choices \<Rightarrow> int \<Rightarrow> 'z world_scheme \<Rightarrow> (nat \<times> 'z world_scheme) option" where
  "pruneAuditLog ch cutoff w = drain (AuditLog_Prune (ch_audit ch) cutoff pruneBatchSize) 0 w"

definition pruneNotificationDeliveries :: "choices \<Rightarrow> int \<Rightarrow> 'z world_scheme \<Rightarrow> (nat \<times> 'z world_scheme) option" where
  "pruneNotificationDeliveries ch cutoff w = drain (DeliveryRepo_Prune (ch_deliveries ch) cutoff pruneBatchSize) 0 w"

definition pruneRetention ::
  "choices \<Rightarrow> nat \<Rightarrow> RetentionSection \<Rightarrow> int \<Rightarrow> 'z world_scheme \<Rightarrow> ((nat \<times> nat \<times> nat) \<times> 'z world_scheme) option" where
  "pruneRetention ch started rt now w =
     Option.bind (if 0 < IPHistoryDays rt \<or> 0 < IPHistoryPerDeviceMax rt then pruneIPHistory ch started rt now w else Some (0, w))
       (\<lambda>(ipRows, w1).
     Option.bind (if 0 < AuditLogDays rt then pruneAuditLog ch (now - AuditLogDays rt * 86400) w1 else Some (0, w1))
       (\<lambda>(auditRows, w2).
     Option.bind (if 0 < NotificationDeliveriesDays rt
                  then pruneNotificationDeliveries ch (now - NotificationDeliveriesDays rt * 86400) w2 else Some (0, w2))
       (\<lambda>(deliveryRows, w3). Some ((ipRows, auditRows, deliveryRows), w3))))"

text \<open>The statements on the expiring tables; a failure of one does not stop the others.\<close>

definition prune_expired :: "int \<Rightarrow> ('z world_scheme, unit) action" where
  "prune_expired now =
     bindE (tryE (ReplayNonce_PruneExpired now)) (\<lambda>_.
     bindE (tryE (SessionRepo_PruneExpired now)) (\<lambda>_.
     bindE (tryE (EnrollmentCodeRepo_PruneExpired now)) (\<lambda>_.
     bindE (tryE (OIDCDeviceFlowRepo_PruneExpired now)) (\<lambda>_.
     bindE (tryE (AccountRecoveryRepo_PruneExpired now)) (\<lambda>_.
     bindE (tryE (UserRepo_ClearExpiredPendingEmails now)) (\<lambda>_. ret ()))))))"

definition retention_audit :: AuditEntry where
  "retention_audit = \<lparr> ae_ID = 0, ae_ActorUserID = '''', ae_EventType = ''retention.prune'', ae_TargetType = '''', ae_TargetID = '''',
     ae_DetailsJSON = '''', ae_IP = '''', ae_UserAgent = '''', ae_CreatedAt = 0 \<rparr>"

text \<open>\<open>now\<close>, \<open>nowR\<close> and \<open>nowA\<close> are the three readings of the clock: in \<open>prune\<close>, in \<open>pruneRetention\<close> and in the append.\<close>

definition prune ::
  "choices \<Rightarrow> nat \<Rightarrow> RetentionSection \<Rightarrow> int \<Rightarrow> int \<Rightarrow> int \<Rightarrow> 'z world_scheme \<Rightarrow> 'z world_scheme option" where
  "prune ch started rt now nowR nowA w =
     (case pruneRetention ch started rt nowR (snd (prune_expired now w)) of
        None \<Rightarrow> None
      | Some ((ipRows, auditRows, deliveryRows), w') \<Rightarrow>
          if ipRows + auditRows + deliveryRows > 0 then Some (snd (AuditLog_Append nowA retention_audit w')) else Some w')"

section \<open>The contract of a batched prune\<close>

text \<open>
  A batch that reports 0 found nothing to delete; one that reports more left strictly less to
  delete. Whatever happens, also on a failure, only rows that were eligible disappear and none becomes
  eligible. The choice of rows is any that SQL allows.
\<close>

locale batched_prune =
  fixes step :: "(nat \<Rightarrow> 'r list \<Rightarrow> 'r list) \<Rightarrow> ('z world_scheme, nat) action"
    and eligible :: "database \<Rightarrow> 'r list"
    and rows :: "database \<Rightarrow> 'r list"
    and wf :: "database \<Rightarrow> bool"
  assumes progress: "picks pick \<Longrightarrow> wf (db w) \<Longrightarrow> step pick w = (Inr n, w') \<Longrightarrow>
      if n = 0 then eligible (db w) = [] \<and> db w' = db w else length (eligible (db w')) < length (eligible (db w))"
    and frame: "picks pick \<Longrightarrow> wf (db w) \<Longrightarrow> step pick w = (x, w') \<Longrightarrow>
      wf (db w') \<and> set (eligible (db w')) \<subseteq> set (eligible (db w)) \<and> set (rows (db w')) \<subseteq> set (rows (db w)) \<and>
      set (rows (db w)) \<subseteq> set (rows (db w')) \<union> set (eligible (db w))"
    and no_failure: "calm w \<Longrightarrow> step pick w = (x, w') \<Longrightarrow> calm w' \<and> (\<exists>n. x = Inr n)"
begin

definition pruned :: "database \<Rightarrow> database \<Rightarrow> bool" where
  "pruned d d' \<longleftrightarrow> wf d' \<and> set (eligible d') \<subseteq> set (eligible d) \<and> set (rows d') \<subseteq> set (rows d) \<and>
     set (rows d) \<subseteq> set (rows d') \<union> set (eligible d)"

lemma pruned_trans: "pruned a b \<Longrightarrow> pruned b c \<Longrightarrow> pruned a c"
  unfolding pruned_def by blast

lemma drain_returns:
  assumes pick: "picks pick"
  shows "wf (db w) \<Longrightarrow> \<exists>m w'. drain (step pick) k w = Some (m, w') \<and> pruned (db w) (db w') \<and>
           (calm w \<longrightarrow> calm w' \<and> eligible (db w') = [])"
proof (induction "length (eligible (db w))" arbitrary: w k rule: less_induct)
  case less
  obtain x w1 where x: "step pick w = (x, w1)" by (cases "step pick w")
  note fr = frame [OF pick less.prems x]
  show ?case
  proof (cases x)
    case (Inl e)
    then have "drain (step pick) k w = Some (k, w1)" using x by (simp add: drain.simps)
    moreover have "\<not> calm w" using no_failure [OF _ x] Inl by auto
    ultimately show ?thesis using fr unfolding pruned_def by blast
  next
    case (Inr n)
    note pr = progress [OF pick less.prems x [unfolded Inr]]
    show ?thesis
    proof (cases "n = 0")
      case True
      then have "drain (step pick) k w = Some (k, w1)" using x Inr by (simp add: drain.simps)
      moreover have "eligible (db w1) = []" using pr True by simp
      moreover have "calm w \<longrightarrow> calm w1" using no_failure [OF _ x] by blast
      ultimately show ?thesis using fr unfolding pruned_def by blast
    next
      case False
      then have step: "drain (step pick) k w = drain (step pick) (k + n) w1" using x Inr by (subst drain.simps) simp
      have "length (eligible (db w1)) < length (eligible (db w))" "wf (db w1)" using pr fr False by simp_all
      from less.hyps [OF this, of "k + n"] obtain m w2 where
        IH: "drain (step pick) (k + n) w1 = Some (m, w2)" "pruned (db w1) (db w2)" "calm w1 \<longrightarrow> calm w2 \<and> eligible (db w2) = []"
        by blast
      have "pruned (db w) (db w1)" using fr by (simp add: pruned_def)
      from pruned_trans [OF this IH(2)] IH(1,3) step no_failure [OF _ x] show ?thesis by auto
    qed
  qed
qed

end

section \<open>What a batch does, a loop does\<close>

lemma drain_rel:
  assumes "drain m k w = Some (n, w')"
    and trans: "\<And>a b c. R a b \<Longrightarrow> R b c \<Longrightarrow> R a c" and step: "\<And>v. R v (snd (m v))"
  shows "R w w'"
proof -
  have "(\<forall>v. R v (snd (m v))) \<longrightarrow> R w (snd (n, w'))"
  proof (rule drain.raw_induct [OF _ assms(1), where P = "\<lambda>m k w y. (\<forall>v. R v (snd (m v))) \<longrightarrow> R w (snd y)"])
    fix loop m k w y
    assume IH: "\<And>m k w y. loop m k w = Some y \<Longrightarrow> (\<forall>v. R v (snd (m v))) \<longrightarrow> R w (snd y)"
      and out: "(case m w of (Inl e, w') \<Rightarrow> Some (k, w') | (Inr n, w') \<Rightarrow> if n = 0 then Some (k + n, w') else loop m (k + n) w') = Some y"
    show "(\<forall>v. R v (snd (m v))) \<longrightarrow> R w (snd y)"
    proof
      assume m: "\<forall>v. R v (snd (m v))"
      obtain x w1 where x: "m w = (x, w1)" by (cases "m w")
      with m have w1: "R w w1" by (metis snd_conv)
      show "R w (snd y)"
      proof (cases x)
        case (Inl e)
        with out x w1 show ?thesis by auto
      next
        case (Inr j)
        show ?thesis
        proof (cases "j = 0")
          case True
          with out x Inr w1 show ?thesis by auto
        next
          case False
          with out x Inr have "loop m (k + j) w1 = Some y" by simp
          from IH [OF this] m have "R w1 (snd y)" by blast
          with w1 show ?thesis by (rule trans)
        qed
      qed
    qed
  qed
  with step show ?thesis by simp
qed

lemma drain_each_rel:
  assumes "drain_each f xs k w = Some (n, w')"
    and trans: "\<And>a b c. R a b \<Longrightarrow> R b c \<Longrightarrow> R a c" and refl: "\<And>v. R v v"
    and step: "\<And>x v. x \<in> set xs \<Longrightarrow> R v (snd (f x v))"
  shows "R w w'"
  using assms(1) step
proof (induction xs arbitrary: k w)
  case (Cons x xs)
  from Cons.prems(1) obtain j w1 where d: "drain (f x) k w = Some (j, w1)" "drain_each f xs j w1 = Some (n, w')"
    by (auto split: option.splits)
  from drain_rel [OF d(1), of R] trans Cons.prems(2) have "R w w1" by simp
  moreover from Cons.IH [OF d(2)] Cons.prems(2) have "R w1 w'" by simp
  ultimately show ?case by (rule trans)
qed (simp add: refl)

section \<open>The three tables\<close>

lemma pick_nonempty: "picks pick \<Longrightarrow> 0 < n \<Longrightarrow> xs \<noteq> [] \<Longrightarrow> pick n xs \<noteq> []"
  by (metis length_greater_0_conv min_less_iff_conj picks_def)

lemma pick_subset: "picks pick \<Longrightarrow> x \<in> set (pick n xs) \<Longrightarrow> x \<in> set xs"
  by (meson picks_def subsetD)

lemma exec_cases:
  "exec f w = (x, w') \<Longrightarrow> db w' = db w \<or> db w' = snd (f (db w))"
  by (auto simp: exec_def stmt_def split: fault.splits)

lemma exec_db: "db (snd (exec f w)) = db w \<or> db (snd (exec f w)) = snd (f (db w))"
  by (auto simp: exec_def stmt_def split: fault.splits)

lemma exec_calm: "calm w \<Longrightarrow> exec f w = (x, w') \<Longrightarrow> calm w' \<and> (\<exists>n. x = Inr n)"
  by auto

text \<open>
  One batched DELETE: of the eligible rows \<open>E\<close> of a table \<open>rs\<close> with distinct ids the engine picks some, and
  the rows with their ids go.
\<close>

definition kept :: "('r \<Rightarrow> int) \<Rightarrow> 'r list \<Rightarrow> 'r list \<Rightarrow> 'r list" where
  "kept k p xs = filter (\<lambda>r. k r \<notin> set (map k p)) xs"

lemma batch_delete:
  assumes pick: "picks pick" and dist: "distinct (map k rs)" and sub: "set E \<subseteq> set rs" and p: "p = pick pruneBatchSize E"
  shows "if filter (\<lambda>r. k r \<in> set (map k p)) rs = [] then E = [] \<and> kept k p rs = rs
         else length (kept k p E) < length E"
    and "set rs \<subseteq> set (kept k p rs) \<union> set E" and "set (kept k p rs) \<subseteq> set rs"
proof -
  have pE: "y \<in> set E" if "y \<in> set p" for y using that pick_subset [OF pick] by (simp add: p)
  show "if filter (\<lambda>r. k r \<in> set (map k p)) rs = [] then E = [] \<and> kept k p rs = rs else length (kept k p E) < length E"
  proof (cases "E = []")
    case True
    then have "p = []" using pick p by (metis list.size(3) min_0R length_0_conv picks_def)
    then show ?thesis using True by (simp add: kept_def)
  next
    case False
    then obtain y where y: "y \<in> set p"
      using pick_nonempty [OF pick _ False, of pruneBatchSize] p by (auto simp: pruneBatchSize_def intro: last_in_set)
    then have "y \<in> set (filter (\<lambda>r. k r \<in> set (map k p)) rs)" using pE sub by auto
    then have "filter (\<lambda>r. k r \<in> set (map k p)) rs \<noteq> []" by (metis emptyE empty_set)
    moreover have "length (kept k p E) < length E"
      unfolding kept_def using y pE by (intro length_filter_less [where x = y]) auto
    ultimately show ?thesis by simp
  qed
  show "set rs \<subseteq> set (kept k p rs) \<union> set E"
  proof
    fix r assume r: "r \<in> set rs"
    show "r \<in> set (kept k p rs) \<union> set E"
    proof (cases "k r \<in> set (map k p)")
      case True
      then obtain y where y: "y \<in> set p" "k y = k r" by auto
      then have "y = r" using distinct_key_eq [OF dist _ r] pE sub by auto
      with y pE show ?thesis by auto
    qed (use r in \<open>simp add: kept_def\<close>)
  qed
  show "set (kept k p rs) \<subseteq> set rs" by (auto simp: kept_def)
qed

lemma kept_subset: "set (kept k p xs) \<subseteq> set xs"
  by (auto simp: kept_def)

lemma prunable_kept:
  "prunable_audit t (d\<lparr>audit_log := kept al_id p (audit_log d)\<rparr>) = kept al_id p (prunable_audit t d)"
  "prunable_deliveries t (d\<lparr>notification_deliveries := kept dl_id q (notification_deliveries d)\<rparr>) = kept dl_id q (prunable_deliveries t d)"
  by (simp_all add: prunable_audit_def prunable_deliveries_def kept_def conj_commute)

lemma AuditLog_Prune_batch:
  "AuditLog_Prune pick t n =
     exec (\<lambda>d. let p = pick n (prunable_audit t d) in
       (length (filter (\<lambda>r. al_id r \<in> set (map al_id p)) (audit_log d)), d\<lparr>audit_log := kept al_id p (audit_log d)\<rparr>))"
  by (simp add: AuditLog_Prune_def kept_def Let_def)

lemma DeliveryRepo_Prune_batch:
  "DeliveryRepo_Prune pick t n =
     exec (\<lambda>d. let p = pick n (prunable_deliveries t d) in
       (length (filter (\<lambda>r. dl_id r \<in> set (map dl_id p)) (notification_deliveries d)),
        d\<lparr>notification_deliveries := kept dl_id p (notification_deliveries d)\<rparr>))"
  by (simp add: DeliveryRepo_Prune_def kept_def Let_def)

interpretation audit_prune: batched_prune
  "\<lambda>pick. AuditLog_Prune pick cutoff pruneBatchSize" "prunable_audit cutoff" audit_log wf_audit for cutoff
proof
  fix pick :: "nat \<Rightarrow> audit_row list \<Rightarrow> audit_row list" and w w' :: "'z world_scheme" and x n
  assume pick: "picks pick" and wf: "wf_audit (db w)"
  define p where "p = pick pruneBatchSize (prunable_audit cutoff (db w))"
  let ?out = "(db w)\<lparr>audit_log := kept al_id p (audit_log (db w))\<rparr>"
  have "distinct (map al_id (audit_log (db w)))" "set (prunable_audit cutoff (db w)) \<subseteq> set (audit_log (db w))"
    using wf by (auto simp: wf_audit_def prunable_audit_def)
  note batch = batch_delete [OF pick this p_def]
  show "if n = 0 then prunable_audit cutoff (db w) = [] \<and> db w' = db w
      else length (prunable_audit cutoff (db w')) < length (prunable_audit cutoff (db w))"
    if "AuditLog_Prune pick cutoff pruneBatchSize w = (Inr n, w')"
  proof -
    have "n = length (filter (\<lambda>r. al_id r \<in> set (map al_id p)) (audit_log (db w)))" "db w' = ?out"
      using exec_Inr [OF that [unfolded AuditLog_Prune_batch]] by (simp_all add: Let_def p_def)
    with batch(1) show ?thesis by (simp add: prunable_kept split: if_splits)
  qed
  show "wf_audit (db w') \<and> set (prunable_audit cutoff (db w')) \<subseteq> set (prunable_audit cutoff (db w)) \<and>
      set (audit_log (db w')) \<subseteq> set (audit_log (db w)) \<and>
      set (audit_log (db w)) \<subseteq> set (audit_log (db w')) \<union> set (prunable_audit cutoff (db w))"
    if "AuditLog_Prune pick cutoff pruneBatchSize w = (x, w')"
  proof -
    have "db w' = db w \<or> db w' = ?out"
      using that unfolding AuditLog_Prune_batch by (auto simp: Let_def p_def [symmetric] dest!: exec_cases)
    then show ?thesis
    proof
      assume "db w' = ?out"
      moreover have "wf_audit ?out" using wf by (auto simp: wf_audit_def kept_def)
      ultimately show ?thesis using batch(2,3) kept_subset by (simp add: prunable_kept)
    qed (use wf in simp)
  qed
qed (auto simp: AuditLog_Prune_def dest: exec_calm)

interpretation delivery_prune: batched_prune
  "\<lambda>pick. DeliveryRepo_Prune pick cutoff pruneBatchSize" "prunable_deliveries cutoff" notification_deliveries wf_db for cutoff
proof
  fix pick :: "nat \<Rightarrow> delivery_row list \<Rightarrow> delivery_row list" and w w' :: "'z world_scheme" and x n
  assume pick: "picks pick" and wf: "wf_db (db w)"
  define p where "p = pick pruneBatchSize (prunable_deliveries cutoff (db w))"
  let ?out = "(db w)\<lparr>notification_deliveries := kept dl_id p (notification_deliveries (db w))\<rparr>"
  have "distinct (map dl_id (notification_deliveries (db w)))"
    "set (prunable_deliveries cutoff (db w)) \<subseteq> set (notification_deliveries (db w))"
    using wf by (auto simp: wf_db_def wf_outbox_def strict_sorted_iff prunable_deliveries_def)
  note batch = batch_delete [OF pick this p_def]
  show "if n = 0 then prunable_deliveries cutoff (db w) = [] \<and> db w' = db w
      else length (prunable_deliveries cutoff (db w')) < length (prunable_deliveries cutoff (db w))"
    if "DeliveryRepo_Prune pick cutoff pruneBatchSize w = (Inr n, w')"
  proof -
    have "n = length (filter (\<lambda>r. dl_id r \<in> set (map dl_id p)) (notification_deliveries (db w)))" "db w' = ?out"
      using exec_Inr [OF that [unfolded DeliveryRepo_Prune_batch]] by (simp_all add: Let_def p_def)
    with batch(1) show ?thesis by (simp add: prunable_kept split: if_splits)
  qed
  show "wf_db (db w') \<and> set (prunable_deliveries cutoff (db w')) \<subseteq> set (prunable_deliveries cutoff (db w)) \<and>
      set (notification_deliveries (db w')) \<subseteq> set (notification_deliveries (db w)) \<and>
      set (notification_deliveries (db w)) \<subseteq> set (notification_deliveries (db w')) \<union> set (prunable_deliveries cutoff (db w))"
    if "DeliveryRepo_Prune pick cutoff pruneBatchSize w = (x, w')"
  proof -
    have "db w' = db w \<or> db w' = ?out"
      using that unfolding DeliveryRepo_Prune_batch by (auto simp: Let_def p_def [symmetric] dest!: exec_cases)
    then show ?thesis
    proof
      assume "db w' = ?out"
      moreover have "wf_db ?out" using filter_deliveries_wf [OF wf] by (simp add: kept_def)
      ultimately show ?thesis using batch(2,3) kept_subset by (simp add: prunable_kept)
    qed (use wf in simp)
  qed
qed (auto simp: DeliveryRepo_Prune_def dest: exec_calm)

section \<open>Address history\<close>

text \<open>
  The cap keeps the newest rows: a row is over the cap when at least \<open>m\<close> rows are newer. Deleting rows
  therefore never makes another row eligible.
\<close>

lemma newest_ids_less:
  assumes dist: "distinct ids" and x: "x \<in> set ids" and m: "0 < m"
  shows "x < Min (set (newest_ids m ids)) \<longleftrightarrow> m \<le> card {y \<in> set ids. x < y}"
proof -
  define L where "L = rev (sort ids)"
  have L: "set L = set ids" "distinct L" "sorted_wrt (>) L"
    using dist by (simp_all add: L_def sorted_wrt_rev flip: strict_sorted_iff) (simp add: strict_sorted_iff)
  obtain k where k: "k < length L" "L ! k = x" using x L(1) by (metis in_set_conv_nth)
  have gt: "L ! j < L ! i" if "i < j" "j < length L" for i j
    using sorted_wrt_nth_less [OF L(3)] that by blast
  have "{y \<in> set ids. x < y} = set (take k L)"
  proof (rule set_eqI)
    fix y
    show "y \<in> {y \<in> set ids. x < y} \<longleftrightarrow> y \<in> set (take k L)"
    proof
      assume "y \<in> {y \<in> set ids. x < y}"
      then have "y \<in> set L" "x < y" using L(1) by auto
      then obtain j where j: "j < length L" "L ! j = y" "x < y" by (auto simp: in_set_conv_nth)
      have "j < k"
      proof (rule ccontr)
        assume "\<not> j < k"
        then have "j = k \<or> k < j" by linarith
        with gt [of k j] j k show False by auto
      qed
      with j k show "y \<in> set (take k L)" by (auto simp: in_set_conv_nth intro!: exI [of _ j])
    next
      assume "y \<in> set (take k L)"
      then obtain j where "j < k" "j < length L" "L ! j = y" by (auto simp: in_set_conv_nth)
      with gt [of j k] k L(1) show "y \<in> {y \<in> set ids. x < y}" by (metis (mono_tags, lifting) mem_Collect_eq nth_mem)
    qed
  qed
  then have card: "card {y \<in> set ids. x < y} = k"
    using k L(2) by (simp add: distinct_card)
  have ne: "take m L \<noteq> []" using m k by auto
  show ?thesis unfolding card newest_ids_def L_def [symmetric]
  proof
    assume less: "x < Min (set (take m L))"
    show "m \<le> k"
    proof (rule ccontr)
      assume "\<not> m \<le> k"
      then have "x \<in> set (take m L)" using k by (auto simp: in_set_conv_nth intro!: exI [of _ k])
      then have "Min (set (take m L)) \<le> x" by simp
      with less show False by simp
    qed
  next
    assume mk: "m \<le> k"
    have "x < y" if "y \<in> set (take m L)" for y
    proof -
      from that obtain j where "j < m" "j < length L" "L ! j = y" by (auto simp: in_set_conv_nth)
      with gt [of j k] mk k show ?thesis by auto
    qed
    then show "x < Min (set (take m L))" using ne by simp
  qed
qed

lemma eligible_kept:
  assumes dist: "distinct (map hc_id rs)" and p: "set p \<subseteq> set (prune_eligible t m rs)"
  shows "\<exists>Q. prune_eligible t m (kept hc_id p rs) = filter Q (kept hc_id p (prune_eligible t m rs))"
proof -
  let ?rs' = "kept hc_id p rs"
  let ?cap = "\<lambda>xs r. 0 < m \<and> hc_id r < Min (set (newest_ids (nat m) (map hc_id xs)))"
  let ?el = "\<lambda>xs r. hc_id r \<noteq> Max (set (map hc_id xs)) \<and> (hc_observed_at r < t \<or> ?cap xs r)"
  have keep: "?rs' = filter (\<lambda>r. hc_id r \<notin> set (map hc_id p)) rs" by (simp add: kept_def)
  have el: "?el rs r" if r: "r \<in> set ?rs'" and e: "?el ?rs' r" for r
  proof -
    have rr: "r \<in> set rs" using r by (simp add: kept_def)
    then have ne: "rs \<noteq> []" by auto
    define M where "M = Max (set (map hc_id rs))"
    have "M \<in> set (map hc_id rs)" unfolding M_def using ne by (intro Max_in) auto
    then obtain z where z: "z \<in> set rs" "hc_id z = M" by auto
    have "M \<notin> set (map hc_id p)" using p by (auto simp: prune_eligible_def Let_def M_def)
    then have "z \<in> set ?rs'" using z by (simp add: kept_def)
    then have "M \<in> set (map hc_id ?rs')" using z by auto
    moreover have "y \<le> M" if "y \<in> set (map hc_id ?rs')" for y
      using that unfolding M_def by (intro Max_ge) (auto simp: kept_def)
    ultimately have max: "Max (set (map hc_id ?rs')) = M" by (intro Max_eqI) auto
    have "?cap rs r" if "?cap ?rs' r"
    proof -
      have d': "distinct (map hc_id ?rs')" using dist by (simp add: kept_def)
      have "{y \<in> set (map hc_id ?rs'). hc_id r < y} \<subseteq> {y \<in> set (map hc_id rs). hc_id r < y}" by (auto simp: kept_def)
      then have "card {y \<in> set (map hc_id ?rs'). hc_id r < y} \<le> card {y \<in> set (map hc_id rs). hc_id r < y}"
        by (intro card_mono) auto
      with that newest_ids_less [OF d', of "hc_id r" "nat m"] newest_ids_less [OF dist, of "hc_id r" "nat m"] r rr
      show ?thesis by auto
    qed
    with e max show ?thesis unfolding M_def by auto
  qed
  have "prune_eligible t m ?rs' = filter (?el ?rs') ?rs'" by (simp add: prune_eligible_def Let_def)
  also have "\<dots> = filter (?el ?rs') (filter (?el rs) ?rs')"
    unfolding filter_filter by (rule filter_cong) (use el in blast)+
  also have "filter (?el rs) ?rs' = kept hc_id p (filter (?el rs) rs)"
    unfolding kept_def filter_filter by (rule filter_cong) blast+
  also have "filter (?el rs) rs = prune_eligible t m rs" by (simp add: prune_eligible_def Let_def)
  finally show ?thesis by (intro exI [of _ "?el ?rs'"])
qed

lemma device_history_kept:
  "device_history i (d\<lparr>ip_history := kept hc_id p (ip_history d)\<rparr>) = kept hc_id p (device_history i d)"
  by (simp add: device_history_def kept_def conj_commute)

lemma IPHistory_Prune_batch:
  "IPHistory_Prune pick i t m n =
     exec (\<lambda>d. let p = pick n (prune_eligible t m (device_history i d)) in
       (length (filter (\<lambda>r. hc_id r \<in> set (map hc_id p)) (ip_history d)), d\<lparr>ip_history := kept hc_id p (ip_history d)\<rparr>))"
  by (simp add: IPHistory_Prune_def kept_def Let_def)

interpretation history_prune: batched_prune
  "\<lambda>pick. IPHistory_Prune pick i t m pruneBatchSize" "\<lambda>d. prune_eligible t m (device_history i d)" ip_history wf_db for i t m
proof
  fix pick :: "nat \<Rightarrow> ip_history_row list \<Rightarrow> ip_history_row list" and w w' :: "'z world_scheme" and x n
  assume pick: "picks pick" and wf: "wf_db (db w)"
  let ?E = "prune_eligible t m (device_history i (db w))"
  define p where "p = pick pruneBatchSize ?E"
  let ?out = "(db w)\<lparr>ip_history := kept hc_id p (ip_history (db w))\<rparr>"
  have dist: "distinct (map hc_id (ip_history (db w)))" using wf by (simp add: wf_db_def wf_history_distinct)
  have sub: "set ?E \<subseteq> set (ip_history (db w))" by (auto simp: prune_eligible_def device_history_def Let_def)
  note batch = batch_delete [OF pick dist sub p_def]
  have "distinct (map hc_id (device_history i (db w)))" using dist by (simp add: device_history_def)
  moreover have "set p \<subseteq> set ?E" using pick_subset [OF pick] by (auto simp: p_def)
  ultimately obtain Q where Q: "prune_eligible t m (device_history i ?out) = filter Q (kept hc_id p ?E)"
    using eligible_kept by (metis device_history_kept)
  show "if n = 0 then ?E = [] \<and> db w' = db w
      else length (prune_eligible t m (device_history i (db w'))) < length ?E"
    if "IPHistory_Prune pick i t m pruneBatchSize w = (Inr n, w')"
  proof -
    have "n = length (filter (\<lambda>r. hc_id r \<in> set (map hc_id p)) (ip_history (db w)))" "db w' = ?out"
      using exec_Inr [OF that [unfolded IPHistory_Prune_batch]] by (simp_all add: Let_def p_def)
    with batch(1) Q show ?thesis
      by (auto split: if_splits intro: le_less_trans [OF length_filter_le])
  qed
  show "wf_db (db w') \<and> set (prune_eligible t m (device_history i (db w'))) \<subseteq> set ?E \<and>
      set (ip_history (db w')) \<subseteq> set (ip_history (db w)) \<and>
      set (ip_history (db w)) \<subseteq> set (ip_history (db w')) \<union> set ?E"
    if "IPHistory_Prune pick i t m pruneBatchSize w = (x, w')"
  proof -
    have "db w' = db w \<or> db w' = ?out"
      using that unfolding IPHistory_Prune_batch by (auto simp: Let_def p_def [symmetric] dest!: exec_cases)
    then show ?thesis
    proof
      assume out: "db w' = ?out"
      have "wf_db ?out" using prune_wf [OF wf] by (simp add: kept_def)
      moreover have "set (prune_eligible t m (device_history i ?out)) \<subseteq> set ?E"
        unfolding Q by (auto simp: kept_def)
      ultimately show ?thesis unfolding out using batch(2,3) by simp
    qed (use wf in simp)
  qed
qed (auto simp: IPHistory_Prune_def dest: exec_calm)

end
