(* ===== verification/Pruner_Props.thy ===== *)
theory Pruner_Props
  imports Pruner
begin

text \<open>
  The pruner returns under every pattern of driver failures and every choice of rows by the engine,
  keeps the invariant of the whole database, removes nothing but what its policies name, and without
  failures leaves nothing they name.
\<close>

section \<open>The invariant\<close>

lemma hist_agrees_deliveries [simp]: "hist_agrees (d\<lparr>notification_deliveries := n\<rparr>) = hist_agrees d"
  by (simp add: hist_agrees_def recorded_def device_history_def)

lemma sound_frame_updates:
  "sound d \<Longrightarrow> wf_hist (d\<lparr>ip_history := h\<rparr>) \<Longrightarrow> sound (d\<lparr>ip_history := h\<rparr>)"
  "sound d \<Longrightarrow> wf_audit (d\<lparr>audit_log := a\<rparr>) \<Longrightarrow> sound (d\<lparr>audit_log := a\<rparr>)"
  "sound d \<Longrightarrow> wf_db (d\<lparr>notification_deliveries := n\<rparr>) \<Longrightarrow> sound (d\<lparr>notification_deliveries := n\<rparr>)"
proof -
  show "sound (d\<lparr>ip_history := h\<rparr>)" if "sound d" "wf_hist (d\<lparr>ip_history := h\<rparr>)"
    using that by (simp add: sound_def wf_identity_def wf_accounts_def wf_bootstrap_def wf_audit_def)
  show "sound (d\<lparr>audit_log := a\<rparr>)" if "sound d" "wf_audit (d\<lparr>audit_log := a\<rparr>)"
    using that by (simp add: sound_def wf_hist_def wf_db_def wf_table_defs wf_identity_def wf_accounts_def wf_bootstrap_def)
  show "sound (d\<lparr>notification_deliveries := n\<rparr>)" if "sound d" "wf_db (d\<lparr>notification_deliveries := n\<rparr>)"
    using that by (simp add: sound_def wf_hist_def wf_identity_def wf_accounts_def wf_bootstrap_def wf_audit_def)
qed

lemma preserves_sound_prunes [preserves_intros]:
  assumes "picks (ch_history ch)"
  shows "preserves (on_db sound) (IPHistory_Prune (ch_history ch) i t m b)"
    "preserves (on_db sound) (AuditLog_Prune (ch_audit ch) t b)"
    "preserves (on_db sound) (DeliveryRepo_Prune (ch_deliveries ch) t b)"
proof -
  show "preserves (on_db sound) (IPHistory_Prune (ch_history ch) i t m b)"
  proof
    fix w :: "'z world_scheme" assume s: "on_db sound w"
    then have "on_db wf_hist w" by (simp add: on_db_def sound_def)
    from preservesD [OF preserves_hist_Prune [OF assms] this prod.collapse [symmetric]]
    have h: "wf_hist (db (snd (IPHistory_Prune (ch_history ch) i t m b w)))"
      by (simp add: on_db_def)
    have "db (snd (IPHistory_Prune (ch_history ch) i t m b w)) = db w \<or>
        (\<exists>h. db (snd (IPHistory_Prune (ch_history ch) i t m b w)) = (db w)\<lparr>ip_history := h\<rparr>)"
      unfolding IPHistory_Prune_batch by (rule disjE [OF exec_db]) (auto simp: Let_def)
    with h s show "on_db sound (snd (IPHistory_Prune (ch_history ch) i t m b w))"
      by (auto simp: on_db_def intro: sound_frame_updates)
  qed
  have "wf_audit (d\<lparr>audit_log := filter P (audit_log d)\<rparr>)" if "sound d" for d P
    using that by (auto simp: sound_def wf_audit_def)
  then show "preserves (on_db sound) (AuditLog_Prune (ch_audit ch) t b)"
    unfolding AuditLog_Prune_def
    by (intro preserves_exec) (simp add: Let_def sound_frame_updates(2))
  have "wf_db (d\<lparr>notification_deliveries := filter P (notification_deliveries d)\<rparr>)" if "sound d" for d P
    using that by (simp add: sound_def wf_hist_def filter_deliveries_wf)
  then show "preserves (on_db sound) (DeliveryRepo_Prune (ch_deliveries ch) t b)"
    unfolding DeliveryRepo_Prune_def
    by (intro preserves_exec) (simp add: Let_def sound_frame_updates(3))
qed

section \<open>The expiring tables\<close>

text \<open>What the six statements do to the database, whatever fails, and what they do when nothing fails.\<close>

definition same_retained :: "database \<Rightarrow> database \<Rightarrow> bool" where
  "same_retained d d' \<longleftrightarrow>
     devices d' = devices d \<and> ip_history d' = ip_history d \<and> audit_log d' = audit_log d \<and>
     audit_log_seq d' = audit_log_seq d \<and> notification_deliveries d' = notification_deliveries d"

interpretation retained_order: db_order same_retained
  by unfold_locales (auto simp: same_retained_def)

definition swept :: "int \<Rightarrow> database \<Rightarrow> database" where
  "swept now d =
     d\<lparr>replay_nonces := filter (\<lambda>r. \<not> rn_expires_at r < now) (replay_nonces d),
       sessions := filter (\<lambda>r. \<not> ss_expires_at r < now) (sessions d),
       enrollment_codes := filter (\<lambda>r. \<not> ec_expires_at r < now) (enrollment_codes d),
       oidc_device_flows := filter (\<lambda>r. \<not> fl_expires_at r \<le> now) (oidc_device_flows d),
       account_recovery_tokens := filter (\<lambda>r. \<not> rt_expires_at r < now) (account_recovery_tokens d),
       users := upd_where (pending_expired now) clear_pending (users d)\<rparr>"

lemma prune_expired_frame: "follows same_retained (prune_expired now)"
  unfolding prune_expired_def ReplayNonce_PruneExpired_def SessionRepo_PruneExpired_def EnrollmentCodeRepo_PruneExpired_def
    OIDCDeviceFlowRepo_PruneExpired_def AccountRecoveryRepo_PruneExpired_def UserRepo_ClearExpiredPendingEmails_def
  by (intro follows_intros retained_order.follows_exec)
     (auto simp: same_retained_def delete_sessions_def delete_flows_def delete_recovery_def)

lemma prune_expired_calm: "calm w \<Longrightarrow> snd (prune_expired now w) = w\<lparr>db := swept now (db w)\<rparr>"
  by (simp add: prune_expired_def ReplayNonce_PruneExpired_def SessionRepo_PruneExpired_def EnrollmentCodeRepo_PruneExpired_def
      OIDCDeviceFlowRepo_PruneExpired_def AccountRecoveryRepo_PruneExpired_def UserRepo_ClearExpiredPendingEmails_def
      bindE_def tryE_def delete_sessions_def delete_flows_def delete_recovery_def swept_def)

lemma preserves_nonce_prune [preserves_intros]: "preserves (on_db sound) (ReplayNonce_PruneExpired now)"
proof -
  have h: "hist_agrees (d\<lparr>replay_nonces := r\<rparr>) = hist_agrees d" for d r
    by (simp add: hist_agrees_def recorded_def device_history_def)
  show ?thesis
    unfolding ReplayNonce_PruneExpired_def
    by (rule preserves_exec)
       (auto simp: sound_def wf_hist_def wf_db_def wf_table_defs h wf_identity_def wf_accounts_def wf_bootstrap_def wf_audit_def)
qed

lemma preserves_prune_expired [preserves_intros]: "preserves (on_db sound) (prune_expired now)"
  unfolding prune_expired_def by (intro preserves_intros)

section \<open>The retained tables\<close>

text \<open>
  \<open>spares\<close>: only rows the policy names are gone. \<open>applied\<close>: no row it names is left. A policy that is
  off names nothing.
\<close>

definition history_on :: "RetentionSection \<Rightarrow> bool" where
  "history_on rt \<longleftrightarrow> 0 < IPHistoryDays rt \<or> 0 < IPHistoryPerDeviceMax rt"

definition over_history :: "RetentionSection \<Rightarrow> int \<Rightarrow> string \<Rightarrow> database \<Rightarrow> ip_history_row list" where
  "over_history rt now i d = prune_eligible (history_cutoff rt now) (IPHistoryPerDeviceMax rt) (device_history i d)"

definition over_audit :: "RetentionSection \<Rightarrow> int \<Rightarrow> database \<Rightarrow> audit_row list" where
  "over_audit rt now d = (if 0 < AuditLogDays rt then prunable_audit (now - AuditLogDays rt * 86400) d else [])"

definition over_deliveries :: "RetentionSection \<Rightarrow> int \<Rightarrow> database \<Rightarrow> delivery_row list" where
  "over_deliveries rt now d =
     (if 0 < NotificationDeliveriesDays rt then prunable_deliveries (now - NotificationDeliveriesDays rt * 86400) d else [])"

definition spares :: "RetentionSection \<Rightarrow> int \<Rightarrow> database \<Rightarrow> database \<Rightarrow> bool" where
  "spares rt now d d' \<longleftrightarrow>
     (\<forall>r \<in> set (ip_history d). r \<in> set (ip_history d') \<or>
        history_on rt \<and> (\<exists>v \<in> set (devices d). r \<in> set (over_history rt now (dc_id v) d))) \<and>
     set (audit_log d) \<subseteq> set (audit_log d') \<union> set (over_audit rt now d) \<and>
     set (notification_deliveries d) \<subseteq> set (notification_deliveries d') \<union> set (over_deliveries rt now d)"

definition applied :: "RetentionSection \<Rightarrow> int \<Rightarrow> database \<Rightarrow> bool" where
  "applied rt now d \<longleftrightarrow>
     (history_on rt \<longrightarrow> (\<forall>v \<in> set (devices d). over_history rt now (dc_id v) d = [])) \<and>
     over_audit rt now d = [] \<and> over_deliveries rt now d = []"

lemma exec_pred: "Q (db w) \<Longrightarrow> Q (snd (f (db w))) \<Longrightarrow> Q (db (snd (exec f w)))"
  using exec_db [of f w] by auto

text \<open>One device's drain does not touch the history of another.\<close>

lemma IPHistory_Prune_other:
  assumes pick: "picks pick" and wf: "wf_db (db w)" and ne: "i \<noteq> j"
  shows "device_history i (db (snd (IPHistory_Prune pick j t m n w))) = device_history i (db w)"
proof -
  let ?p = "pick n (prune_eligible t m (device_history j (db w)))"
  have dist: "distinct (map hc_id (ip_history (db w)))" using wf by (simp add: wf_db_def wf_history_distinct)
  have "hc_id r \<notin> set (map hc_id ?p)" if r: "r \<in> set (ip_history (db w))" "hc_device_id r = i" for r
  proof
    assume "hc_id r \<in> set (map hc_id ?p)"
    then obtain s where s: "s \<in> set ?p" "hc_id s = hc_id r" by auto
    then have "s \<in> set (device_history j (db w))"
      using pick_subset [OF pick s(1)] by (simp add: prune_eligible_def Let_def)
    then have "s \<in> set (ip_history (db w))" "hc_device_id s = j" by (auto simp: device_history_def)
    with distinct_key_eq [OF dist _ r(1)] s(2) r(2) ne show False by auto
  qed
  then have out: "device_history i ((db w)\<lparr>ip_history := kept hc_id ?p (ip_history (db w))\<rparr>) = device_history i (db w)"
    by (auto simp: device_history_def kept_def intro!: filter_cong)
  show ?thesis unfolding IPHistory_Prune_batch
    by (rule exec_pred [where Q = "\<lambda>d. device_history i d = device_history i (db w)"]) (simp_all add: Let_def out)
qed

text \<open>Each batch writes its own table only.\<close>

definition history_only :: "database \<Rightarrow> database \<Rightarrow> bool" where
  "history_only d d' \<longleftrightarrow> d' = d\<lparr>ip_history := ip_history d'\<rparr>"

definition audit_only :: "database \<Rightarrow> database \<Rightarrow> bool" where
  "audit_only d d' \<longleftrightarrow> d' = d\<lparr>audit_log := audit_log d'\<rparr>"

definition deliveries_only :: "database \<Rightarrow> database \<Rightarrow> bool" where
  "deliveries_only d d' \<longleftrightarrow> d' = d\<lparr>notification_deliveries := notification_deliveries d'\<rparr>"

interpretation history_order: db_order history_only
  by unfold_locales (simp_all add: history_only_def, metis (no_types, lifting) database.surjective database.update_convs(3))

interpretation audit_order: db_order audit_only
  by unfold_locales (simp_all add: audit_only_def, metis (no_types, lifting) database.surjective database.update_convs(7))

interpretation deliveries_order: db_order deliveries_only
  by unfold_locales (simp_all add: deliveries_only_def, metis (no_types, lifting) database.surjective database.update_convs(10))

lemma prune_tables:
  "follows history_only (IPHistory_Prune pk i t m n)"
  "follows audit_only (AuditLog_Prune pa t n)"
  "follows deliveries_only (DeliveryRepo_Prune pd t n)"
  unfolding IPHistory_Prune_def AuditLog_Prune_def DeliveryRepo_Prune_def
  by (intro history_order.follows_exec audit_order.follows_exec deliveries_order.follows_exec;
      simp add: Let_def history_only_def audit_only_def deliveries_only_def)+

definition same_expiring :: "database \<Rightarrow> database \<Rightarrow> bool" where
  "same_expiring d d' \<longleftrightarrow>
     replay_nonces d' = replay_nonces d \<and> sessions d' = sessions d \<and> enrollment_codes d' = enrollment_codes d \<and>
     oidc_device_flows d' = oidc_device_flows d \<and> account_recovery_tokens d' = account_recovery_tokens d \<and> users d' = users d"

lemma history_only_tables:
  assumes "history_only d d'"
  shows "same_expiring d d'" "devices d' = devices d" "audit_log d' = audit_log d" "notification_deliveries d' = notification_deliveries d"
  by (subst assms [unfolded history_only_def], simp add: same_expiring_def)+

lemma audit_only_tables:
  assumes "audit_only d d'"
  shows "same_expiring d d'" "devices d' = devices d" "ip_history d' = ip_history d" "notification_deliveries d' = notification_deliveries d"
  by (subst assms [unfolded audit_only_def], simp add: same_expiring_def)+

lemma deliveries_only_tables:
  assumes "deliveries_only d d'"
  shows "same_expiring d d'" "devices d' = devices d" "ip_history d' = ip_history d" "audit_log d' = audit_log d"
  by (subst assms [unfolded deliveries_only_def], simp add: same_expiring_def)+

text \<open>What holds of the database before and after every batch holds of the loops.\<close>

lemma drain_sound:
  assumes "drain m k w = Some (n, w')" and "preserves (on_db sound) m" and "sound (db w)"
  shows "sound (db w')"
proof -
  have "sound (db w) \<longrightarrow> sound (db w')"
    by (rule drain_rel [OF assms(1), where R = "\<lambda>a b. sound (db a) \<longrightarrow> sound (db b)"])
       (use assms(2) in \<open>auto simp: preserves_def on_db_def\<close>)
  with assms(3) show ?thesis by simp
qed

abbreviation history_batch :: "choices \<Rightarrow> RetentionSection \<Rightarrow> int \<Rightarrow> Device \<Rightarrow> ('z world_scheme, nat) action" where
  "history_batch ch rt now dev \<equiv>
     IPHistory_Prune (ch_history ch) (d_ID dev) (history_cutoff rt now) (IPHistoryPerDeviceMax rt) pruneBatchSize"

lemma history_drain_other:
  assumes pick: "picks (ch_history ch)" and wf: "wf_db (db w)" and ne: "i \<noteq> d_ID dev"
    and out: "drain (history_batch ch rt now dev) k w = Some (n, w')"
  shows "device_history i (db w') = device_history i (db w)"
proof -
  let ?R = "\<lambda>a b :: 'a world_scheme. wf_db (db a) \<longrightarrow> wf_db (db b) \<and> device_history i (db b) = device_history i (db a)"
  have "?R w w'"
  proof (rule drain_rel [OF out])
    fix v :: "'a world_scheme"
    obtain x v' where v: "history_batch ch rt now dev v = (x, v')" by (cases "history_batch ch rt now dev v")
    show "?R v (snd (history_batch ch rt now dev v))"
      using history_prune.frame [OF pick _ v] IPHistory_Prune_other [OF pick _ ne] by (metis snd_conv v)
  qed auto
  with wf show ?thesis by simp
qed

lemma history_drains:
  assumes pick: "picks (ch_history ch)"
  shows "sound (db w) \<Longrightarrow> \<exists>m w'. drain_each (history_batch ch rt now) devs k w = Some (m, w') \<and> sound (db w') \<and>
     history_only (db w) (db w') \<and>
     (\<forall>i. set (over_history rt now i (db w')) \<subseteq> set (over_history rt now i (db w))) \<and>
     (\<forall>r \<in> set (ip_history (db w)). r \<in> set (ip_history (db w')) \<or> (\<exists>dev \<in> set devs. r \<in> set (over_history rt now (d_ID dev) (db w)))) \<and>
     (calm w \<longrightarrow> calm w' \<and> (\<forall>dev \<in> set devs. over_history rt now (d_ID dev) (db w') = []))"
proof (induction devs arbitrary: k w)
  case Nil
  then show ?case by (simp add: history_order.refl)
next
  case (Cons dev devs)
  have wf: "wf_db (db w)" using Cons.prems by (simp add: sound_def wf_hist_def)
  from history_prune.drain_returns [OF pick wf, where i = "d_ID dev" and t = "history_cutoff rt now" and m = "IPHistoryPerDeviceMax rt" and k = k]
  obtain n w1 where d: "drain (history_batch ch rt now dev) k w = Some (n, w1)"
    and p: "history_prune.pruned (history_cutoff rt now) (IPHistoryPerDeviceMax rt) (d_ID dev) (db w) (db w1)"
    and c: "calm w \<longrightarrow> calm w1 \<and> over_history rt now (d_ID dev) (db w1) = []"
    unfolding over_history_def by blast
  have s1: "sound (db w1)"
    by (rule drain_sound [OF d preserves_sound_prunes(1) [OF pick] Cons.prems])
  have only: "history_only (db w) (db w1)"
    by (rule drain_rel [OF d, where R = "\<lambda>a b. history_only (db a) (db b)"])
       (auto intro: history_order.trans follows_at [OF prune_tables(1)])
  note other = history_drain_other [OF pick wf _ d]
  have shrink: "set (over_history rt now i (db w1)) \<subseteq> set (over_history rt now i (db w))" for i
    using p other [of i] by (cases "i = d_ID dev") (auto simp: history_prune.pruned_def over_history_def)
  have gone: "r \<in> set (ip_history (db w1)) \<or> r \<in> set (over_history rt now (d_ID dev) (db w))" if "r \<in> set (ip_history (db w))" for r
    using p that by (auto simp: history_prune.pruned_def over_history_def)
  from Cons.IH [OF s1, of n] obtain m w2 where
    IH: "drain_each (history_batch ch rt now) devs n w1 = Some (m, w2)" "sound (db w2)" "history_only (db w1) (db w2)"
      "\<forall>i. set (over_history rt now i (db w2)) \<subseteq> set (over_history rt now i (db w1))"
      "\<forall>r \<in> set (ip_history (db w1)). r \<in> set (ip_history (db w2)) \<or> (\<exists>dev \<in> set devs. r \<in> set (over_history rt now (d_ID dev) (db w1)))"
      "calm w1 \<longrightarrow> calm w2 \<and> (\<forall>dev \<in> set devs. over_history rt now (d_ID dev) (db w2) = [])"
    by blast
  show ?case
  proof (intro exI conjI)
    show "drain_each (history_batch ch rt now) (dev # devs) k w = Some (m, w2)" using d IH(1) by simp
    show "sound (db w2)" by (rule IH(2))
    show "history_only (db w) (db w2)" by (rule history_order.trans [OF only IH(3)])
    show "\<forall>i. set (over_history rt now i (db w2)) \<subseteq> set (over_history rt now i (db w))" using IH(4) shrink by blast
    show "\<forall>r \<in> set (ip_history (db w)). r \<in> set (ip_history (db w2)) \<or> (\<exists>dev \<in> set (dev # devs). r \<in> set (over_history rt now (d_ID dev) (db w)))"
    proof
      fix r assume "r \<in> set (ip_history (db w))"
      from gone [OF this] IH(5) shrink show "r \<in> set (ip_history (db w2)) \<or> (\<exists>dev \<in> set (dev # devs). r \<in> set (over_history rt now (d_ID dev) (db w)))"
        by (auto; blast)
    qed
    show "calm w \<longrightarrow> calm w2 \<and> (\<forall>dev \<in> set (dev # devs). over_history rt now (d_ID dev) (db w2) = [])"
    proof
      assume "calm w"
      with c IH(6) have "calm w2" "\<forall>dev \<in> set devs. over_history rt now (d_ID dev) (db w2) = []"
        "over_history rt now (d_ID dev) (db w1) = []" by blast+
      moreover have "over_history rt now (d_ID dev) (db w2) = []"
        using IH(4) \<open>over_history rt now (d_ID dev) (db w1) = []\<close> by (metis empty_iff empty_set last_in_set subsetD)
      ultimately show "calm w2 \<and> (\<forall>dev \<in> set (dev # devs). over_history rt now (d_ID dev) (db w2) = [])" by simp
    qed
  qed
qed

definition good_choices :: "choices \<Rightarrow> bool" where
  "good_choices ch \<longleftrightarrow> picks (ch_history ch) \<and> picks (ch_audit ch) \<and> picks (ch_deliveries ch)"

text \<open>Each of the three parts of \<open>pruneRetention\<close>, with its guard.\<close>

lemma history_part:
  assumes ch: "good_choices ch" and s: "sound (db w)"
  shows "\<exists>m w'. (if history_on rt then pruneIPHistory ch started rt now w else Some (0, w)) = Some (m, w') \<and> sound (db w') \<and>
     history_only (db w) (db w') \<and>
     (\<forall>r \<in> set (ip_history (db w)). r \<in> set (ip_history (db w')) \<or>
        history_on rt \<and> (\<exists>v \<in> set (devices (db w)). r \<in> set (over_history rt now (dc_id v) (db w)))) \<and>
     (calm w \<longrightarrow> calm w' \<and> (history_on rt \<longrightarrow> length (devices (db w)) \<le> started \<longrightarrow>
        (\<forall>v \<in> set (devices (db w)). over_history rt now (dc_id v) (db w') = [])))"
proof (cases "history_on rt")
  case False
  then show ?thesis using s by (simp add: history_order.refl)
next
  case True
  obtain x w1 where x: "DeviceRepo_ListAll w = (x, w1)" by (cases "DeviceRepo_ListAll w")
  show ?thesis
  proof (cases x)
    case (Inl e)
    with x have "db w1 = db w" by (auto simp: DeviceRepo_ListAll_def dest!: query_err)
    moreover have "\<not> calm w" using x Inl by (auto simp: DeviceRepo_ListAll_def)
    ultimately show ?thesis using x Inl True s by (auto simp: pruneIPHistory_def history_order.refl)
  next
    case (Inr devs)
    with x have d: "db w1 = db w" "devs = map scanDevice (sort_key (\<lambda>r. - dc_created_at r) (devices (db w)))"
      by (auto simp: DeviceRepo_ListAll_def dest!: query_Inr)
    have c: "calm w \<longrightarrow> calm w1" using x by (auto simp: DeviceRepo_ListAll_def)
    have ids: "d_ID ` set (take started devs) \<subseteq> dc_id ` set (devices (db w))"
      using set_take_subset [of started devs] unfolding d(2) by (fastforce simp: scanDevice_def)
    have all: "take started devs = devs" if "length (devices (db w)) \<le> started" using that d(2) by simp
    have "picks (ch_history ch)" using ch by (simp add: good_choices_def)
    from history_drains [OF this, of w1 rt now "take started devs" 0] s d(1) obtain m w2 where
      H: "drain_each (history_batch ch rt now) (take started devs) 0 w1 = Some (m, w2)" "sound (db w2)" "history_only (db w) (db w2)"
        "\<forall>r \<in> set (ip_history (db w)). r \<in> set (ip_history (db w2)) \<or>
           (\<exists>dev \<in> set (take started devs). r \<in> set (over_history rt now (d_ID dev) (db w)))"
        "calm w1 \<longrightarrow> calm w2 \<and> (\<forall>dev \<in> set (take started devs). over_history rt now (d_ID dev) (db w2) = [])"
      by auto
    have run: "pruneIPHistory ch started rt now w = Some (m, w2)" using x Inr H(1) by (simp add: pruneIPHistory_def)
    have full: "over_history rt now (dc_id v) (db w2) = []" if "calm w" "length (devices (db w)) \<le> started" "v \<in> set (devices (db w))" for v
    proof -
      have "scanDevice v \<in> set (take started devs)" using that all d(2) by auto
      moreover have "d_ID (scanDevice v) = dc_id v" by (simp add: scanDevice_def)
      ultimately show ?thesis using H(5) c that(1) by metis
    qed
    have spare: "r \<in> set (ip_history (db w2)) \<or> (\<exists>v \<in> set (devices (db w)). r \<in> set (over_history rt now (dc_id v) (db w)))"
      if "r \<in> set (ip_history (db w))" for r
    proof -
      from H(4) that consider "r \<in> set (ip_history (db w2))" |
        dev where "dev \<in> set (take started devs)" "r \<in> set (over_history rt now (d_ID dev) (db w))" by blast
      then show ?thesis
      proof cases
        case 2
        with ids obtain v where "v \<in> set (devices (db w))" "d_ID dev = dc_id v" by blast
        with 2 show ?thesis by auto
      qed simp
    qed
    show ?thesis
      using run H(2,3) True full spare H(5) c by (intro exI [of _ m] exI [of _ w2]) auto
  qed
qed

lemma audit_part:
  assumes ch: "good_choices ch" and s: "sound (db w)"
  shows "\<exists>m w'. (if 0 < AuditLogDays rt then pruneAuditLog ch (now - AuditLogDays rt * 86400) w else Some (0, w)) = Some (m, w') \<and>
     sound (db w') \<and> audit_only (db w) (db w') \<and> set (audit_log (db w)) \<subseteq> set (audit_log (db w')) \<union> set (over_audit rt now (db w)) \<and>
     (calm w \<longrightarrow> calm w' \<and> over_audit rt now (db w') = [])"
proof (cases "0 < AuditLogDays rt")
  case False
  then show ?thesis using s by (simp add: audit_order.refl over_audit_def)
next
  case True
  have pick: "picks (ch_history ch)" "picks (ch_audit ch)" using ch by (simp_all add: good_choices_def)
  have "wf_audit (db w)" using s by (simp add: sound_def)
  from audit_prune.drain_returns [OF pick(2) this, where cutoff = "now - AuditLogDays rt * 86400" and k = 0]
  obtain m w' where D: "pruneAuditLog ch (now - AuditLogDays rt * 86400) w = Some (m, w')"
    "audit_prune.pruned (now - AuditLogDays rt * 86400) (db w) (db w')"
    "calm w \<longrightarrow> calm w' \<and> prunable_audit (now - AuditLogDays rt * 86400) (db w') = []"
    by (auto simp: pruneAuditLog_def)
  note d = D(1) [unfolded pruneAuditLog_def]
  have "sound (db w')" by (rule drain_sound [OF d preserves_sound_prunes(2) [OF pick(1)] s])
  moreover have "audit_only (db w) (db w')"
    by (rule drain_rel [OF d, where R = "\<lambda>a b. audit_only (db a) (db b)"])
       (auto intro: audit_order.trans follows_at [OF prune_tables(2)])
  ultimately show ?thesis using D True by (auto simp: over_audit_def audit_prune.pruned_def)
qed

lemma deliveries_part:
  assumes ch: "good_choices ch" and s: "sound (db w)"
  shows "\<exists>m w'. (if 0 < NotificationDeliveriesDays rt
       then pruneNotificationDeliveries ch (now - NotificationDeliveriesDays rt * 86400) w else Some (0, w)) = Some (m, w') \<and>
     sound (db w') \<and> deliveries_only (db w) (db w') \<and>
     set (notification_deliveries (db w)) \<subseteq> set (notification_deliveries (db w')) \<union> set (over_deliveries rt now (db w)) \<and>
     (calm w \<longrightarrow> calm w' \<and> over_deliveries rt now (db w') = [])"
proof (cases "0 < NotificationDeliveriesDays rt")
  case False
  then show ?thesis using s by (simp add: deliveries_order.refl over_deliveries_def)
next
  case True
  have pick: "picks (ch_history ch)" "picks (ch_deliveries ch)" using ch by (simp_all add: good_choices_def)
  have "wf_db (db w)" using s by (simp add: sound_def wf_hist_def)
  from delivery_prune.drain_returns [OF pick(2) this, where cutoff = "now - NotificationDeliveriesDays rt * 86400" and k = 0]
  obtain m w' where D: "pruneNotificationDeliveries ch (now - NotificationDeliveriesDays rt * 86400) w = Some (m, w')"
    "delivery_prune.pruned (now - NotificationDeliveriesDays rt * 86400) (db w) (db w')"
    "calm w \<longrightarrow> calm w' \<and> prunable_deliveries (now - NotificationDeliveriesDays rt * 86400) (db w') = []"
    by (auto simp: pruneNotificationDeliveries_def)
  note d = D(1) [unfolded pruneNotificationDeliveries_def]
  have "sound (db w')" by (rule drain_sound [OF d preserves_sound_prunes(3) [OF pick(1)] s])
  moreover have "deliveries_only (db w) (db w')"
    by (rule drain_rel [OF d, where R = "\<lambda>a b. deliveries_only (db a) (db b)"])
       (auto intro: deliveries_order.trans follows_at [OF prune_tables(3)])
  ultimately show ?thesis using D True by (auto simp: over_deliveries_def delivery_prune.pruned_def)
qed

lemma over_history_cong:
  "ip_history d' = ip_history d \<Longrightarrow> over_history rt now i d' = over_history rt now i d"
  by (simp add: over_history_def device_history_def)

lemma over_audit_cong: "audit_log d' = audit_log d \<Longrightarrow> over_audit rt now d' = over_audit rt now d"
  by (simp add: over_audit_def prunable_audit_def)

lemma over_deliveries_cong:
  "notification_deliveries d' = notification_deliveries d \<Longrightarrow> over_deliveries rt now d' = over_deliveries rt now d"
  by (simp add: over_deliveries_def prunable_deliveries_def)

lemma pruneRetention_policy:
  assumes ch: "good_choices ch" and s: "sound (db w)"
  shows "\<exists>c w'. pruneRetention ch started rt now w = Some (c, w') \<and> sound (db w') \<and> spares rt now (db w) (db w') \<and>
     devices (db w') = devices (db w) \<and> same_expiring (db w) (db w') \<and>
     (calm w \<longrightarrow> calm w' \<and> (length (devices (db w)) \<le> started \<longrightarrow> applied rt now (db w')))"
proof -
  from history_part [OF ch s, of rt started now] obtain a w1 where
    A: "(if history_on rt then pruneIPHistory ch started rt now w else Some (0, w)) = Some (a, w1)" "sound (db w1)" "history_only (db w) (db w1)"
      "\<forall>r \<in> set (ip_history (db w)). r \<in> set (ip_history (db w1)) \<or>
        history_on rt \<and> (\<exists>v \<in> set (devices (db w)). r \<in> set (over_history rt now (dc_id v) (db w)))"
      "calm w \<longrightarrow> calm w1 \<and> (history_on rt \<longrightarrow> length (devices (db w)) \<le> started \<longrightarrow>
        (\<forall>v \<in> set (devices (db w)). over_history rt now (dc_id v) (db w1) = []))" by blast
  from audit_part [OF ch A(2), of rt now] obtain b w2 where
    B: "(if 0 < AuditLogDays rt then pruneAuditLog ch (now - AuditLogDays rt * 86400) w1 else Some (0, w1)) = Some (b, w2)"
      "sound (db w2)" "audit_only (db w1) (db w2)" "set (audit_log (db w1)) \<subseteq> set (audit_log (db w2)) \<union> set (over_audit rt now (db w1))"
      "calm w1 \<longrightarrow> calm w2 \<and> over_audit rt now (db w2) = []" by blast
  from deliveries_part [OF ch B(2), of rt now] obtain c w3 where
    C: "(if 0 < NotificationDeliveriesDays rt
       then pruneNotificationDeliveries ch (now - NotificationDeliveriesDays rt * 86400) w2 else Some (0, w2)) = Some (c, w3)"
      "sound (db w3)" "deliveries_only (db w2) (db w3)"
      "set (notification_deliveries (db w2)) \<subseteq> set (notification_deliveries (db w3)) \<union> set (over_deliveries rt now (db w2))"
      "calm w2 \<longrightarrow> calm w3 \<and> over_deliveries rt now (db w3) = []" by blast
  note h = history_only_tables [OF A(3)] and u = audit_only_tables [OF B(3)] and d = deliveries_only_tables [OF C(3)]
  have run: "pruneRetention ch started rt now w = Some ((a, b, c), w3)"
    unfolding pruneRetention_def using A(1) B(1) C(1) by (simp add: history_on_def)
  have ip: "ip_history (db w3) = ip_history (db w1)" using u(3) d(3) by simp
  have oa: "over_audit rt now (db w1) = over_audit rt now (db w)" using h(3) by (rule over_audit_cong)
  have od: "over_deliveries rt now (db w2) = over_deliveries rt now (db w)" using h(4) u(4) by (intro over_deliveries_cong) simp
  have oa3: "over_audit rt now (db w3) = over_audit rt now (db w2)" using d(4) by (rule over_audit_cong)
  have oh: "over_history rt now i (db w3) = over_history rt now i (db w1)" for i using ip by (rule over_history_cong)
  have dev: "devices (db w3) = devices (db w)" using h(2) u(2) d(2) by simp
  have "spares rt now (db w) (db w3)"
    unfolding spares_def ip using A(4) B(4) C(4) by (simp add: h u d oa od)
  moreover have "calm w3 \<and> (length (devices (db w)) \<le> started \<longrightarrow> applied rt now (db w3))" if "calm w"
    using that A(5) B(5) C(5) by (auto simp: applied_def dev oh oa3)
  moreover have "same_expiring (db w) (db w3)" using h(1) u(1) d(1) by (simp add: same_expiring_def)
  ultimately show ?thesis using run C(2) dev by blast
qed

section \<open>A whole pass\<close>

lemma append_policy:
  assumes s: "sound (db w)" and t: "now \<le> nowA" "nowA \<noteq> 0"
  defines "w' \<equiv> snd (AuditLog_Append nowA retention_audit w)"
  shows "sound (db w')" "same_expiring (db w) (db w')" "devices (db w') = devices (db w)" "ip_history (db w') = ip_history (db w)"
    "notification_deliveries (db w') = notification_deliveries (db w)" "set (audit_log (db w)) \<subseteq> set (audit_log (db w'))"
    "over_audit rt now (db w') = over_audit rt now (db w)"
proof -
  show "sound (db w')"
    unfolding w'_def by (rule sound_at [OF preserves_audit(1) s])
  have "db w' = db w \<or> db w' = snd (insert_audit (retention_audit\<lparr>ae_CreatedAt := nowA\<rparr>) (db w))"
    unfolding w'_def
    by (auto simp: AuditLog_Append_def retention_audit_def bindE_def stmt_def Let_def insert_audit_def
        split: sum.splits prod.splits fault.splits)
  then show "same_expiring (db w) (db w')" "devices (db w') = devices (db w)" "ip_history (db w') = ip_history (db w)"
    "notification_deliveries (db w') = notification_deliveries (db w)" "set (audit_log (db w)) \<subseteq> set (audit_log (db w'))"
    "over_audit rt now (db w') = over_audit rt now (db w)"
    using t by (auto simp: same_expiring_def over_audit_def prunable_audit_def insert_audit_def Let_def retention_audit_def)
qed

text \<open>
  C24. One pass of the pruner ends, whatever statements fail and whichever rows the engine picks for a
  batch. It keeps the invariant of the database and loses no history, audit or delivery row that its
  retention policy does not name. When no statement fails, the rows past their expiry are gone from the
  six expiring tables (a pending e-mail change is cleared), and, if the context outlives the walk over
  the devices, no row that a policy names is left.
\<close>

theorem prune_policy:
  assumes "good_choices ch" and "sound (db w)" and "nowR \<le> nowA" and "nowA \<noteq> 0"
  shows "\<exists>w'. prune ch started rt now nowR nowA w = Some w' \<and> sound (db w') \<and> spares rt nowR (db w) (db w') \<and>
     (calm w \<longrightarrow> same_expiring (swept now (db w)) (db w') \<and> (length (devices (db w)) \<le> started \<longrightarrow> applied rt nowR (db w')))"
proof -
  define w1 where "w1 = snd (prune_expired now w)"
  have s1: "sound (db w1)"
    unfolding w1_def by (rule sound_at [OF preserves_prune_expired assms(2)])
  have r1: "same_retained (db w) (db w1)" unfolding w1_def by (rule follows_at [OF prune_expired_frame])
  have c1: "calm w \<longrightarrow> calm w1 \<and> same_expiring (swept now (db w)) (db w1)"
    by (simp add: w1_def prune_expired_calm same_expiring_def)
  from pruneRetention_policy [OF assms(1) s1, of started rt nowR] obtain a b c w2 where
    P: "pruneRetention ch started rt nowR w1 = Some ((a, b, c), w2)" "sound (db w2)" "spares rt nowR (db w1) (db w2)"
      "devices (db w2) = devices (db w1)" "same_expiring (db w1) (db w2)"
      "calm w1 \<longrightarrow> calm w2 \<and> (length (devices (db w1)) \<le> started \<longrightarrow> applied rt nowR (db w2))" by auto
  note A = append_policy [OF P(2) assms(3,4)]
  define w3 where "w3 = (if a + b + c > 0 then snd (AuditLog_Append nowA retention_audit w2) else w2)"
  have run: "prune ch started rt now nowR nowA w = Some w3" using P(1) by (simp add: prune_def w1_def w3_def)
  have s3: "sound (db w3)" "same_expiring (db w2) (db w3)" "devices (db w3) = devices (db w2)" "ip_history (db w3) = ip_history (db w2)"
    "notification_deliveries (db w3) = notification_deliveries (db w2)" "set (audit_log (db w2)) \<subseteq> set (audit_log (db w3))"
    "over_audit rt nowR (db w3) = over_audit rt nowR (db w2)"
    using A P(2) by (simp_all add: w3_def same_expiring_def)
  have ov: "over_history rt nowR i (db w1) = over_history rt nowR i (db w)" "over_audit rt nowR (db w1) = over_audit rt nowR (db w)"
    "over_deliveries rt nowR (db w1) = over_deliveries rt nowR (db w)" for i
    using r1 by (auto simp: same_retained_def intro: over_history_cong over_audit_cong over_deliveries_cong)
  have sp: "spares rt nowR (db w) (db w3)"
    using P(3) s3 r1 unfolding spares_def ov same_retained_def by auto
  have "applied rt nowR (db w3)" if "applied rt nowR (db w2)"
    using that s3 by (auto simp: applied_def over_history_cong [OF s3(4)] over_deliveries_cong [OF s3(5)])
  moreover have "devices (db w1) = devices (db w)" using r1 by (simp add: same_retained_def)
  moreover have "same_expiring (swept now (db w)) (db w3)" if "calm w"
    using c1 that P(5) s3(2) by (simp add: same_expiring_def)
  ultimately show ?thesis using run s3(1) sp P(6) c1 by auto
qed

definition keep_a_month :: RetentionSection where
  "keep_a_month = \<lparr> IPHistoryDays = 30, IPHistoryPerDeviceMax = 0, AuditLogDays = 30, NotificationDeliveriesDays = 0 \<rparr>"

definition first_rows :: choices where
  "first_rows = \<lparr> ch_history = take, ch_audit = take, ch_deliveries = take \<rparr>"

theorem prune_policy_witness:
  "\<exists>w'. prune first_rows 1 keep_a_month 5000000 5000000 5000001 sample_world_v4 = Some w' \<and> sound (db w') \<and> applied keep_a_month 5000000 (db w')"
proof -
  have "good_choices first_rows" by (auto simp: good_choices_def first_rows_def picks_def dest: in_set_takeD)
  moreover have "sound (db sample_world_v4)" 
    using sample_db_wf by (simp add: sound_def wf_identity_def wf_accounts_def wf_bootstrap_def wf_audit_def sample_defs pending_whole_def role_ok_def)
  ultimately show ?thesis
    using prune_policy [of first_rows sample_world_v4 5000000 5000001 1 keep_a_month 5000000] by (auto simp: sample_defs)
qed

end
