(* ===== verification/Passkeys.thy ===== *)
theory Passkeys
  imports Sessions
begin

text \<open>
  \<open>internal/server/service/passkey.go\<close>: the WebAuthn registration and login ceremonies. The WebAuthn library
  and the JSON encoder are the record \<open>webauthn\<close>, what they answer during one call. A ceremony's state
  travels in a sealed cookie; \<open>w_used\<close> is the map of challenges that were already claimed. The clock of a handler
  is \<open>t\<close> in nanoseconds, \<open>secs t\<close> its \<open>NowUnix\<close>.
\<close>

section \<open>The library and the state\<close>

text \<open>\<open>sd_Expires\<close> is \<open>None\<close> for the zero time. \<open>sd_rest\<close> and \<open>wr_rest\<close> are the fields the program does not look at.\<close>

record SessionData =
  sd_Challenge :: string
  sd_UserID :: string
  sd_Expires :: "int option"
  sd_rest :: string

record Credential =
  wr_ID :: string
  wr_AAGUID :: "string option"
  wr_CloneWarning :: bool
  wr_rest :: string

record webauthnUser =
  wu_handle :: string
  wu_email :: string
  wu_creds :: "Credential list"

text \<open>
  A discoverable login asks the program to resolve a user handle (\<open>Resolve\<close>) before it verifies, or ends
  without asking.
\<close>

datatype login_step = Resolve string | NoResolve "Credential option"

record webauthn =
  wa_BeginDiscoverableLogin :: "(string \<times> SessionData) option"
  wa_BeginRegistration :: "webauthnUser \<Rightarrow> Credential list \<Rightarrow> (string \<times> SessionData) option"
  wa_FinishRegistration :: "int \<Rightarrow> webauthnUser \<Rightarrow> SessionData \<Rightarrow> string \<Rightarrow> Credential option"
  wa_login_step :: "int \<Rightarrow> SessionData \<Rightarrow> string \<Rightarrow> login_step"
  wa_FinishDiscoverableLogin :: "int \<Rightarrow> webauthnUser \<Rightarrow> SessionData \<Rightarrow> string \<Rightarrow> Credential option"
  wa_json_session :: "SessionData \<Rightarrow> string option"
  wa_parse_session :: "string \<Rightarrow> SessionData option"
  wa_json_credential :: "Credential \<Rightarrow> string option"
  wa_parse_credential :: "string \<Rightarrow> Credential option"
  wa_json_options :: "string \<Rightarrow> string option"

record pkworld = world +
  w_used :: "string \<Rightarrow> int option"

record passkeys =
  ps_lib :: webauthn
  ps_crypto :: crypto
  ps_sealKey :: string
  ps_sessions :: session_manager

abbreviation "ErrLastCredential \<equiv> ErrSentinel ''service: cannot remove the last credential''"
abbreviation "ErrWebAuthnUnavailable \<equiv> ErrSentinel ''service: webauthn service unavailable''"
abbreviation "ErrPasskeyVerification \<equiv> ErrSentinel ''service: passkey verification failed''"
abbreviation "ErrWebAuthn \<equiv> ErrSentinel ''webauthn''"
abbreviation "ErrMarshal \<equiv> ErrSentinel ''marshal''"

definition secs :: "int \<Rightarrow> int" where
  "secs t = t div 1000000000"

definition lift_opt :: "err \<Rightarrow> 'a option \<Rightarrow> ('w, 'a) action" where
  "lift_opt e x = (case x of None \<Rightarrow> fail e | Some a \<Rightarrow> ret a)"

definition audit_entry :: "string \<Rightarrow> string \<Rightarrow> string \<Rightarrow> string \<Rightarrow> string \<Rightarrow> AuditEntry" where
  "audit_entry actor event targetType target ip =
     \<lparr> ae_ID = 0, ae_ActorUserID = actor, ae_EventType = event, ae_TargetType = targetType, ae_TargetID = target,
       ae_DetailsJSON = '''', ae_IP = ip, ae_UserAgent = '''', ae_CreatedAt = 0 \<rparr>"

definition passkey_audit :: "string \<Rightarrow> string \<Rightarrow> string \<Rightarrow> string \<Rightarrow> AuditEntry" where
  "passkey_audit actor event credID ip = audit_entry actor event ''webauthn_credential'' (RawURLEncode credID) ip"

section \<open>Ceremony state\<close>

fun decode_creds :: "webauthn \<Rightarrow> WebAuthnCredential list \<Rightarrow> Credential list option" where
  "decode_creds lib [] = Some []"
| "decode_creds lib (c # cs) =
     (case wa_parse_credential lib (cd_CredentialJSON c) of
        None \<Rightarrow> None
      | Some wc \<Rightarrow> map_option (\<lambda>wcs. wc # wcs) (decode_creds lib cs))"

definition newWebauthnUser :: "webauthn \<Rightarrow> string \<Rightarrow> string \<Rightarrow> WebAuthnCredential list \<Rightarrow> webauthnUser option" where
  "newWebauthnUser lib email handle creds =
     map_option (\<lambda>cs. \<lparr> wu_handle = handle, wu_email = email, wu_creds = cs \<rparr>) (decode_creds lib creds)"

definition webauthnAAD :: string where
  "webauthnAAD = ''diyddns/webauthn-v1''"

definition sealSession :: "passkeys \<Rightarrow> string option \<Rightarrow> SessionData \<Rightarrow> err + string" where
  "sealSession ps rnd sess =
     (case wa_json_session (ps_lib ps) sess of
        None \<Rightarrow> Inl ErrMarshal
      | Some raw \<Rightarrow> SealWithAAD (ps_crypto ps) rnd (ps_sealKey ps) raw webauthnAAD)"

definition openSession :: "passkeys \<Rightarrow> string \<Rightarrow> err + SessionData" where
  "openSession ps sealed =
     (case OpenWithAAD (ps_crypto ps) (ps_sealKey ps) sealed webauthnAAD of
        Inl _ \<Rightarrow> Inl ErrPasskeyVerification
      | Inr raw \<Rightarrow>
          (case wa_parse_session (ps_lib ps) raw of None \<Rightarrow> Inl ErrPasskeyVerification | Some sess \<Rightarrow> Inr sess))"

definition prune_used :: "int \<Rightarrow> (string \<Rightarrow> int option) \<Rightarrow> string \<Rightarrow> int option" where
  "prune_used now used k = (case used k of None \<Rightarrow> None | Some e \<Rightarrow> if now < e then Some e else None)"

definition claimChallenge :: "int \<Rightarrow> string \<Rightarrow> int option \<Rightarrow> ('z pkworld_scheme, bool) action" where
  "claimChallenge t challenge expires w =
     (let used = prune_used t (w_used w) in
      case used challenge of
        Some e \<Rightarrow>
          if t < e then (Inr False, w\<lparr>w_used := used\<rparr>)
          else (Inr True, w\<lparr>w_used := used(challenge \<mapsto> (case expires of None \<Rightarrow> t + 2 * timeMinute | Some x \<Rightarrow> x))\<rparr>)
      | None \<Rightarrow> (Inr True, w\<lparr>w_used := used(challenge \<mapsto> (case expires of None \<Rightarrow> t + 2 * timeMinute | Some x \<Rightarrow> x))\<rparr>))"

text \<open>The two steps every finishing handler starts with.\<close>

definition claim_session :: "int \<Rightarrow> SessionData \<Rightarrow> ('z pkworld_scheme, unit) action" where
  "claim_session t sess =
     bindE (claimChallenge t (sd_Challenge sess) (sd_Expires sess)) (\<lambda>ok.
       if ok then ret () else fail ErrPasskeyVerification)"

section \<open>Login\<close>

definition BeginLogin :: "passkeys \<Rightarrow> string option \<Rightarrow> ('w, string \<times> string) action" where
  "BeginLogin ps rnd =
     bindE (lift_opt ErrWebAuthn (wa_BeginDiscoverableLogin (ps_lib ps))) (\<lambda>(assertion, sess).
     bindE (lift_res (sealSession ps rnd sess)) (\<lambda>sealed.
     bindE (lift_opt ErrMarshal (wa_json_options (ps_lib ps) assertion)) (\<lambda>optsJSON.
     ret (optsJSON, sealed))))"

text \<open>\<open>lk_user\<close> is \<open>Some\<close> exactly when the Go field \<open>found\<close> is true.\<close>

record signerLookup =
  lk_user :: "User option"
  lk_storeErr :: "err option"

definition no_signer :: signerLookup where
  "no_signer = \<lparr> lk_user = None, lk_storeErr = None \<rparr>"

definition resolveSigner ::
  "webauthn \<Rightarrow> string \<Rightarrow> ('z world_scheme, signerLookup \<times> webauthnUser option) action" where
  "resolveSigner lib handle =
     bindE (tryE (UserRepo_GetByWebAuthnHandle handle)) (\<lambda>r.
       case r of
         Inl e \<Rightarrow> ret (no_signer\<lparr>lk_storeErr := (if e = ErrNotFound then None else Some e)\<rparr>, None)
       | Inr u \<Rightarrow>
           bindE (tryE (WebAuthnCredentialRepo_ListByUser (u_ID u))) (\<lambda>q.
             case q of
               Inl e \<Rightarrow> ret (no_signer\<lparr>lk_storeErr := Some e\<rparr>, None)
             | Inr creds \<Rightarrow>
                 (case newWebauthnUser lib (u_Email u) handle creds of
                    None \<Rightarrow> ret (no_signer, None)
                  | Some wu \<Rightarrow> ret (no_signer\<lparr>lk_user := Some u\<rparr>, Some wu))))"

definition finish_discoverable ::
  "webauthn \<Rightarrow> int \<Rightarrow> SessionData \<Rightarrow> string \<Rightarrow> ('z world_scheme, signerLookup \<times> Credential option) action" where
  "finish_discoverable lib t sess r =
     (case wa_login_step lib t sess r of
        NoResolve c \<Rightarrow> ret (no_signer, c)
      | Resolve handle \<Rightarrow>
          bindE (resolveSigner lib handle) (\<lambda>(signer, wu).
            ret (signer, case wu of None \<Rightarrow> None | Some u \<Rightarrow> wa_FinishDiscoverableLogin lib t u sess r)))"

text \<open>The random sources of the session a login creates.\<close>

record login_draws =
  ld_id :: "string option"
  ld_csrf :: "string option"
  ld_newID :: string

definition accept_login ::
  "passkeys \<Rightarrow> login_draws \<Rightarrow> int \<Rightarrow> User \<Rightarrow> Credential \<Rightarrow> string \<Rightarrow> string \<Rightarrow> ('z world_scheme, Session) action" where
  "accept_login ps dr t u cred ip ua =
     (if u_Disabled u then fail ErrPasskeyVerification
      else if wr_CloneWarning cred
      then bindE (auditWriter_Log (secs t) (passkey_audit (u_ID u) ''passkey.signcount_anomaly'' (wr_ID cred) ip)) (\<lambda>_.
             fail ErrPasskeyVerification)
      else
        bindE (lift_opt ErrMarshal (wa_json_credential (ps_lib ps) cred)) (\<lambda>credJSON.
        bindE (WebAuthnCredentialRepo_Update
          \<lparr> cd_CredentialID = wr_ID cred, cd_UserID = '''', cd_CredentialJSON = credJSON, cd_Name = '''',
            cd_AAGUID = None, cd_CreatedAt = 0, cd_LastUsedAt = secs t \<rparr>) (\<lambda>_.
        bindE (SessionManager_Create (ps_sessions ps) (ld_id dr) (ld_csrf dr) (ld_newID dr) (secs t) (u_ID u) ip ua) (\<lambda>newSess.
        bindE (auditWriter_Log (secs t) (audit_entry (u_ID u) ''user.login.passkey'' '''' '''' ip)) (\<lambda>_.
        ret newSess)))))"

definition FinishLogin ::
  "passkeys \<Rightarrow> login_draws \<Rightarrow> int \<Rightarrow> string \<Rightarrow> string \<Rightarrow> string \<Rightarrow> string \<Rightarrow> ('z pkworld_scheme, Session) action" where
  "FinishLogin ps dr t sealedCookie r ip ua =
     bindE (lift_res (openSession ps sealedCookie)) (\<lambda>sess.
     bindE (claim_session t sess) (\<lambda>_.
     bindE (finish_discoverable (ps_lib ps) t sess r) (\<lambda>(signer, cred).
       case lk_storeErr signer of
         Some e \<Rightarrow> fail e
       | None \<Rightarrow>
           (case (cred, lk_user signer) of
              (Some c, Some u) \<Rightarrow> accept_login ps dr t u c ip ua
            | _ \<Rightarrow> fail ErrPasskeyVerification))))"

section \<open>Registration\<close>

definition BeginRegister ::
  "passkeys \<Rightarrow> string option \<Rightarrow> string option \<Rightarrow> string \<Rightarrow> ('z world_scheme, string \<times> string) action" where
  "BeginRegister ps rndHandle rndSeal userID =
     bindE (UserRepo_GetByID userID) (\<lambda>u.
     bindE (WebAuthnCredentialRepo_ListByUser userID) (\<lambda>creds.
     bindE (UserRepo_GetWebAuthnHandle userID) (\<lambda>stored.
     bindE (if scanString stored = '''' then lift_opt ErrRandom rndHandle else ret (scanString stored)) (\<lambda>handle.
     bindE (lift_opt ErrDecode (newWebauthnUser (ps_lib ps) (u_Email u) handle creds)) (\<lambda>wu.
     bindE (lift_opt ErrWebAuthn (wa_BeginRegistration (ps_lib ps) wu (wu_creds wu))) (\<lambda>(creation, sess).
     bindE (lift_res (sealSession ps rndSeal sess)) (\<lambda>sealed.
     bindE (lift_opt ErrMarshal (wa_json_options (ps_lib ps) creation)) (\<lambda>optsJSON.
     ret (optsJSON, sealed)))))))))"

definition beginRegistrationFor :: "webauthn \<Rightarrow> string \<Rightarrow> string \<Rightarrow> err + string \<times> SessionData" where
  "beginRegistrationFor lib email handle =
     (case newWebauthnUser lib email handle [] of
        None \<Rightarrow> Inl ErrDecode
      | Some wu \<Rightarrow>
          (case wa_BeginRegistration lib wu [] of
             None \<Rightarrow> Inl ErrWebAuthn
           | Some (creation, sess) \<Rightarrow>
               (case wa_json_options lib creation of None \<Rightarrow> Inl ErrMarshal | Some o' \<Rightarrow> Inr (o', sess))))"

definition verifyRegistration :: "webauthn \<Rightarrow> int \<Rightarrow> string \<Rightarrow> string \<Rightarrow> SessionData \<Rightarrow> string \<Rightarrow> err + Credential" where
  "verifyRegistration lib t email handle sess r =
     (case newWebauthnUser lib email handle [] of
        None \<Rightarrow> Inl ErrDecode
      | Some wu \<Rightarrow>
          (case wa_FinishRegistration lib t wu sess r of None \<Rightarrow> Inl ErrPasskeyVerification | Some c \<Rightarrow> Inr c))"

definition persistCredential ::
  "passkeys \<Rightarrow> int \<Rightarrow> string \<Rightarrow> string \<Rightarrow> Credential \<Rightarrow> string \<Rightarrow> ('z world_scheme, WebAuthnCredential) action" where
  "persistCredential ps now userID handle cred name =
     bindE (UserRepo_SetWebAuthnHandle userID handle) (\<lambda>_.
     bindE (lift_opt ErrMarshal (wa_json_credential (ps_lib ps) cred)) (\<lambda>credJSON.
     bindE (WebAuthnCredentialRepo_Create
       \<lparr> cd_CredentialID = wr_ID cred, cd_UserID = userID, cd_CredentialJSON = credJSON, cd_Name = name,
         cd_AAGUID = wr_AAGUID cred, cd_CreatedAt = now, cd_LastUsedAt = 0 \<rparr>) (\<lambda>stored.
     bindE (auditWriter_Log now (passkey_audit userID ''passkey.registered'' (wr_ID cred) '''')) (\<lambda>_.
     ret stored))))"

definition FinishRegister ::
  "passkeys \<Rightarrow> int \<Rightarrow> string \<Rightarrow> string \<Rightarrow> string \<Rightarrow> string \<Rightarrow> ('z pkworld_scheme, WebAuthnCredential) action" where
  "FinishRegister ps t userID sealedCookie name r =
     bindE (lift_res (openSession ps sealedCookie)) (\<lambda>sess.
     bindE (claim_session t sess) (\<lambda>_.
     bindE (UserRepo_GetByID userID) (\<lambda>u.
     bindE (lift_res (verifyRegistration (ps_lib ps) t (u_Email u) (sd_UserID sess) sess r)) (\<lambda>cred.
     persistCredential ps (secs t) userID (sd_UserID sess) cred name))))"

section \<open>Management\<close>

definition ListCredentials :: "string \<Rightarrow> ('z world_scheme, WebAuthnCredential list) action" where
  "ListCredentials userID = WebAuthnCredentialRepo_ListByUser userID"

definition ownedCredential :: "string \<Rightarrow> string \<Rightarrow> ('z world_scheme, WebAuthnCredential) action" where
  "ownedCredential userID credID =
     bindE (WebAuthnCredentialRepo_GetByID credID) (\<lambda>cred.
       if cd_UserID cred \<noteq> userID then fail ErrNotFound else ret cred)"

definition PasskeyService_Rename :: "int \<Rightarrow> string \<Rightarrow> string \<Rightarrow> string \<Rightarrow> ('z world_scheme, unit) action" where
  "PasskeyService_Rename now userID credID name =
     bindE (ownedCredential userID credID) (\<lambda>cred.
     bindE (WebAuthnCredentialRepo_Rename (cd_CredentialID cred) name) (\<lambda>_.
     auditWriter_Log now (passkey_audit userID ''passkey.renamed'' credID '''')))"

text \<open>\<open>Remove\<close>: the reads and the guard, then the write. Another request may run in between.\<close>

definition Remove_check :: "string \<Rightarrow> string \<Rightarrow> ('z world_scheme, WebAuthnCredential) action" where
  "Remove_check userID credID =
     bindE (ownedCredential userID credID) (\<lambda>cred.
     bindE (UserRepo_GetByID userID) (\<lambda>u.
     bindE (CountWebAuthnCredentials userID) (\<lambda>count.
       if count \<le> 1 \<and> u_OIDCSubject u = '''' then fail ErrLastCredential else ret cred)))"

definition Remove_delete :: "int \<Rightarrow> string \<Rightarrow> string \<Rightarrow> WebAuthnCredential \<Rightarrow> ('z world_scheme, unit) action" where
  "Remove_delete now userID credID cred =
     bindE (WebAuthnCredentialRepo_Delete (cd_CredentialID cred)) (\<lambda>_.
     auditWriter_Log now (passkey_audit userID ''passkey.removed'' credID ''''))"

definition PasskeyService_Remove :: "int \<Rightarrow> string \<Rightarrow> string \<Rightarrow> ('z world_scheme, unit) action" where
  "PasskeyService_Remove now userID credID = bindE (Remove_check userID credID) (Remove_delete now userID credID)"

end
