(* ===== verification/Passkey_Props.thy ===== *)
theory Passkey_Props
  imports Passkeys
begin

text \<open>
  What the passkey service keeps: the invariant of the database, and, for one removal at a time, a way
  for the account to sign in. Two interleavings the code does not cover are shown as theorems: two
  removals that both pass the guard, and two first registrations that each drew a handle.
\<close>

section \<open>The invariant\<close>

lemma preserves_lift_opt [preserves_intros]: "preserves I (lift_opt e x)"
  by (cases x) (simp_all add: lift_opt_def preserves_intros)

lemma claimChallenge_db [simp]: "db (snd (claimChallenge t ch ex w)) = db w"
  by (simp add: claimChallenge_def Let_def split: option.splits)

lemma claim_session_db [simp]: "db (snd (claim_session t sess w)) = db w"
  by (simp add: claim_session_def bindE_def claimChallenge_def Let_def split: option.splits)

lemma preserves_claim [preserves_intros]:
  "preserves (on_db I) (claimChallenge t ch ex)" "preserves (on_db I) (claim_session t sess)"
proof -
  show a: "preserves (on_db I) (claimChallenge t ch ex)" for ch ex by (rule preservesI) (simp add: on_db_def)
  show "preserves (on_db I) (claim_session t sess)" unfolding claim_session_def by (intro preserves_intros a)
qed

lemma preserves_user_reads [preserves_intros]:
  "preserves (on_db I) (UserRepo_GetByWebAuthnHandle h)"
  "preserves (on_db I) (UserRepo_GetByID u)"
  unfolding UserRepo_GetByWebAuthnHandle_def UserRepo_GetByID_def by (intro preserves_intros)+

lemma preserves_passkeys [preserves_intros]:
  "preserves (on_db sound) (persistCredential ps now u h c n)"
  "preserves (on_db sound) (resolveSigner lib h)"
  "preserves (on_db sound) (accept_login ps dr t usr c ip ua)"
  "preserves (on_db sound) (BeginRegister ps a b u)"
  "preserves (on_db sound) (ownedCredential u c')"
  "preserves (on_db sound) (PasskeyService_Rename now u c' n)"
  "preserves (on_db sound) (Remove_check u c')"
  "preserves (on_db sound) (Remove_delete now u c' cd)"
  "preserves (on_db sound) (PasskeyService_Remove now u c')"
  unfolding persistCredential_def resolveSigner_def accept_login_def BeginRegister_def ownedCredential_def
    PasskeyService_Rename_def Remove_check_def Remove_delete_def PasskeyService_Remove_def
  by (intro preserves_intros)+

lemma preserves_finish [preserves_intros]:
  "preserves (on_db sound) (FinishLogin ps dr t ck r ip ua)"
  "preserves (on_db sound) (FinishRegister ps t u ck n r)"
proof -
  have "preserves (on_db sound) (finish_discoverable (ps_lib ps) t sess r)" for sess
    unfolding finish_discoverable_def by (cases "wa_login_step (ps_lib ps) t sess r") (auto intro!: preserves_intros)
  then show "preserves (on_db sound) (FinishLogin ps dr t ck r ip ua)"
    unfolding FinishLogin_def by (intro preserves_intros)
  show "preserves (on_db sound) (FinishRegister ps t u ck n r)"
    unfolding FinishRegister_def by (intro preserves_intros)
qed

section \<open>The last credential\<close>

definition user_creds :: "string \<Rightarrow> database \<Rightarrow> credential_row list" where
  "user_creds u d = filter (\<lambda>r. wc_user_id r = u) (webauthn_credentials d)"

text \<open>An account can sign in with a passkey or through its linked OIDC identity.\<close>

definition can_sign_in :: "string \<Rightarrow> database \<Rightarrow> bool" where
  "can_sign_in u d \<longleftrightarrow> user_creds u d \<noteq> [] \<or> (\<exists>r. find_user u d = Some r \<and> scanString (uc_oidc_subject r) \<noteq> '''')"

lemma audit_keeps_login [simp]:
  "user_creds u (db (snd (auditWriter_Log now e w))) = user_creds u (db w)"
  "find_user u (db (snd (auditWriter_Log now e w))) = find_user u (db w)"
  by (auto simp: auditWriter_Log_def AuditLog_Append_def Let_def bindE_def tryE_def stmt_def insert_audit_def
      user_creds_def find_user_def split: fault.splits)

lemma Remove_check_Inr:
  assumes "Remove_check u c w = (Inr cred, w')"
  shows "db w' = db w" "cd_CredentialID cred = c"
    "\<exists>r \<in> set (user_creds u (db w)). wc_credential_id r = c"
    "1 < length (user_creds u (db w)) \<or> (\<exists>r. find_user u (db w) = Some r \<and> scanString (uc_oidc_subject r) \<noteq> '''')"
  using assms
  by (auto simp: Remove_check_def ownedCredential_def bindE_Inr_iff WebAuthnCredentialRepo_GetByID_def UserRepo_GetByID_def
      CountWebAuthnCredentials_def user_creds_def scanWebAuthnCredential_def scanUser_def
      split: if_splits dest!: queryRow_Inr query_Inr find_SomeD)

lemma Remove_check_db: "db (snd (Remove_check u c w)) = db w"
  by (rule followsD [where R = "\<lambda>d d'. d' = d", OF _ prod.collapse [symmetric]])
     (auto simp: Remove_check_def ownedCredential_def WebAuthnCredentialRepo_GetByID_def UserRepo_GetByID_def
       CountWebAuthnCredentials_def intro!: follows_intros)

definition drops_cred :: "string \<Rightarrow> database \<Rightarrow> database \<Rightarrow> bool" where
  "drops_cred c d d' \<longleftrightarrow> users d' = users d \<and>
     (webauthn_credentials d' = webauthn_credentials d \<or>
      webauthn_credentials d' = filter (\<lambda>r. wc_credential_id r \<noteq> c) (webauthn_credentials d))"

interpretation drop_order: db_order "drops_cred c" for c
  by unfold_locales (auto simp: drops_cred_def)

lemma follows_audit: "(\<And>d e. R d (snd (insert_audit e d))) \<Longrightarrow> db_order R \<Longrightarrow> follows R (auditWriter_Log now e)"
  unfolding auditWriter_Log_def AuditLog_Append_def Let_def
  by (intro db_order.follows_bindE db_order.follows_tryE db_order.follows_stmt db_order.follows_ret; assumption)

lemma Remove_delete_drops: "follows (drops_cred (cd_CredentialID cred)) (Remove_delete now u c cred)"
  unfolding Remove_delete_def WebAuthnCredentialRepo_Delete_def require_rows_def
  by (intro follows_intros drop_order.follows_exec follows_audit [OF _ drop_order.db_order_axioms];
      simp add: drops_cred_def delete_credentials_def insert_audit_def Let_def)

lemma drops_one:
  assumes "distinct (map k xs)"
  shows "length (filter P xs) \<le> Suc (length (filter P (filter (\<lambda>x. k x \<noteq> a) xs)))"
  using assms
proof (induction xs)
  case (Cons x xs)
  have "filter (\<lambda>y. k y \<noteq> a) xs = xs" if "k x = a" using Cons.prems that by (simp add: filter_id_conv) (metis image_eqI)
  with Cons show ?case by auto
qed simp

text \<open>
  One removal at a time never takes an account its last way to sign in: whatever statements fail,
  an account that has a passkey or a linked OIDC identity before \<open>Remove\<close> has one after it. (Two removals that
  interleave can: see \<open>remove_race\<close>.)
\<close>

theorem Remove_keeps_login:
  assumes s: "sound (db w)" and can: "can_sign_in v (db w)"
  shows "can_sign_in v (db (snd (PasskeyService_Remove now u c w)))"
proof -
  obtain x w1 where x: "Remove_check u c w = (x, w1)" by (cases "Remove_check u c w")
  show ?thesis
  proof (cases x)
    case (Inl e)
    then have "db (snd (PasskeyService_Remove now u c w)) = db w"
      using x Remove_check_db [of u c w] by (simp add: PasskeyService_Remove_def bindE_def)
    with can show ?thesis by simp
  next
    case (Inr cred)
    note chk = Remove_check_Inr [OF x [unfolded Inr]]
    define w2 where "w2 = snd (Remove_delete now u c cred w1)"
    have run: "snd (PasskeyService_Remove now u c w) = w2"
      using x Inr by (simp add: PasskeyService_Remove_def bindE_def w2_def)
    have drop: "drops_cred c (db w) (db w2)"
      using follows_at [OF Remove_delete_drops [of cred now u c], of w1] unfolding w2_def chk(1,2) .
    have dist: "distinct (map wc_credential_id (webauthn_credentials (db w)))" using s by (simp add: sound_def wf_accounts_def)
    have users: "find_user v (db w2) = find_user v (db w)" for v using drop by (simp add: drops_cred_def find_user_def)
    from chk(3) obtain h where h: "h \<in> set (webauthn_credentials (db w))" "wc_user_id h = u" "wc_credential_id h = c"
      by (auto simp: user_creds_def)
    have other: "user_creds v (db w2) = user_creds v (db w)" if "v \<noteq> u"
    proof -
      have "wc_credential_id r \<noteq> c" if "r \<in> set (webauthn_credentials (db w))" "wc_user_id r = v" for r
        using distinct_key_eq [OF dist that(1) h(1)] that(2) h(2,3) \<open>v \<noteq> u\<close> by auto
      then have "filter (\<lambda>r. wc_user_id r = v) (filter (\<lambda>r. wc_credential_id r \<noteq> c) (webauthn_credentials (db w))) =
          filter (\<lambda>r. wc_user_id r = v) (webauthn_credentials (db w))" by (auto intro: filter_cong)
      with drop show ?thesis by (auto simp: drops_cred_def user_creds_def)
    qed
    have "length (user_creds u (db w)) \<le> Suc (length (user_creds u (db w2)))"
      using drop drops_one [OF dist, of "\<lambda>r. wc_user_id r = u" c] by (auto simp: drops_cred_def user_creds_def)
    with chk(4) have "can_sign_in u (db w2)" by (auto simp: can_sign_in_def users)
    with can other show ?thesis unfolding run by (cases "v = u") (auto simp: can_sign_in_def users)
  qed
qed

lemma Remove_delete_calm:
  assumes "calm w" and "c \<in> set (webauthn_credentials (db w))" and "cd_CredentialID cd = wc_credential_id c"
  shows "fst (Remove_delete now u k cd w) = Inr ()" "calm (snd (Remove_delete now u k cd w))"
    "users (db (snd (Remove_delete now u k cd w))) = users (db w)"
    "webauthn_credentials (db (snd (Remove_delete now u k cd w))) =
       filter (\<lambda>r. wc_credential_id r \<noteq> wc_credential_id c) (webauthn_credentials (db w))"
proof -
  have "filter (\<lambda>r. wc_credential_id r = wc_credential_id c) (webauthn_credentials (db w)) \<noteq> []"
    using assms(2) by (auto simp: filter_empty_conv)
  then show "fst (Remove_delete now u k cd w) = Inr ()" "calm (snd (Remove_delete now u k cd w))"
    "users (db (snd (Remove_delete now u k cd w))) = users (db w)"
    "webauthn_credentials (db (snd (Remove_delete now u k cd w))) =
       filter (\<lambda>r. wc_credential_id r \<noteq> wc_credential_id c) (webauthn_credentials (db w))"
    using assms(1,3)
    by (simp_all add: Remove_delete_def WebAuthnCredentialRepo_Delete_def require_rows_def bindE_def delete_credentials_def
        auditWriter_Log_def AuditLog_Append_def Let_def tryE_def insert_audit_def)
qed

text \<open>The interleaving \<open>Remove\<close> does not cover: two requests that both pass the guard leave nothing.\<close>

theorem remove_race:
  assumes calm: "calm w" and s: "sound (db w)" and u: "find_user u (db w) = Some r" "uc_oidc_subject r = None"
    and two: "user_creds u (db w) = [a, b]"
  shows "\<exists>ca cb. Remove_check u (wc_credential_id a) w = (Inr ca, w) \<and> Remove_check u (wc_credential_id b) w = (Inr cb, w) \<and>
     (let w1 = snd (Remove_delete now u (wc_credential_id a) ca w);
          w2 = snd (Remove_delete now u (wc_credential_id b) cb w1)
      in fst (Remove_delete now u (wc_credential_id a) ca w) = Inr () \<and>
         fst (Remove_delete now u (wc_credential_id b) cb w1) = Inr () \<and> \<not> can_sign_in u (db w2))"
proof -
  let ?cs = "webauthn_credentials (db w)" and ?ca = "scanWebAuthnCredential a" and ?cb = "scanWebAuthnCredential b"
  have dist: "distinct (map wc_credential_id ?cs)" using s by (simp add: sound_def wf_accounts_def)
  have ab: "{r \<in> set ?cs. wc_user_id r = u} = {a, b}" using two unfolding user_creds_def by (metis set_filter list.set(1,2))
  then have in_cs: "a \<in> set ?cs" "b \<in> set ?cs" "wc_user_id a = u" "wc_user_id b = u" by auto
  have "distinct [wc_credential_id a, wc_credential_id b]"
    using distinct_map_filter_key [OF dist, of "\<lambda>r. wc_user_id r = u"] two by (simp add: user_creds_def)
  then have ne: "wc_credential_id a \<noteq> wc_credential_id b" by simp
  have check: "Remove_check u (wc_credential_id c) w = (Inr (scanWebAuthnCredential c), w)" if "c \<in> {a, b}" for c
  proof -
    have "find (\<lambda>y. wc_credential_id y = wc_credential_id c) ?cs = Some c"
      using find_distinct_key [OF dist] that in_cs by auto
    moreover have "length (filter (\<lambda>r. wc_user_id r = u) ?cs) = 2" using two by (simp add: user_creds_def)
    ultimately show ?thesis using calm u in_cs that
      by (auto simp: Remove_check_def ownedCredential_def bindE_def WebAuthnCredentialRepo_GetByID_def UserRepo_GetByID_def
          CountWebAuthnCredentials_def scanWebAuthnCredential_def scanUser_def)
  qed
  define w1 where "w1 = snd (Remove_delete now u (wc_credential_id a) ?ca w)"
  have ids: "cd_CredentialID ?ca = wc_credential_id a" "cd_CredentialID ?cb = wc_credential_id b" by (simp_all add: scanWebAuthnCredential_def)
  from Remove_delete_calm [OF calm in_cs(1) ids(1)] have d1: "fst (Remove_delete now u (wc_credential_id a) ?ca w) = Inr ()" "calm w1"
    "users (db w1) = users (db w)" "webauthn_credentials (db w1) = filter (\<lambda>r. wc_credential_id r \<noteq> wc_credential_id a) ?cs"
    by (simp_all add: w1_def)
  define w2 where "w2 = snd (Remove_delete now u (wc_credential_id b) ?cb w1)"
  have "b \<in> set (webauthn_credentials (db w1))" using d1(4) in_cs ne by simp
  from Remove_delete_calm [OF d1(2) this ids(2)] have d2: "fst (Remove_delete now u (wc_credential_id b) ?cb w1) = Inr ()"
    "users (db w2) = users (db w)" "webauthn_credentials (db w2) = filter (\<lambda>r. wc_credential_id r \<noteq> wc_credential_id b) (webauthn_credentials (db w1))"
    by (simp_all add: w2_def d1)
  have "user_creds u (db w2) = []" using d2(3) d1(4) ab by (auto simp: user_creds_def filter_empty_conv)
  moreover have "find_user u (db w2) = Some r" using d2(2) u(1) by (simp add: find_user_def)
  ultimately have "\<not> can_sign_in u (db w2)" using u(2) by (simp add: can_sign_in_def)
  with check [of a] check [of b] d1(1) d2(1) show ?thesis by (auto simp: Let_def w1_def w2_def)
qed

section \<open>Handles\<close>

lemma audit_frame [simp]:
  "users (db (snd (auditWriter_Log now e w))) = users (db w)"
  "webauthn_credentials (db (snd (auditWriter_Log now e w))) = webauthn_credentials (db w)"
  "account_recovery_tokens (db (snd (auditWriter_Log now e w))) = account_recovery_tokens (db w)"
  "bootstrap (db (snd (auditWriter_Log now e w))) = bootstrap (db w)"
  by (auto simp: auditWriter_Log_def AuditLog_Append_def Let_def bindE_def tryE_def stmt_def insert_audit_def
      split: fault.splits)

lemma audit_returns [simp]: "fst (auditWriter_Log now e w) = Inr ()"
  by (auto simp: auditWriter_Log_def bindE_def tryE_def split: prod.splits)

lemma persistCredential_Inr:
  assumes "persistCredential ps now u h cred n w = (Inr c, w')"
  shows "users (db w') = upd_where (\<lambda>r. uc_id r = u) (\<lambda>r. r\<lparr>uc_webauthn_handle := Some h\<rparr>) (users (db w))"
    "\<exists>r \<in> set (users (db w)). uc_id r = u"
    "\<exists>r. webauthn_credentials (db w') = webauthn_credentials (db w) @ [r] \<and> wc_credential_id r = wr_ID cred \<and> wc_user_id r = u"
proof -
  from assms obtain w1 j w2 where
    s: "UserRepo_SetWebAuthnHandle u h w = (Inr (), w1)" and
    k: "WebAuthnCredentialRepo_Create \<lparr> cd_CredentialID = wr_ID cred, cd_UserID = u, cd_CredentialJSON = j, cd_Name = n,
         cd_AAGUID = wr_AAGUID cred, cd_CreatedAt = now, cd_LastUsedAt = 0 \<rparr> w1 = (Inr c, w2)" and
    a: "w' = snd (auditWriter_Log now (passkey_audit u ''passkey.registered'' (wr_ID cred) '''') w2)"
    by (auto simp: persistCredential_def bindE_Inr_iff lift_opt_def split: option.splits)
  let ?f = "\<lambda>r. r\<lparr>uc_webauthn_handle := Some h\<rparr>"
  from s obtain m where m: "update_user u (\<lambda>_. True) ?f (db w) = (Inr m, db w1)" "m \<noteq> 0"
    by (auto simp: UserRepo_SetWebAuthnHandle_def require_rows_def bindE_Inr_iff split: if_splits dest!: stmt_Inr)
  then have "db w1 = (db w)\<lparr>users := upd_where (\<lambda>r. uc_id r = u) ?f (users (db w))\<rparr>"
    "m = length (filter (\<lambda>r. uc_id r = u) (users (db w)))"
    by (auto simp: update_user_def Let_def split: if_splits)
  with m(2) have u1: "users (db w1) = upd_where (\<lambda>r. uc_id r = u) ?f (users (db w))"
    "webauthn_credentials (db w1) = webauthn_credentials (db w)" "\<exists>r \<in> set (users (db w)). uc_id r = u"
    by (auto simp: filter_empty_conv)
  from k have "insert_credential \<lparr> cd_CredentialID = wr_ID cred, cd_UserID = u, cd_CredentialJSON = j, cd_Name = n,
         cd_AAGUID = wr_AAGUID cred, cd_CreatedAt = now, cd_LastUsedAt = 0 \<rparr> (db w1) = (Inr (), db w2)"
    by (auto simp: WebAuthnCredentialRepo_Create_def bindE_Inr_iff dest!: stmt_Inr)
  then have u2: "users (db w2) = users (db w1)"
    "\<exists>r. webauthn_credentials (db w2) = webauthn_credentials (db w1) @ [r] \<and> wc_credential_id r = wr_ID cred \<and> wc_user_id r = u"
    by (auto simp: insert_credential_def split: if_splits dest!: sym [of _ "db w2"])
  show "users (db w') = upd_where (\<lambda>r. uc_id r = u) (\<lambda>r. r\<lparr>uc_webauthn_handle := Some h\<rparr>) (users (db w))"
    "\<exists>r \<in> set (users (db w)). uc_id r = u"
    "\<exists>r. webauthn_credentials (db w') = webauthn_credentials (db w) @ [r] \<and> wc_credential_id r = wr_ID cred \<and> wc_user_id r = u"
    using u1 u2 by (simp_all add: a)
qed

lemma FinishRegister_Inr:
  assumes "FinishRegister ps t u ck n r w = (Inr c, w')" and "openSession ps ck = Inr s"
  shows "\<exists>cred w1. persistCredential ps (secs t) u (sd_UserID s) cred n w1 = (Inr c, w') \<and> db w1 = db w"
  using assms
  by (auto simp: FinishRegister_def bindE_Inr_iff claim_session_def UserRepo_GetByID_def split: if_splits dest!: queryRow_Inr)
     (metis claimChallenge_db snd_conv)

lemma GetByWebAuthnHandle_gone:
  assumes "\<forall>r \<in> set (users (db w)). uc_webauthn_handle r \<noteq> Some h"
  shows "\<exists>e w'. UserRepo_GetByWebAuthnHandle h w = (Inl e, w')"
proof -
  have "find (\<lambda>r. uc_webauthn_handle r = Some h) (users (db w)) = None" using assms by (simp add: find_None_iff)
  then show ?thesis
    by (auto simp: UserRepo_GetByWebAuthnHandle_def queryRow_def stmt_def split: fault.splits)
qed

lemma FinishLogin_unresolved:
  assumes "openSession ps ck = Inr s" and "wa_login_step (ps_lib ps) t s r = Resolve h"
    and "\<forall>r \<in> set (users (db w)). uc_webauthn_handle r \<noteq> Some h"
  shows "\<exists>e. fst (FinishLogin ps dr t ck r ip ua w) = Inl e"
proof -
  obtain x w1 where x: "claim_session t s w = (x, w1)" by (cases "claim_session t s w")
  have "db w1 = db w" using claim_session_db [of t s w] x by simp
  with assms(3) GetByWebAuthnHandle_gone [of w1 h] obtain e w2 where g: "UserRepo_GetByWebAuthnHandle h w1 = (Inl e, w2)" by auto
  show ?thesis using x g assms(1,2)
    by (cases x) (auto simp: FinishLogin_def bindE_def finish_discoverable_def resolveSigner_def tryE_def no_signer_def)
qed

text \<open>
  The interleaving the handle does not survive: two registrations of one account that were begun
  before it had a handle carry different handles; when both finish, the second overwrites the handle of
  the first. The first credential is still listed, but a login with it, which presents the first handle,
  fails for ever: it yields no session at any later reading of the clock.
\<close>

theorem handle_race:
  assumes s: "sound (db w)"
    and first: "openSession ps ck1 = Inr s1" "FinishRegister ps t1 u ck1 n1 r1 w = (Inr c1, w1)"
    and second: "openSession ps ck2 = Inr s2" "FinishRegister ps t2 u ck2 n2 r2 w1 = (Inr c2, w2)"
    and ne: "sd_UserID s1 \<noteq> sd_UserID s2"
    and login: "openSession ps ck3 = Inr s3" "wa_login_step (ps_lib ps) t3 s3 r3 = Resolve (sd_UserID s1)"
  shows "(\<exists>k. wc_user_id k = u \<and> k \<in> set (webauthn_credentials (db w1)) \<inter> set (webauthn_credentials (db w2))) \<and>
    (\<exists>e. fst (FinishLogin ps dr t3 ck3 r3 ip ua w2) = Inl e)"
proof
  from FinishRegister_Inr [OF first(2,1)] obtain k1 v1 where
    p1: "persistCredential ps (secs t1) u (sd_UserID s1) k1 n1 v1 = (Inr c1, w1)" "db v1 = db w" by blast
  from FinishRegister_Inr [OF second(2,1)] obtain k2 v2 where
    p2: "persistCredential ps (secs t2) u (sd_UserID s2) k2 n2 v2 = (Inr c2, w2)" "db v2 = db w1" by blast
  note P1 = persistCredential_Inr [OF p1(1)] and P2 = persistCredential_Inr [OF p2(1)]
  show "\<exists>k. wc_user_id k = u \<and> k \<in> set (webauthn_credentials (db w1)) \<inter> set (webauthn_credentials (db w2))"
    using P1(3) P2(3) p2(2) by fastforce
  have "sound (db w1)" using sound_at [OF preserves_passkeys(1), of v1] p1 s by (metis snd_conv)
  then have clash: "\<not> user_clash q r" if "q \<in> set (users (db w1))" "r \<in> set (users (db w1))" "uc_id q \<noteq> uc_id r" for q r
    using that by (simp add: sound_def wf_identity_def)
  from P1(1,2) p1(2) obtain q where q: "q \<in> set (users (db w1))" "uc_id q = u" "uc_webauthn_handle q = Some (sd_UserID s1)"
    by (force simp: set_upd_where)
  have "uc_webauthn_handle r \<noteq> Some (sd_UserID s1)" if "r \<in> set (users (db w1))" "uc_id r \<noteq> u" for r
    using clash [OF q(1) that(1)] q that(2) by (auto simp: user_clash_def same_handle_def)
  then have "\<forall>r \<in> set (users (db w2)). uc_webauthn_handle r \<noteq> Some (sd_UserID s1)"
    using P2(1) p2(2) ne by (auto simp: set_upd_where)
  then show "\<exists>e. fst (FinishLogin ps dr t3 ck3 r3 ip ua w2) = Inl e"
    by (rule FinishLogin_unresolved [OF login])
qed

section \<open>A concrete service\<close>

text \<open>A library that accepts everything: the request is the credential id, or the handle to resolve.\<close>

definition plain_lib :: webauthn where
  "plain_lib = \<lparr>
     wa_BeginDiscoverableLogin = None,
     wa_BeginRegistration = (\<lambda>u ex. Some (wu_handle u, \<lparr> sd_Challenge = wu_handle u, sd_UserID = wu_handle u, sd_Expires = None, sd_rest = '''' \<rparr>)),
     wa_FinishRegistration = (\<lambda>t u s r. Some \<lparr> wr_ID = r, wr_AAGUID = None, wr_CloneWarning = False, wr_rest = '''' \<rparr>),
     wa_login_step = (\<lambda>t s r. Resolve r),
     wa_FinishDiscoverableLogin = (\<lambda>t u s r. Some \<lparr> wr_ID = r, wr_AAGUID = None, wr_CloneWarning = False, wr_rest = '''' \<rparr>),
     wa_json_session = (\<lambda>s. Some (sd_Challenge s)),
     wa_parse_session = (\<lambda>x. Some \<lparr> sd_Challenge = x, sd_UserID = x, sd_Expires = None, sd_rest = '''' \<rparr>),
     wa_json_credential = (\<lambda>c. Some (wr_ID c)),
     wa_parse_credential = (\<lambda>x. Some \<lparr> wr_ID = x, wr_AAGUID = None, wr_CloneWarning = False, wr_rest = '''' \<rparr>),
     wa_json_options = Some \<rparr>"

definition plain_passkeys :: passkeys where
  "plain_passkeys = \<lparr> ps_lib = plain_lib, ps_crypto = plain_crypto, ps_sealKey = replicate 32 CHR ''k'',
     ps_sessions = \<lparr> sm_ttl = 3600000000000, sm_slide = 60000000000 \<rparr> \<rparr>"

definition plain_cookie :: "string \<Rightarrow> string" where
  "plain_cookie x = EncodeToString (replicate 12 CHR ''n'' @ x)"

definition pk_world :: pkworld where
  "pk_world = \<lparr> db = sample_db, faults = [], w_used = (\<lambda>_. None) \<rparr>"

lemma openSession_plain:
  "openSession plain_passkeys (plain_cookie x) = Inr \<lparr> sd_Challenge = x, sd_UserID = x, sd_Expires = None, sd_rest = '''' \<rparr>"
  by (simp add: openSession_def plain_passkeys_def plain_crypto_def plain_cookie_def OpenWithAAD_def newGCM_def
      DecodeString_Encode plain_lib_def)

lemma plain_passkeys_lib [simp]: "ps_lib plain_passkeys = plain_lib"
  by (simp add: plain_passkeys_def)

lemma sample_sound: "sound sample_db" "sound sample_db_v4"
  using sample_db_wf
  by (simp_all add: sound_def wf_identity_def wf_accounts_def wf_bootstrap_def wf_audit_def sample_defs pending_whole_def role_ok_def)

definition registered :: "string \<Rightarrow> pkworld \<Rightarrow> (err + WebAuthnCredential) \<times> pkworld" where
  "registered h w = FinishRegister plain_passkeys 5 ''u1'' (plain_cookie h) ''key'' h w"

lemma Inr_projr: "\<not> isl (fst p) \<Longrightarrow> p = (Inr (projr (fst p)), snd p)"
  by (cases p) (auto simp: sum.expand split: sum.splits)

lemma handle_race_witness:
  "\<exists>e. fst (FinishLogin plain_passkeys \<lparr> ld_id = Some ''i'', ld_csrf = Some ''c'', ld_newID = ''n'' \<rparr> 9 (plain_cookie ''h3'') ''h1'' ''ip'' ''ua''
     (snd (registered ''h2'' (snd (registered ''h1'' pk_world))))) = Inl e"
proof -
  have ok: "\<not> isl (fst (registered ''h1'' pk_world))" "\<not> isl (fst (registered ''h2'' (snd (registered ''h1'' pk_world))))"
    by (simp_all add: registered_def FinishRegister_def openSession_plain claim_session_def claimChallenge_def prune_used_def Let_def bindE_def
        UserRepo_GetByID_def pk_world_def find_user_def sample_defs verifyRegistration_def newWebauthnUser_def plain_lib_def
        persistCredential_def UserRepo_SetWebAuthnHandle_def require_rows_def update_user_def role_ok_def lift_opt_def user_clash_def same_oidc_def same_handle_def
        WebAuthnCredentialRepo_Create_def insert_credential_def auditWriter_Log_def AuditLog_Append_def tryE_def insert_audit_def)
  show ?thesis
    by (rule handle_race [THEN conjunct2, OF _ openSession_plain Inr_projr [OF ok(1), unfolded registered_def] openSession_plain
          Inr_projr [OF ok(2), unfolded registered_def], folded registered_def])
       (simp_all add: openSession_plain pk_world_def sample_sound plain_lib_def)
qed

end
