(* ===== verification/Email_Text.thy ===== *)
theory Email_Text
  imports Auth_Verify
begin

text \<open>
  The text half of \<open>internal/email\<close>: durations in words (duration.go), the rules for addresses, subjects and
  bodies (validate.go) and the message bodies (templates.go). \<open>net/mail\<close>'s \<open>ParseAddress\<close> is the
  parameter \<open>pa\<close>: it yields the display name and the address.
\<close>

section \<open>Durations\<close>

definition pluralUnit :: "int \<Rightarrow> string \<Rightarrow> string" where
  "pluralUnit n unit = (if n = 1 then ''1 '' @ unit else showInt n @ '' '' @ unit @ ''s'')"

definition FormatDuration :: "int \<Rightarrow> string" where
  "FormatDuration d =
     (if d \<le> 0 then ''''
      else let mins = wrap64 (d + timeMinute - 1) sdiv timeMinute;
               h = mins sdiv 60; m = mins smod 60
           in if h = 0 then pluralUnit m ''minute''
              else if m = 0 then pluralUnit h ''hour''
              else pluralUnit h ''hour'' @ '' '' @ pluralUnit m ''minute'')"

section \<open>Characters\<close>

definition IsASCII :: "string \<Rightarrow> bool" where
  "IsASCII s \<longleftrightarrow> list_all (\<lambda>c. byte c < 128) s"

text \<open>The number of bytes \<open>range\<close> consumes for the first rune; an invalid sequence is one byte.\<close>

definition cont :: "nat \<Rightarrow> nat \<Rightarrow> char \<Rightarrow> bool" where
  "cont lo hi c \<longleftrightarrow> lo \<le> byte c \<and> byte c \<le> hi"

fun rune_width :: "string \<Rightarrow> nat" where
  "rune_width (a # b # c # d # s) =
     (if cont 0xC2 0xDF a \<and> cont 0x80 0xBF b then 2
      else if (cont 0xE0 0xE0 a \<and> cont 0xA0 0xBF b \<or> cont 0xED 0xED a \<and> cont 0x80 0x9F b \<or>
               cont 0xE1 0xEF a \<and> byte a \<noteq> 0xED \<and> cont 0x80 0xBF b) \<and> cont 0x80 0xBF c then 3
      else if (cont 0xF0 0xF0 a \<and> cont 0x90 0xBF b \<or> cont 0xF4 0xF4 a \<and> cont 0x80 0x8F b \<or>
               cont 0xF1 0xF3 a \<and> cont 0x80 0xBF b) \<and> cont 0x80 0xBF c \<and> cont 0x80 0xBF d then 4
      else 1)"
| "rune_width [a, b, c] =
     (if cont 0xC2 0xDF a \<and> cont 0x80 0xBF b then 2
      else if (cont 0xE0 0xE0 a \<and> cont 0xA0 0xBF b \<or> cont 0xED 0xED a \<and> cont 0x80 0x9F b \<or>
               cont 0xE1 0xEF a \<and> byte a \<noteq> 0xED \<and> cont 0x80 0xBF b) \<and> cont 0x80 0xBF c then 3
      else 1)"
| "rune_width [a, b] = (if cont 0xC2 0xDF a \<and> cont 0x80 0xBF b then 2 else 1)"
| "rune_width s = 1"

fun ASCIIFold :: "string \<Rightarrow> string" where
  "ASCIIFold [] = []"
| "ASCIIFold (c # cs) =
     (if 128 \<le> byte c then CHR ''?'' # ASCIIFold (drop (rune_width (c # cs) - 1) cs)
      else (if byte c < 32 \<or> byte c = 127 then CHR ''?'' else c) # ASCIIFold cs)"

section \<open>Addresses\<close>

abbreviation "ErrNotASCII \<equiv> ErrSentinel ''email: value is not 7-bit ASCII''"
abbreviation "ErrAddressInvalid \<equiv> ErrSentinel ''email: not a valid address''"
abbreviation "ErrAddressUnsupported \<equiv> ErrSentinel ''email: address form is not supported by this transport''"
abbreviation "ErrAddressNotCanonical \<equiv> ErrSentinel ''email: address is not in canonical addr-spec form''"
abbreviation "ErrHeaderInjection \<equiv> ErrSentinel ''email: header value contains a CR or LF''"
abbreviation "ErrAddressUnroutable \<equiv> ErrSentinel ''email: address cannot be carried by the transport as written''"

type_synonym parse_address = "string \<Rightarrow> (string \<times> string) option"

definition NormalizeAddress :: "parse_address \<Rightarrow> string \<Rightarrow> err + string" where
  "NormalizeAddress pa addr =
     (case pa addr of
        None \<Rightarrow> Inl ErrAddressInvalid
      | Some (_, a) \<Rightarrow>
          if \<not> IsASCII a then Inl ErrNotASCII
          else (case pa a of
                  None \<Rightarrow> Inl ErrAddressUnsupported
                | Some (_, a') \<Rightarrow> if a' \<noteq> a then Inl ErrAddressUnsupported else Inr a))"

text \<open>\<open>\s\<close> of the library's expressions: tab, newline, form feed, carriage return, space.\<close>

definition re_space :: "char \<Rightarrow> bool" where
  "re_space c \<longleftrightarrow> byte c \<in> {9, 10, 12, 13, 32}"

definition list_delim :: "char \<Rightarrow> bool" where
  "list_delim c \<longleftrightarrow> c \<in> {CHR ''['', CHR '']'', CHR '';'', CHR '',''} \<or> re_space c"

text \<open>The non-empty elements between the delimiters.\<close>

fun tokens :: "(char \<Rightarrow> bool) \<Rightarrow> string \<Rightarrow> string \<Rightarrow> string list" where
  "tokens p acc [] = (if acc = [] then [] else [rev acc])"
| "tokens p acc (c # cs) =
     (if p c then (if acc = [] then [] else [rev acc]) @ tokens p [] cs else tokens p (c # acc) cs)"

definition libraryRecipientRe :: "string \<Rightarrow> bool" where
  "libraryRecipientRe s \<longleftrightarrow>
     \<not> list_ex re_space s \<and> takeWhile (\<lambda>c. c \<noteq> CHR ''@'') s \<noteq> [] \<and>
     (case dropWhile (\<lambda>c. c \<noteq> CHR ''@'') s of
        [] \<Rightarrow> False
      | _ # d \<Rightarrow> CHR ''@'' \<notin> set d \<and> CHR ''.'' \<in> set (butlast (tl d)))"

definition IsRoutable :: "string \<Rightarrow> bool" where
  "IsRoutable addr \<longleftrightarrow> tokens list_delim [] addr = [addr] \<and> libraryRecipientRe addr"

definition IsRoutableFrom :: "string \<Rightarrow> bool" where
  "IsRoutableFrom addr \<longleftrightarrow> libraryRecipientRe addr"

definition checkAddress :: "parse_address \<Rightarrow> string \<Rightarrow> string \<Rightarrow> err + unit" where
  "checkAddress pa field addr =
     (case NormalizeAddress pa addr of
        Inl e \<Rightarrow> Inl e
      | Inr normalized \<Rightarrow>
          if normalized \<noteq> addr then Inl ErrAddressNotCanonical
          else if \<not> (if field = ''From'' then IsRoutableFrom addr else IsRoutable addr) then Inl ErrAddressUnroutable
          else Inr ())"

definition atext :: "char \<Rightarrow> bool" where
  "atext c \<longleftrightarrow>
     CHR ''A'' \<le> c \<and> c \<le> CHR ''Z'' \<or> CHR ''a'' \<le> c \<and> c \<le> CHR ''z'' \<or> CHR ''0'' \<le> c \<and> c \<le> CHR ''9'' \<or>
     c \<in> set ''!#$%&'' \<or> c = CHR 0x27 \<or> c \<in> set ''*+/=?^_'' \<or> c = CHR 0x60 \<or> c \<in> set ''{|}~-''"

text \<open>One or more words of \<open>atext\<close>, separated by single spaces. \<open>inWord\<close>: the last character belonged to a word.\<close>

fun displayNameRe :: "bool \<Rightarrow> string \<Rightarrow> bool" where
  "displayNameRe inWord [] = inWord"
| "displayNameRe inWord (c # cs) =
     (if atext c then displayNameRe True cs else c = CHR '' '' \<and> inWord \<and> displayNameRe False cs)"

definition SplitFrom :: "parse_address \<Rightarrow> string \<Rightarrow> err + string \<times> string" where
  "SplitFrom pa from =
     (case pa from of
        Some (name, addr) \<Rightarrow>
          if name = '''' then (case checkAddress pa ''From'' from of Inl e \<Rightarrow> Inl e | Inr _ \<Rightarrow> Inr ('''', from))
          else if \<not> IsASCII name \<or> \<not> displayNameRe False name \<or> from \<noteq> name @ '' <'' @ addr @ ''>''
          then Inl ErrAddressNotCanonical
          else (case checkAddress pa ''From'' addr of Inl e \<Rightarrow> Inl e | Inr _ \<Rightarrow> Inr (name, addr))
      | None \<Rightarrow> (case checkAddress pa ''From'' from of Inl e \<Rightarrow> Inl e | Inr _ \<Rightarrow> Inr ('''', from)))"

definition checkSendable :: "parse_address \<Rightarrow> string \<Rightarrow> string \<Rightarrow> string \<Rightarrow> string \<Rightarrow> err + unit" where
  "checkSendable pa from to subject body =
     (case SplitFrom pa from of
        Inl e \<Rightarrow> Inl e
      | Inr _ \<Rightarrow>
          (case checkAddress pa ''To'' to of
             Inl e \<Rightarrow> Inl e
           | Inr _ \<Rightarrow>
               if \<not> IsASCII subject then Inl ErrNotASCII
               else if list_ex (\<lambda>c. byte c = 13 \<or> byte c = 10) subject then Inl ErrHeaderInjection
               else if \<not> IsASCII body then Inl ErrNotASCII
               else Inr ()))"

section \<open>Message bodies\<close>

definition crlf :: string where
  "crlf = [CHR 0x0D, CHR 0x0A]"

definition recoveryTmpl :: "string \<Rightarrow> string \<Rightarrow> string" where
  "recoveryTmpl expiresIn link =
     ''A passkey recovery link was requested for your DIYDDNS account.'' @ crlf @ crlf @
     ''Use the link below to add a new passkey. It expires in '' @ expiresIn @ '' and can only be used once.'' @
     crlf @ crlf @ link @ crlf @ crlf @ ''If you did not request this, you can safely ignore this email.'' @ crlf"

definition adminNotifyTmpl :: "string \<Rightarrow> string \<Rightarrow> string" where
  "adminNotifyTmpl email i =
     ''A passkey recovery link was issued for the account '' @ email @ '' (user '' @ i @ '').'' @ crlf @ crlf @
     ''No action is required unless this was unexpected.'' @ crlf"

definition inviteTmpl :: "string \<Rightarrow> string \<Rightarrow> string" where
  "inviteTmpl expiresIn link =
     ''An account has been created for you on DIYDDNS.'' @ crlf @ crlf @
     ''Use the link below to finish setting it up by registering a passkey.'' @ crlf @ ''It expires in '' @
     expiresIn @ '' and can only be used once.'' @ crlf @ crlf @ link @ crlf @ crlf @
     ''If you were not expecting this, contact the administrator who invited you.'' @ crlf"

definition adminRecoveryTmpl :: "string \<Rightarrow> string \<Rightarrow> string" where
  "adminRecoveryTmpl expiresIn link =
     ''An administrator has reset the passkeys on your DIYDDNS account.'' @ crlf @ crlf @
     ''Every passkey on the account has already been revoked, so you cannot'' @ crlf @
     ''sign in until you register a new one. Use the link below to do that;'' @ crlf @ ''it expires in '' @
     expiresIn @ '' and can only be used once.'' @ crlf @ crlf @ link @ crlf @ crlf @
     ''If you were not expecting this, contact your administrator. Do not'' @ crlf @
     ''disregard this message: your existing passkeys no longer work.'' @ crlf"

definition reRegistrationTmpl :: "string \<Rightarrow> string \<Rightarrow> string" where
  "reRegistrationTmpl expiresIn link =
     ''An administrator has sent you a new link to register a passkey on your'' @ crlf @
     ''DIYDDNS account. Any earlier registration link for this account no longer'' @ crlf @ ''works.'' @ crlf @
     crlf @ ''Use the link below to register a passkey. It expires in '' @ expiresIn @ '' and'' @ crlf @
     ''can only be used once.'' @ crlf @ crlf @ link @ crlf @ crlf @
     ''If you were not expecting this, contact your administrator.'' @ crlf"

definition emailChangeConfirmTmpl :: "string \<Rightarrow> string" where
  "emailChangeConfirmTmpl link =
     ''A request was made to change the email address on your DIYDDNS account'' @ crlf @ ''to this one.'' @ crlf @
     crlf @ ''Nothing changes until you open the link below. You need to be signed in'' @ crlf @
     ''to DIYDDNS in the same browser when you open it; if you are not, sign in'' @ crlf @
     ''first and then open the link again. It expires in one hour and can be'' @ crlf @ ''used once.'' @ crlf @
     crlf @ link @ crlf @ crlf @ ''If you did not request this, you can ignore this email.'' @ crlf"

definition emailChangeNoticeTmpl :: "string \<Rightarrow> string" where
  "emailChangeNoticeTmpl newEmail =
     ''A request was made to change the email address on your DIYDDNS account'' @ crlf @ ''to '' @ newEmail @ ''.'' @
     crlf @ crlf @ ''Nothing has changed yet: this address stays in charge of your account'' @ crlf @
     ''until the new one confirms. If this was not you, sign in and cancel'' @ crlf @
     ''the pending change from Account, then contact your administrator, who'' @ crlf @
     ''can end every session on your account.'' @ crlf"

definition emailChangedTmpl :: "string \<Rightarrow> string" where
  "emailChangedTmpl newEmail =
     ''The email address on your DIYDDNS account has been changed to'' @ crlf @ newEmail @
     ''. Sign-in and passkey recovery mail now go there.'' @ crlf @ crlf @
     ''If you did not make this change, contact your administrator immediately.'' @ crlf"

definition adminEmailChangedTmpl :: "string \<Rightarrow> string" where
  "adminEmailChangedTmpl newEmail =
     ''An administrator has changed the email address on your DIYDDNS account'' @ crlf @ ''to '' @ newEmail @
     ''. Sign-in and passkey recovery mail now go there.'' @ crlf @ crlf @
     ''If this was unexpected, contact your administrator.'' @ crlf"

definition deviceDisabledByAdminTmpl :: "string \<Rightarrow> string \<Rightarrow> string" where
  "deviceDisabledByAdminTmpl label i =
     ''An administrator has disabled your DIYDDNS device '' @ [CHR 0x22] @ label @ [CHR 0x22] @ '' (id '' @ i @
     '').'' @ crlf @ crlf @ ''The device is now rejected when it checks in, so its address is no longer'' @ crlf @
     ''recorded or published. Its history is kept.'' @ crlf @ crlf @
     ''Sign in to see the device's state. If you were not expecting this, contact'' @ crlf @
     ''your administrator.'' @ crlf"

definition deviceEnabledByAdminTmpl :: "string \<Rightarrow> string \<Rightarrow> string" where
  "deviceEnabledByAdminTmpl label i =
     ''An administrator has enabled your DIYDDNS device '' @ [CHR 0x22] @ label @ [CHR 0x22] @ '' (id '' @ i @
     '').'' @ crlf @ crlf @ ''The device is accepted when it checks in again.'' @ crlf @ crlf @
     ''Sign in to see the device's state.'' @ crlf"

text \<open>The exported renderers: subject and body. Executing a fixed template on plain strings does not fail.\<close>

definition RecoveryLinkBody :: "string \<Rightarrow> string \<Rightarrow> string \<times> string" where
  "RecoveryLinkBody link expiresIn = (''DIYDDNS passkey recovery link'', recoveryTmpl expiresIn link)"

definition AdminNotifyBody :: "string \<Rightarrow> string \<Rightarrow> string \<times> string" where
  "AdminNotifyBody userEmail userID = (''DIYDDNS passkey recovery issued'', adminNotifyTmpl (ASCIIFold userEmail) userID)"

definition InviteLinkBody :: "string \<Rightarrow> string \<Rightarrow> string \<times> string" where
  "InviteLinkBody link expiresIn = (''You have been invited to DIYDDNS'', inviteTmpl expiresIn link)"

definition AdminRecoveryLinkBody :: "string \<Rightarrow> string \<Rightarrow> string \<times> string" where
  "AdminRecoveryLinkBody link expiresIn =
     (''Your DIYDDNS passkeys were reset by an administrator'', adminRecoveryTmpl expiresIn link)"

definition ReRegistrationLinkBody :: "string \<Rightarrow> string \<Rightarrow> string \<times> string" where
  "ReRegistrationLinkBody link expiresIn =
     (''A new DIYDDNS registration link from your administrator'', reRegistrationTmpl expiresIn link)"

definition ChangeConfirmBody :: "string \<Rightarrow> string \<times> string" where
  "ChangeConfirmBody link = (''Confirm your new DIYDDNS email address'', emailChangeConfirmTmpl link)"

definition ChangeNoticeBody :: "string \<Rightarrow> string \<times> string" where
  "ChangeNoticeBody newEmail = (''A DIYDDNS email address change was requested'', emailChangeNoticeTmpl (ASCIIFold newEmail))"

definition ChangedBody :: "string \<Rightarrow> string \<times> string" where
  "ChangedBody newEmail = (''Your DIYDDNS email address was changed'', emailChangedTmpl (ASCIIFold newEmail))"

definition AdminChangedBody :: "string \<Rightarrow> string \<times> string" where
  "AdminChangedBody newEmail =
     (''Your DIYDDNS email address was changed by an administrator'', adminEmailChangedTmpl (ASCIIFold newEmail))"

definition DeviceStateChangedByAdminBody :: "string \<Rightarrow> string \<Rightarrow> bool \<Rightarrow> string \<times> string" where
  "DeviceStateChangedByAdminBody label i disabled =
     (if disabled
      then (''An administrator disabled one of your DIYDDNS devices'', deviceDisabledByAdminTmpl (ASCIIFold label) i)
      else (''An administrator enabled one of your DIYDDNS devices'', deviceEnabledByAdminTmpl (ASCIIFold label) i))"

section \<open>What the rules give\<close>

lemma IsASCII_simps [simp]:
  "IsASCII []" "IsASCII (c # s) \<longleftrightarrow> byte c < 128 \<and> IsASCII s" "IsASCII (s @ t) \<longleftrightarrow> IsASCII s \<and> IsASCII t"
  by (simp_all add: IsASCII_def)

text \<open>Folding leaves printable ASCII alone, and its result is printable ASCII.\<close>

lemma ASCIIFold_printable: "list_all (\<lambda>c. 32 \<le> byte c \<and> byte c < 127) (ASCIIFold s)"
  by (induction s rule: ASCIIFold.induct) (auto simp: byte_def)

lemma ASCIIFold_id: "list_all (\<lambda>c. 32 \<le> byte c \<and> byte c < 127) s \<Longrightarrow> ASCIIFold s = s"
  by (induction s) auto

lemma ASCIIFold_ascii [simp]: "IsASCII (ASCIIFold s)"
  using ASCIIFold_printable [of s] by (auto simp: IsASCII_def list_all_iff)

text \<open>A normalized address normalizes to itself, so what is stored passes every later check.\<close>

lemma NormalizeAddress_stable: "NormalizeAddress pa a = Inr b \<Longrightarrow> NormalizeAddress pa b = Inr b \<and> IsASCII b"
  by (auto simp: NormalizeAddress_def split: option.splits prod.splits if_splits)

text \<open>The recipient predicate is the library's expression.\<close>

lemma libraryRecipientRe_iff:
  "libraryRecipientRe s \<longleftrightarrow>
     (\<exists>a b c. s = a @ CHR ''@'' # b @ CHR ''.'' # c \<and> a \<noteq> [] \<and> b \<noteq> [] \<and> c \<noteq> [] \<and>
        CHR ''@'' \<notin> set (a @ b @ c) \<and> list_all (\<lambda>x. \<not> re_space x) (a @ b @ c))"
proof
  assume "libraryRecipientRe s"
  then obtain d x where sp: "\<not> list_ex re_space s" and a: "takeWhile (\<lambda>c. c \<noteq> CHR ''@'') s \<noteq> []"
    and d: "dropWhile (\<lambda>c. c \<noteq> CHR ''@'') s = x # d" "CHR ''@'' \<notin> set d" "CHR ''.'' \<in> set (butlast (tl d))"
    by (auto simp: libraryRecipientRe_def split: list.splits)
  have x: "x = CHR ''@''" using d(1) by (simp add: dropWhile_eq_Cons_conv)
  from d(3) obtain u v where uv: "butlast (tl d) = u @ CHR ''.'' # v" by (meson split_list)
  then have ne: "tl d \<noteq> []" "d \<noteq> []" by auto
  then have "d = hd d # butlast (tl d) @ [last (tl d)]" by simp
  then have dd: "d = (hd d # u) @ CHR ''.'' # (v @ [last (tl d)])" using uv by simp
  obtain l where l: "takeWhile (\<lambda>c. c \<noteq> CHR ''@'') s = l" by blast
  obtain y where y: "hd d = y" by blast
  obtain z where z: "v @ [last (tl d)] = z" "z \<noteq> []" by blast
  have s: "s = l @ CHR ''@'' # d" using d(1) x l by (metis takeWhile_dropWhile_id)
  have "CHR ''@'' \<notin> set l" using set_takeWhileD l by fastforce
  moreover have "\<forall>x \<in> set l \<union> set d. \<not> re_space x" using sp s by (auto simp: list_ex_iff)
  moreover have d': "d = y # u @ CHR ''.'' # z" using dd y z by simp
  ultimately show "\<exists>a b c. s = a @ CHR ''@'' # b @ CHR ''.'' # c \<and> a \<noteq> [] \<and> b \<noteq> [] \<and> c \<noteq> [] \<and>
        CHR ''@'' \<notin> set (a @ b @ c) \<and> list_all (\<lambda>x. \<not> re_space x) (a @ b @ c)"
    using s a l d(2) z(2)
    by (intro exI [of _ l] exI [of _ "y # u"] exI [of _ z]) (simp add: list_all_iff)
next
  assume "\<exists>a b c. s = a @ CHR ''@'' # b @ CHR ''.'' # c \<and> a \<noteq> [] \<and> b \<noteq> [] \<and> c \<noteq> [] \<and>
        CHR ''@'' \<notin> set (a @ b @ c) \<and> list_all (\<lambda>x. \<not> re_space x) (a @ b @ c)"
  then obtain a b c where s: "s = a @ CHR ''@'' # b @ CHR ''.'' # c" and ne: "a \<noteq> []" "b \<noteq> []" "c \<noteq> []"
    and at: "CHR ''@'' \<notin> set (a @ b @ c)" and sp: "list_all (\<lambda>x. \<not> re_space x) (a @ b @ c)" by blast
  have all: "\<And>x. x \<in> set a \<Longrightarrow> x \<noteq> CHR ''@''" using at by auto
  have "takeWhile (\<lambda>c. c \<noteq> CHR ''@'') s = a" "dropWhile (\<lambda>c. c \<noteq> CHR ''@'') s = CHR ''@'' # b @ CHR ''.'' # c"
    using all by (simp_all add: s takeWhile_append2 dropWhile_append2)
  moreover have "CHR ''.'' \<in> set (butlast (tl (b @ CHR ''.'' # c)))" using ne by (cases b) (simp_all add: butlast_append)
  moreover have "\<not> re_space CHR ''@''" "\<not> re_space CHR ''.''" by (simp_all add: re_space_def byte_def)
  ultimately show "libraryRecipientRe s"
    using ne at sp by (auto simp: libraryRecipientRe_def s list_ex_iff list_all_iff)
qed

text \<open>
  Every message of the server passes the sender's checks on subject and body, whatever addresses and labels
  users chose: only the link, the ids and the duration reach a body unfolded.
\<close>

definition sendable_text :: "string \<times> string \<Rightarrow> bool" where
  "sendable_text m \<longleftrightarrow> IsASCII (fst m) \<and> \<not> list_ex (\<lambda>c. byte c = 13 \<or> byte c = 10) (fst m) \<and> IsASCII (snd m)"

lemma messages_sendable:
  "IsASCII link \<Longrightarrow> IsASCII ex \<Longrightarrow> sendable_text (RecoveryLinkBody link ex)"
  "IsASCII link \<Longrightarrow> IsASCII ex \<Longrightarrow> sendable_text (InviteLinkBody link ex)"
  "IsASCII link \<Longrightarrow> IsASCII ex \<Longrightarrow> sendable_text (AdminRecoveryLinkBody link ex)"
  "IsASCII link \<Longrightarrow> IsASCII ex \<Longrightarrow> sendable_text (ReRegistrationLinkBody link ex)"
  "IsASCII i \<Longrightarrow> sendable_text (AdminNotifyBody email i)"
  "IsASCII link \<Longrightarrow> sendable_text (ChangeConfirmBody link)"
  "sendable_text (ChangeNoticeBody email)" "sendable_text (ChangedBody email)" "sendable_text (AdminChangedBody email)"
  "IsASCII i \<Longrightarrow> sendable_text (DeviceStateChangedByAdminBody label i disabled)"
  by (simp_all add: sendable_text_def RecoveryLinkBody_def InviteLinkBody_def AdminRecoveryLinkBody_def ReRegistrationLinkBody_def
      AdminNotifyBody_def ChangeConfirmBody_def ChangeNoticeBody_def ChangedBody_def AdminChangedBody_def DeviceStateChangedByAdminBody_def
      recoveryTmpl_def inviteTmpl_def adminRecoveryTmpl_def reRegistrationTmpl_def adminNotifyTmpl_def emailChangeConfirmTmpl_def
      emailChangeNoticeTmpl_def emailChangedTmpl_def adminEmailChangedTmpl_def deviceDisabledByAdminTmpl_def
      deviceEnabledByAdminTmpl_def crlf_def byte_def)

lemma checkSendable_messages:
  "sendable_text m \<Longrightarrow> SplitFrom pa from = Inr x \<Longrightarrow> checkAddress pa ''To'' to = Inr () \<Longrightarrow>
     checkSendable pa from to (fst m) (snd m) = Inr ()"
  by (simp add: checkSendable_def sendable_text_def)

end
