(* ===== verification/Grants.thy ===== *)
theory Grants
  imports Passkey_Props Email_Text
begin

text \<open>
  \<open>internal/server/service/grants.go\<close> and registration.go: registration grants, the single-use links an
  administrator or a user who lost a passkey gets, and the mail they travel in. The mailer is a parameter:
  \<open>ml_Send\<close> is any action, its error a failed delivery. \<open>RedeemFinish\<close> is split at the gate: \<open>RedeemFinish_check\<close>
  verifies, \<open>RedeemFinish_commit\<close> consumes the grant and writes.
\<close>

section \<open>Mail\<close>

record 'w mailer =
  ml_Enabled :: bool
  ml_Send :: "string \<Rightarrow> string \<Rightarrow> string \<Rightarrow> ('w, unit) action"

record Delivery =
  dy_Attempted :: bool
  dy_To :: string
  dy_Err :: "err option"
  dy_Suppressed :: string

definition no_delivery :: Delivery where
  "no_delivery = \<lparr> dy_Attempted = False, dy_To = '''', dy_Err = None, dy_Suppressed = '''' \<rparr>"

definition SuppressUserDisabled :: string where
  "SuppressUserDisabled = ''user_disabled''"

definition Delivery_Sent :: "Delivery \<Rightarrow> bool" where
  "Delivery_Sent d \<longleftrightarrow> dy_Attempted d \<and> dy_Err d = None"

definition EventEmailSendFailed :: string where
  "EventEmailSendFailed = ''email.send_failed''"

definition recordSendFailure :: "int \<Rightarrow> AuditEntry \<Rightarrow> ('z world_scheme, unit) action" where
  "recordSendFailure now entry = auditWriter_Log now entry"

definition sendBounded :: "'w mailer \<Rightarrow> string \<Rightarrow> string \<times> string \<Rightarrow> ('w, unit) action" where
  "sendBounded ml to m = ml_Send ml to (fst m) (snd m)"

text \<open>\<open>None\<close> is the nil mailer.\<close>

definition usable :: "'w mailer option \<Rightarrow> 'w mailer option" where
  "usable m = (case m of None \<Rightarrow> None | Some ml \<Rightarrow> if ml_Enabled ml then Some ml else None)"

definition sendAdvisory ::
  "('z world_scheme) mailer option \<Rightarrow> int \<Rightarrow> string \<Rightarrow> string \<Rightarrow> string \<Rightarrow> string \<times> string \<Rightarrow> ('z world_scheme, Delivery) action" where
  "sendAdvisory m now actorID targetUserID to msg =
     (case usable m of
        None \<Rightarrow> ret no_delivery
      | Some ml \<Rightarrow>
          bindE (tryE (sendBounded ml to msg)) (\<lambda>r.
            case r of
              Inr _ \<Rightarrow> ret \<lparr> dy_Attempted = True, dy_To = to, dy_Err = None, dy_Suppressed = '''' \<rparr>
            | Inl e \<Rightarrow>
                bindE (recordSendFailure now (audit_entry actorID EventEmailSendFailed ''user'' targetUserID '''')) (\<lambda>_.
                ret \<lparr> dy_Attempted = True, dy_To = to, dy_Err = Some e, dy_Suppressed = '''' \<rparr>)))"

section \<open>Issuing\<close>

abbreviation "ErrGrantInvalid \<equiv> ErrSentinel ''service: registration grant invalid, expired, or already used''"
abbreviation "ErrAlreadyRegistered \<equiv> ErrSentinel ''service: account has already registered''"

record 'w grants =
  gs_passkeys :: "passkeys option"
  gs_crypto :: crypto
  gs_mailer :: "'w mailer option"
  gs_baseURL :: string
  gs_linkTTL :: int

definition deliver ::
  "('z world_scheme) grants \<Rightarrow> int \<Rightarrow> string \<Rightarrow> User \<Rightarrow> string \<times> string \<Rightarrow> ('z world_scheme, Delivery) action" where
  "deliver gs now actorID u msg = sendAdvisory (gs_mailer gs) now actorID (u_ID u) (u_Email u) msg"

definition issue ::
  "'w grants \<Rightarrow> string option \<Rightarrow> int \<Rightarrow> string \<Rightarrow> string \<Rightarrow> ('z world_scheme, string \<times> int) action" where
  "issue gs rnd now userID reason =
     bindE (lift_res (RandToken rnd)) (\<lambda>token.
       let t = \<lparr> ro_TokenHash = HashToken (gs_crypto gs) token, ro_UserID = userID, ro_Reason = reason,
                 ro_ExpiresAt = now + wholeSeconds (gs_linkTTL gs), ro_UsedAt = 0 \<rparr> in
       bindE (AccountRecoveryRepo_Create t) (\<lambda>_.
       ret (gs_baseURL gs @ ''/register?token='' @ token, ro_ExpiresAt t)))"

definition IssueInvite ::
  "('z world_scheme) grants \<Rightarrow> string option \<Rightarrow> int \<Rightarrow> string \<Rightarrow> User \<Rightarrow> ('z world_scheme, string \<times> Delivery) action" where
  "IssueInvite gs rnd now actorID u =
     bindE (issue gs rnd now (u_ID u) ''invite'') (\<lambda>(link, _).
     bindE (auditWriter_Log now (audit_entry actorID ''passkey.invite_issued'' ''user'' (u_ID u) '''')) (\<lambda>_.
     bindE (deliver gs now actorID u (InviteLinkBody link (FormatDuration (gs_linkTTL gs)))) (\<lambda>d.
     ret (link, d))))"

definition IsRegistered :: "User \<Rightarrow> nat \<Rightarrow> bool" where
  "IsRegistered u credCount \<longleftrightarrow> 0 < credCount \<or> u_OIDCSubject u \<noteq> ''''"

definition recipientAfterMint :: "string \<Rightarrow> ('z world_scheme, User) action" where
  "recipientAfterMint userID = UserRepo_GetByID userID"

text \<open>The section under \<open>replaceMu\<close>: every unused grant goes, one is minted.\<close>

definition replace_grants ::
  "'w grants \<Rightarrow> string option \<Rightarrow> int \<Rightarrow> string \<Rightarrow> string \<Rightarrow> ('z world_scheme, string \<times> int) action" where
  "replace_grants gs rnd now userID reason =
     bindE (AccountRecoveryRepo_DeleteUnusedByUser userID) (\<lambda>_. issue gs rnd now userID reason)"

definition ReissueInvite ::
  "('z world_scheme) grants \<Rightarrow> string option \<Rightarrow> int \<Rightarrow> string \<Rightarrow> User \<Rightarrow> ('z world_scheme, string \<times> int \<times> Delivery) action" where
  "ReissueInvite gs rnd now actorID u =
     (if gs_passkeys gs = None then fail ErrWebAuthnUnavailable
      else
        bindE (CountWebAuthnCredentials (u_ID u)) (\<lambda>n.
        if IsRegistered u n then fail ErrAlreadyRegistered
        else
          bindE (UserRepo_GetWebAuthnHandle (u_ID u)) (\<lambda>handle.
          bindE (replace_grants gs rnd now (u_ID u) ''invite'') (\<lambda>(link, expiresAt).
          bindE (auditWriter_Log now (audit_entry actorID ''passkey.invite_issued'' ''user'' (u_ID u) '''')) (\<lambda>_.
          bindE (recipientAfterMint (u_ID u)) (\<lambda>cur.
          if u_Disabled cur then ret (link, expiresAt, no_delivery\<lparr>dy_Suppressed := SuppressUserDisabled\<rparr>)
          else
            let expiresIn = FormatDuration (gs_linkTTL gs);
                msg = (if scanString handle \<noteq> '''' then ReRegistrationLinkBody link expiresIn else InviteLinkBody link expiresIn) in
            bindE (deliver gs now actorID cur msg) (\<lambda>d. ret (link, expiresAt, d))))))))"

definition mintRecoveryGrant ::
  "'w grants \<Rightarrow> string option \<Rightarrow> int \<Rightarrow> string \<Rightarrow> string \<Rightarrow> ('z world_scheme, string) action" where
  "mintRecoveryGrant gs rnd now actorID userID =
     bindE (issue gs rnd now userID ''recovery'') (\<lambda>(link, _).
     bindE (auditWriter_Log now (audit_entry actorID ''passkey.recovery_issued'' ''user'' userID '''')) (\<lambda>_.
     ret link))"

definition IssueRecovery ::
  "('z world_scheme) grants \<Rightarrow> string option \<Rightarrow> int \<Rightarrow> string \<Rightarrow> User \<Rightarrow> ('z world_scheme, string \<times> Delivery) action" where
  "IssueRecovery gs rnd now actorID u =
     (if gs_passkeys gs = None then fail ErrWebAuthnUnavailable
      else
        bindE (WebAuthnCredentialRepo_DeleteAllByUser (u_ID u)) (\<lambda>_.
        bindE (AccountRecoveryRepo_DeleteUnusedByUser (u_ID u)) (\<lambda>_.
        bindE (mintRecoveryGrant gs rnd now actorID (u_ID u)) (\<lambda>link.
        bindE (recipientAfterMint (u_ID u)) (\<lambda>cur.
        if u_Disabled cur then ret (link, no_delivery\<lparr>dy_Suppressed := SuppressUserDisabled\<rparr>)
        else
          bindE (deliver gs now actorID cur (AdminRecoveryLinkBody link (FormatDuration (gs_linkTTL gs)))) (\<lambda>d.
          ret (link, d)))))))"

section \<open>Self-service recovery\<close>

definition enabledAdmins :: "('z world_scheme, User list) action" where
  "enabledAdmins =
     bindE (tryE UserRepo_List) (\<lambda>r. case r of Inl _ \<Rightarrow> ret [] | Inr us \<Rightarrow> ret (filter IsEnabledAdmin us))"

text \<open>One bounded send of the self-service path; a failure is audited without an actor, with the caller's address.\<close>

definition send_or_audit ::
  "('z world_scheme) mailer \<Rightarrow> int \<Rightarrow> string \<Rightarrow> string \<Rightarrow> string \<Rightarrow> string \<times> string \<Rightarrow> ('z world_scheme, unit) action" where
  "send_or_audit ml now targetID ip to msg =
     bindE (tryE (sendBounded ml to msg)) (\<lambda>r.
       case r of
         Inr _ \<Rightarrow> ret ()
       | Inl _ \<Rightarrow> recordSendFailure now (audit_entry '''' EventEmailSendFailed ''user'' targetID ip))"

definition notifyAdminsOfSelfServiceRecovery ::
  "('z world_scheme) mailer \<Rightarrow> int \<Rightarrow> User \<Rightarrow> User list \<Rightarrow> string \<Rightarrow> ('z world_scheme, unit) action" where
  "notifyAdminsOfSelfServiceRecovery ml now u admins ip =
     forE admins (\<lambda>a. send_or_audit ml now (u_ID a) ip (u_Email a) (AdminNotifyBody (u_Email u) (u_ID u)))"

definition doSelfServiceRecovery ::
  "('z world_scheme) grants \<Rightarrow> string option \<Rightarrow> int \<Rightarrow> string \<Rightarrow> string \<Rightarrow> ('z world_scheme, unit) action" where
  "doSelfServiceRecovery gs rnd now targetEmail ip =
     (case usable (gs_mailer gs) of
        None \<Rightarrow> ret ()
      | Some ml \<Rightarrow>
          bindE (tryE (UserRepo_GetByEmail targetEmail)) (\<lambda>r.
            case r of
              Inl _ \<Rightarrow> ret ()
            | Inr u \<Rightarrow>
                if u_Disabled u then ret ()
                else bindE (tryE (CountWebAuthnCredentials (u_ID u))) (\<lambda>c.
                  case c of
                    Inl _ \<Rightarrow> ret ()
                  | Inr count \<Rightarrow>
                      if count = 0 then ret ()
                      else bindE (tryE (mintRecoveryGrant gs rnd now (u_ID u) (u_ID u))) (\<lambda>l.
                        case l of
                          Inl _ \<Rightarrow> ret ()
                        | Inr link \<Rightarrow>
                            bindE enabledAdmins (\<lambda>admins.
                            bindE (send_or_audit ml now (u_ID u) ip (u_Email u)
                                     (RecoveryLinkBody link (FormatDuration (gs_linkTTL gs)))) (\<lambda>_.
                            notifyAdminsOfSelfServiceRecovery ml now u admins ip))))))"

text \<open>The request itself answers before any of that: it starts the detached work and returns nil.\<close>

definition RequestSelfServiceRecovery :: "err + unit" where
  "RequestSelfServiceRecovery = Inr ()"

section \<open>Redeeming\<close>

definition rejectMissing :: string where "rejectMissing = ''missing''"

definition rejectUnknown :: string where "rejectUnknown = ''unknown''"

definition rejectExpired :: string where "rejectExpired = ''expired''"

definition rejectUsed :: string where "rejectUsed = ''used''"

definition rejectUserMissing :: string where "rejectUserMissing = ''user_missing''"

text \<open>The grant, if a row was found, and the reason, empty for a live grant.\<close>

definition lookupGrant :: "'w grants \<Rightarrow> int \<Rightarrow> string \<Rightarrow> ('z world_scheme, RecoveryToken option \<times> string) action" where
  "lookupGrant gs now token =
     (if token = '''' then ret (None, rejectMissing)
      else bindE (tryE (AccountRecoveryRepo_Get (HashToken (gs_crypto gs) token))) (\<lambda>r.
        case r of
          Inl e \<Rightarrow> if e = ErrNotFound then ret (None, rejectUnknown) else fail e
        | Inr grant \<Rightarrow>
            if ro_UsedAt grant \<noteq> 0 then ret (Some grant, rejectUsed)
            else if ro_ExpiresAt grant \<le> now then ret (Some grant, rejectExpired)
            else ret (Some grant, '''')))"

definition validGrant :: "'w grants \<Rightarrow> int \<Rightarrow> string \<Rightarrow> ('z world_scheme, RecoveryToken) action" where
  "validGrant gs now token =
     bindE (lookupGrant gs now token) (\<lambda>(grant, reason).
       case grant of
         None \<Rightarrow> fail ErrGrantInvalid
       | Some g \<Rightarrow> if reason \<noteq> '''' then fail ErrGrantInvalid else ret g)"

definition adminExists :: "('z world_scheme, bool) action" where
  "adminExists = bindE UserRepo_List (\<lambda>us. ret (list_ex (\<lambda>u. u_Role u = ''admin'') us))"

record RegisterTarget =
  rg_State :: string
  rg_Reason :: string
  rg_Email :: string

definition classify_rest :: "('z world_scheme, RegisterTarget) action" where
  "classify_rest =
     bindE adminExists (\<lambda>has.
       ret \<lparr> rg_State = (if has then ''dead'' else ''first_run''), rg_Reason = '''', rg_Email = '''' \<rparr>)"

definition ClassifyRegistration :: "'w grants \<Rightarrow> int \<Rightarrow> string \<Rightarrow> ('z world_scheme, RegisterTarget) action" where
  "ClassifyRegistration gs now token =
     bindE (lookupGrant gs now token) (\<lambda>(grant, reason).
       case grant of
         None \<Rightarrow> classify_rest
       | Some g \<Rightarrow>
           if reason \<noteq> '''' then classify_rest
           else bindE (tryE (UserRepo_GetByID (ro_UserID g))) (\<lambda>r.
             case r of
               Inr u \<Rightarrow> ret \<lparr> rg_State = ''grant'', rg_Reason = ro_Reason g, rg_Email = u_Email u \<rparr>
             | Inl e \<Rightarrow> if e \<noteq> ErrNotFound then fail e else classify_rest))"

definition RedeemBegin ::
  "'w grants \<Rightarrow> string option \<Rightarrow> string option \<Rightarrow> int \<Rightarrow> string \<Rightarrow> ('z world_scheme, string \<times> string \<times> string) action" where
  "RedeemBegin gs rndHandle rndSeal now token =
     (case gs_passkeys gs of
        None \<Rightarrow> fail ErrWebAuthnUnavailable
      | Some ps \<Rightarrow>
          bindE (validGrant gs now token) (\<lambda>grant.
          bindE (BeginRegister ps rndHandle rndSeal (ro_UserID grant)) (\<lambda>(options, sealedCookie).
          ret (ro_UserID grant, options, sealedCookie))))"

definition RedeemFinish_check ::
  "'w grants \<Rightarrow> passkeys \<Rightarrow> int \<Rightarrow> string \<Rightarrow> string \<Rightarrow> string \<Rightarrow>
   ('z pkworld_scheme, RecoveryToken \<times> SessionData \<times> User \<times> Credential) action" where
  "RedeemFinish_check gs ps t token sealedCookie r =
     bindE (validGrant gs (secs t) token) (\<lambda>grant.
     bindE (lift_res (openSession ps sealedCookie)) (\<lambda>sess.
     bindE (claim_session t sess) (\<lambda>_.
     bindE (UserRepo_GetByID (ro_UserID grant)) (\<lambda>u.
     bindE (lift_res (verifyRegistration (ps_lib ps) t (u_Email u) (sd_UserID sess) sess r)) (\<lambda>cred.
     ret (grant, sess, u, cred))))))"

definition redeem_write ::
  "passkeys \<Rightarrow> int \<Rightarrow> string \<Rightarrow> RecoveryToken \<Rightarrow> SessionData \<Rightarrow> User \<Rightarrow> Credential \<Rightarrow> ('z world_scheme, User) action" where
  "redeem_write ps now name grant sess u cred =
     bindE (if ro_Reason grant = ''recovery''
            then bindE (WebAuthnCredentialRepo_DeleteAllByUser (ro_UserID grant)) (\<lambda>_. ret ()) else ret ()) (\<lambda>_.
     bindE (persistCredential ps now (ro_UserID grant) (sd_UserID sess) cred name) (\<lambda>_.
     bindE (if ro_Reason grant = ''recovery''
            then auditWriter_Log now (audit_entry (ro_UserID grant) ''passkey.recovery_redeemed'' ''user'' (ro_UserID grant) '''')
            else ret ()) (\<lambda>_.
     ret u)))"

definition RedeemFinish_commit ::
  "'w grants \<Rightarrow> passkeys \<Rightarrow> int \<Rightarrow> string \<Rightarrow> string \<Rightarrow> RecoveryToken \<times> SessionData \<times> User \<times> Credential \<Rightarrow>
   ('z world_scheme, User) action" where
  "RedeemFinish_commit gs ps now token name p =
     (case p of (grant, sess, u, cred) \<Rightarrow>
        bindE (tryE (AccountRecoveryRepo_Consume (HashToken (gs_crypto gs) token) now)) (\<lambda>r.
          case r of
            Inl e \<Rightarrow> fail (if e = ErrNotFound then ErrGrantInvalid else e)
          | Inr _ \<Rightarrow> redeem_write ps now name grant sess u cred))"

definition RedeemFinish ::
  "'w grants \<Rightarrow> int \<Rightarrow> string \<Rightarrow> string \<Rightarrow> string \<Rightarrow> string \<Rightarrow> ('z pkworld_scheme, User) action" where
  "RedeemFinish gs t token sealedCookie r name =
     (case gs_passkeys gs of
        None \<Rightarrow> fail ErrWebAuthnUnavailable
      | Some ps \<Rightarrow>
          bindE (RedeemFinish_check gs ps t token sealedCookie r) (RedeemFinish_commit gs ps (secs t) token name))"

section \<open>Registration status\<close>

record Registration =
  rs_Status :: string
  rs_LinkExpiresAt :: int

definition deriveRegistration :: "User \<Rightarrow> nat \<Rightarrow> LiveGrant option \<Rightarrow> Registration" where
  "deriveRegistration u credCount live_grant =
     (if IsRegistered u credCount then \<lparr> rs_Status = ''registered'', rs_LinkExpiresAt = 0 \<rparr>
      else case live_grant of
             None \<Rightarrow> \<lparr> rs_Status = ''link_expired'', rs_LinkExpiresAt = 0 \<rparr>
           | Some g \<Rightarrow> \<lparr> rs_Status = (if lg_Reason g = ''recovery'' then ''recovery_pending'' else ''invited''),
                         rs_LinkExpiresAt = lg_ExpiresAt g \<rparr>)"

definition RegistrationStatuses :: "User list \<Rightarrow> int \<Rightarrow> ('z world_scheme, string \<Rightarrow> Registration option) action" where
  "RegistrationStatuses us now =
     bindE CountAllByUser (\<lambda>counts.
     bindE (AccountRecoveryRepo_LiveByUser now) (\<lambda>live_grants.
     ret (foldl (\<lambda>m u. m(u_ID u \<mapsto> deriveRegistration u (case counts (u_ID u) of None \<Rightarrow> 0 | Some n \<Rightarrow> n) (live_grants (u_ID u))))
                (\<lambda>_. None) us)))"

end
