(* ===== verification/Grant_Props.thy ===== *)
theory Grant_Props
  imports Grants Enrollment_Props
begin

text \<open>
  What registration grants promise: a grant is redeemed at most once per time it was issued; a redeem
  writes exactly the credential it verified, and touches credentials only after the grant is spent; an
  administrator's link is the only live one; and self-service recovery never takes a passkey away, nor
  mints a link for an account that is disabled or has no passkey.
\<close>

section \<open>The invariant\<close>

lemma preserves_issue [preserves_intros]:
  "preserves (on_db sound) (issue gs rnd now u reason)"
  "preserves (on_db sound) (replace_grants gs rnd now u reason)"
  "preserves (on_db sound) (mintRecoveryGrant gs rnd now a u)"
  "preserves (on_db sound) (recipientAfterMint u)"
  "preserves (on_db sound) (lookupGrant gs now token)"
  unfolding replace_grants_def mintRecoveryGrant_def issue_def recipientAfterMint_def lookupGrant_def Let_def
  by (intro preserves_intros)+

lemma preserves_redeem [preserves_intros]:
  "preserves (on_db sound) (validGrant gs now token)"
  "preserves (on_db sound) (RedeemFinish_check gs ps t token ck r)"
  "preserves (on_db sound) (RedeemFinish_commit gs ps now token name p)"
  "preserves (on_db sound) (RedeemFinish gs t token ck r name)"
  unfolding RedeemFinish_def RedeemFinish_check_def RedeemFinish_commit_def redeem_write_def validGrant_def
  by (intro preserves_intros)+

text \<open>The mailer keeps the invariant when its sends do not write the database.\<close>

definition mail_only :: "('z world_scheme) mailer option \<Rightarrow> bool" where
  "mail_only m \<longleftrightarrow> (\<forall>ml to s b w. m = Some ml \<longrightarrow> db (snd (ml_Send ml to s b w)) = db w)"

lemma preserves_send:
  assumes "mail_only m" and "usable m = Some ml"
  shows "preserves (on_db I) (sendBounded ml to msg)"
  using assms by (intro preservesI) (auto simp: sendBounded_def mail_only_def usable_def on_db_def split: option.splits if_splits)

lemma preserves_deliveries:
  fixes gs :: "('z world_scheme) grants"
  assumes "mail_only (gs_mailer gs)"
  shows "preserves (on_db sound) (deliver gs now a u msg)"
    "preserves (on_db sound) (IssueInvite gs rnd now a u)"
    "preserves (on_db sound) (ReissueInvite gs rnd now a u)"
    "preserves (on_db sound) (IssueRecovery gs rnd now a u)"
    "preserves (on_db sound) (doSelfServiceRecovery gs rnd now e ip)"
proof -
  have d: "preserves (on_db sound) (deliver gs now a u msg)" for a u msg
    unfolding deliver_def sendAdvisory_def recordSendFailure_def
    by (cases "usable (gs_mailer gs)") (auto intro!: preserves_intros preserves_send [OF assms])
  then show "preserves (on_db sound) (deliver gs now a u msg)" .
  show "preserves (on_db sound) (IssueInvite gs rnd now a u)"
    "preserves (on_db sound) (ReissueInvite gs rnd now a u)"
    "preserves (on_db sound) (IssueRecovery gs rnd now a u)"
    unfolding IssueInvite_def ReissueInvite_def IssueRecovery_def Let_def by (intro preserves_intros d)+
  show "preserves (on_db sound) (doSelfServiceRecovery gs rnd now e ip)"
    unfolding doSelfServiceRecovery_def enabledAdmins_def send_or_audit_def notifyAdminsOfSelfServiceRecovery_def recordSendFailure_def
    by (cases "usable (gs_mailer gs)") (auto intro!: preserves_intros preserves_send [OF assms])
qed

section \<open>The gate\<close>

definition grant_unused :: "string \<Rightarrow> database \<Rightarrow> bool" where
  "grant_unused h d \<longleftrightarrow> (\<exists>r \<in> set (account_recovery_tokens d). rt_token_hash r = h \<and> rt_used_at r = None)"

abbreviation grants_distinct :: "database \<Rightarrow> bool" where
  "grants_distinct d \<equiv> distinct (map rt_token_hash (account_recovery_tokens d))"

definition grant_redeems :: "string \<Rightarrow> database \<Rightarrow> database \<Rightarrow> bool" where
  "grant_redeems h d d' \<longleftrightarrow> grants_distinct d \<and>
     (\<exists>now. fst (consume_recovery h now d) \<noteq> 0 \<and>
        account_recovery_tokens d' = account_recovery_tokens (snd (consume_recovery h now d)))"

lemma grant_redeems_row:
  assumes "grants_distinct d" and "fst (consume_recovery h now d) \<noteq> 0"
  shows "\<exists>g. find_recovery h d = Some g \<and> grant_live now g \<and> g \<in> set (account_recovery_tokens d) \<and> rt_token_hash g = h \<and>
     (\<forall>r \<in> set (account_recovery_tokens d). rt_token_hash r = h \<longrightarrow> r = g)"
proof -
  from assms(2) obtain g where g: "g \<in> set (account_recovery_tokens d)" "rt_token_hash g = h" "grant_live now g"
    by (auto simp: consume_recovery_def filter_empty_conv)
  have "find_recovery h d = Some g" using find_distinct_key [OF assms(1) g(1)] g(2) by (simp add: find_recovery_def)
  moreover have "\<forall>r \<in> set (account_recovery_tokens d). rt_token_hash r = h \<longrightarrow> r = g"
    by (intro ballI impI) (rule distinct_key_eq [OF assms(1) _ g(1)], simp_all add: g(2))
  ultimately show ?thesis using g by blast
qed

interpretation grant_gate: single_use grant_unused grant_redeems
proof
  fix h k d d'
  assume r: "grant_redeems h d d'"
  then obtain now where dist: "grants_distinct d" and n: "fst (consume_recovery h now d) \<noteq> 0"
    and up: "account_recovery_tokens d' = upd_where (\<lambda>r. rt_token_hash r = h \<and> grant_live now r)
          (\<lambda>r. r\<lparr>rt_used_at := Some now\<rparr>) (account_recovery_tokens d)"
    by (auto simp: grant_redeems_def consume_recovery_def)
  from grant_redeems_row [OF dist n] obtain g where g: "grant_live now g" "g \<in> set (account_recovery_tokens d)" "rt_token_hash g = h"
    and only: "\<And>r. r \<in> set (account_recovery_tokens d) \<Longrightarrow> rt_token_hash r = h \<Longrightarrow> r = g" by blast
  have "\<not> grant_unused h d'"
  proof
    assume "grant_unused h d'"
    then obtain q where q: "q \<in> set (account_recovery_tokens d')" "rt_token_hash q = h" "rt_used_at q = None"
      unfolding grant_unused_def by blast
    from q(1) obtain r where r: "r \<in> set (account_recovery_tokens d)"
      "q = (if rt_token_hash r = h \<and> grant_live now r then r\<lparr>rt_used_at := Some now\<rparr> else r)"
      unfolding up set_upd_where by blast
    have "rt_token_hash r = h" using q(2) r(2) by (simp split: if_splits)
    then have "r = g" by (rule only [OF r(1)])
    with r(2) q(3) g show False by simp
  qed
  moreover have "grant_unused h d" using g unfolding grant_unused_def grant_live_def by blast
  ultimately show "grant_unused h d \<and> \<not> grant_unused h d'" by blast
  show "grant_unused k d" if "grant_unused k d'"
    using that by (auto simp: grant_unused_def up set_upd_where split: if_splits)
qed

text \<open>Nothing else makes a grant unused again.\<close>

definition grants_age :: "database \<Rightarrow> database \<Rightarrow> bool" where
  "grants_age d d' \<longleftrightarrow> (\<forall>k. grant_unused k d' \<longrightarrow> grant_unused k d) \<and> (grants_distinct d \<longrightarrow> grants_distinct d')"

interpretation grant_order: db_order grants_age
  by unfold_locales (auto simp: grants_age_def)

lemma grants_age_same: "account_recovery_tokens d' = account_recovery_tokens d \<Longrightarrow> grants_age d d'"
  by (simp add: grants_age_def grant_unused_def)

lemma grants_age_statements:
  "grants_age d (snd (consume_recovery h now d))" "grants_age d (snd (delete_recovery P d))"
  "grants_age d (snd (insert_audit e d))" "grants_age d (snd (delete_user i d))"
  "grants_age d (snd (update_user u Q f d))" "grants_age d (snd (insert_credential c d))"
  "grants_age d (snd (delete_credentials R d))"
  by (auto simp: consume_recovery_def delete_recovery_def insert_audit_def delete_user_def update_user_def insert_credential_def
      delete_credentials_def Let_def grants_age_def grant_unused_def set_upd_where)

lemma grant_follows_stmt: "(\<And>d. grants_age d (snd (q d))) \<Longrightarrow> follows grants_age (stmt q)"
  by (rule grant_order.follows_stmt)

lemma follows_grants_lift [follows_intros]:
  "follows grants_age (lift_res r)" "follows grants_age (lift_opt e x)"
  by (simp_all add: follows_def grant_order.refl lift_opt_def split: option.splits)

lemma follows_grant_writes [follows_intros]:
  "follows grants_age (AccountRecoveryRepo_Consume h now)"
  "follows grants_age (AccountRecoveryRepo_PruneExpired now)"
  "follows grants_age (AccountRecoveryRepo_DeleteUnusedByUser u)"
  "follows grants_age (auditWriter_Log now e)"
  "follows grants_age (WebAuthnCredentialRepo_DeleteAllByUser u)"
  "follows grants_age (UserRepo_Delete u)"
  "follows grants_age (persistCredential ps now u handle cred name)"
  unfolding AccountRecoveryRepo_Consume_def AccountRecoveryRepo_PruneExpired_def AccountRecoveryRepo_DeleteUnusedByUser_def
    AccountRecoveryRepo_Get_def auditWriter_Log_def AuditLog_Append_def WebAuthnCredentialRepo_DeleteAllByUser_def UserRepo_Delete_def
    persistCredential_def UserRepo_SetWebAuthnHandle_def WebAuthnCredentialRepo_Create_def require_rows_def Let_def
  by (intro follows_intros grant_follows_stmt grant_order.follows_exec; simp add: grants_age_statements grant_order.refl)+

interpretation same_db: db_order "\<lambda>d d'. d' = d"
  by unfold_locales auto

lemma follows_same_lift [follows_intros]:
  "follows (\<lambda>d d'. d' = d) (lift_res r)" "follows (\<lambda>d d'. d' = d) (lift_opt e x)" "follows (\<lambda>d d'. d' = d) (claim_session t sess)"
  by (simp_all add: follows_def lift_opt_def split: option.splits)

lemma validGrant_reads [follows_intros]: "follows (\<lambda>d d'. d' = d) (validGrant gs now token)"
  unfolding validGrant_def lookupGrant_def AccountRecoveryRepo_Get_def by (intro follows_intros)

lemma RedeemFinish_check_reads: "follows (\<lambda>d d'. d' = d) (RedeemFinish_check gs ps t token ck r)"
  unfolding RedeemFinish_check_def UserRepo_GetByID_def by (intro follows_intros)

text \<open>
  A run: redeems that consume their grant, at any time after their checks and with any payload the checks
  produced; issues, even those that report an error; and anything that does not reset a grant, such as the
  checks themselves, pruning, account deletion and replaced links.
\<close>

inductive grant_run ::
  "string list \<Rightarrow> string list \<Rightarrow> 'z world_scheme \<Rightarrow> 'z world_scheme \<Rightarrow> bool" where
  stop: "grant_run [] [] w w"
| redeem: "grant_run Ms Rs w w1 \<Longrightarrow> RedeemFinish_commit (gs :: ('z world_scheme) grants) ps now token name p w1 = (Inr u, w2) \<Longrightarrow>
    grant_run Ms (HashToken (gs_crypto gs) token # Rs) w w2"
| refuse: "grant_run Ms Rs w w1 \<Longrightarrow> RedeemFinish_commit (gs :: ('z world_scheme) grants) ps now token name p w1 = (Inl e, w2) \<Longrightarrow> grant_run Ms Rs w w2"
| issue: "grant_run Ms Rs w w1 \<Longrightarrow> RandToken rnd = Inr token \<Longrightarrow>
    grant_run (HashToken (gs_crypto gs) token # Ms) Rs w (snd (issue (gs :: ('z world_scheme) grants) rnd now uid reason w1))"
| other: "grant_run Ms Rs w w1 \<Longrightarrow> follows grants_age (m :: ('z world_scheme, unit) action) \<Longrightarrow> grant_run Ms Rs w (snd (m w1))"

lemma issue_db:
  assumes "RandToken rnd = Inr token"
  shows "\<exists>t. ro_TokenHash t = HashToken (gs_crypto gs) token \<and> ro_UserID t = u \<and>
    (db (snd (issue gs rnd now u reason w)) = db w \<or> db (snd (issue gs rnd now u reason w)) = snd (insert_recovery t (db w)))"
proof -
  define t where "t = \<lparr> ro_TokenHash = HashToken (gs_crypto gs) token, ro_UserID = u, ro_Reason = reason,
                 ro_ExpiresAt = now + wholeSeconds (gs_linkTTL gs), ro_UsedAt = 0 \<rparr>"
  have "db (snd (issue gs rnd now u reason w)) = db (snd (stmt (insert_recovery t) w))"
    using assms by (auto simp: issue_def AccountRecoveryRepo_Create_def bindE_def t_def split: sum.splits prod.splits)
  moreover have "db (snd (stmt (insert_recovery t) w)) = db w \<or> db (snd (stmt (insert_recovery t) w)) = snd (insert_recovery t (db w))"
    by (auto simp: stmt_def split: fault.splits)
  moreover have "ro_TokenHash t = HashToken (gs_crypto gs) token" "ro_UserID t = u" by (simp_all add: t_def)
  ultimately show ?thesis by auto
qed

lemma issue_grants:
  assumes "RandToken rnd = Inr token" and "grants_distinct (db w)"
  shows "grants_distinct (db (snd (issue gs rnd now u reason w)))"
    "grant_unused k (db (snd (issue gs rnd now u reason w))) \<Longrightarrow> grant_unused k (db w) \<or> k = HashToken (gs_crypto gs) token"
proof -
  obtain t where t: "ro_TokenHash t = HashToken (gs_crypto gs) token"
    "db (snd (issue gs rnd now u reason w)) = db w \<or> db (snd (issue gs rnd now u reason w)) = snd (insert_recovery t (db w))"
    using issue_db [OF assms(1), of gs u now reason w] by blast
  show "grants_distinct (db (snd (issue gs rnd now u reason w)))"
    by (rule disjE [OF t(2)]) (use assms(2) in \<open>simp_all add: insert_recovery_def\<close>)
  show "grant_unused k (db w) \<or> k = HashToken (gs_crypto gs) token" if "grant_unused k (db (snd (issue gs rnd now u reason w)))"
    using t(2)
  proof
    assume "db (snd (issue gs rnd now u reason w)) = snd (insert_recovery t (db w))"
    with that show ?thesis unfolding t(1) [symmetric] by (auto simp: insert_recovery_def grant_unused_def split: if_splits)
  qed (use that in simp)
qed

definition same_grants :: "database \<Rightarrow> database \<Rightarrow> bool" where
  "same_grants d d' \<longleftrightarrow> account_recovery_tokens d' = account_recovery_tokens d"

interpretation same_grants: db_order same_grants
  by unfold_locales (simp_all add: same_grants_def)

lemma redeem_write_grants: "follows same_grants (redeem_write ps now name g s u c)"
proof -
  have lift: "follows same_grants (lift_opt e x)" for e and x :: "string option"
    by (simp add: follows_def same_grants_def lift_opt_def split: option.splits)
  have "same_grants d (snd (delete_credentials R d))" "same_grants d (snd (insert_audit e d))" "same_grants d (snd (update_user v Q f d))"
    "same_grants d (snd (insert_credential k d))" for d e R v Q f k
    by (simp_all add: same_grants_def delete_credentials_def insert_audit_def update_user_def insert_credential_def Let_def)
  then show ?thesis
    unfolding redeem_write_def WebAuthnCredentialRepo_DeleteAllByUser_def auditWriter_Log_def AuditLog_Append_def persistCredential_def
      UserRepo_SetWebAuthnHandle_def WebAuthnCredentialRepo_Create_def require_rows_def Let_def
    by (intro follows_intros lift same_grants.follows_stmt same_grants.follows_exec; simp)
qed

text \<open>The commit in two parts: the gate, and what follows it.\<close>

lemma commit_cases:
  assumes "RedeemFinish_commit gs ps now token name (g, s, u, c) w = (x, w')"
  obtains (spent) w1 where "fst (consume_recovery (HashToken (gs_crypto gs) token) now (db w)) \<noteq> 0"
      "db w1 = snd (consume_recovery (HashToken (gs_crypto gs) token) now (db w))" "redeem_write ps now name g s u c w1 = (x, w')"
  | (stopped) e where "x = Inl e" "db w' = db w \<or> db w' = snd (consume_recovery (HashToken (gs_crypto gs) token) now (db w))"
proof -
  let ?h = "HashToken (gs_crypto gs) token"
  obtain y w1 where con: "AccountRecoveryRepo_Consume ?h now w = (y, w1)" by (cases "AccountRecoveryRepo_Consume ?h now w")
  show thesis
  proof (cases y)
    case (Inl e)
    have "db w1 = db w \<or> db w1 = snd (consume_recovery ?h now (db w))"
      using con unfolding AccountRecoveryRepo_Consume_def AccountRecoveryRepo_Get_def require_rows_def bindE_def
      by (auto simp: exec_def queryRow_def stmt_def split: sum.splits prod.splits if_splits fault.splits option.splits)
    moreover have "x = Inl (if e = ErrNotFound then ErrGrantInvalid else e)" "w' = w1"
      using assms con Inl by (simp_all add: RedeemFinish_commit_def bindE_tryE_case split: if_splits)
    ultimately show thesis by (intro stopped) auto
  next
    case (Inr r)
    then have "fst (consume_recovery ?h now (db w)) \<noteq> 0 \<and> db w1 = snd (consume_recovery ?h now (db w))"
      using con by (auto simp: AccountRecoveryRepo_Consume_def AccountRecoveryRepo_Get_def require_rows_def bindE_Inr_iff split: if_splits
        dest!: exec_Inr queryRow_Inr)
    moreover have "redeem_write ps now name g s u c w1 = (x, w')"
      using assms con Inr by (simp add: RedeemFinish_commit_def bindE_tryE_case)
    ultimately show thesis by (intro spent) auto
  qed
qed

lemma commit_spends:
  assumes "RedeemFinish_commit gs ps now token name p w = (Inr u, w')" and "grants_distinct (db w)"
  shows "grant_redeems (HashToken (gs_crypto gs) token) (db w) (db w')"
proof -
  obtain g s x c where p: "p = (g, s, x, c)" by (cases p)
  from assms(1) [unfolded p] show ?thesis
  proof (cases rule: commit_cases)
    case (spent w1)
    then have "account_recovery_tokens (db w') = account_recovery_tokens (db w1)"
      using followsD [OF redeem_write_grants spent(3)] by (simp add: same_grants_def)
    with spent assms(2) show ?thesis by (auto simp: grant_redeems_def)
  qed simp
qed

lemma follows_commit: "follows grants_age (RedeemFinish_commit gs ps now token name p)"
  unfolding RedeemFinish_commit_def redeem_write_def by (intro follows_intros)

lemma grant_run_gate:
  assumes "grant_run Ms Rs w w'" and "grants_distinct (db w)"
  shows "grants_distinct (db w') \<and> grant_gate.gate_run Ms Rs (db w) (db w')"
  using assms
proof (induction rule: grant_run.induct)
  case (stop w)
  then show ?case by (simp add: grant_gate.gate_stop)
next
  case (redeem Ms Rs w w1 gs ps now token name p u w2)
  then have "grant_redeems (HashToken (gs_crypto gs) token) (db w1) (db w2)" by (intro commit_spends) auto
  moreover have "grants_age (db w1) (db w2)" by (rule followsD [OF follows_commit redeem.hyps(2)])
  ultimately show ?case using redeem by (auto simp: grants_age_def intro: grant_gate.gate_redeem)
next
  case (refuse Ms Rs w w1 gs ps now token name p e w2)
  have "grants_age (db w1) (db w2)" by (rule followsD [OF follows_commit refuse.hyps(2)])
  with refuse show ?case by (auto simp: grants_age_def intro: grant_gate.gate_other)
next
  case (issue Ms Rs w w1 rnd token gs now uid reason)
  then have d: "grants_distinct (db w1)" "grant_gate.gate_run Ms Rs (db w) (db w1)" by auto
  show ?case
    by (intro conjI issue_grants(1) [OF issue.hyps(2) d(1)] grant_gate.gate_issue [OF d(2)])
       (rule issue_grants(2) [OF issue.hyps(2) d(1)])
next
  case (other Ms Rs w w1 m)
  have "grants_age (db w1) (db (snd (m w1)))" by (rule follows_at [OF other.hyps(2)])
  with other show ?case by (auto simp: grants_age_def intro: grant_gate.gate_other)
qed

text \<open>
  C25. Registration grants are single use. In every interleaving of redeem requests, issues, replaced links, pruning,
  account deletion and any other activity that does not reset a grant, and with any driver failures,
  the number of registrations a link completes is at most the number of times it was issued, plus one if
  it was unused to begin with.
\<close>

theorem grant_single_use:
  assumes "grant_run Ms Rs w w'" and "sound (db w)"
  shows "count_list Rs k \<le> count_list Ms k + (if grant_unused k (db w) then 1 else 0)"
proof -
  have "grants_distinct (db w)" using assms(2) by (simp add: sound_def wf_accounts_def)
  from grant_gate.at_most_issued [OF conjunct2 [OF grant_run_gate [OF assms(1) this]], of k] show ?thesis by simp
qed

section \<open>What a redeem does\<close>

lemma redeem_write_Inr:
  assumes "redeem_write ps now name g s u c w = (Inr x, w')"
  shows "x = u"
    "\<exists>r. wc_credential_id r = wr_ID c \<and> user_creds (ro_UserID g) (db w') =
       (if ro_Reason g = ''recovery'' then [] else user_creds (ro_UserID g) (db w)) @ [r]"
    "v \<noteq> ro_UserID g \<Longrightarrow> user_creds v (db w') = user_creds v (db w)"
proof -
  let ?U = "ro_UserID g"
  from assms obtain w1 k w2 where
    del: "(if ro_Reason g = ''recovery'' then bindE (WebAuthnCredentialRepo_DeleteAllByUser ?U) (\<lambda>_. ret ()) else ret ()) w = (Inr (), w1)"
    and per: "persistCredential ps now ?U (sd_UserID s) c name w1 = (Inr k, w2)"
    and x: "x = u" and w': "db w' = db w2 \<or> w' = snd (auditWriter_Log now (audit_entry ?U ''passkey.recovery_redeemed'' ''user'' ?U '''') w2)"
    by (auto simp: redeem_write_def bindE_Inr_iff split: if_splits)
  show "x = u" by (rule x)
  have c1: "webauthn_credentials (db w1) = (if ro_Reason g = ''recovery'' then filter (\<lambda>r. wc_user_id r \<noteq> ?U) (webauthn_credentials (db w))
      else webauthn_credentials (db w))"
    using del by (auto simp: WebAuthnCredentialRepo_DeleteAllByUser_def bindE_Inr_iff delete_credentials_def dest!: exec_Inr)
  from persistCredential_Inr(3) [OF per] obtain r where
    r: "webauthn_credentials (db w2) = webauthn_credentials (db w1) @ [r]" "wc_credential_id r = wr_ID c" "wc_user_id r = ?U" by blast
  have c3: "webauthn_credentials (db w') = webauthn_credentials (db w1) @ [r]" using w' r(1) by auto
  show "\<exists>r. wc_credential_id r = wr_ID c \<and> user_creds ?U (db w') = (if ro_Reason g = ''recovery'' then [] else user_creds ?U (db w)) @ [r]"
    using r c1 by (intro exI [of _ r]) (simp add: user_creds_def c3)
  show "user_creds v (db w') = user_creds v (db w)" if "v \<noteq> ?U"
    using that r(3) c1 by (auto simp: user_creds_def c3 intro: filter_cong)
qed

lemma validGrant_Inr:
  assumes "validGrant gs now token w = (Inr g, w')"
  shows "db w' = db w" "\<exists>r. find_recovery (HashToken (gs_crypto gs) token) (db w) = Some r \<and> g = scanRecoveryToken r"
proof -
  show "db w' = db w" by (rule followsD [OF validGrant_reads assms])
  obtain x w1 where x: "AccountRecoveryRepo_Get (HashToken (gs_crypto gs) token) w = (x, w1)"
    by (cases "AccountRecoveryRepo_Get (HashToken (gs_crypto gs) token) w")
  have "token \<noteq> ''''" using assms by (auto simp: validGrant_def lookupGrant_def)
  with assms x have "x = Inr g"
    by (cases x) (auto simp: validGrant_def lookupGrant_def bindE_def tryE_def rejectUsed_def rejectExpired_def split: if_splits)
  with x show "\<exists>r. find_recovery (HashToken (gs_crypto gs) token) (db w) = Some r \<and> g = scanRecoveryToken r"
    by (auto simp: AccountRecoveryRepo_Get_def dest!: queryRow_Inr)
qed

lemma RedeemFinish_check_Inr:
  assumes "RedeemFinish_check gs ps t token ck rq w = (Inr (g, s, u, c), w')"
  shows "db w' = db w" "\<exists>r. find_recovery (HashToken (gs_crypto gs) token) (db w) = Some r \<and> g = scanRecoveryToken r"
    "u_ID u = ro_UserID g"
proof -
  show "db w' = db w" by (rule followsD [OF RedeemFinish_check_reads assms])
  from assms obtain w1 w2 where v: "validGrant gs (secs t) token w = (Inr g, w1)" and u: "UserRepo_GetByID (ro_UserID g) w2 = (Inr u, w')"
    by (auto simp: RedeemFinish_check_def bindE_Inr_iff)
  from validGrant_Inr [OF v] show "\<exists>r. find_recovery (HashToken (gs_crypto gs) token) (db w) = Some r \<and> g = scanRecoveryToken r" by blast
  from u show "u_ID u = ro_UserID g"
    by (auto simp: UserRepo_GetByID_def find_user_def scanUser_def dest!: queryRow_Inr find_SomeD)
qed

lemma consume_row:
  assumes "grants_distinct d" and "fst (consume_recovery h now d) \<noteq> 0"
    and "account_recovery_tokens d' = account_recovery_tokens (snd (consume_recovery h now d))"
  shows "\<exists>g. find_recovery h d = Some g \<and> grant_live now g \<and> find_recovery h d' = Some (g\<lparr>rt_used_at := Some now\<rparr>)"
proof -
  from grant_redeems_row [OF assms(1,2)] obtain g where g: "find_recovery h d = Some g" "grant_live now g" "rt_token_hash g = h" by blast
  have "find_recovery h d' = Some (g\<lparr>rt_used_at := Some now\<rparr>)"
    using g assms(3) by (simp add: find_recovery_def consume_recovery_def find_key_upd_where [of rt_token_hash])
  with g show ?thesis by blast
qed

definition spends_grant :: "string \<Rightarrow> int \<Rightarrow> recovery_row \<Rightarrow> database \<Rightarrow> database \<Rightarrow> bool" where
  "spends_grant h now g d d' \<longleftrightarrow>
     find_recovery h d = Some g \<and> grant_live now g \<and> find_recovery h d' = Some (g\<lparr>rt_used_at := Some now\<rparr>)"


section \<open>The only live link\<close>

definition unused_grants :: "string \<Rightarrow> database \<Rightarrow> recovery_row list" where
  "unused_grants u d = filter (\<lambda>r. rt_user_id r = u \<and> rt_used_at r = None) (account_recovery_tokens d)"

lemma issue_Inr:
  assumes "issue gs rnd now u reason w = (Inr (link, ex), w')"
  shows "\<exists>token g. RandToken rnd = Inr token \<and> link = gs_baseURL gs @ ''/register?token='' @ token \<and> ex = rt_expires_at g \<and>
     g = \<lparr> rt_token_hash = HashToken (gs_crypto gs) token, rt_user_id = u, rt_reason = reason,
           rt_expires_at = now + wholeSeconds (gs_linkTTL gs), rt_used_at = None \<rparr> \<and>
     db w' = (db w)\<lparr>account_recovery_tokens := account_recovery_tokens (db w) @ [g]\<rparr>"
proof -
  from assms obtain token where t: "RandToken rnd = Inr token" "link = gs_baseURL gs @ ''/register?token='' @ token"
    "ex = now + wholeSeconds (gs_linkTTL gs)"
    and c: "stmt (insert_recovery \<lparr> ro_TokenHash = HashToken (gs_crypto gs) token, ro_UserID = u, ro_Reason = reason,
                 ro_ExpiresAt = now + wholeSeconds (gs_linkTTL gs), ro_UsedAt = 0 \<rparr>) w = (Inr (), w')"
    by (auto simp: issue_def bindE_Inr_iff AccountRecoveryRepo_Create_def Let_def)
  from stmt_Inr [OF c] have "db w' = (db w)\<lparr>account_recovery_tokens := account_recovery_tokens (db w) @
     [\<lparr> rt_token_hash = HashToken (gs_crypto gs) token, rt_user_id = u, rt_reason = reason,
        rt_expires_at = now + wholeSeconds (gs_linkTTL gs), rt_used_at = None \<rparr>]\<rparr>"
    by (auto simp: insert_recovery_def nullIfZero_def split: if_splits)
  with t show ?thesis by auto
qed

text \<open>After the grants of an account are replaced, and until someone else writes the table, the new one is the only unused one.\<close>

lemma replaced:
  assumes del: "AccountRecoveryRepo_DeleteUnusedByUser u w = (Inr n, w1)" and iss: "issue gs rnd now u reason w1 = (Inr (link, ex), w2)"
  shows "\<exists>token g. link = gs_baseURL gs @ ''/register?token='' @ token \<and> unused_grants u (db w2) = [g] \<and>
     rt_token_hash g = HashToken (gs_crypto gs) token \<and> rt_reason g = reason \<and> rt_expires_at g = now + wholeSeconds (gs_linkTTL gs)"
    "webauthn_credentials (db w2) = webauthn_credentials (db w)"
proof -
  have d1: "db w1 = (db w)\<lparr>account_recovery_tokens :=
      filter (\<lambda>r. \<not> (rt_user_id r = u \<and> rt_used_at r = None)) (account_recovery_tokens (db w))\<rparr>"
    using del by (auto simp: AccountRecoveryRepo_DeleteUnusedByUser_def delete_recovery_def dest!: exec_Inr)
  from issue_Inr [OF iss] obtain token g where t: "link = gs_baseURL gs @ ''/register?token='' @ token"
    and g: "g = \<lparr> rt_token_hash = HashToken (gs_crypto gs) token, rt_user_id = u, rt_reason = reason,
           rt_expires_at = now + wholeSeconds (gs_linkTTL gs), rt_used_at = None \<rparr>"
    and d2: "db w2 = (db w1)\<lparr>account_recovery_tokens := account_recovery_tokens (db w1) @ [g]\<rparr>" by blast
  have "unused_grants u (db w2) = [g]" by (simp add: unused_grants_def d2 d1 g) (auto simp: filter_empty_conv)
  with t g show "\<exists>token g. link = gs_baseURL gs @ ''/register?token='' @ token \<and> unused_grants u (db w2) = [g] \<and>
     rt_token_hash g = HashToken (gs_crypto gs) token \<and> rt_reason g = reason \<and> rt_expires_at g = now + wholeSeconds (gs_linkTTL gs)"
    by auto
  show "webauthn_credentials (db w2) = webauthn_credentials (db w)" by (simp add: d2 d1)
qed

text \<open>What follows the mint writes the audit log only.\<close>

definition same_accounts :: "database \<Rightarrow> database \<Rightarrow> bool" where
  "same_accounts d d' \<longleftrightarrow> users d' = users d \<and> webauthn_credentials d' = webauthn_credentials d \<and>
     account_recovery_tokens d' = account_recovery_tokens d"

interpretation same_accounts: db_order same_accounts
  by unfold_locales (simp_all add: same_accounts_def)

lemma same_accounts_audit [follows_intros]: "follows same_accounts (auditWriter_Log now e)"
  unfolding auditWriter_Log_def AuditLog_Append_def Let_def
  by (intro follows_intros same_accounts.follows_stmt) (simp add: same_accounts_def insert_audit_def Let_def)

lemma same_accounts_send:
  assumes "mail_only m" and "usable m = Some ml"
  shows "follows same_accounts (sendBounded ml to msg)"
  using assms by (auto simp: follows_def sendBounded_def mail_only_def usable_def same_accounts_def split: option.splits if_splits)

lemma same_accounts_deliver:
  "mail_only (gs_mailer gs) \<Longrightarrow> follows same_accounts (deliver gs now a u msg)"
  unfolding deliver_def sendAdvisory_def recordSendFailure_def
  by (cases "usable (gs_mailer gs)") (auto intro!: follows_intros same_accounts_send)

lemma same_accounts_reads [follows_intros]:
  "follows same_accounts (UserRepo_GetByID u)" "follows same_accounts (recipientAfterMint u)"
  unfolding recipientAfterMint_def UserRepo_GetByID_def by (intro follows_intros)+

definition only_live_link :: "'w grants \<Rightarrow> string \<Rightarrow> string \<Rightarrow> string \<Rightarrow> database \<Rightarrow> bool" where
  "only_live_link gs link u reason d \<longleftrightarrow>
     (\<exists>token g. link = gs_baseURL gs @ ''/register?token='' @ token \<and> unused_grants u d = [g] \<and>
        rt_token_hash g = HashToken (gs_crypto gs) token \<and> rt_reason g = reason)"

lemma only_live_link_same: "same_accounts d d' \<Longrightarrow> only_live_link gs link u reason d' = only_live_link gs link u reason d"
  by (simp add: only_live_link_def same_accounts_def unused_grants_def)

lemma ReissueInvite_link:
  assumes m: "mail_only (gs_mailer gs)" and run: "ReissueInvite gs rnd now a u w = (Inr (link, ex, d), w')"
  shows "only_live_link gs link (u_ID u) ''invite'' (db w')" "u_OIDCSubject u = ''''" "user_creds (u_ID u) (db w) = []"
    "webauthn_credentials (db w') = webauthn_credentials (db w)"
proof -
  define k' where "k' k l e = bindE (auditWriter_Log now (audit_entry a ''passkey.invite_issued'' ''user'' (u_ID u) '''')) (\<lambda>_.
      bindE (recipientAfterMint (u_ID u)) (\<lambda>cur.
      if u_Disabled cur then ret (l, e, no_delivery\<lparr>dy_Suppressed := SuppressUserDisabled\<rparr>)
      else bindE (deliver gs now a cur (if scanString k \<noteq> '''' then ReRegistrationLinkBody l (FormatDuration (gs_linkTTL gs))
                   else InviteLinkBody l (FormatDuration (gs_linkTTL gs)))) (\<lambda>d. ret (l, e, d))))" for k l and e :: int
  from run obtain n w1 k w2 v w3 l e w4 where
    c: "CountWebAuthnCredentials (u_ID u) w = (Inr n, w1)" "\<not> IsRegistered u n"
    and h: "UserRepo_GetWebAuthnHandle (u_ID u) w1 = (Inr k, w2)"
    and del: "AccountRecoveryRepo_DeleteUnusedByUser (u_ID u) w2 = (Inr v, w3)"
    and iss: "issue gs rnd now (u_ID u) ''invite'' w3 = (Inr (l, e), w4)"
    and rest: "k' k l e w4 = (Inr (link, ex, d), w')"
    unfolding ReissueInvite_def replace_grants_def Let_def k'_def [symmetric]
    by (auto simp: bindE_Inr_iff k'_def split: if_splits)
  have "follows same_accounts (k' k l e)" unfolding k'_def by (intro follows_intros same_accounts_deliver m)
  from followsD [OF this rest] have same: "same_accounts (db w4) (db w')" .
  have l: "link = l" using rest by (auto simp: k'_def bindE_Inr_iff split: if_splits)
  have d2: "db w2 = db w" using c(1) h by (auto simp: CountWebAuthnCredentials_def UserRepo_GetWebAuthnHandle_def dest!: query_Inr queryRow_Inr)
  from replaced [OF del iss] have "only_live_link gs l (u_ID u) ''invite'' (db w4)" "webauthn_credentials (db w4) = webauthn_credentials (db w2)"
    by (auto simp: only_live_link_def)
  with same l d2 show "only_live_link gs link (u_ID u) ''invite'' (db w')" "webauthn_credentials (db w') = webauthn_credentials (db w)"
    by (simp_all add: only_live_link_same) (simp add: same_accounts_def)
  show "u_OIDCSubject u = ''''" "user_creds (u_ID u) (db w) = []"
    using c by (auto simp: IsRegistered_def CountWebAuthnCredentials_def user_creds_def dest!: query_Inr)
qed

lemma IssueRecovery_link:
  assumes m: "mail_only (gs_mailer gs)" and run: "IssueRecovery gs rnd now a u w = (Inr (link, d), w')"
  shows "only_live_link gs link (u_ID u) ''recovery'' (db w')" "user_creds (u_ID u) (db w') = []"
proof -
  define k' where "k' l = bindE (auditWriter_Log now (audit_entry a ''passkey.recovery_issued'' ''user'' (u_ID u) '''')) (\<lambda>_.
      bindE (recipientAfterMint (u_ID u)) (\<lambda>cur.
      if u_Disabled cur then ret (l, no_delivery\<lparr>dy_Suppressed := SuppressUserDisabled\<rparr>)
      else bindE (deliver gs now a cur (AdminRecoveryLinkBody l (FormatDuration (gs_linkTTL gs)))) (\<lambda>d. ret (l, d))))" for l
  from run obtain n w1 v w2 l e w3 where
    c: "WebAuthnCredentialRepo_DeleteAllByUser (u_ID u) w = (Inr n, w1)"
    and del: "AccountRecoveryRepo_DeleteUnusedByUser (u_ID u) w1 = (Inr v, w2)"
    and iss: "issue gs rnd now (u_ID u) ''recovery'' w2 = (Inr (l, e), w3)"
    and rest: "k' l w3 = (Inr (link, d), w')"
    by (auto simp: IssueRecovery_def mintRecoveryGrant_def k'_def bindE_Inr_iff split: if_splits)
  have "follows same_accounts (k' l)" unfolding k'_def by (intro follows_intros same_accounts_deliver m)
  from followsD [OF this rest] have same: "same_accounts (db w3) (db w')" .
  have l: "link = l" using rest by (auto simp: k'_def bindE_Inr_iff split: if_splits)
  have d1: "webauthn_credentials (db w1) = filter (\<lambda>r. wc_user_id r \<noteq> u_ID u) (webauthn_credentials (db w))"
    using c by (auto simp: WebAuthnCredentialRepo_DeleteAllByUser_def delete_credentials_def dest!: exec_Inr)
  from replaced [OF del iss] have "only_live_link gs l (u_ID u) ''recovery'' (db w3)" "webauthn_credentials (db w3) = webauthn_credentials (db w1)"
    by (auto simp: only_live_link_def)
  with same l show "only_live_link gs link (u_ID u) ''recovery'' (db w')" "user_creds (u_ID u) (db w') = []"
    by (simp_all add: only_live_link_same) (simp add: same_accounts_def user_creds_def d1)
qed

text \<open>
  C27. A link an administrator sends is the account's only live one, with any driver failures and whatever
  the mailer does: when \<open>ReissueInvite\<close> or \<open>IssueRecovery\<close> returns a link, its grant is the one unused grant of the
  account. A re-sent invitation is refused for an account that can sign in, and takes no
  passkey away; a recovery has revoked every passkey of the account.
\<close>

theorem admin_link_only:
  assumes m: "mail_only (gs_mailer gs)"
  shows "(\<forall>link ex d w'. ReissueInvite gs rnd now a u w = (Inr (link, ex, d), w') \<longrightarrow>
      only_live_link gs link (u_ID u) ''invite'' (db w') \<and> u_OIDCSubject u = '''' \<and> user_creds (u_ID u) (db w) = [] \<and>
      webauthn_credentials (db w') = webauthn_credentials (db w)) \<and>
    (\<forall>link d w'. IssueRecovery gs rnd now a u w = (Inr (link, d), w') \<longrightarrow>
      only_live_link gs link (u_ID u) ''recovery'' (db w') \<and> user_creds (u_ID u) (db w') = [])"
  by (intro conjI allI impI) (erule ReissueInvite_link [OF m] IssueRecovery_link [OF m])+

section \<open>Self-service recovery\<close>

text \<open>A mailer that records what it is given; \<open>res\<close> says which sends fail.\<close>

record mailworld = pkworld +
  w_letters :: "(string \<times> string \<times> string) list"

definition recording :: "bool \<Rightarrow> (string \<Rightarrow> err option) \<Rightarrow> ('z mailworld_scheme) mailer" where
  "recording on res = \<lparr> ml_Enabled = on,
     ml_Send = (\<lambda>to s b w. (case res to of None \<Rightarrow> Inr () | Some e \<Rightarrow> Inl e, w\<lparr>w_letters := (to, s, b) # w_letters w\<rparr>)) \<rparr>"

definition mail_is :: "(string \<times> string \<times> string) list \<Rightarrow> 'z mailworld_scheme \<Rightarrow> bool" where
  "mail_is ms w \<longleftrightarrow> w_letters w = ms"

lemma mail_stmt [preserves_intros]:
  "preserves (mail_is ms) (stmt q)" "preserves (mail_is ms) (query f)" "preserves (mail_is ms) (queryRow g)" "preserves (mail_is ms) (exec h)"
  by (auto simp: preserves_def mail_is_def stmt_def query_def queryRow_def exec_def split: fault.splits)

lemma mail_store [preserves_intros]:
  "preserves (mail_is ms) (auditWriter_Log now e)" "preserves (mail_is ms) (UserRepo_GetByEmail a)"
  "preserves (mail_is ms) (CountWebAuthnCredentials u)" "preserves (mail_is ms) (issue gs rnd now u reason)"
  "preserves (mail_is ms) (mintRecoveryGrant gs rnd now i u)" "preserves (mail_is ms) enabledAdmins"
  unfolding mintRecoveryGrant_def auditWriter_Log_def AuditLog_Append_def UserRepo_GetByEmail_def CountWebAuthnCredentials_def issue_def
    AccountRecoveryRepo_Create_def enabledAdmins_def UserRepo_List_def Let_def
  by (intro preserves_intros)+

lemma mail_kept: "preserves (mail_is (w_letters w)) m \<Longrightarrow> m w = (x, w') \<Longrightarrow> w_letters w' = w_letters w"
  by (fastforce simp: preserves_def mail_is_def)

lemma send_or_audit_effect:
  assumes "send_or_audit (recording on res) now i ip to msg w = (x, w')"
  shows "x = Inr ()" "same_accounts (db w) (db w')" "w_letters w' = (to, msg) # w_letters w"
proof -
  define v where "v = w\<lparr>w_letters := (to, msg) # w_letters w\<rparr>"
  let ?a = "audit_entry '''' EventEmailSendFailed ''user'' i ip"
  have "send_or_audit (recording on res) now i ip to msg w = (if res to = None then (Inr (), v) else auditWriter_Log now ?a v)"
    by (auto simp: send_or_audit_def bindE_tryE_case sendBounded_def recording_def recordSendFailure_def v_def split: option.splits)
  with assms have "(x, w') = (if res to = None then (Inr (), v) else auditWriter_Log now ?a v)" by simp
  then have c: "(x, w') = (Inr (), v) \<or> (x, w') = auditWriter_Log now ?a v" by (simp split: if_splits)
  then show "x = Inr ()" using audit_returns [of now ?a v] by (auto simp: prod_eq_iff)
  have "same_accounts (db v) (db w')" using c same_accounts.refl follows_at [OF same_accounts_audit [of now ?a], of v] by (auto simp: prod_eq_iff)
  then show "same_accounts (db w) (db w')" by (simp add: v_def)
  have "w_letters w' = w_letters v" using c mail_kept [OF mail_store(1)] by (metis prod.inject)
  then show "w_letters w' = (to, msg) # w_letters w" by (simp add: v_def)
qed

lemma notify_effect:
  "notifyAdminsOfSelfServiceRecovery (recording on res) now u admins ip w = (x, w') \<Longrightarrow>
     x = Inr () \<and> same_accounts (db w) (db w') \<and>
     w_letters w' = rev (map (\<lambda>a. (u_Email a, AdminNotifyBody (u_Email u) (u_ID u))) admins) @ w_letters w"
proof (induction admins arbitrary: w)
  case Nil
  then show ?case by (simp add: notifyAdminsOfSelfServiceRecovery_def same_accounts.refl)
next
  case (Cons a as)
  obtain y w1 where s: "send_or_audit (recording on res) now (u_ID a) ip (u_Email a) (AdminNotifyBody (u_Email u) (u_ID u)) w = (y, w1)"
    by (cases "send_or_audit (recording on res) now (u_ID a) ip (u_Email a) (AdminNotifyBody (u_Email u) (u_ID u)) w")
  note S = send_or_audit_effect [OF s]
  have "notifyAdminsOfSelfServiceRecovery (recording on res) now u as ip w1 = (x, w')"
    using Cons.prems s S(1) by (simp add: notifyAdminsOfSelfServiceRecovery_def bindE_def)
  from Cons.IH [OF this] S(2,3) show ?case by (auto intro: same_accounts.trans)
qed

text \<open>The mails the self-service path may send for an account: its own link, and the notice to an enabled administrator.\<close>

definition recovery_mail :: "int \<Rightarrow> user_row \<Rightarrow> database \<Rightarrow> string \<times> string \<times> string \<Rightarrow> bool" where
  "recovery_mail ttl r d m \<longleftrightarrow>
     fst m = uc_email r \<and> (\<exists>link. snd m = RecoveryLinkBody link (FormatDuration ttl)) \<or>
     (\<exists>a \<in> set (users d). uc_role a = ''admin'' \<and> \<not> uc_disabled a \<and> fst m = uc_email a \<and>
        snd m = AdminNotifyBody (uc_email r) (uc_id r))"

lemma enabledAdmins_rows:
  assumes "enabledAdmins w = (x, w')"
  shows "\<exists>as. x = Inr as \<and> db w' = db w \<and> (\<forall>a \<in> set as. \<exists>r \<in> set (users (db w)). a = scanUser r \<and> uc_role r = ''admin'' \<and> \<not> uc_disabled r)"
proof -
  obtain y w1 where y: "UserRepo_List w = (y, w1)" by (cases "UserRepo_List w")
  show ?thesis
  proof (cases y)
    case (Inl e)
    with assms y show ?thesis by (auto simp: enabledAdmins_def bindE_tryE_case UserRepo_List_def dest!: query_err)
  next
    case (Inr us)
    with y have "us = map scanUser (sort_key uc_email (users (db w)))" "db w1 = db w"
      by (auto simp: UserRepo_List_def dest!: query_Inr)
    moreover have "IsEnabledAdmin (scanUser r) \<longleftrightarrow> uc_role r = ''admin'' \<and> \<not> uc_disabled r" for r
      by (simp add: IsEnabledAdmin_def scanUser_def)
    ultimately show ?thesis using assms y Inr by (fastforce simp: enabledAdmins_def bindE_tryE_case)
  qed
qed

lemma mintRecoveryGrant_db:
  assumes "mintRecoveryGrant gs rnd now a u w = (x, w')"
  shows "users (db w') = users (db w)" "webauthn_credentials (db w') = webauthn_credentials (db w)"
    "account_recovery_tokens (db w') = account_recovery_tokens (db w) \<or>
     (\<exists>g. account_recovery_tokens (db w') = account_recovery_tokens (db w) @ [g] \<and> rt_user_id g = u)"
proof -
  obtain y w1 where y: "issue gs rnd now u ''recovery'' w = (y, w1)" by (cases "issue gs rnd now u ''recovery'' w")
  have w1: "db w1 = db w \<or> (\<exists>t. ro_UserID t = u \<and> db w1 = snd (insert_recovery t (db w)))"
  proof (cases "RandToken rnd")
    case (Inl e)
    with y show ?thesis by (auto simp: issue_def bindE_def)
  next
    case (Inr token)
    from issue_db [OF this, of gs u now "''recovery''" w] y show ?thesis by auto
  qed
  have "same_accounts (db w1) (db w')"
    using assms y follows_at [OF same_accounts_audit [of now "audit_entry a ''passkey.recovery_issued'' ''user'' u ''''"], of w1]
      audit_returns [of now "audit_entry a ''passkey.recovery_issued'' ''user'' u ''''" w1]
    by (cases y) (auto simp: mintRecoveryGrant_def bindE_def same_accounts.refl split: prod.splits sum.splits)
  moreover have "users (db w1) = users (db w) \<and> webauthn_credentials (db w1) = webauthn_credentials (db w) \<and>
     (account_recovery_tokens (db w1) = account_recovery_tokens (db w) \<or>
     (\<exists>g. account_recovery_tokens (db w1) = account_recovery_tokens (db w) @ [g] \<and> rt_user_id g = u))"
    using w1 by (elim disjE exE) (simp_all add: insert_recovery_def)
  ultimately show "users (db w') = users (db w)" "webauthn_credentials (db w') = webauthn_credentials (db w)"
    "account_recovery_tokens (db w') = account_recovery_tokens (db w) \<or>
     (\<exists>g. account_recovery_tokens (db w') = account_recovery_tokens (db w) @ [g] \<and> rt_user_id g = u)"
    by (simp_all add: same_accounts_def)
qed

text \<open>
  C28. Self-service recovery, which anyone may ask for, with any driver failures and any failed sends: it always
  answers the same; it never takes a passkey away or changes an account; it mints at most one grant, only for an
  enabled account with that address that already has a passkey; and the mail it sends is the link, to
  the address on that account's row, and the notice to enabled administrators. For every other address nothing
  happens at all.
\<close>

theorem self_service_recovery_safe:
  assumes "gs_mailer gs = Some (recording on res)" and "doSelfServiceRecovery gs rnd now addr ip w = (x, w')"
  shows "RequestSelfServiceRecovery = Inr () \<and> x = Inr () \<and> users (db w') = users (db w) \<and>
    webauthn_credentials (db w') = webauthn_credentials (db w) \<and>
    (account_recovery_tokens (db w') = account_recovery_tokens (db w) \<and> w_letters w' = w_letters w \<or>
     (\<exists>r ms. r \<in> set (users (db w)) \<and> uc_email r = addr \<and> \<not> uc_disabled r \<and> user_creds (uc_id r) (db w) \<noteq> [] \<and>
        (account_recovery_tokens (db w') = account_recovery_tokens (db w) \<or>
         (\<exists>g. account_recovery_tokens (db w') = account_recovery_tokens (db w) @ [g] \<and> rt_user_id g = uc_id r)) \<and>
        w_letters w' = ms @ w_letters w \<and> (\<forall>m \<in> set ms. recovery_mail (gs_linkTTL gs) r (db w) m)))"
proof -
  let ?P = "users (db w') = users (db w) \<and> webauthn_credentials (db w') = webauthn_credentials (db w)"
  let ?mint = "\<lambda>u. account_recovery_tokens (db w') = account_recovery_tokens (db w) \<or>
         (\<exists>g. account_recovery_tokens (db w') = account_recovery_tokens (db w) @ [g] \<and> rt_user_id g = u)"
  have idle: ?thesis if "x = Inr ()" "db w' = db w" "w_letters w' = w_letters w"
    using that by (simp add: RequestSelfServiceRecovery_def)
  show ?thesis
  proof (cases on)
    case False
    then show ?thesis using assms by (intro idle) (auto simp: doSelfServiceRecovery_def usable_def recording_def)
  next
    case True
    then have us: "usable (gs_mailer gs) = Some (recording on res)" using assms(1) by (simp add: usable_def recording_def)
    obtain a w1 where a: "UserRepo_GetByEmail addr w = (a, w1)" by (cases "UserRepo_GetByEmail addr w")
    have m1: "w_letters w1 = w_letters w" by (rule mail_kept [OF mail_store(2) a])
    have d1: "db w1 = db w" using a queryRow_db by (metis UserRepo_GetByEmail_def snd_conv)
    note run = assms(2) [unfolded doSelfServiceRecovery_def us option.case bindE_tryE_case a prod.case]
    show ?thesis
    proof (cases a)
      case (Inl e)
      then show ?thesis using run m1 d1 by (intro idle) auto
    next
      case (Inr u)
      then obtain r where r: "r \<in> set (users (db w))" "u = scanUser r" "uc_email r = addr"
        using a by (auto simp: UserRepo_GetByEmail_def dest!: queryRow_Inr find_SomeD)
      have ids: "u_ID u = uc_id r" "u_Email u = uc_email r" "u_Disabled u = uc_disabled r" by (simp_all add: r(2) scanUser_def)
      obtain c w2 where c: "CountWebAuthnCredentials (u_ID u) w1 = (c, w2)" by (cases "CountWebAuthnCredentials (u_ID u) w1")
      have m2: "w_letters w2 = w_letters w" using mail_kept [OF mail_store(3) c] m1 by simp
      have d2: "db w2 = db w" using c query_db d1 by (metis CountWebAuthnCredentials_def snd_conv)
      note run2 = run [unfolded Inr sum.case bindE_tryE_case c prod.case]
      show ?thesis
      proof (cases "u_Disabled u \<or> isl c \<or> c = Inr 0")
        case True
        then show ?thesis using run2 m1 d1 m2 d2 c by (intro idle) (cases c; auto simp: bindE_tryE_case split: if_splits)+
      next
        case False
        then obtain n where n: "c = Inr n" "n \<noteq> 0" "\<not> uc_disabled r" using ids by (cases c) auto
        have creds: "user_creds (uc_id r) (db w) \<noteq> []"
          using c n d1 ids(1) by (auto simp: CountWebAuthnCredentials_def user_creds_def dest!: query_Inr)
        obtain l w3 where l: "mintRecoveryGrant gs rnd now (u_ID u) (u_ID u) w2 = (l, w3)"
          by (cases "mintRecoveryGrant gs rnd now (u_ID u) (u_ID u) w2")
        have m3: "w_letters w3 = w_letters w" using mail_kept [OF mail_store(5) l] m2 by simp
        note D = mintRecoveryGrant_db [OF l, unfolded d2 ids]
        note run3 = run2 [unfolded n(1) sum.case]
        have out: ?thesis if "same_accounts (db w3) (db w')" "x = Inr ()" "w_letters w' = ms @ w_letters w"
          "\<forall>m \<in> set ms. recovery_mail (gs_linkTTL gs) r (db w) m" for ms
          using that D r(1,3) n(3) creds by (simp add: RequestSelfServiceRecovery_def same_accounts_def) blast
        show ?thesis
        proof (cases l)
          case (Inl e)
          then show ?thesis using run3 l c n ids(3) m3 by (intro out [of "[]"]) (simp_all add: bindE_tryE_case same_accounts.refl)
        next
          case (Inr link)
          obtain y w4 where y: "enabledAdmins w3 = (y, w4)" by (cases "enabledAdmins w3")
          from enabledAdmins_rows [OF y] D(1) obtain as where as: "y = Inr as" "db w4 = db w3"
            "\<forall>a \<in> set as. \<exists>q \<in> set (users (db w)). a = scanUser q \<and> uc_role q = ''admin'' \<and> \<not> uc_disabled q" by auto
          have m4: "w_letters w4 = w_letters w" using mail_kept [OF mail_store(6) y] m3 by simp
          let ?msg = "RecoveryLinkBody link (FormatDuration (gs_linkTTL gs))"
          obtain z w5 where z: "send_or_audit (recording on res) now (u_ID u) ip (u_Email u) ?msg w4 = (z, w5)"
            by (cases "send_or_audit (recording on res) now (u_ID u) ip (u_Email u) ?msg w4")
          note S = send_or_audit_effect [OF z]
          have "notifyAdminsOfSelfServiceRecovery (recording on res) now u as ip w5 = (x, w')"
            using run3 l Inr c n ids(3) y as(1) z S(1) by (simp add: bindE_tryE_case bindE_def)
          note N = notify_effect [OF this]
          show ?thesis
          proof (rule out)
            show "same_accounts (db w3) (db w')" using S(2) N as(2) by (metis same_accounts.trans)
            show "x = Inr ()" using N by simp
            show "w_letters w' = (rev (map (\<lambda>a. (u_Email a, AdminNotifyBody (u_Email u) (u_ID u))) as) @ [(u_Email u, ?msg)]) @ w_letters w"
              using N S(3) m4 by simp
            show "\<forall>m \<in> set (rev (map (\<lambda>a. (u_Email a, AdminNotifyBody (u_Email u) (u_ID u))) as) @ [(u_Email u, ?msg)]).
                recovery_mail (gs_linkTTL gs) r (db w) m"
              using as(3) ids by (fastforce simp: recovery_mail_def scanUser_def)
          qed
        qed
      qed
    qed
  qed
qed

section \<open>Links redeemed and sent\<close>

definition grant1 :: recovery_row where
  "grant1 = \<lparr> rt_token_hash = HashToken plain_crypto ''T'', rt_user_id = ''u1'', rt_reason = ''recovery'', rt_expires_at = 1000, rt_used_at = None \<rparr>"

definition cred1 :: credential_row where
  "cred1 = \<lparr> wc_credential_id = ''old'', wc_user_id = ''u1'', wc_credential_json = '''', wc_name = '''', wc_aaguid = None,
     wc_created_at = 1, wc_last_used_at = None \<rparr>"

definition plain_grants :: "'w grants" where
  "plain_grants = \<lparr> gs_passkeys = Some plain_passkeys, gs_crypto = plain_crypto, gs_mailer = None, gs_baseURL = ''https://x'',
     gs_linkTTL = 900000000000 \<rparr>"

definition grant_world :: pkworld where
  "grant_world = pk_world\<lparr>db := sample_db\<lparr>account_recovery_tokens := [grant1], webauthn_credentials := [cred1]\<rparr>\<rparr>"

lemma grant_world_sound: "sound (db grant_world)"
proof -
  have "sound ((db grant_world)\<lparr>account_recovery_tokens := [], webauthn_credentials := []\<rparr>)"
    using sample_sound(1) by (simp add: grant_world_def pk_world_def sample_defs)
  then show ?thesis
    by (simp add: sound_def wf_hist_def wf_db_def wf_table_defs hist_agrees_def recorded_def device_history_def wf_identity_def wf_accounts_def
        wf_bootstrap_def wf_audit_def grant_world_def pk_world_def grant1_def cred1_def sample_defs)
qed

definition redeemed_grant :: "(err + User) \<times> pkworld" where
  "redeemed_grant = RedeemFinish (plain_grants :: pkworld grants) 5 ''T'' (plain_cookie ''h1'') ''k1'' ''phone'' grant_world"

lemmas grant_eval = RedeemFinish_def RedeemFinish_check_def RedeemFinish_commit_def redeem_write_def validGrant_def lookupGrant_def
  AccountRecoveryRepo_Get_def AccountRecoveryRepo_Consume_def consume_recovery_def find_recovery_def scanRecoveryToken_def grant_live_def
  WebAuthnCredentialRepo_DeleteAllByUser_def delete_credentials_def secs_def plain_grants_def grant_world_def grant1_def cred1_def
  openSession_plain claim_session_def claimChallenge_def prune_used_def Let_def bindE_def
  UserRepo_GetByID_def pk_world_def find_user_def sample_defs verifyRegistration_def newWebauthnUser_def plain_lib_def
  persistCredential_def UserRepo_SetWebAuthnHandle_def require_rows_def update_user_def role_ok_def lift_opt_def
  user_clash_def same_oidc_def same_handle_def WebAuthnCredentialRepo_Create_def insert_credential_def auditWriter_Log_def
  AuditLog_Append_def tryE_def insert_audit_def

lemma redeemed_grant_ok: "\<not> isl (fst redeemed_grant)"
  by (simp add: redeemed_grant_def grant_eval)


lemma grant_single_use_witness:
  "\<exists>w'. grant_run [] [HashToken plain_crypto ''T''] grant_world w' \<and>
     count_list [HashToken plain_crypto ''T''] (HashToken plain_crypto ''T'') \<le>
       count_list ([] :: string list) (HashToken plain_crypto ''T'') + (if grant_unused (HashToken plain_crypto ''T'') (db grant_world) then 1 else 0)"
proof -
  define p where "p = (scanRecoveryToken grant1, \<lparr> sd_Challenge = ''c'', sd_UserID = ''h1'', sd_Expires = None, sd_rest = '''' \<rparr>, scanUser u1,
    \<lparr> wr_ID = ''k1'', wr_AAGUID = None, wr_CloneWarning = False, wr_rest = '''' \<rparr>)"
  let ?gs = "plain_grants :: pkworld grants"
  have "\<not> isl (fst (RedeemFinish_commit ?gs plain_passkeys 5 ''T'' ''phone'' p grant_world))"
    by (simp add: p_def grant_eval)
  from Inr_projr [OF this] obtain u w' where "RedeemFinish_commit ?gs plain_passkeys 5 ''T'' ''phone'' p grant_world = (Inr u, w')" by blast
  from grant_run.redeem [OF grant_run.stop this] have "grant_run [] [HashToken plain_crypto ''T''] grant_world w'"
    by (simp add: plain_grants_def)
  with grant_single_use [OF this grant_world_sound, of "HashToken plain_crypto ''T''"] show ?thesis by blast
qed

definition reissued :: "(err + string \<times> int \<times> Delivery) \<times> pkworld" where
  "reissued = ReissueInvite plain_grants (Some ''x'') 5 ''adm'' (scanUser u1) pk_world"

lemma admin_link_only_witness:
  "\<exists>link ex d w'. reissued = (Inr (link, ex, d), w') \<and> only_live_link (plain_grants :: pkworld grants) link ''u1'' ''invite'' (db w')"
proof -
  have "\<not> isl (fst reissued)"
    by (simp add: reissued_def ReissueInvite_def CountWebAuthnCredentials_def IsRegistered_def UserRepo_GetWebAuthnHandle_def replace_grants_def
        AccountRecoveryRepo_DeleteUnusedByUser_def delete_recovery_def issue_def RandToken_def AccountRecoveryRepo_Create_def insert_recovery_def
        recipientAfterMint_def scanUser_def deliver_def sendAdvisory_def usable_def grant_eval)
  from Inr_projr [OF this] obtain link ex d w' where r: "reissued = (Inr (link, ex, d), w')" by (metis prod.exhaust_sel)
  have "mail_only (gs_mailer (plain_grants :: pkworld grants))" by (simp add: mail_only_def plain_grants_def)
  from admin_link_only [OF this, of "Some ''x''" 5 "''adm''" "scanUser u1" pk_world] r
  have "only_live_link (plain_grants :: pkworld grants) link (u_ID (scanUser u1)) ''invite'' (db w')"
    unfolding reissued_def by blast
  then have "only_live_link (plain_grants :: pkworld grants) link ''u1'' ''invite'' (db w')" by (simp add: scanUser_def u1_def)
  with r show ?thesis by blast
qed

definition letter_world :: mailworld where
  "letter_world = \<lparr> db = db grant_world, faults = [Fine, FailsAfter], w_used = (\<lambda>_. None), w_letters = [] \<rparr>"

lemma self_service_recovery_safe_witness:
  "let w' = snd (doSelfServiceRecovery (plain_grants\<lparr>gs_mailer := Some (recording True (\<lambda>_. None))\<rparr>) (Some ''x'') 5 ''a@example.org'' ''ip'' letter_world)
   in users (db w') = users (db letter_world) \<and> webauthn_credentials (db w') = webauthn_credentials (db letter_world)"
proof -
  let ?gs = "plain_grants\<lparr>gs_mailer := Some (recording True (\<lambda>_. None))\<rparr> :: mailworld grants"
  obtain x w' where r: "doSelfServiceRecovery ?gs (Some ''x'') 5 ''a@example.org'' ''ip'' letter_world = (x, w')"
    by (cases "doSelfServiceRecovery ?gs (Some ''x'') 5 ''a@example.org'' ''ip'' letter_world")
  have "gs_mailer ?gs = Some (recording True (\<lambda>_. None))" by simp
  from self_service_recovery_safe [OF this r] r show ?thesis by (simp add: Let_def)
qed

end
