(* ===== verification/Bootstrap.thy ===== *)
theory Bootstrap
  imports Grant_Props
begin

text \<open>
  \<open>internal/server/service/bootstrap.go\<close>: how the first administrator comes to be. \<open>Startup\<close> mints a token and prints it;
  \<open>BeginClaim\<close> checks the token and starts a passkey ceremony; \<open>FinishClaim\<close> verifies the passkey, spends the token
  and creates the account. \<open>FinishClaim\<close> is split at the gate, so that other requests can run between its
  checks and its writes.
\<close>

section \<open>Operations\<close>

abbreviation "ErrBootstrapClosed \<equiv> ErrSentinel ''service: bootstrap closed''"
abbreviation "ErrBootstrapToken \<equiv> ErrSentinel ''service: invalid bootstrap token''"
abbreviation "ErrBootstrapInvalidEmail \<equiv> ErrSentinel ''service: invalid bootstrap email''"

record claimSession =
  cl_Email :: string
  cl_Session :: SessionData

record bootstrap_service =
  bv_passkeys :: "passkeys option"
  bv_crypto :: crypto
  bv_sealKey :: string
  bv_json :: "claimSession \<Rightarrow> string option"
  bv_parse :: "string \<Rightarrow> claimSession option"

text \<open>The result is the token handed to \<open>emitToken\<close>, if one is. A failed read of the record counts as no record.\<close>

definition Startup :: "bootstrap_service \<Rightarrow> string option \<Rightarrow> int \<Rightarrow> ('z world_scheme, string option) action" where
  "Startup bv rnd now =
     bindE adminExists (\<lambda>hasAdmin.
       if hasAdmin then ret None
       else bindE (tryE BootstrapRepo_Get) (\<lambda>r.
         if (case r of Inl _ \<Rightarrow> False | Inr bs \<Rightarrow> bo_TokenHash bs \<noteq> '''' \<and> bo_ConsumedAt bs = 0) then ret None
         else
           bindE (lift_res (RandToken rnd)) (\<lambda>token.
           bindE (BootstrapRepo_SetTokenHash now (HashToken (bv_crypto bv) token)) (\<lambda>_.
           ret (Some token)))))"

definition bootstrapClaimAAD :: string where
  "bootstrapClaimAAD = ''diyddns/bootstrap-claim-v1''"

definition sealClaim :: "bootstrap_service \<Rightarrow> string option \<Rightarrow> claimSession \<Rightarrow> err + string" where
  "sealClaim bv rnd cs =
     (case bv_json bv cs of
        None \<Rightarrow> Inl ErrMarshal
      | Some raw \<Rightarrow> SealWithAAD (bv_crypto bv) rnd (bv_sealKey bv) raw bootstrapClaimAAD)"

definition openClaim :: "bootstrap_service \<Rightarrow> string \<Rightarrow> err + claimSession" where
  "openClaim bv sealed =
     (case OpenWithAAD (bv_crypto bv) (bv_sealKey bv) sealed bootstrapClaimAAD of
        Inl _ \<Rightarrow> Inl ErrPasskeyVerification
      | Inr raw \<Rightarrow> (case bv_parse bv raw of None \<Rightarrow> Inl ErrPasskeyVerification | Some cs \<Rightarrow> Inr cs))"

definition BeginClaim ::
  "parse_address \<Rightarrow> bootstrap_service \<Rightarrow> string option \<Rightarrow> string option \<Rightarrow> string \<Rightarrow> string \<Rightarrow> ('z world_scheme, string \<times> string) action" where
  "BeginClaim pa bv rndHandle rndSeal token email =
     (case bv_passkeys bv of
        None \<Rightarrow> fail ErrWebAuthnUnavailable
      | Some ps \<Rightarrow>
          bindE adminExists (\<lambda>ok.
          if ok then fail ErrBootstrapClosed
          else (case NormalizeAddress pa email of
                  Inl _ \<Rightarrow> fail ErrBootstrapInvalidEmail
                | Inr normalized \<Rightarrow>
                    bindE (tryE BootstrapRepo_Get) (\<lambda>r.
                      case r of
                        Inl e \<Rightarrow> if e \<noteq> ErrNotFound then fail e else fail ErrBootstrapToken
                      | Inr bs \<Rightarrow>
                          if bo_TokenHash bs = '''' then fail ErrBootstrapToken
                          else if \<not> VerifyToken (bv_crypto bv) (bo_TokenHash bs) token then fail ErrBootstrapToken
                          else
                            bindE (lift_opt ErrRandom rndHandle) (\<lambda>handle.
                            bindE (lift_res (beginRegistrationFor (ps_lib ps) normalized handle)) (\<lambda>(optsJSON, sess).
                            bindE (lift_res (sealClaim bv rndSeal \<lparr> cl_Email = normalized, cl_Session = sess \<rparr>)) (\<lambda>sealed.
                            ret (sealed, optsJSON))))))))"

definition FinishClaim_check ::
  "bootstrap_service \<Rightarrow> passkeys \<Rightarrow> int \<Rightarrow> string \<Rightarrow> string \<Rightarrow> ('z pkworld_scheme, claimSession \<times> Credential) action" where
  "FinishClaim_check bv ps t sealedCookie r =
     bindE adminExists (\<lambda>ok.
     if ok then fail ErrBootstrapClosed
     else
       bindE (lift_res (openClaim bv sealedCookie)) (\<lambda>cs.
       bindE (claim_session t (cl_Session cs)) (\<lambda>_.
       bindE (lift_res (verifyRegistration (ps_lib ps) t (cl_Email cs) (sd_UserID (cl_Session cs)) (cl_Session cs) r)) (\<lambda>cred.
       ret (cs, cred)))))"

definition new_user :: "string \<Rightarrow> string \<Rightarrow> User" where
  "new_user email role =
     \<lparr> u_ID = '''', u_Email = email, u_Role = role, u_OIDCProvider = '''', u_OIDCSubject = '''', u_Disabled = False,
       u_CreatedAt = 0, u_UpdatedAt = 0, u_PendingEmail = '''', u_PendingEmailExpiresAt = 0 \<rparr>"

definition claim_write ::
  "passkeys \<Rightarrow> string \<Rightarrow> int \<Rightarrow> string \<Rightarrow> claimSession \<times> Credential \<Rightarrow> ('z world_scheme, User) action" where
  "claim_write ps newID now name p =
     (case p of (cs, cred) \<Rightarrow>
        bindE (UserRepo_Create newID now (new_user (cl_Email cs) ''admin'')) (\<lambda>u.
        bindE (auditWriter_Log now (audit_entry (u_ID u) ''user.created'' ''user'' (u_ID u) '''')) (\<lambda>_.
        bindE (auditWriter_Log now (audit_entry (u_ID u) ''bootstrap.consumed'' ''user'' (u_ID u) '''')) (\<lambda>_.
        bindE (persistCredential ps now (u_ID u) (sd_UserID (cl_Session cs)) cred name) (\<lambda>_.
        ret u)))))"

definition FinishClaim_commit ::
  "passkeys \<Rightarrow> string \<Rightarrow> int \<Rightarrow> string \<Rightarrow> claimSession \<times> Credential \<Rightarrow> ('z world_scheme, User) action" where
  "FinishClaim_commit ps newID now name p =
     bindE (tryE (BootstrapRepo_Consume now)) (\<lambda>r.
       case r of
         Inl e \<Rightarrow> fail (if e = ErrNotFound then ErrBootstrapClosed else e)
       | Inr _ \<Rightarrow> claim_write ps newID now name p)"

definition FinishClaim ::
  "bootstrap_service \<Rightarrow> string \<Rightarrow> int \<Rightarrow> string \<Rightarrow> string \<Rightarrow> string \<Rightarrow> ('z pkworld_scheme, User) action" where
  "FinishClaim bv newID t sealedCookie r name =
     (case bv_passkeys bv of
        None \<Rightarrow> fail ErrWebAuthnUnavailable
      | Some ps \<Rightarrow> bindE (FinishClaim_check bv ps t sealedCookie r) (FinishClaim_commit ps newID (secs t) name))"

section \<open>The invariant\<close>

lemma preserves_bootstrap_service [preserves_intros]:
  "preserves (on_db sound) adminExists"
  "preserves (on_db sound) (Startup bv rnd now)"
  "preserves (on_db sound) (BeginClaim pa bv a b token email)"
  "preserves (on_db sound) (FinishClaim_check bv ps t ck r)"
  "preserves (on_db sound) (FinishClaim_commit ps newID now name p)"
  "preserves (on_db sound) (FinishClaim bv newID t ck r name)"
  unfolding FinishClaim_def FinishClaim_check_def FinishClaim_commit_def claim_write_def BeginClaim_def Startup_def adminExists_def
  by (intro preserves_intros)+

end
