(* ===== verification/Ceremony_Props.thy ===== *)
theory Ceremony_Props
  imports Bootstrap
begin

text \<open>
  Two properties that span the passkey, grant and bootstrap services: a first administrator is made at most
  once, and a ceremony cookie is good for one ceremony, whichever handler it is presented to.
\<close>

section \<open>The first administrator\<close>

definition has_admin :: "database \<Rightarrow> bool" where
  "has_admin d \<longleftrightarrow> (\<exists>r \<in> set (users d). uc_role r = ''admin'')"

definition token_pending :: "database \<Rightarrow> bool" where
  "token_pending d \<longleftrightarrow> (\<exists>r. bootstrap d = Some r \<and> bs_consumed_at r = None)"

text \<open>Everything else leaves the bootstrap record alone and an administrator in place.\<close>

definition keeps_admin :: "database \<Rightarrow> database \<Rightarrow> bool" where
  "keeps_admin d d' \<longleftrightarrow> bootstrap d' = bootstrap d \<and> (has_admin d \<longrightarrow> has_admin d')"

interpretation keeps_admin: db_order keeps_admin
  by unfold_locales (auto simp: keeps_admin_def)

text \<open>
  A run of the server and its restarts: \<open>Startup\<close> at each start, claims that pass their gate or not, at any time
  after their checks, and any other activity. It counts the claims that returned an account.
\<close>

inductive claim_run :: "nat \<Rightarrow> 'z world_scheme \<Rightarrow> 'z world_scheme \<Rightarrow> bool" where
  stop: "claim_run 0 w w"
| startup: "claim_run n w w1 \<Longrightarrow> claim_run n w (snd (Startup bv rnd now w1))"
| claim: "claim_run n w w1 \<Longrightarrow> FinishClaim_commit ps newID now name p w1 = (Inr u, w2) \<Longrightarrow> claim_run (Suc n) w w2"
| refused: "claim_run n w w1 \<Longrightarrow> FinishClaim_commit ps newID now name p w1 = (Inl e, w2) \<Longrightarrow> claim_run n w w2"
| other: "claim_run n w w1 \<Longrightarrow> follows keeps_admin (m :: ('z world_scheme, unit) action) \<Longrightarrow> claim_run n w (snd (m w1))"

lemma list_has_admin: "list_ex (\<lambda>u. u_Role u = ''admin'') (map scanUser (sort_key uc_email (users d))) = has_admin d"
  by (auto simp: has_admin_def list_ex_iff scanUser_def)

lemma adminExists_cases:
  assumes "adminExists w = (x, w')"
  shows "db w' = db w" "x = Inr b \<Longrightarrow> b = has_admin (db w)"
  using assms list_has_admin [of "db w"]
  by (auto simp: adminExists_def bindE_def UserRepo_List_def split: sum.splits prod.splits dest!: query_Inr query_err)

lemma Startup_with_admin:
  assumes "has_admin (db w)"
  shows "db (snd (Startup bv rnd now w)) = db w"
proof -
  obtain x w1 where x: "adminExists w = (x, w1)" by (cases "adminExists w")
  with adminExists_cases [OF x] assms show ?thesis by (cases x) (auto simp: Startup_def bindE_def)
qed

lemma commit_without_token:
  assumes "\<not> token_pending (db w)"
  shows "\<exists>e. fst (FinishClaim_commit ps newID now name p w) = Inl e" "db (snd (FinishClaim_commit ps newID now name p w)) = db w"
proof -
  have c: "consume_bootstrap now (db w) = (0, db w)"
    using assms by (auto simp: consume_bootstrap_def token_pending_def split: option.splits)
  obtain x w1 where x: "BootstrapRepo_Consume now w = (x, w1)" by (cases "BootstrapRepo_Consume now w")
  have "db w1 = db w \<and> (\<exists>e. x = Inl e)"
    using x c by (auto simp: BootstrapRepo_Consume_def require_rows_def bindE_def exec_def stmt_def split: fault.splits)
  with x show "\<exists>e. fst (FinishClaim_commit ps newID now name p w) = Inl e" "db (snd (FinishClaim_commit ps newID now name p w)) = db w"
    by (auto simp: FinishClaim_commit_def bindE_tryE_case)
qed

lemma keeps_admin_statements:
  "keeps_admin d (snd (insert_audit e d))" "keeps_admin d (snd (insert_credential c d))" "keeps_admin d (snd (insert_user r d))"
  by (auto simp: keeps_admin_def has_admin_def insert_audit_def insert_credential_def insert_user_def Let_def)

lemma keeps_admin_handle: "keeps_admin d (snd (update_user u Q (\<lambda>r. r\<lparr>uc_webauthn_handle := h\<rparr>) d))"
proof -
  have "has_admin e \<longleftrightarrow> ''admin'' \<in> set (map uc_role (users e))" for e by (force simp: has_admin_def)
  then show ?thesis by (simp add: keeps_admin_def update_user_def Let_def del: set_map)
qed

lemma keeps_admin_lift [follows_intros]: "follows keeps_admin (lift_opt e x)" "follows keeps_admin (lift_res y)"
  by (simp_all add: follows_def keeps_admin.refl lift_opt_def split: option.splits)

lemma keeps_admin_writes [follows_intros]:
  "follows keeps_admin (auditWriter_Log now e)"
  "follows keeps_admin (persistCredential ps now u h c n)"
  "follows keeps_admin (UserRepo_Create newID now usr)"
  unfolding persistCredential_def auditWriter_Log_def AuditLog_Append_def UserRepo_SetWebAuthnHandle_def WebAuthnCredentialRepo_Create_def
    UserRepo_Create_def require_rows_def Let_def
  by (intro follows_intros keeps_admin.follows_stmt keeps_admin_statements keeps_admin_handle)+

lemma commit_makes_admin:
  fixes w :: "'a world_scheme"
  assumes "FinishClaim_commit ps newID now name p w = (Inr u, w')"
  shows "has_admin (db w')" "\<not> token_pending (db w')"
proof -
  obtain cs cred where p: "p = (cs, cred)" by (cases p)
  obtain x w1 where con: "BootstrapRepo_Consume now w = (x, w1)" by (cases "BootstrapRepo_Consume now w")
  with assms have x: "x = Inr ()" and wr: "claim_write ps newID now name p w1 = (Inr u, w')"
    by (cases x; simp add: FinishClaim_commit_def bindE_tryE_case)+
  have "\<not> token_pending (db w1)"
    using con x by (auto simp: BootstrapRepo_Consume_def require_rows_def bindE_Inr_iff token_pending_def consume_bootstrap_def
        split: if_splits option.splits dest!: exec_Inr)
  moreover have fw: "follows keeps_admin (claim_write ps newID now name p)"
    unfolding claim_write_def by (intro follows_intros)
  ultimately show "\<not> token_pending (db w')"
    using followsD [OF fw wr] by (auto simp: keeps_admin_def token_pending_def)
  define rest :: "User \<Rightarrow> ('a world_scheme, User) action" where "rest v = bindE (auditWriter_Log now (audit_entry (u_ID v) ''user.created'' ''user'' (u_ID v) '''')) (\<lambda>_.
        bindE (auditWriter_Log now (audit_entry (u_ID v) ''bootstrap.consumed'' ''user'' (u_ID v) '''')) (\<lambda>_.
        bindE (persistCredential ps now (u_ID v) (sd_UserID (cl_Session cs)) cred name) (\<lambda>_. ret v)))" for v
  from wr obtain v w2 where cr: "UserRepo_Create newID now (new_user (cl_Email cs) ''admin'') w1 = (Inr v, w2)" and
    r: "rest v w2 = (Inr u, w')"
    by (auto simp: claim_write_def p rest_def bindE_Inr_iff)
  have "has_admin (db w2)"
    using cr by (auto simp: UserRepo_Create_def new_user_def bindE_Inr_iff Let_def insert_user_def has_admin_def split: if_splits
        dest!: stmt_Inr sym [of _ "db w2"])
  moreover have fr: "follows keeps_admin (rest v)" unfolding rest_def by (intro follows_intros)
  ultimately show "has_admin (db w')" using followsD [OF fr r] by (auto simp: keeps_admin_def)
qed

lemma claim_run_inv:
  "claim_run n w w' \<Longrightarrow> n = 0 \<or> n = 1 \<and> has_admin (db w') \<and> \<not> token_pending (db w')"
proof (induction rule: claim_run.induct)
  case (startup n w w1 bv rnd now)
  then show ?case using Startup_with_admin [of w1 bv rnd now] by auto
next
  case (claim n w w1 ps newID now name p u w2)
  then show ?case using commit_makes_admin [OF claim.hyps(2)] commit_without_token(1) [of w1 ps newID now name p] by auto
next
  case (refused n w w1 ps newID now name p e w2)
  then show ?case using commit_without_token(2) [of w1 ps newID now name p] by auto
next
  case (other n w w1 m)
  then show ?case using follows_at [OF other.hyps(2), of w1] by (auto simp: keeps_admin_def token_pending_def)
qed simp


section \<open>One cookie, one ceremony\<close>

text \<open>
  The library enforces the ceremony's expiry: it reads the clock after the handler did, and accepts nothing past
  the instant the session carries.
\<close>

definition enforces :: "webauthn \<Rightarrow> bool" where
  "enforces lib \<longleftrightarrow> (\<forall>t u s r e. sd_Expires s = Some e \<longrightarrow>
     wa_FinishRegistration lib t u s r \<noteq> None \<or> wa_FinishDiscoverableLogin lib t u s r \<noteq> None \<longrightarrow> t < e)"

text \<open>The four handlers that finish a ceremony, presented with a cookie that opens to \<open>s\<close>.\<close>

inductive finishes :: "SessionData \<Rightarrow> int \<Rightarrow> ('z pkworld_scheme, unit) action \<Rightarrow> bool" where
  login: "enforces (ps_lib ps) \<Longrightarrow> openSession ps ck = Inr s \<Longrightarrow> finishes s t (bindE (FinishLogin ps dr t ck r ip ua) (\<lambda>_. ret ()))"
| register: "enforces (ps_lib ps) \<Longrightarrow> openSession ps ck = Inr s \<Longrightarrow> finishes s t (bindE (FinishRegister ps t u ck n r) (\<lambda>_. ret ()))"
| redeem: "gs_passkeys (gs :: ('z pkworld_scheme) grants) = Some ps \<Longrightarrow> enforces (ps_lib ps) \<Longrightarrow> openSession ps ck = Inr s \<Longrightarrow>
    finishes s t (bindE (RedeemFinish gs t token ck r n) (\<lambda>_. ret ()))"
| claim: "bv_passkeys bv = Some ps \<Longrightarrow> enforces (ps_lib ps) \<Longrightarrow> openClaim bv ck = Inr cs \<Longrightarrow> s = cl_Session cs \<Longrightarrow>
    finishes s t (bindE (FinishClaim bv i t ck r n) (\<lambda>_. ret ()))"

definition used_is :: "(string \<Rightarrow> int option) \<Rightarrow> 'z pkworld_scheme \<Rightarrow> bool" where
  "used_is U w \<longleftrightarrow> w_used w = U"

lemma used_stmt [preserves_intros]:
  "preserves (used_is U) (stmt q)" "preserves (used_is U) (query f)" "preserves (used_is U) (queryRow g)" "preserves (used_is U) (exec h)"
  by (auto simp: preserves_def used_is_def stmt_def query_def queryRow_def exec_def split: fault.splits)

lemma used_store [preserves_intros]:
  "preserves (used_is U) (auditWriter_Log now e)" "preserves (used_is U) (UserRepo_GetByID u)" "preserves (used_is U) adminExists"
  "preserves (used_is U) (validGrant gs now token)" "preserves (used_is U) (persistCredential ps now u hd' c n)"
  "preserves (used_is U) (resolveSigner lib hd')" "preserves (used_is U) (accept_login ps dr t usr c ip ua)"
  "preserves (used_is U) (RedeemFinish_commit gs' ps now token n p)" "preserves (used_is U) (FinishClaim_commit ps i now n q)"
  unfolding accept_login_def RedeemFinish_commit_def FinishClaim_commit_def redeem_write_def claim_write_def validGrant_def lookupGrant_def
    persistCredential_def resolveSigner_def
    auditWriter_Log_def AuditLog_Append_def UserRepo_GetByID_def adminExists_def UserRepo_List_def AccountRecoveryRepo_Get_def
    AccountRecoveryRepo_Consume_def BootstrapRepo_Consume_def UserRepo_SetWebAuthnHandle_def WebAuthnCredentialRepo_Create_def
    WebAuthnCredentialRepo_DeleteAllByUser_def WebAuthnCredentialRepo_Update_def WebAuthnCredentialRepo_ListByUser_def
    UserRepo_GetByWebAuthnHandle_def UserRepo_Create_def SessionManager_Create_def SessionRepo_Create_def require_rows_def Let_def
  by (intro preserves_intros)+

lemma used_discoverable [preserves_intros]: "preserves (used_is U) (finish_discoverable lib t s r)"
  unfolding finish_discoverable_def by (cases "wa_login_step lib t s r") (auto intro!: preserves_intros)

lemma used_kept: "preserves (used_is (w_used w)) m \<Longrightarrow> m w = (x, w') \<Longrightarrow> w_used w' = w_used w"
  by (fastforce simp: preserves_def used_is_def)

lemma claim_session_cong:
  assumes "w_used v = w_used w"
  shows "fst (claim_session t s v) = fst (claim_session t s w)" "w_used (snd (claim_session t s v)) = w_used (snd (claim_session t s w))"
  using assms by (auto simp: claim_session_def claimChallenge_def bindE_def Let_def split: option.splits)

text \<open>Store work, the claim, then work that accepts only an unexpired session.\<close>

lemma claim_pattern:
  assumes A: "\<And>U. preserves (used_is U) A" and B: "\<And>U a. preserves (used_is U) (B a)"
    and ok: "\<And>a v y v'. B a v = (Inr y, v') \<Longrightarrow> good"
    and run: "bindE A (\<lambda>a. bindE (claim_session t s) (\<lambda>_. B a)) w = (x, w')"
  shows "w_used w' = w_used w \<or> w_used w' = w_used (snd (claim_session t s w))"
    "x = Inr y \<Longrightarrow> fst (claim_session t s w) = Inr () \<and> w_used w' = w_used (snd (claim_session t s w)) \<and> good"
proof -
  obtain a w1 where a: "A w = (a, w1)" by (cases "A w")
  have u1: "w_used w1 = w_used w" by (rule used_kept [OF A a])
  note cong = claim_session_cong [OF u1, of t s]
  obtain c w2 where c: "claim_session t s w1 = (c, w2)" by (cases "claim_session t s w1")
  have *: "(w_used w' = w_used w \<or> w_used w' = w_used (snd (claim_session t s w))) \<and>
    (x = Inr y \<longrightarrow> fst (claim_session t s w) = Inr () \<and> w_used w' = w_used (snd (claim_session t s w)) \<and> good)"
  proof (cases "isl a \<or> isl c")
    case True
    then show ?thesis using run a c u1 cong by (cases a; cases c) (auto simp: bindE_def)
  next
    case False
    then obtain a' where a': "a = Inr a'" "c = Inr ()" by (cases a; cases c) auto
    then have b: "B a' w2 = (x, w')" using run a c by (simp add: bindE_def)
    have "w_used w' = w_used w2" by (rule used_kept [OF B b])
    then show ?thesis using c a' cong ok [OF b [THEN trans]] b by auto
  qed
  then show "w_used w' = w_used w \<or> w_used w' = w_used (snd (claim_session t s w))"
    "x = Inr y \<Longrightarrow> fst (claim_session t s w) = Inr () \<and> w_used w' = w_used (snd (claim_session t s w)) \<and> good"
    by blast+
qed

definition claims_once :: "SessionData \<Rightarrow> int \<Rightarrow> 'z pkworld_scheme \<Rightarrow> (err + unit) \<Rightarrow> 'z pkworld_scheme \<Rightarrow> bool" where
  "claims_once s t w x w' \<longleftrightarrow>
     (w_used w' = w_used w \<or> w_used w' = w_used (snd (claim_session t s w))) \<and>
     (x = Inr () \<longrightarrow> fst (claim_session t s w) = Inr () \<and> w_used w' = w_used (snd (claim_session t s w)) \<and>
        (\<forall>e. sd_Expires s = Some e \<longrightarrow> t < e))"

lemma claims_onceI:
  fixes A :: "('z pkworld_scheme, 'a) action" and B :: "'a \<Rightarrow> ('z pkworld_scheme, 'b) action"
  assumes run: "bindE m (\<lambda>_. ret ()) w = (x, w')"
    and m: "m w = bindE A (\<lambda>a. bindE (claim_session t s) (\<lambda>_. B a)) w"
    and A: "\<And>U. preserves (used_is U) A" and B: "\<And>U a. preserves (used_is U) (B a)"
    and ok: "\<And>a v y v' e. B a v = (Inr y, v') \<Longrightarrow> sd_Expires s = Some e \<Longrightarrow> t < e"
  shows "claims_once s t w x w'"
proof -
  obtain y v where y: "m w = (y, v)" by (cases "m w")
  with run have x: "w' = v" "x = Inr () \<Longrightarrow> \<exists>z. y = Inr z" by (cases y; auto simp: bindE_def)+
  have "bindE A (\<lambda>a. bindE (claim_session t s) (\<lambda>_. B a)) w = (y, v)" using m y by simp
  note cp = claim_pattern [OF A B _ this, of "\<forall>e. sd_Expires s = Some e \<longrightarrow> t < e"]
  show ?thesis unfolding claims_once_def x(1)
  proof (intro conjI impI)
    show "w_used v = w_used w \<or> w_used v = w_used (snd (claim_session t s w))" by (rule cp(1)) (blast intro: ok)
  next
    assume "x = Inr ()"
    then obtain z where "y = Inr z" using x(2) by blast
    then have "fst (claim_session t s w) = Inr () \<and> w_used v = w_used (snd (claim_session t s w)) \<and> (\<forall>e. sd_Expires s = Some e \<longrightarrow> t < e)"
      by (intro cp(2)) (blast intro: ok)
    then show "fst (claim_session t s w) = Inr ()" "w_used v = w_used (snd (claim_session t s w))" "\<forall>e. sd_Expires s = Some e \<longrightarrow> t < e"
      by blast+
  qed
qed

lemma verify_unexpired:
  assumes "enforces lib" and "verifyRegistration lib t em h s r = Inr c" and "sd_Expires s = Some e"
  shows "t < e"
  using assms by (force simp: enforces_def verifyRegistration_def split: option.splits if_splits)

lemma discoverable_unexpired:
  assumes "enforces lib" and "finish_discoverable lib t s r v = (Inr (g, Some c), v')" and "lk_user g = Some u" and "sd_Expires s = Some e"
  shows "t < e"
  using assms by (force simp: enforces_def finish_discoverable_def no_signer_def bindE_Inr_iff split: option.splits login_step.splits)

lemma used_ret [preserves_intros]: "preserves (used_is U) (ret x)" "preserves (used_is U) (fail e)"
  by (simp_all add: preserves_def)

lemma finishes_claim:
  fixes m :: "('z pkworld_scheme, unit) action"
  assumes "finishes s t m" and "m w = (x, w')"
  shows "claims_once s t w x w'"
  using assms
proof cases
  case (login ps ck dr r ip ua)
  show ?thesis
  proof (rule claims_onceI [OF assms(2) [unfolded login(1)], of "ret ()" t s "\<lambda>_. bindE (finish_discoverable (ps_lib ps) t s r) (\<lambda>(g, c).
       case lk_storeErr g of Some e \<Rightarrow> fail e
       | None \<Rightarrow> (case (c, lk_user g) of (Some c, Some u) \<Rightarrow> accept_login ps dr t u c ip ua | _ \<Rightarrow> fail ErrPasskeyVerification))"])
    show "FinishLogin ps dr t ck r ip ua w = bindE (ret ()) (\<lambda>a. bindE (claim_session t s) (\<lambda>_. bindE (finish_discoverable (ps_lib ps) t s r) (\<lambda>(g, c).
       case lk_storeErr g of Some e \<Rightarrow> fail e
       | None \<Rightarrow> (case (c, lk_user g) of (Some c, Some u) \<Rightarrow> accept_login ps dr t u c ip ua | _ \<Rightarrow> fail ErrPasskeyVerification)))) w"
      by (simp add: FinishLogin_def login(3) bindE_def)
  qed (auto intro!: preserves_intros split: option.splits simp: bindE_Inr_iff dest: discoverable_unexpired [OF login(2)])
next
  case (register ps ck u n r)
  show ?thesis
    by (rule claims_onceI [OF assms(2) [unfolded register(1)], of "ret ()" t s "\<lambda>_. bindE (UserRepo_GetByID u) (\<lambda>u'.
       bindE (lift_res (verifyRegistration (ps_lib ps) t (u_Email u') (sd_UserID s) s r)) (\<lambda>cred.
       persistCredential ps (secs t) u (sd_UserID s) cred n))"])
       (auto intro!: preserves_intros simp: bindE_Inr_iff FinishRegister_def register(3) bindE_def
         split: sum.splits prod.splits dest: verify_unexpired [OF register(2)])
next
  case (redeem gs ps ck token r n)
  show ?thesis
    by (rule claims_onceI [OF assms(2) [unfolded redeem(1)], of "validGrant gs (secs t) token" t s "\<lambda>grant. bindE (UserRepo_GetByID (ro_UserID grant)) (\<lambda>u.
       bindE (lift_res (verifyRegistration (ps_lib ps) t (u_Email u) (sd_UserID s) s r)) (\<lambda>cred.
       RedeemFinish_commit gs ps (secs t) token n (grant, s, u, cred)))"])
       (auto intro!: preserves_intros simp: bindE_Inr_iff RedeemFinish_def RedeemFinish_check_def redeem bindE_def
         split: sum.splits prod.splits dest: verify_unexpired [OF redeem(3)])
next
  case (claim bv ps ck cs i r n)
  show ?thesis
    by (rule claims_onceI [OF assms(2) [unfolded claim(1)], of "bindE adminExists (\<lambda>ok. if ok then fail ErrBootstrapClosed else ret ())" t s
       "\<lambda>_. bindE (lift_res (verifyRegistration (ps_lib ps) t (cl_Email cs) (sd_UserID s) s r)) (\<lambda>cred.
       FinishClaim_commit ps i (secs t) n (cs, cred))"])
       (auto intro!: preserves_intros simp: bindE_Inr_iff FinishClaim_def FinishClaim_check_def claim bindE_def
         split: sum.splits prod.splits dest: verify_unexpired [OF claim(3)])
qed

text \<open>
  A run of the server: the clock does not run backwards, handlers are presented with cookies, and other activity
  leaves the set of used challenges alone. It lists the challenge and the expiry of every ceremony that succeeded.
\<close>

inductive ceremony_run :: "(string \<times> int) list \<Rightarrow> int \<Rightarrow> 'z pkworld_scheme \<Rightarrow> int \<Rightarrow> 'z pkworld_scheme \<Rightarrow> bool" where
  stop: "ceremony_run [] t w t w"
| finished: "ceremony_run Cs t0 w0 t w \<Longrightarrow> t \<le> t' \<Longrightarrow> finishes s t' m \<Longrightarrow> m w = (Inr (), w') \<Longrightarrow> sd_Expires s = Some e \<Longrightarrow>
    ceremony_run ((sd_Challenge s, e) # Cs) t0 w0 t' w'"
| refused: "ceremony_run Cs t0 w0 t w \<Longrightarrow> t \<le> t' \<Longrightarrow> finishes s t' m \<Longrightarrow> m w = (Inl er, w') \<Longrightarrow> ceremony_run Cs t0 w0 t' w'"
| other: "ceremony_run Cs t0 w0 t w \<Longrightarrow> t \<le> t' \<Longrightarrow> w_used w' = w_used w \<Longrightarrow> ceremony_run Cs t0 w0 t' w'"

definition remembered :: "(string \<times> int) list \<Rightarrow> int \<Rightarrow> 'z pkworld_scheme \<Rightarrow> bool" where
  "remembered Cs t w \<longleftrightarrow> (\<forall>(c, e) \<in> set Cs. e \<le> t \<or> w_used w c = Some e)"

lemma claim_keeps:
  assumes "w_used w c = Some e" and "t < e"
  shows "w_used (snd (claim_session t s w)) c = Some e" "c = sd_Challenge s \<Longrightarrow> fst (claim_session t s w) \<noteq> Inr ()"
  using assms by (auto simp: claim_session_def claimChallenge_def prune_used_def bindE_def Let_def split: option.splits)

lemma claim_records:
  assumes "fst (claim_session t s w) = Inr ()" and "sd_Expires s = Some e"
  shows "w_used (snd (claim_session t s w)) (sd_Challenge s) = Some e"
  using assms by (auto simp: claim_session_def claimChallenge_def bindE_def Let_def split: option.splits if_splits)

lemma remembered_step:
  assumes "remembered Cs t w" "t \<le> t'" "claims_once s t' w x w'"
  shows "remembered Cs t' w'"
  unfolding remembered_def
proof (clarify, goal_cases)
  case (1 c e)
  then have "e \<le> t' \<or> w_used w c = Some e" using assms(1,2) by (fastforce simp: remembered_def)
  then show ?case using assms(3) claim_keeps(1) [of w c e t' s] 1(2) by (cases "e \<le> t'") (auto simp: claims_once_def)
qed

lemma ceremony_run_inv: "ceremony_run Cs t0 w0 t w \<Longrightarrow> distinct Cs \<and> remembered Cs t w"
proof (induction rule: ceremony_run.induct)
  case (finished Cs t0 w0 t w t' s m w' e)
  have co: "claims_once s t' w (Inr ()) w'" by (rule finishes_claim [OF finished.hyps(3,4)])
  then have cl: "fst (claim_session t' s w) = Inr ()" "t' < e" "w_used w' = w_used (snd (claim_session t' s w))"
    using finished.hyps(5) by (auto simp: claims_once_def)
  have "(sd_Challenge s, e) \<notin> set Cs"
    using finished.IH cl claim_keeps(2) [of w "sd_Challenge s" e t' s] finished.hyps(2) by (fastforce simp: remembered_def)
  moreover have "remembered Cs t' w'" using remembered_step [OF _ finished.hyps(2) co] finished.IH by blast
  ultimately show ?case using finished.IH cl claim_records [OF cl(1) finished.hyps(5)] by (auto simp: remembered_def)
next
  case (refused Cs t0 w0 t w t' s m er w')
  then show ?case using remembered_step [OF _ refused.hyps(2) finishes_claim [OF refused.hyps(3,4)]] by blast
next
  case (other Cs t0 w0 t w t' w')
  then show ?case by (fastforce simp: remembered_def)
qed (simp add: remembered_def)

text \<open>
  C30. A ceremony cookie completes at most one ceremony. Over any run of the server whose clock does not run
  backwards, presenting one cookie (a challenge and its expiry) any number of times, to the login, the
  registration, the redemption or the claim handler, in any mixture, with any driver failures, and whatever was
  pruned from the set of used challenges in between, succeeds at most once.
\<close>

theorem ceremony_single_use:
  assumes "ceremony_run Cs t0 w0 t w"
  shows "count_list Cs (c, e) \<le> 1"
proof -
  have "distinct Cs" using ceremony_run_inv [OF assms] by blast
  then show ?thesis by (induction Cs) (auto simp: count_list_0_iff)
qed

section \<open>Concrete runs\<close>

text \<open>A library that reads an expiry of ten from every session and enforces it.\<close>

definition timed_lib :: webauthn where
  "timed_lib = plain_lib\<lparr>
     wa_FinishRegistration := (\<lambda>t u s r. if (case sd_Expires s of None \<Rightarrow> True | Some e \<Rightarrow> t < e)
       then Some \<lparr> wr_ID = r, wr_AAGUID = None, wr_CloneWarning = False, wr_rest = '''' \<rparr> else None),
     wa_FinishDiscoverableLogin := (\<lambda>t u s r. None),
     wa_parse_session := (\<lambda>x. Some \<lparr> sd_Challenge = x, sd_UserID = x, sd_Expires = Some 10, sd_rest = '''' \<rparr>) \<rparr>"

definition timed_passkeys :: passkeys where
  "timed_passkeys = plain_passkeys\<lparr> ps_lib := timed_lib \<rparr>"

lemma timed_passkeys_lib [simp]: "ps_lib timed_passkeys = timed_lib"
  by (simp add: timed_passkeys_def)

lemma enforces_timed: "enforces (ps_lib timed_passkeys)"
  by (simp add: enforces_def timed_lib_def)

lemma openSession_timed:
  "openSession timed_passkeys (plain_cookie x) = Inr \<lparr> sd_Challenge = x, sd_UserID = x, sd_Expires = Some 10, sd_rest = '''' \<rparr>"
  by (simp add: openSession_def timed_passkeys_def plain_passkeys_def plain_crypto_def plain_cookie_def OpenWithAAD_def newGCM_def
      DecodeString_Encode timed_lib_def)

definition timed_register :: "int \<Rightarrow> pkworld \<Rightarrow> (err + unit) \<times> pkworld" where
  "timed_register t = bindE (FinishRegister timed_passkeys t ''u1'' (plain_cookie ''h1'') ''key'' ''h1'') (\<lambda>_. ret ())"

lemma timed_register_ok: "fst (timed_register 5 pk_world) = Inr ()"
  by (simp add: timed_register_def FinishRegister_def openSession_timed claim_session_def claimChallenge_def prune_used_def Let_def bindE_def
      UserRepo_GetByID_def pk_world_def find_user_def sample_defs verifyRegistration_def newWebauthnUser_def timed_lib_def plain_lib_def
      persistCredential_def UserRepo_SetWebAuthnHandle_def require_rows_def update_user_def role_ok_def lift_opt_def user_clash_def same_oidc_def same_handle_def
      WebAuthnCredentialRepo_Create_def insert_credential_def auditWriter_Log_def AuditLog_Append_def tryE_def insert_audit_def)

theorem ceremony_single_use_witness:
  "\<exists>w. ceremony_run [(''h1'', 10)] 0 pk_world 5 w \<and> count_list [(''h1'', 10 :: int)] (''h1'', 10) \<le> 1"
proof -
  let ?s = "\<lparr> sd_Challenge = ''h1'', sd_UserID = ''h1'', sd_Expires = Some 10, sd_rest = '''' \<rparr>"
  have f: "finishes ?s 5 (timed_register 5)"
    unfolding timed_register_def by (rule finishes.register [OF enforces_timed openSession_timed])
  have "timed_register 5 pk_world = (Inr (), snd (timed_register 5 pk_world))"
    using timed_register_ok by (metis prod.collapse)
  from ceremony_run.finished [OF ceremony_run.stop [of 0] _ f this]
  have r: "ceremony_run [(''h1'', 10)] 0 pk_world 5 (snd (timed_register 5 pk_world))" by simp
  with ceremony_single_use [OF r, of "''h1''" 10] show ?thesis by blast
qed

text \<open>A first start, and the claim of its token.\<close>

definition claim_db :: database where
  "claim_db = sample_db\<lparr> bootstrap := Some \<lparr> bs_token_hash = Some ''x'', bs_created_at = 1, bs_consumed_at = None \<rparr> \<rparr>"

definition claim_world :: world where
  "claim_world = \<lparr> db = claim_db, faults = [] \<rparr>"

definition claimed :: "(err + User) \<times> world" where
  "claimed = FinishClaim_commit plain_passkeys ''a1'' 7 ''key''
     (\<lparr> cl_Email = ''root@x'', cl_Session = \<lparr> sd_Challenge = ''q'', sd_UserID = ''q'', sd_Expires = None, sd_rest = '''' \<rparr> \<rparr>,
      \<lparr> wr_ID = ''k1'', wr_AAGUID = None, wr_CloneWarning = False, wr_rest = '''' \<rparr>) claim_world"

lemma claimed_ok: "\<not> isl (fst claimed)"
  by (simp add: claimed_def FinishClaim_commit_def claim_write_def new_user_def BootstrapRepo_Consume_def consume_bootstrap_def exec_def stmt_def
      UserRepo_Create_def insert_user_def persistCredential_def UserRepo_SetWebAuthnHandle_def require_rows_def update_user_def
      role_ok_def lift_opt_def user_clash_def same_oidc_def same_handle_def plain_lib_def
      WebAuthnCredentialRepo_Create_def insert_credential_def auditWriter_Log_def AuditLog_Append_def tryE_def insert_audit_def
      bindE_def Let_def claim_world_def claim_db_def sample_defs)


end
