(* ===== verification/Email_Change.thy ===== *)
theory Email_Change
  imports Ceremony_Props
begin

text \<open>
  \<open>internal/server/service/email_change.go\<close>: every path that changes an account's address. A self-service change is
  staged on the row with the hash of a confirmation token and takes effect when the token comes back in time;
  an administrator and the identity provider set it at once. \<open>ec_details\<close> is the JSON encoder of the audit details.
\<close>

section \<open>Case folding\<close>

text \<open>
  \<open>strings.EqualFold\<close> for a comparison in which one side is ASCII, as the canonical side always is: besides
  the letters only the Kelvin sign and the long s fold to an ASCII letter.
\<close>

fun foldRunes :: "string \<Rightarrow> string" where
  "foldRunes (a # b # c # s) =
     (if byte a = 0xE2 \<and> byte b = 0x84 \<and> byte c = 0xAA then CHR ''k'' # foldRunes s
      else if byte a = 0xC5 \<and> byte b = 0xBF then CHR ''s'' # foldRunes (c # s)
      else a # foldRunes (b # c # s))"
| "foldRunes [a, b] = (if byte a = 0xC5 \<and> byte b = 0xBF then [CHR ''s''] else [a, b])"
| "foldRunes s = s"

definition lowerASCII :: "char \<Rightarrow> char" where
  "lowerASCII c = (if CHR ''A'' \<le> c \<and> c \<le> CHR ''Z'' then char_of (byte c + 32) else c)"

definition fold_key :: "string \<Rightarrow> string" where
  "fold_key s = map lowerASCII (foldRunes s)"

definition EqualFold :: "string \<Rightarrow> string \<Rightarrow> bool" where
  "EqualFold s t \<longleftrightarrow> fold_key s = fold_key t"

section \<open>The service\<close>

abbreviation "ErrInvalidEmail \<equiv> ErrSentinel ''service: invalid email address''"
abbreviation "ErrEmailUnchanged \<equiv> ErrSentinel (''service: that is already the account'' @ CHR 0x27 # ''s email address'')"
abbreviation "ErrEmailManagedByOIDC \<equiv> ErrSentinel ''service: email address is managed by the identity provider''"
abbreviation "ErrEmailChangeInvalid \<equiv> ErrSentinel ''service: email change confirmation invalid, expired, or already used''"
abbreviation "ErrConfirmationNotSent \<equiv> ErrSentinel ''service: confirmation email could not be sent''"

definition emailChangeTTL :: int where
  "emailChangeTTL = 60 * timeMinute"

record 'w email_changes =
  em_mailer :: "'w mailer option"
  em_baseURL :: string
  em_crypto :: crypto
  em_parse :: parse_address
  em_details :: "string \<Rightarrow> string \<Rightarrow> string"

fun addressHeld :: "parse_address \<Rightarrow> User list \<Rightarrow> string \<Rightarrow> string \<Rightarrow> int \<Rightarrow> bool" where
  "addressHeld pa [] canonical exceptID now \<longleftrightarrow> False"
| "addressHeld pa (u # us) canonical exceptID now \<longleftrightarrow>
     (if u_ID u = exceptID then addressHeld pa us canonical exceptID now
      else if (case NormalizeAddress pa (u_Email u) of Inl _ \<Rightarrow> False | Inr stored \<Rightarrow> EqualFold stored canonical) then True
      else if u_PendingEmail u \<noteq> '''' \<and> now < u_PendingEmailExpiresAt u \<and> EqualFold (u_PendingEmail u) canonical then True
      else addressHeld pa us canonical exceptID now)"

definition change_audit :: "'w email_changes \<Rightarrow> string \<Rightarrow> string \<Rightarrow> string \<Rightarrow> string \<Rightarrow> string \<Rightarrow> AuditEntry" where
  "change_audit em actor event userID oldEmail newEmail =
     (audit_entry actor event ''user'' userID '''')\<lparr>ae_DetailsJSON := em_details em oldEmail newEmail\<rparr>"

definition validateRequest :: "'w email_changes \<Rightarrow> User \<Rightarrow> string \<Rightarrow> int \<Rightarrow> ('z world_scheme, string) action" where
  "validateRequest em u newEmail now =
     (if u_OIDCSubject u \<noteq> '''' then fail ErrEmailManagedByOIDC
      else
        case NormalizeAddress (em_parse em) newEmail of
          Inl _ \<Rightarrow> fail ErrInvalidEmail
        | Inr normalized \<Rightarrow>
            if EqualFold normalized (u_Email u) then fail ErrEmailUnchanged
            else bindE UserRepo_List (\<lambda>us.
              if addressHeld (em_parse em) us normalized (u_ID u) now then fail ErrConflict else ret normalized))"

definition Request ::
  "('z world_scheme) email_changes \<Rightarrow> string option \<Rightarrow> int \<Rightarrow> User \<Rightarrow> string \<Rightarrow> ('z world_scheme, string \<times> Delivery \<times> int) action" where
  "Request em rnd now u newEmail =
     bindE (validateRequest em u newEmail now) (\<lambda>normalized.
       if EqualFold (u_PendingEmail u) normalized \<and> now < u_PendingEmailExpiresAt u then ret ('''', no_delivery, 0)
       else
         bindE (lift_res (RandToken rnd)) (\<lambda>token.
         let expiresAt = now + wholeSeconds emailChangeTTL in
         bindE (UserRepo_SetPendingEmail (u_ID u) normalized (HashToken (em_crypto em) token) expiresAt) (\<lambda>_.
         bindE (auditWriter_Log now (change_audit em (u_ID u) ''user.email_change_requested'' (u_ID u) (u_Email u) normalized)) (\<lambda>_.
         let link = em_baseURL em @ ''/account/email/confirm?token='' @ token in
         bindE (sendAdvisory (em_mailer em) now (u_ID u) (u_ID u) normalized (ChangeConfirmBody link)) (\<lambda>d.
         if dy_Err d \<noteq> None
         then bindE (tryE (UserRepo_ClearPendingEmail (u_ID u))) (\<lambda>_. fail ErrConfirmationNotSent)
         else
           bindE (sendAdvisory (em_mailer em) now (u_ID u) (u_ID u) (u_Email u) (ChangeNoticeBody normalized)) (\<lambda>_.
           ret (if dy_Attempted d then '''' else link, d, expiresAt)))))))"

definition Cancel :: "'w email_changes \<Rightarrow> int \<Rightarrow> User \<Rightarrow> ('z world_scheme, unit) action" where
  "Cancel em now u =
     (if u_PendingEmail u = '''' then ret ()
      else
        bindE (UserRepo_ClearPendingEmail (u_ID u)) (\<lambda>_.
        auditWriter_Log now (change_audit em (u_ID u) ''user.email_change_cancelled'' (u_ID u) (u_Email u) (u_PendingEmail u))))"

definition changedRow :: "User \<Rightarrow> string \<Rightarrow> int \<Rightarrow> User" where
  "changedRow u newEmail now =
     u\<lparr>u_Email := newEmail, u_PendingEmail := '''', u_PendingEmailExpiresAt := 0, u_UpdatedAt := now\<rparr>"

definition applyChanged :: "'w email_changes \<Rightarrow> int \<Rightarrow> string \<Rightarrow> User \<Rightarrow> string \<Rightarrow> string \<Rightarrow> ('z world_scheme, unit) action" where
  "applyChanged em now actorID u oldEmail event =
     bindE (tryE (AccountRecoveryRepo_DeleteUnusedByUser (u_ID u))) (\<lambda>_.
     auditWriter_Log now (change_audit em actorID event (u_ID u) oldEmail (u_Email u)))"

definition Confirm :: "('z world_scheme) email_changes \<Rightarrow> int \<Rightarrow> User \<Rightarrow> string \<Rightarrow> ('z world_scheme, unit) action" where
  "Confirm em now u token =
     (if u_OIDCSubject u \<noteq> '''' then fail ErrEmailManagedByOIDC
      else
        bindE (tryE (UserRepo_ConfirmPendingEmail (u_ID u) (HashToken (em_crypto em) token) now)) (\<lambda>r.
          case r of
            Inl e \<Rightarrow> fail (if e = ErrNotFound then ErrEmailChangeInvalid else e)
          | Inr _ \<Rightarrow>
              let updated = changedRow u (u_PendingEmail u) now in
              bindE (applyChanged em now (u_ID u) updated (u_Email u) ''user.email_changed'') (\<lambda>_.
              bindE (sendAdvisory (em_mailer em) now (u_ID u) (u_ID u) (u_Email u) (ChangedBody (u_Email updated))) (\<lambda>_.
              ret ()))))"

definition AdminSet ::
  "('z world_scheme) email_changes \<Rightarrow> int \<Rightarrow> string \<Rightarrow> User \<Rightarrow> string \<Rightarrow> ('z world_scheme, User \<times> Delivery) action" where
  "AdminSet em now actorID target newEmail =
     (case NormalizeAddress (em_parse em) newEmail of
        Inl _ \<Rightarrow> fail ErrInvalidEmail
      | Inr normalized \<Rightarrow>
          if EqualFold normalized (u_Email target) then fail ErrEmailUnchanged
          else bindE UserRepo_List (\<lambda>us.
            if addressHeld (em_parse em) us normalized (u_ID target) now then fail ErrConflict
            else
              bindE (UserRepo_SetEmail (u_ID target) normalized now) (\<lambda>_.
              let updated = changedRow target normalized now in
              bindE (applyChanged em now actorID updated (u_Email target) ''user.email_changed_by_admin'') (\<lambda>_.
              bindE (sendAdvisory (em_mailer em) now actorID (u_ID target) (u_Email target) (AdminChangedBody normalized)) (\<lambda>d.
              ret (updated, d))))))"

text \<open>
  The sync from the identity provider cannot fail. Its notice is sent by a goroutine of its own: the
  result names the address and the message, and \<open>SyncFromIDP_notice\<close> is what the goroutine does.
\<close>

definition SyncFromIDP ::
  "'w email_changes \<Rightarrow> int \<Rightarrow> User \<Rightarrow> string \<Rightarrow> ('z world_scheme, User \<times> (string \<times> string \<times> string) option) action" where
  "SyncFromIDP em now u claim =
     (if claim = '''' then ret (u, None)
      else case NormalizeAddress (em_parse em) claim of
        Inl _ \<Rightarrow> ret (u, None)
      | Inr normalized \<Rightarrow>
          if EqualFold normalized (u_Email u) then ret (u, None)
          else bindE (tryE UserRepo_List) (\<lambda>r.
            case r of
              Inl _ \<Rightarrow> ret (u, None)
            | Inr us \<Rightarrow>
                if addressHeld (em_parse em) us normalized (u_ID u) now then ret (u, None)
                else bindE (tryE (UserRepo_SetEmail (u_ID u) normalized now)) (\<lambda>r2.
                  case r2 of
                    Inl _ \<Rightarrow> ret (u, None)
                  | Inr _ \<Rightarrow>
                      let updated = changedRow u normalized now in
                      bindE (applyChanged em now (u_ID u) updated (u_Email u) ''user.email_changed_by_oidc'') (\<lambda>_.
                      ret (updated, Some (u_Email u, ChangedBody normalized))))))"

definition SyncFromIDP_notice ::
  "('z world_scheme) email_changes \<Rightarrow> int \<Rightarrow> string \<Rightarrow> string \<times> string \<times> string \<Rightarrow> ('z world_scheme, unit) action" where
  "SyncFromIDP_notice em now userID n =
     bindE (sendAdvisory (em_mailer em) now userID userID (fst n) (snd n)) (\<lambda>_. ret ())"

end
