(* ===== verification/Oidc_Login.thy ===== *)
theory Oidc_Login
  imports Email_Change
begin

text \<open>
  \<open>internal/server/service/oidc.go\<close>: which local account an authenticated OIDC identity is. The claims come from the
  OIDC client; \<open>Login\<close> results carry the notice \<open>SyncFromIDP\<close> leaves to its goroutine.
\<close>

abbreviation "ErrOIDCRejected \<equiv> ErrSentinel ''service: oidc login rejected''"

record 'w oidc_service =
  oi_emails :: "'w email_changes"
  oi_sessions :: session_manager
  oi_AutoLinkByEmail :: bool
  oi_AllowOIDCSignup :: bool

type_synonym notice_mail = "string \<times> string \<times> string"

definition oidc_reject :: "('w, 'a) action" where
  "oidc_reject = fail ErrOIDCRejected"

definition linkExisting ::
  "'w oidc_service \<Rightarrow> int \<Rightarrow> User \<Rightarrow> string \<Rightarrow> string \<Rightarrow> string \<Rightarrow> bool \<Rightarrow> ('z world_scheme, User) action" where
  "linkExisting oi now existing issuer subject canonical emailVerified =
     (if \<not> emailVerified \<or> \<not> oi_AutoLinkByEmail oi then oidc_reject
      else if u_Role existing = ''admin'' \<or> u_OIDCSubject existing \<noteq> '''' then oidc_reject
      else
        bindE (tryE (UserRepo_LinkOIDC now existing canonical issuer subject)) (\<lambda>r.
          case r of
            Inl e \<Rightarrow> if e = ErrConflict then oidc_reject else fail e
          | Inr _ \<Rightarrow>
              bindE (auditWriter_Log now (audit_entry (u_ID existing) ''user.oidc.linked'' ''user'' (u_ID existing) '''')) (\<lambda>_.
              ret (existing\<lparr>u_Email := canonical, u_OIDCProvider := issuer, u_OIDCSubject := subject\<rparr>))))"

definition signup ::
  "'w oidc_service \<Rightarrow> string \<Rightarrow> int \<Rightarrow> string \<Rightarrow> string \<Rightarrow> string \<Rightarrow> ('z world_scheme, User) action" where
  "signup oi newID now issuer subject email =
     (if \<not> oi_AllowOIDCSignup oi then oidc_reject
      else
        bindE (tryE (UserRepo_Create newID now
          ((new_user email ''user'')\<lparr>u_OIDCProvider := issuer, u_OIDCSubject := subject\<rparr>))) (\<lambda>r.
          case r of
            Inl e \<Rightarrow> if e = ErrConflict then oidc_reject else fail e
          | Inr created \<Rightarrow>
              bindE (auditWriter_Log now (audit_entry (u_ID created) ''user.created'' ''user'' (u_ID created) '''')) (\<lambda>_.
              ret created)))"

definition findByEmail :: "parse_address \<Rightarrow> string \<Rightarrow> ('z world_scheme, User) action" where
  "findByEmail pa canonical =
     bindE (tryE (UserRepo_GetByEmail canonical)) (\<lambda>r.
       case r of
         Inr u \<Rightarrow> ret u
       | Inl e \<Rightarrow>
           if e \<noteq> ErrNotFound then fail e
           else bindE UserRepo_List (\<lambda>us.
             case find (\<lambda>u. NormalizeAddress pa (u_Email u) = Inr canonical) us of
               Some legacy \<Rightarrow> ret legacy
             | None \<Rightarrow> fail ErrNotFound))"

definition normalizeClaim :: "parse_address \<Rightarrow> string \<Rightarrow> ('w, string) action" where
  "normalizeClaim pa email =
     (if email = '''' then oidc_reject
      else case NormalizeAddress pa email of Inl _ \<Rightarrow> oidc_reject | Inr normalized \<Rightarrow> ret normalized)"

definition LoginOrLink ::
  "'w oidc_service \<Rightarrow> string \<Rightarrow> int \<Rightarrow> string \<Rightarrow> string \<Rightarrow> string \<Rightarrow> bool \<Rightarrow> ('z world_scheme, User \<times> notice_mail option) action" where
  "LoginOrLink oi newID now issuer subject email emailVerified =
     bindE (tryE (UserRepo_GetByOIDC issuer subject)) (\<lambda>r.
       case r of
         Inr u \<Rightarrow> if u_Disabled u then oidc_reject else SyncFromIDP (oi_emails oi) now u email
       | Inl e \<Rightarrow>
           if e \<noteq> ErrNotFound then fail e
           else
             bindE (normalizeClaim (em_parse (oi_emails oi)) email) (\<lambda>canonical.
             bindE (tryE (findByEmail (em_parse (oi_emails oi)) canonical)) (\<lambda>r2.
               case r2 of
                 Inr existing \<Rightarrow>
                   bindE (linkExisting oi now existing issuer subject canonical emailVerified) (\<lambda>u. ret (u, None))
               | Inl e2 \<Rightarrow>
                   if e2 = ErrNotFound then bindE (signup oi newID now issuer subject canonical) (\<lambda>u. ret (u, None))
                   else fail e2)))"

definition BrowserLogin ::
  "'w oidc_service \<Rightarrow> login_draws \<Rightarrow> string \<Rightarrow> int \<Rightarrow> string \<Rightarrow> string \<Rightarrow> string \<Rightarrow> bool \<Rightarrow> string \<Rightarrow> string \<Rightarrow>
   ('z world_scheme, Session \<times> notice_mail option) action" where
  "BrowserLogin oi dr newID now issuer subject email emailVerified ip ua =
     bindE (LoginOrLink oi newID now issuer subject email emailVerified) (\<lambda>(u, n).
     bindE (SessionManager_Create (oi_sessions oi) (ld_id dr) (ld_csrf dr) (ld_newID dr) now (u_ID u) ip ua) (\<lambda>sess.
     bindE (auditWriter_Log now (audit_entry (u_ID u) ''user.login.oidc'' '''' '''' ip)) (\<lambda>_.
     ret (sess, n))))"

end
