(* ===== verification/Admin.thy ===== *)
theory Admin
  imports Oidc_Login Feed_Documents
begin

text \<open>
  \<open>internal/server/service/admin.go\<close>: administration of accounts, with its guards against locking everyone
  out, and the administrator's view of devices. \<open>DeviceAdded\<close> and \<open>DeviceRemoved\<close> are the methods of the notifier,
  \<open>ad_details\<close> the JSON encoder of one key and its value. \<open>UpdateUser\<close> and \<open>DeleteUser\<close> are split after their guards.
\<close>

abbreviation "ErrLastAdmin \<equiv> ErrSentinel ''service: cannot remove the last admin''"
abbreviation "ErrSelfLockout \<equiv> ErrSentinel ''service: cannot disable or delete your own account''"
abbreviation "ErrInvalidRole \<equiv> ErrSentinel ''service: invalid role''"
abbreviation "ErrOwnerMissing \<equiv> ErrSentinel ''service: device owner row is missing''"

record UpdateUserParams =
  up_Role :: "string option"
  up_Disabled :: "bool option"

record 'w admin_service =
  ad_grants :: "'w grants option"
  ad_mailer :: "'w mailer option"
  ad_parse :: parse_address
  ad_details :: "string \<Rightarrow> string \<Rightarrow> string"
  ad_DeviceAdded :: "'w device_hook"
  ad_DeviceRemoved :: "'w device_hook"

definition validRole :: "string \<Rightarrow> bool" where
  "validRole r \<longleftrightarrow> r = ''admin'' \<or> r = ''user''"

section \<open>Guards\<close>

definition enabledAdminCount :: "string \<Rightarrow> ('z world_scheme, nat \<times> bool) action" where
  "enabledAdminCount targetID =
     bindE UserRepo_List (\<lambda>us.
       let admins = filter IsEnabledAdmin us in
       ret (length admins, list_ex (\<lambda>u. u_ID u = targetID) admins))"

definition guardLastAdmin :: "string \<Rightarrow> ('z world_scheme, unit) action" where
  "guardLastAdmin targetID =
     bindE (enabledAdminCount targetID) (\<lambda>(count, targetIsEnabledAdmin).
       if targetIsEnabledAdmin \<and> count \<le> 1 then fail ErrLastAdmin else ret ())"

definition guardUpdateUser :: "string \<Rightarrow> string \<Rightarrow> UpdateUserParams \<Rightarrow> ('z world_scheme, unit) action" where
  "guardUpdateUser actorID targetID p =
     bindE (case up_Role p of
              None \<Rightarrow> ret ()
            | Some role \<Rightarrow>
                if \<not> validRole role then fail ErrInvalidRole
                else if role \<noteq> ''admin'' then (if targetID = actorID then fail ErrSelfLockout else guardLastAdmin targetID)
                else ret ()) (\<lambda>_.
       if up_Disabled p = Some True
       then (if targetID = actorID then fail ErrSelfLockout else guardLastAdmin targetID)
       else ret ())"

section \<open>Users\<close>

definition ListUsers :: "('z world_scheme, User list) action" where
  "ListUsers = UserRepo_List"

definition CreateUserInvite ::
  "('z world_scheme) admin_service \<Rightarrow> string option \<Rightarrow> string \<Rightarrow> int \<Rightarrow> string \<Rightarrow> string \<Rightarrow> string \<Rightarrow>
   ('z world_scheme, User \<times> string \<times> Delivery) action" where
  "CreateUserInvite ad rnd newID now actorID email0 role =
     (if \<not> validRole role then fail ErrInvalidRole
      else case NormalizeAddress (ad_parse ad) email0 of
        Inl _ \<Rightarrow> fail ErrInvalidEmail
      | Inr email \<Rightarrow>
          (case ad_grants ad of
             None \<Rightarrow> fail ErrWebAuthnUnavailable
           | Some gs \<Rightarrow>
               if gs_passkeys gs = None then fail ErrWebAuthnUnavailable
               else
                 bindE UserRepo_List (\<lambda>us.
                 if addressHeld (ad_parse ad) us email '''' now then fail ErrConflict
                 else
                   bindE (UserRepo_Create newID now (new_user email role)) (\<lambda>u.
                   bindE (auditWriter_Log now (audit_entry actorID ''user.created'' ''user'' (u_ID u) '''')) (\<lambda>_.
                   bindE (IssueInvite gs rnd now actorID u) (\<lambda>(link, d).
                   ret (u, link, d)))))))"

definition applyRole :: "int \<Rightarrow> string \<Rightarrow> string \<Rightarrow> UpdateUserParams \<Rightarrow> ('z world_scheme, unit) action" where
  "applyRole now actorID targetID p =
     (case up_Role p of
        None \<Rightarrow> ret ()
      | Some role \<Rightarrow>
          bindE (UserRepo_SetRole now targetID role) (\<lambda>_.
          auditWriter_Log now (audit_entry actorID ''user.role_change'' ''user'' targetID '''')))"

text \<open>The loop over the account's devices, with the membership before and after.\<close>

fun emit_each :: "'w admin_service \<Rightarrow> int \<Rightarrow> (Device \<Rightarrow> bool) \<Rightarrow> (Device \<Rightarrow> bool) \<Rightarrow> Device list \<Rightarrow> ('w, unit) action" where
  "emit_each ad now was becomes [] = ret ()"
| "emit_each ad now was becomes (d # ds) =
     bindE (emitMembership (ad_DeviceAdded ad) (ad_DeviceRemoved ad) now d (was d) (becomes d)) (\<lambda>_.
     emit_each ad now was becomes ds)"

definition revoke_sessions :: "int \<Rightarrow> string \<Rightarrow> string \<Rightarrow> ('z world_scheme, unit) action" where
  "revoke_sessions now actorID targetID =
     bindE (SessionRepo_DeleteByUser targetID) (\<lambda>n.
       if 0 < n then auditWriter_Log now (audit_entry actorID ''session.revoked'' ''user'' targetID '''') else ret ())"

definition applyDisabled ::
  "('z world_scheme) admin_service \<Rightarrow> int \<Rightarrow> string \<Rightarrow> string \<Rightarrow> User \<Rightarrow> UpdateUserParams \<Rightarrow> ('z world_scheme, unit) action" where
  "applyDisabled ad now actorID targetID u p =
     (case up_Disabled p of
        None \<Rightarrow> ret ()
      | Some disabled \<Rightarrow>
          bindE (DeviceRepo_ListByUser targetID) (\<lambda>ds.
          bindE (UserRepo_SetDisabled now targetID disabled) (\<lambda>_.
          bindE (if disabled then revoke_sessions now actorID targetID else ret ()) (\<lambda>_.
          bindE (auditWriter_Log now
            (audit_entry actorID (if disabled then ''user.disabled'' else ''user.enabled'') ''user'' targetID '''')) (\<lambda>_.
          emit_each ad now (\<lambda>d. inFeed d u) (\<lambda>d. inFeed d (u\<lparr>u_Disabled := disabled\<rparr>)) ds)))))"

definition UpdateUser_check :: "string \<Rightarrow> string \<Rightarrow> UpdateUserParams \<Rightarrow> ('z world_scheme, User) action" where
  "UpdateUser_check actorID targetID p =
     bindE (UserRepo_GetByID targetID) (\<lambda>u.
     bindE (guardUpdateUser actorID targetID p) (\<lambda>_. ret u))"

definition UpdateUser_apply ::
  "('z world_scheme) admin_service \<Rightarrow> int \<Rightarrow> string \<Rightarrow> string \<Rightarrow> UpdateUserParams \<Rightarrow> User \<Rightarrow> ('z world_scheme, User) action" where
  "UpdateUser_apply ad now actorID targetID p u =
     bindE (applyRole now actorID targetID p) (\<lambda>_.
     bindE (applyDisabled ad now actorID targetID u p) (\<lambda>_.
     UserRepo_GetByID targetID))"

definition UpdateUser ::
  "('z world_scheme) admin_service \<Rightarrow> int \<Rightarrow> string \<Rightarrow> string \<Rightarrow> UpdateUserParams \<Rightarrow> ('z world_scheme, User) action" where
  "UpdateUser ad now actorID targetID p =
     bindE (UpdateUser_check actorID targetID p) (UpdateUser_apply ad now actorID targetID p)"

definition DeleteUser_check :: "string \<Rightarrow> string \<Rightarrow> ('z world_scheme, User \<times> Device list) action" where
  "DeleteUser_check actorID targetID =
     (if targetID = actorID then fail ErrSelfLockout
      else
        bindE (guardLastAdmin targetID) (\<lambda>_.
        bindE (UserRepo_GetByID targetID) (\<lambda>u.
        bindE (DeviceRepo_ListByUser targetID) (\<lambda>ds. ret (u, ds)))))"

definition DeleteUser_apply ::
  "('z world_scheme) admin_service \<Rightarrow> int \<Rightarrow> string \<Rightarrow> string \<Rightarrow> User \<times> Device list \<Rightarrow> ('z world_scheme, unit) action" where
  "DeleteUser_apply ad now actorID targetID p =
     (case p of (u, ds) \<Rightarrow>
        bindE (UserRepo_Delete targetID) (\<lambda>_.
        bindE (auditWriter_Log now (audit_entry actorID ''user.deleted'' ''user'' targetID '''')) (\<lambda>_.
        emit_each ad now (\<lambda>d. inFeed d u) (\<lambda>_. False) ds)))"

definition DeleteUser :: "('z world_scheme) admin_service \<Rightarrow> int \<Rightarrow> string \<Rightarrow> string \<Rightarrow> ('z world_scheme, unit) action" where
  "DeleteUser ad now actorID targetID =
     bindE (DeleteUser_check actorID targetID) (DeleteUser_apply ad now actorID targetID)"

section \<open>Devices and the audit log\<close>

definition ListAllDevices :: "('z world_scheme, Device list) action" where
  "ListAllDevices = DeviceRepo_ListAll"

definition ListAllDeviceIPs :: "netip_text \<Rightarrow> ('z world_scheme, Addr list) action" where
  "ListAllDeviceIPs tx = bindE ListFeed (\<lambda>ds. ret (DedupeAddrs (concat (map (device_addrs tx) ds))))"

definition ListAllDevicesWithExpiry :: "('z world_scheme, Device list \<times> (string \<Rightarrow> LatestAddress option)) action" where
  "ListAllDevicesWithExpiry =
     bindE DeviceRepo_ListAll (\<lambda>ds.
     bindE (DeviceService_latestAddresses ds) (\<lambda>latest. ret (ds, latest)))"

definition AdminService_GetDevice :: "string \<Rightarrow> ('z world_scheme, Device \<times> User) action" where
  "AdminService_GetDevice i =
     bindE (DeviceRepo_GetByID i) (\<lambda>dev.
     bindE (tryE (UserRepo_GetByID (d_UserID dev))) (\<lambda>r.
       case r of
         Inl e \<Rightarrow> fail (if e = ErrNotFound then ErrOwnerMissing else e)
       | Inr owner \<Rightarrow> ret (dev, owner)))"

definition notifyOwner ::
  "('z world_scheme) admin_service \<Rightarrow> int \<Rightarrow> Session \<Rightarrow> User \<Rightarrow> Device \<Rightarrow> bool \<Rightarrow> ('z world_scheme, unit) action" where
  "notifyOwner ad now actor owner dev disabled =
     (case usable (ad_mailer ad) of
        None \<Rightarrow> ret ()
      | Some ml \<Rightarrow>
          bindE (tryE (sendBounded ml (u_Email owner) (DeviceStateChangedByAdminBody (d_Label dev) (d_ID dev) disabled))) (\<lambda>r.
            case r of
              Inr _ \<Rightarrow> ret ()
            | Inl _ \<Rightarrow>
                recordSendFailure now
                  ((audit_entry (se_UserID actor) EventEmailSendFailed ''user'' (u_ID owner) (se_IP actor))
                     \<lparr>ae_DetailsJSON := ad_details ad ''device_id'' (d_ID dev)\<rparr>)))"

definition SetDeviceEnabled ::
  "('z world_scheme) admin_service \<Rightarrow> int \<Rightarrow> Session \<Rightarrow> string \<Rightarrow> bool \<Rightarrow> ('z world_scheme, Device) action" where
  "SetDeviceEnabled ad now actor i disabled =
     bindE (AdminService_GetDevice i) (\<lambda>(dev, owner).
       if d_Disabled dev = disabled then ret dev
       else
         bindE (flipDisabled (ad_DeviceAdded ad) (ad_DeviceRemoved ad) now dev owner disabled
           ((audit_entry (se_UserID actor) (if disabled then ''device.disabled_by_admin'' else ''device.enabled_by_admin'') ''device'' i (se_IP actor))
              \<lparr>ae_DetailsJSON := ad_details ad ''owner_user_id'' (u_ID owner)\<rparr>)) (\<lambda>updated.
         bindE (notifyOwner ad now actor owner dev disabled) (\<lambda>_.
         ret updated)))"

end
