(* ===== verification/Users_Frame.thy ===== *)
theory Users_Frame
  imports Admin
begin

text \<open>
  The interface of the user table: a property of what happens to the accounts, whatever else an operation writes.
  \<open>Q\<close> relates the rows before and after; the lemmas of the locale carry it through every operation of the
  account services, so that a theorem about accounts only looks at the statements on this one table.
\<close>

definition on_users :: "(user_row list \<Rightarrow> user_row list \<Rightarrow> bool) \<Rightarrow> database \<Rightarrow> database \<Rightarrow> bool" where
  "on_users Q d d' \<longleftrightarrow> Q (users d) (users d')"

definition quiet_hooks :: "('z world_scheme) admin_service \<Rightarrow> bool" where
  "quiet_hooks ad \<longleftrightarrow> (\<forall>now d w. users (db (snd (ad_DeviceAdded ad now d w))) = users (db w) \<and>
     users (db (snd (ad_DeviceRemoved ad now d w))) = users (db w))"

locale users_order =
  fixes Q :: "user_row list \<Rightarrow> user_row list \<Rightarrow> bool"
  assumes same: "Q us us"
    and chain: "Q us vs \<Longrightarrow> Q vs ws \<Longrightarrow> Q us ws"
begin

lemma users_db_order: "db_order (on_users Q)"
  by unfold_locales (auto simp: on_users_def same intro: chain)

end

sublocale users_order \<subseteq> ord: db_order "on_users Q"
  by (rule users_db_order)

context users_order
begin

lemma frame: "(\<And>w. users (db (snd (m w))) = users (db w)) \<Longrightarrow> follows (on_users Q) m"
  by (simp add: follows_def on_users_def same)

lemma frame_stmt: "(\<And>d. users (snd (q d)) = users d) \<Longrightarrow> follows (on_users Q) (stmt q)"
  by (rule ord.follows_stmt) (simp add: on_users_def same)

lemma frame_exec: "(\<And>d. users (snd (f d)) = users d) \<Longrightarrow> follows (on_users Q) (exec f)"
  by (rule ord.follows_exec) (simp add: on_users_def same)

lemma frame_lift [follows_intros]: "follows (on_users Q) (lift_res r)" "follows (on_users Q) (lift_opt e x)"
  by (auto intro!: ord.follows_same simp: lift_opt_def split: option.splits)

lemma frame_audit [follows_intros]: "follows (on_users Q) (auditWriter_Log now e)"
  by (rule frame) simp

lemma frame_reads [follows_intros]:
  "follows (on_users Q) UserRepo_List" "follows (on_users Q) (UserRepo_GetByID u)" "follows (on_users Q) (UserRepo_GetByEmail e)"
  "follows (on_users Q) (UserRepo_GetByOIDC p s)" "follows (on_users Q) (DeviceRepo_ListByUser u)" "follows (on_users Q) (findByEmail pa e)"
  "follows (on_users Q) (normalizeClaim pa e)" "follows (on_users Q) oidc_reject"
  unfolding UserRepo_List_def UserRepo_GetByID_def UserRepo_GetByEmail_def UserRepo_GetByOIDC_def DeviceRepo_ListByUser_def findByEmail_def
    normalizeClaim_def oidc_reject_def
  by (intro follows_intros)+

lemma frame_tables [follows_intros]:
  "follows (on_users Q) (SessionRepo_DeleteByUser u)" "follows (on_users Q) (AccountRecoveryRepo_DeleteUnusedByUser u)"
  "follows (on_users Q) (AccountRecoveryRepo_Create t)" "follows (on_users Q) (issue gs rnd now u reason)"
  unfolding SessionRepo_DeleteByUser_def AccountRecoveryRepo_DeleteUnusedByUser_def AccountRecoveryRepo_Create_def issue_def Let_def
  by (intro follows_intros frame_exec frame_stmt; simp add: delete_sessions_def delete_recovery_def insert_recovery_def)+

lemma frame_send:
  assumes "mail_only m"
  shows "follows (on_users Q) (sendAdvisory m now a u to msg)"
proof -
  have "follows (on_users Q) (sendBounded ml to msg)" if "usable m = Some ml" for ml
    using assms that by (intro frame) (auto simp: sendBounded_def mail_only_def usable_def split: option.splits if_splits)
  then show ?thesis unfolding sendAdvisory_def recordSendFailure_def
    by (cases "usable m") (auto intro!: follows_intros)
qed

lemma frame_emit:
  assumes "quiet_hooks ad"
  shows "follows (on_users Q) (emit_each ad now was becomes ds)"
proof (induction ds)
  case (Cons d ds)
  have "follows (on_users Q) (ad_DeviceAdded ad now d)" "follows (on_users Q) (ad_DeviceRemoved ad now d)"
    using assms by (auto intro!: frame simp: quiet_hooks_def)
  with Cons show ?case unfolding emit_each.simps emitMembership_def by (intro follows_intros)
qed (simp add: ord.follows_Pair)

text \<open>The one statement that changes rows.\<close>

lemma update_step:
  assumes "\<And>us. Q us (upd_where (\<lambda>r. uc_id r = i \<and> P r) f us)"
  shows "follows (on_users Q) (stmt (update_user i P f))"
  by (rule ord.follows_stmt) (simp add: on_users_def update_user_def Let_def same assms)

lemma require_step: "follows (on_users Q) m \<Longrightarrow> follows (on_users Q) (require_rows m)"
  unfolding require_rows_def by (intro follows_intros)

end

lemma bindE_audit: "bindE (auditWriter_Log now e) k w = k () (snd (auditWriter_Log now e w))"
  using audit_returns [of now e w] by (cases "auditWriter_Log now e w") (simp add: bindE_def)

section \<open>What an action returns\<close>

named_theorems yields_intros \<open>rules for what an action returns when it succeeds\<close>

definition yields :: "('a \<Rightarrow> bool) \<Rightarrow> ('w, 'a) action \<Rightarrow> bool" where
  "yields R m \<longleftrightarrow> (\<forall>w a w'. m w = (Inr a, w') \<longrightarrow> R a)"

lemma yieldsD: "yields R m \<Longrightarrow> m w = (Inr a, w') \<Longrightarrow> R a"
  by (auto simp: yields_def)

lemma yields_combinators [yields_intros]:
  "R a \<Longrightarrow> yields R (ret a)"
  "yields R (fail e)"
  "(\<And>b. yields R (f b)) \<Longrightarrow> yields R (bindE m f)"
  "(c \<Longrightarrow> yields R m1) \<Longrightarrow> (\<not> c \<Longrightarrow> yields R m2) \<Longrightarrow> yields R (if c then m1 else m2)"
  "(\<And>x. yields R (g x)) \<Longrightarrow> (\<And>y. yields R (h y)) \<Longrightarrow> yields R (case v of Inl x \<Rightarrow> g x | Inr y \<Rightarrow> h y)"
  by (auto simp: yields_def bindE_Inr_iff split: sum.splits)

end
