(* ===== verification/Oidc_Props.thy ===== *)
theory Oidc_Props
  imports Users_Frame
begin

text \<open>
  What an OIDC login may do to the accounts: no role and no disabled flag changes, an identity is only ever attached to an
  account that is not an administrator and had none, a new account is an ordinary user, and a login that is
  accepted yields the account that carries the identity. Two things it does that the other paths do not are
  stated at the end: it links disabled accounts, and it compares addresses by case.
\<close>

section \<open>Accounts and identities\<close>

definition same_identity :: "user_row \<Rightarrow> user_row \<Rightarrow> bool" where
  "same_identity r s \<longleftrightarrow> uc_oidc_provider s = uc_oidc_provider r \<and> uc_oidc_subject s = uc_oidc_subject r"

definition same_standing :: "user_row \<Rightarrow> user_row \<Rightarrow> bool" where
  "same_standing r s \<longleftrightarrow> uc_id s = uc_id r \<and> uc_role s = uc_role r \<and> uc_disabled s = uc_disabled r"

definition identified :: "string \<Rightarrow> string \<Rightarrow> user_row \<Rightarrow> bool" where
  "identified iss sub s \<longleftrightarrow> uc_oidc_provider s = Some iss \<and> uc_oidc_subject s = Some sub"

text \<open>From \<open>r\<close> to \<open>s\<close> nothing but mail addresses changed, or the identity was attached.\<close>

definition may_link :: "string \<Rightarrow> string \<Rightarrow> user_row \<Rightarrow> user_row \<Rightarrow> bool" where
  "may_link iss sub r s \<longleftrightarrow> same_standing r s \<and>
     (same_identity r s \<or> uc_role r \<noteq> ''admin'' \<and> uc_oidc_subject r = None \<and> identified iss sub s)"

definition login_effect :: "string \<Rightarrow> string \<Rightarrow> user_row list \<Rightarrow> user_row list \<Rightarrow> bool" where
  "login_effect iss sub us vs \<longleftrightarrow>
     (\<forall>r \<in> set us. \<exists>s \<in> set vs. may_link iss sub r s) \<and>
     (\<forall>s \<in> set vs. (\<exists>r \<in> set us. may_link iss sub r s) \<or> uc_role s = ''user'' \<and> \<not> uc_disabled s \<and> identified iss sub s)"

lemma may_link_trans: "may_link iss sub q r \<Longrightarrow> may_link iss sub r s \<Longrightarrow> may_link iss sub q s"
  by (auto simp: may_link_def same_standing_def same_identity_def identified_def)

lemma login_effect_chain: "login_effect iss sub us vs \<Longrightarrow> login_effect iss sub vs ws \<Longrightarrow> login_effect iss sub us ws"
  unfolding login_effect_def
proof (intro conjI ballI, goal_cases)
  case (1 r) then show ?case using may_link_trans by meson
next
  case (2 s)
  then consider q where "q \<in> set vs" "may_link iss sub q s" | "uc_role s = ''user''" "\<not> uc_disabled s" "identified iss sub s" by blast
  then show ?case
  proof cases
    case 1
    with 2(1) consider r where "r \<in> set us" "may_link iss sub r q" | "uc_role q = ''user''" "\<not> uc_disabled q" "identified iss sub q" by blast
    then show ?thesis
    proof cases
      case 1 with \<open>may_link iss sub q s\<close> show ?thesis using may_link_trans by blast
    next
      case 2 with \<open>may_link iss sub q s\<close> show ?thesis
        by (auto simp: may_link_def same_standing_def same_identity_def identified_def)
    qed
  qed blast
qed

interpretation login_effect: users_order "login_effect iss sub" for iss sub
proof
  show "login_effect iss sub us us" for us by (auto simp: login_effect_def may_link_def same_standing_def same_identity_def)
  show "login_effect iss sub us vs \<Longrightarrow> login_effect iss sub vs ws \<Longrightarrow> login_effect iss sub us ws" for us vs ws by (rule login_effect_chain)
qed

lemma login_effect_upd:
  assumes "\<And>r. P r \<Longrightarrow> may_link iss sub r (f r)"
  shows "login_effect iss sub us (upd_where P f us)"
proof -
  have refl: "may_link iss sub r r" for r by (simp add: may_link_def same_standing_def same_identity_def)
  have "\<exists>s \<in> set (upd_where P f us). may_link iss sub r s" if "r \<in> set us" for r
    using that assms [of r] refl [of r] by (cases "P r") (auto simp: set_upd_where)
  moreover have "\<exists>r \<in> set us. may_link iss sub r s" if "s \<in> set (upd_where P f us)" for s
    using that assms refl by (auto simp: set_upd_where)
  ultimately show ?thesis by (simp add: login_effect_def)
qed

section \<open>The operations\<close>

lemma login_effect_SetEmail: "follows (on_users (login_effect iss sub)) (UserRepo_SetEmail u e now)"
  unfolding UserRepo_SetEmail_def
  by (intro follows_intros login_effect.require_step login_effect.update_step login_effect_upd)
     (simp add: may_link_def same_standing_def same_identity_def clear_pending_def)

lemma login_effect_Sync: "follows (on_users (login_effect iss sub)) (SyncFromIDP em now u claim)"
  unfolding SyncFromIDP_def applyChanged_def Let_def by (intro follows_intros login_effect_SetEmail)

lemma login_effect_Link:
  "u_Role m \<noteq> ''admin'' \<Longrightarrow> follows (on_users (login_effect iss sub)) (UserRepo_LinkOIDC now m c iss sub)"
  unfolding UserRepo_LinkOIDC_def
  by (intro follows_intros login_effect.update_step login_effect_upd)
     (simp add: may_link_def same_standing_def same_identity_def identified_def)

lemma login_effect_linkExisting: "follows (on_users (login_effect iss sub)) (linkExisting oi now ex iss sub c v)"
  unfolding linkExisting_def by (intro follows_intros login_effect_Link) auto

lemma login_effect_signup:
  assumes "iss \<noteq> ''''" and "sub \<noteq> ''''"
  shows "follows (on_users (login_effect iss sub)) (signup oi newID now iss sub e)"
proof -
  have "login_effect iss sub us (us @ [r])" if "identified iss sub r" "uc_role r = ''user''" "\<not> uc_disabled r" for us r
    using that by (auto simp: login_effect_def may_link_def same_standing_def same_identity_def)
  then have "follows (on_users (login_effect iss sub)) (UserRepo_Create newID now
      ((new_user e ''user'')\<lparr>u_OIDCProvider := iss, u_OIDCSubject := sub\<rparr>))"
    unfolding UserRepo_Create_def Let_def using assms
    by (intro follows_intros login_effect.ord.follows_stmt)
       (auto simp: on_users_def insert_user_def login_effect.same new_user_def identified_def nullIfEmpty_def)
  then show ?thesis unfolding signup_def by (intro follows_intros)
qed

lemma login_effect_LoginOrLink:
  assumes "iss \<noteq> ''''" and "sub \<noteq> ''''"
  shows "follows (on_users (login_effect iss sub)) (LoginOrLink oi newID now iss sub e v)"
  unfolding LoginOrLink_def
  by (intro follows_intros login_effect_Sync login_effect_linkExisting login_effect_signup assms)

section \<open>The account a login yields\<close>

definition carries :: "string \<Rightarrow> string \<Rightarrow> string \<Rightarrow> database \<Rightarrow> bool" where
  "carries iss sub i d \<longleftrightarrow> (\<exists>s \<in> set (users d). uc_id s = i \<and> identified iss sub s)"

lemma carries_kept:
  assumes "follows (on_users (login_effect iss sub)) m" and "m w = (x, w')" and "carries iss sub i (db w)"
  shows "carries iss sub i (db w')"
  using followsD [OF assms(1,2)] assms(3)
  by (fastforce simp: on_users_def login_effect_def carries_def may_link_def same_standing_def same_identity_def identified_def)

lemma Sync_ID:
  assumes "SyncFromIDP em now u claim w = (Inr (v, n), w')"
  shows "u_ID v = u_ID u"
proof -
  have "yields (\<lambda>(v, n). u_ID v = u_ID u) (SyncFromIDP em now u claim)"
    unfolding SyncFromIDP_def Let_def changedRow_def by (intro yields_intros) simp_all
  from yieldsD [OF this assms] show ?thesis by simp
qed

lemma link_carries:
  assumes "linkExisting oi now ex iss sub c v w = (Inr u, w')"
  shows "carries iss sub (u_ID u) (db w')"
proof -
  obtain x w1 where x: "UserRepo_LinkOIDC now ex c iss sub w = (x, w1)" by (cases "UserRepo_LinkOIDC now ex c iss sub w")
  with assms have
    l: "UserRepo_LinkOIDC now ex c iss sub w = (Inr (), w1)" and
    a: "w' = snd (auditWriter_Log now (audit_entry (u_ID ex) ''user.oidc.linked'' ''user'' (u_ID ex) '''') w1)" and
    u: "u_ID u = u_ID ex"
    by (cases x; auto simp: linkExisting_def oidc_reject_def bindE_tryE_case bindE_Inr_iff split: if_splits)+
  let ?P = "\<lambda>r. uc_email r = u_Email ex \<and> uc_role r = u_Role ex \<and> uc_oidc_subject r = None"
  let ?f = "\<lambda>r. r\<lparr>uc_email := c, uc_oidc_provider := Some iss, uc_oidc_subject := Some sub, uc_updated_at := now\<rparr>"
  from l obtain n where n: "update_user (u_ID ex) ?P ?f (db w) = (Inr n, db w1)" "n \<noteq> 0"
    by (auto simp: UserRepo_LinkOIDC_def bindE_Inr_iff split: if_splits dest!: stmt_Inr)
  then obtain r where r: "r \<in> set (users (db w))" "uc_id r = u_ID ex" "?P r"
    by (auto simp: update_user_def Let_def filter_empty_conv split: if_splits)
  from n(1) have "users (db w1) = upd_where (\<lambda>r. uc_id r = u_ID ex \<and> ?P r) ?f (users (db w))"
    by (auto simp: update_user_def Let_def split: if_splits dest!: sym [of _ "db w1"])
  then have "?f r \<in> set (users (db w1))" using r by (auto simp: set_upd_where)
  then show ?thesis using r(2) unfolding a u carries_def by (intro bexI [of _ "?f r"]) (simp_all add: identified_def)
qed

lemma signup_carries:
  assumes "signup oi newID now iss sub e w = (Inr u, w')" and "iss \<noteq> ''''" and "sub \<noteq> ''''"
  shows "carries iss sub (u_ID u) (db w')"
proof -
  let ?c = "UserRepo_Create newID now ((new_user e ''user'')\<lparr>u_OIDCProvider := iss, u_OIDCSubject := sub\<rparr>)"
  obtain x w1 where x: "?c w = (x, w1)" by (cases "?c w")
  with assms(1) have
    c: "UserRepo_Create newID now ((new_user e ''user'')\<lparr>u_OIDCProvider := iss, u_OIDCSubject := sub\<rparr>) w = (Inr u, w1)" and
    a: "w' = snd (auditWriter_Log now (audit_entry (u_ID u) ''user.created'' ''user'' (u_ID u) '''') w1)"
    by (cases x; auto simp: signup_def oidc_reject_def bindE_tryE_case bindE_Inr_iff split: if_splits)+
  from c assms(2,3) have "carries iss sub (u_ID u) (db w1)"
    by (auto simp: UserRepo_Create_def Let_def new_user_def bindE_Inr_iff insert_user_def carries_def identified_def nullIfEmpty_def
        split: if_splits dest!: stmt_Inr sym [of _ "db w1"])
  then show ?thesis unfolding a carries_def by simp
qed

lemma LoginOrLink_carries:
  assumes run: "LoginOrLink oi newID now iss sub e v w = (Inr (u, n), w')" and ne: "iss \<noteq> ''''" "sub \<noteq> ''''"
  shows "carries iss sub (u_ID u) (db w')"
proof -
  obtain x w1 where x: "UserRepo_GetByOIDC iss sub w = (x, w1)" by (cases "UserRepo_GetByOIDC iss sub w")
  show ?thesis
  proof (cases x)
    case (Inr u0)
    with x obtain r where r: "r \<in> set (users (db w))" "identified iss sub r" "u0 = scanUser r" "db w1 = db w"
      by (auto simp: UserRepo_GetByOIDC_def identified_def dest!: queryRow_Inr find_SomeD)
    have s: "SyncFromIDP (oi_emails oi) now u0 e w1 = (Inr (u, n), w')"
      using run x Inr by (simp add: LoginOrLink_def bindE_tryE_case oidc_reject_def split: if_splits)
    have "u_ID u = uc_id r" using Sync_ID [OF s] r(3) by (simp add: scanUser_def)
    moreover have "carries iss sub (uc_id r) (db w1)" using r by (auto simp: carries_def)
    ultimately show ?thesis using carries_kept [OF login_effect_Sync s, of iss sub "uc_id r"] by simp
  next
    case (Inl er)
    with run x obtain c w2 where c: "bindE (tryE (findByEmail (em_parse (oi_emails oi)) c)) (\<lambda>r2.
        case r2 of Inr existing \<Rightarrow> bindE (linkExisting oi now existing iss sub c v) (\<lambda>u. ret (u, None))
        | Inl e2 \<Rightarrow> if e2 = ErrNotFound then bindE (signup oi newID now iss sub c) (\<lambda>u. ret (u, None)) else fail e2) w2 = (Inr (u, n), w')"
      unfolding LoginOrLink_def by (auto simp: bindE_tryE_case bindE_Inr_iff [of "normalizeClaim _ _"] split: if_splits)
    obtain y w3 where y: "findByEmail (em_parse (oi_emails oi)) c w2 = (y, w3)" by (cases "findByEmail (em_parse (oi_emails oi)) c w2")
    show ?thesis
    proof (cases y)
      case (Inl e2)
      with c y show ?thesis by (auto simp: bindE_tryE_case bindE_Inr_iff split: if_splits intro: signup_carries [OF _ ne])
    next
      case (Inr ex)
      with c y show ?thesis by (auto simp: bindE_tryE_case bindE_Inr_iff intro: link_carries)
    qed
  qed
qed

text \<open>
  C33. What an OIDC login does to the accounts, with any claims and any driver failures: no account is deleted, no
  role and no disabled flag changes; the identity is attached only to an account that was not an
  administrator and had no identity; a new account is an ordinary user with this identity; and when the
  login is accepted the account it yields carries the identity. The guard of the link is part of the write, so
  the same holds when the account was promoted, linked or readdressed after it was looked up (\<open>ex\<close> is any outdated row).
\<close>

theorem oidc_login_safe:
  assumes "iss \<noteq> ''''" and "sub \<noteq> ''''"
  shows "login_effect iss sub (users (db w)) (users (db (snd (LoginOrLink oi newID now iss sub e v w)))) \<and>
    (\<forall>ex c. login_effect iss sub (users (db w)) (users (db (snd (linkExisting oi now ex iss sub c v w))))) \<and>
    (\<forall>u n w'. LoginOrLink oi newID now iss sub e v w = (Inr (u, n), w') \<longrightarrow>
       (\<exists>s \<in> set (users (db w')). uc_id s = u_ID u \<and> identified iss sub s))"
proof (intro conjI allI impI)
  show "login_effect iss sub (users (db w)) (users (db (snd (LoginOrLink oi newID now iss sub e v w))))"
    using follows_at [OF login_effect_LoginOrLink [OF assms, of oi newID now e v], of w] by (simp add: on_users_def)
  show "login_effect iss sub (users (db w)) (users (db (snd (linkExisting oi now ex iss sub c v w))))" for ex c
    using follows_at [OF login_effect_linkExisting [of iss sub oi now ex c v], of w] by (simp add: on_users_def)
  fix u n w' assume "LoginOrLink oi newID now iss sub e v w = (Inr (u, n), w')"
  from LoginOrLink_carries [OF this assms] show "\<exists>s \<in> set (users (db w')). uc_id s = u_ID u \<and> identified iss sub s"
    by (simp add: carries_def)
qed

section \<open>Two gaps\<close>

text \<open>
  The path of an identity that is already linked refuses a disabled account; the path that links one does not.
\<close>

lemma sound_emails_distinct: "sound d \<Longrightarrow> distinct (map uc_email (users d))"
proof -
  assume s: "sound d"
  then have ids: "distinct (map uc_id (users d))" by (simp add: sound_def wf_hist_def wf_db_def wf_users_def)
  have "r = q" if "r \<in> set (users d)" "q \<in> set (users d)" "uc_email r = uc_email q" for r q
  proof (rule distinct_key_eq [OF ids that(1,2)])
    show "uc_id r = uc_id q" using s that by (auto simp: sound_def wf_identity_def user_clash_def)
  qed
  then show ?thesis using ids by (auto simp: distinct_map inj_on_def)
qed

lemma GetByOIDC_calm_none:
  assumes "calm w" and "\<forall>r \<in> set (users (db w)). \<not> identified iss sub r"
  shows "UserRepo_GetByOIDC iss sub w = (Inl ErrNotFound, w)"
proof -
  have "find (\<lambda>r. uc_oidc_provider r = Some iss \<and> uc_oidc_subject r = Some sub) (users (db w)) = None"
    using assms(2) by (auto simp: find_None_iff identified_def)
  with assms(1) show ?thesis by (simp add: UserRepo_GetByOIDC_def)
qed

lemma linkExisting_calm:
  assumes "calm w" and "sound (db w)" and "r \<in> set (users (db w))" and "\<forall>q \<in> set (users (db w)). \<not> identified iss sub q"
    and "uc_role r \<noteq> ''admin''" and "uc_oidc_subject r = None" and "oi_AutoLinkByEmail oi"
  shows "fst (linkExisting oi now (scanUser r) iss sub (uc_email r) True w) =
    Inr ((scanUser r)\<lparr>u_Email := uc_email r, u_OIDCProvider := iss, u_OIDCSubject := sub\<rparr>)"
proof -
  let ?P = "\<lambda>s. uc_email s = uc_email r \<and> uc_role s = uc_role r \<and> uc_oidc_subject s = None"
  let ?f = "\<lambda>s. s\<lparr>uc_email := uc_email r, uc_oidc_provider := Some iss, uc_oidc_subject := Some sub, uc_updated_at := now\<rparr>"
  let ?hit = "filter (\<lambda>s. uc_id s = uc_id r \<and> ?P s) (users (db w))"
  have hit: "?hit \<noteq> []" using assms(3,6) by (auto simp: filter_empty_conv)
  have ok: "role_ok (uc_role s)" if "s \<in> set (users (db w))" for s using that assms(2) by (auto simp: sound_def wf_identity_def)
  have "\<not> user_clash (?f q) s" if "q \<in> set ?hit" "s \<in> set (users (db w))" "uc_id s \<noteq> uc_id r" for q s
  proof -
    have "\<not> user_clash q s" using that assms(2) by (auto simp: sound_def wf_identity_def)
    moreover have "\<not> identified iss sub s" using that assms(4) by blast
    ultimately show ?thesis using that(1) by (auto simp: user_clash_def same_oidc_def same_handle_def identified_def)
  qed
  then have "update_user (uc_id r) ?P ?f (db w) =
      (Inr (length ?hit), (db w)\<lparr>users := upd_where (\<lambda>s. uc_id s = uc_id r \<and> ?P s) ?f (users (db w))\<rparr>)"
    using ok by (fastforce simp: update_user_def Let_def)
  with hit assms(1) have "\<exists>w1. UserRepo_LinkOIDC now (scanUser r) (uc_email r) iss sub w = (Inr (), w1)"
    by (simp add: UserRepo_LinkOIDC_def bindE_def scanUser_def)
  then obtain w1 where "UserRepo_LinkOIDC now (scanUser r) (uc_email r) iss sub w = (Inr (), w1)" by blast
  with assms(5-7) show ?thesis by (simp add: linkExisting_def bindE_tryE_case bindE_audit scanUser_def)
qed

text \<open>
  Where an OIDC login does not look at the disabled flag: when a claim verified by the provider names the
  address of a disabled account that is not linked yet, the login is accepted and yields the disabled account
  with the identity attached, so that the device flow goes on to enroll a device for it. The same account would be
  rejected had it been linked before it was disabled.
\<close>

theorem oidc_links_disabled:
  assumes c: "calm w" and s: "sound (db w)" and r: "r \<in> set (users (db w))" "uc_disabled r" "uc_role r \<noteq> ''admin''" "uc_oidc_subject r = None"
    and new: "\<forall>q \<in> set (users (db w)). \<not> identified iss sub q"
    and claim: "e \<noteq> ''''" "NormalizeAddress (em_parse (oi_emails oi)) e = Inr (uc_email r)" and auto: "oi_AutoLinkByEmail oi"
  shows "\<exists>u w'. LoginOrLink oi newID now iss sub e True w = (Inr (u, None), w') \<and> u_ID u = uc_id r \<and> u_Disabled u"
proof -
  have "find (\<lambda>q. uc_email q = uc_email r) (users (db w)) = Some r" by (rule find_distinct_key [OF sound_emails_distinct [OF s] r(1)])
  then have f: "findByEmail (em_parse (oi_emails oi)) (uc_email r) w = (Inr (scanUser r), w)"
    using c by (simp add: findByEmail_def UserRepo_GetByEmail_def bindE_tryE_case)
  obtain w' where "linkExisting oi now (scanUser r) iss sub (uc_email r) True w =
      (Inr ((scanUser r)\<lparr>u_Email := uc_email r, u_OIDCProvider := iss, u_OIDCSubject := sub\<rparr>), w')"
    using linkExisting_calm [OF c s r(1) new r(3,4) auto, of now] by (metis prod.collapse)
  then have "LoginOrLink oi newID now iss sub e True w = (Inr ((scanUser r)\<lparr>u_Email := uc_email r, u_OIDCProvider := iss, u_OIDCSubject := sub\<rparr>, None), w')"
    using f claim by (simp add: LoginOrLink_def GetByOIDC_calm_none [OF c new] bindE_tryE_case normalizeClaim_def bindE_def tryE_def)
  then show ?thesis using r(2) by (auto simp: scanUser_def)
qed

section \<open>Concrete logins\<close>

definition plain_emails :: "'w email_changes" where
  "plain_emails = \<lparr> em_mailer = None, em_baseURL = ''https://x'', em_crypto = plain_crypto, em_parse = (\<lambda>a. Some ('''', a)),
     em_details = (\<lambda>a b. b) \<rparr>"

definition plain_oidc :: "'w oidc_service" where
  "plain_oidc = \<lparr> oi_emails = plain_emails, oi_sessions = \<lparr> sm_ttl = 3600000000000, sm_slide = 60000000000 \<rparr>,
     oi_AutoLinkByEmail = True, oi_AllowOIDCSignup = True \<rparr>"

text \<open>The sample account, disabled.\<close>

definition off_world :: world where
  "off_world = \<lparr> db = empty_db\<lparr>users := [u1\<lparr>uc_disabled := True\<rparr>]\<rparr>, faults = [] \<rparr>"

lemma off_world_sound: "sound (db off_world)"
  by (simp add: off_world_def u1_def empty_db_def sound_def wf_hist_def wf_db_def wf_table_defs hist_agrees_def
      wf_identity_def wf_accounts_def wf_bootstrap_def wf_audit_def pending_whole_def role_ok_def user_clash_def same_oidc_def same_handle_def)

theorem oidc_links_disabled_witness:
  "\<exists>u w'. LoginOrLink plain_oidc ''n'' 5 ''iss'' ''sub'' ''a@example.org'' True off_world = (Inr (u, None), w') \<and> u_ID u = ''u1'' \<and> u_Disabled u"
  using oidc_links_disabled [where w = off_world and r = "u1\<lparr>uc_disabled := True\<rparr>" and iss = "''iss''" and sub = "''sub''" and oi = plain_oidc and
    e = "''a@example.org''" and newID = "''n''" and now = 5, OF _ off_world_sound]
  by (simp add: off_world_def u1_def identified_def plain_oidc_def plain_emails_def NormalizeAddress_def IsASCII_def byte_def)

theorem oidc_login_safe_witness:
  "login_effect ''iss'' ''sub'' (users (db off_world))
     (users (db (snd (LoginOrLink plain_oidc ''n'' 5 ''iss'' ''sub'' ''a@example.org'' True off_world))))"
  by (rule conjunct1 [OF oidc_login_safe]) simp_all

end
