(* ===== verification/Admin_Props.thy ===== *)
theory Admin_Props
  imports Users_Frame
begin

text \<open>
  What account administration promises: no single request takes the server its last enabled administrator, whatever
  statements fail, although two requests that interleave can; and what disabling an account does.
\<close>

section \<open>Administrators\<close>

definition enabled_admin :: "user_row \<Rightarrow> bool" where
  "enabled_admin r \<longleftrightarrow> uc_role r = ''admin'' \<and> \<not> uc_disabled r"

definition administered :: "database \<Rightarrow> bool" where
  "administered d \<longleftrightarrow> (\<exists>r \<in> set (users d). enabled_admin r)"

lemma IsEnabledAdmin_scan [simp]: "IsEnabledAdmin (scanUser r) = enabled_admin r"
  by (simp add: IsEnabledAdmin_def scanUser_def enabled_admin_def)

lemma scanUser_ID [simp]: "u_ID (scanUser r) = uc_id r"
  by (simp add: scanUser_def)

text \<open>Where there is an enabled administrator there stays one.\<close>

definition admins_stay :: "user_row list \<Rightarrow> user_row list \<Rightarrow> bool" where
  "admins_stay us vs \<longleftrightarrow> (\<forall>r \<in> set us. enabled_admin r \<longrightarrow> (\<exists>s \<in> set vs. enabled_admin s))"

interpretation admins_stay: users_order admins_stay
  by unfold_locales (auto simp: admins_stay_def)

text \<open>Only the row of the target changes.\<close>

definition others_stay :: "string \<Rightarrow> user_row list \<Rightarrow> user_row list \<Rightarrow> bool" where
  "others_stay t us vs \<longleftrightarrow> (\<forall>r \<in> set us. uc_id r \<noteq> t \<longrightarrow> r \<in> set vs)"

interpretation others_stay: users_order "others_stay t" for t
  by unfold_locales (auto simp: others_stay_def)

lemma others_stay_upd: "others_stay t us (upd_where (\<lambda>r. uc_id r = t \<and> P r) f us)"
  by (auto simp: others_stay_def set_upd_where)

lemma others_stay_writes:
  "follows (on_users (others_stay t)) (UserRepo_SetRole now t role)"
  "follows (on_users (others_stay t)) (UserRepo_SetDisabled now t x)"
  "follows (on_users (others_stay t)) (UserRepo_Delete t)"
  unfolding UserRepo_SetRole_def UserRepo_SetDisabled_def UserRepo_Delete_def
  by (intro others_stay.require_step others_stay.update_step others_stay_upd others_stay.ord.follows_exec;
      simp add: on_users_def others_stay_def delete_user_def Let_def)+

lemma others_stay_update:
  assumes "quiet_hooks ad"
  shows "follows (on_users (others_stay t)) (UpdateUser_apply ad now a t p u)"
  unfolding UpdateUser_apply_def applyRole_def applyDisabled_def revoke_sessions_def
  by (intro follows_intros others_stay_writes others_stay.frame_emit assms)

lemma others_stay_delete:
  assumes "quiet_hooks ad"
  shows "follows (on_users (others_stay t)) (DeleteUser_apply ad now a t p)"
  unfolding DeleteUser_apply_def by (intro follows_intros others_stay_writes others_stay.frame_emit assms)

text \<open>Promotions and enabling take nothing away.\<close>

lemma admins_stay_upd:
  assumes "\<And>r. enabled_admin r \<Longrightarrow> enabled_admin (f r)"
  shows "admins_stay us (upd_where P f us)"
  unfolding admins_stay_def
proof (intro ballI impI)
  fix r assume "r \<in> set us" "enabled_admin r"
  with assms [of r] show "\<exists>s \<in> set (upd_where P f us). enabled_admin s" by (cases "P r") (auto simp: set_upd_where)
qed

definition harmless :: "UpdateUserParams \<Rightarrow> bool" where
  "harmless p \<longleftrightarrow> up_Role p \<in> {None, Some ''admin''} \<and> up_Disabled p \<in> {None, Some False}"

lemma admins_stay_update:
  assumes "quiet_hooks ad" and "harmless p"
  shows "follows (on_users admins_stay) (UpdateUser_apply ad now a t p u)"
proof -
  have r: "follows (on_users admins_stay) (UserRepo_SetRole now t ''admin'')"
    unfolding UserRepo_SetRole_def
    by (intro admins_stay.require_step admins_stay.update_step admins_stay_upd) (auto simp: enabled_admin_def)
  have d: "follows (on_users admins_stay) (UserRepo_SetDisabled now t False)"
    unfolding UserRepo_SetDisabled_def
    by (intro admins_stay.require_step admins_stay.update_step admins_stay_upd) (auto simp: enabled_admin_def)
  show ?thesis
    using assms(2) unfolding UpdateUser_apply_def applyRole_def applyDisabled_def harmless_def
    by (auto intro!: follows_intros r d admins_stay.frame_emit assms(1))
qed

section \<open>The guards\<close>

lemma guardLastAdmin_Inr:
  assumes "guardLastAdmin t w = (Inr (), w')" and s: "sound (db w)" and a: "administered (db w)"
  shows "db w' = db w" "\<exists>r \<in> set (users (db w)). enabled_admin r \<and> uc_id r \<noteq> t"
proof -
  let ?as = "filter enabled_admin (users (db w))"
  have len: "length (filter IsEnabledAdmin (map scanUser (sort_key uc_email (users (db w))))) = length ?as"
    by (simp add: filter_map comp_def filter_sort)
  show "db w' = db w" using assms(1)
    by (auto simp: guardLastAdmin_def enabledAdminCount_def UserRepo_List_def bindE_Inr_iff Let_def split: if_splits dest!: query_Inr)
  from assms(1) have "\<not> ((\<exists>r \<in> set ?as. uc_id r = t) \<and> length ?as \<le> 1)"
    by (auto simp: guardLastAdmin_def enabledAdminCount_def UserRepo_List_def bindE_Inr_iff Let_def len [simplified] list_ex_iff
        split: if_splits dest!: query_Inr)
  moreover have "distinct (map uc_id ?as)" using s by (auto simp: sound_def wf_hist_def wf_db_def wf_users_def intro: distinct_map_filter_key)
  moreover have "?as \<noteq> []" using a by (auto simp: administered_def filter_empty_conv)
  ultimately have "\<exists>r \<in> set ?as. uc_id r \<noteq> t" by (cases ?as; cases "tl ?as") auto
  then show "\<exists>r \<in> set (users (db w)). enabled_admin r \<and> uc_id r \<noteq> t" by auto
qed

lemma guardLastAdmin_db: "db (snd (guardLastAdmin t w)) = db w"
  by (rule followsD [where R = "\<lambda>d d'. d' = d", OF _ prod.collapse [symmetric]])
     (auto simp: guardLastAdmin_def enabledAdminCount_def UserRepo_List_def Let_def intro!: follows_intros)

lemma checks_db: "db (snd (UpdateUser_check a t p w)) = db w" "db (snd (DeleteUser_check a t w)) = db w"
proof -
  have g: "follows (\<lambda>d d'. d' = d) (guardLastAdmin t)" by (simp add: follows_def guardLastAdmin_db)
  have u: "follows (\<lambda>d d'. d' = d) (UpdateUser_check a t p)"
    unfolding UpdateUser_check_def guardUpdateUser_def UserRepo_GetByID_def by (intro follows_intros g)
  have d: "follows (\<lambda>d d'. d' = d) (DeleteUser_check a t)"
    unfolding DeleteUser_check_def UserRepo_GetByID_def DeviceRepo_ListByUser_def by (intro follows_intros g)
  show "db (snd (UpdateUser_check a t p w)) = db w" "db (snd (DeleteUser_check a t w)) = db w"
    by (rule follows_at [OF u, of w], rule follows_at [OF d, of w])
qed

text \<open>A request that passes its guard leaves an administrator who is not its target, unless it is harmless.\<close>

lemma UpdateUser_check_Inr:
  fixes w :: "'z world_scheme"
  assumes "UpdateUser_check a t p w = (Inr u, w')" and "sound (db w)" and "administered (db w)" and "\<not> harmless p"
  shows "\<exists>r \<in> set (users (db w)). enabled_admin r \<and> uc_id r \<noteq> t"
proof -
  from assms(1) obtain w1 where w1: "UserRepo_GetByID t w = (Inr u, w1)" "guardUpdateUser a t p w1 = (Inr (), w')"
    by (auto simp: UpdateUser_check_def bindE_Inr_iff)
  then have d1: "db w1 = db w" by (auto simp: UserRepo_GetByID_def dest!: queryRow_Inr)
  let ?R = "case up_Role p of None \<Rightarrow> ret ()
    | Some role \<Rightarrow> if \<not> validRole role then fail ErrInvalidRole
        else if role \<noteq> ''admin'' then (if t = a then fail ErrSelfLockout else guardLastAdmin t) else ret ()"
  obtain y v where v: "?R w1 = (Inr y, v)"
      "(if up_Disabled p = Some True then (if t = a then fail ErrSelfLockout else guardLastAdmin t) else ret ()) v = (Inr (), w')"
    using w1(2) unfolding guardUpdateUser_def bindE_Inr_iff by blast
  have "follows (\<lambda>d d'. d' = d) (guardLastAdmin t)" by (simp add: follows_def guardLastAdmin_db)
  then have fR: "follows (\<lambda>d d'. d' = d) ?R" by (intro follows_intros)
  have dv: "db v = db w1" by (rule followsD [OF fR v(1)])
  have "\<exists>(x :: 'z world_scheme) x'. guardLastAdmin t x = (Inr (), x') \<and> db x = db w1"
  proof (cases "up_Disabled p = Some True")
    case True
    with v(2) have "guardLastAdmin t v = (Inr (), w')" by (simp split: if_splits)
    with dv show ?thesis by blast
  next
    case False
    then obtain role where "up_Role p = Some role" "role \<noteq> ''admin''" using assms(4) by (cases "up_Disabled p") (auto simp: harmless_def)
    with v(1) show ?thesis by (auto split: if_splits)
  qed
  then obtain x x' :: "'z world_scheme" where g: "guardLastAdmin t x = (Inr (), x')" "db x = db w1" by blast
  from guardLastAdmin_Inr(2) [OF g(1)] assms(2,3) show ?thesis by (simp add: g(2) d1)
qed

lemma administered_follows:
  assumes "follows (on_users (others_stay t)) m" and "\<exists>r \<in> set (users (db w)). enabled_admin r \<and> uc_id r \<noteq> t"
  shows "administered (db (snd (m w)))"
  using follows_at [OF assms(1), of w] assms(2) by (auto simp: on_users_def others_stay_def administered_def)

text \<open>
  C31. No request locks the administrators out: with an enabled administrator before it, there is one after
  \<open>UpdateUser\<close> and after \<open>DeleteUser\<close>, whoever asks for whatever change, whether the request succeeds or not, and
  whatever statements fail. Two requests that interleave between their guards and their writes are
  another matter: see \<open>mutual_demotion\<close>.
\<close>

theorem administered_kept:
  assumes "sound (db w)" and "administered (db w)" and "quiet_hooks ad"
  shows "administered (db (snd (UpdateUser ad now a t p w))) \<and> administered (db (snd (DeleteUser ad now a t w)))"
proof
  obtain x w1 where x: "UpdateUser_check a t p w = (x, w1)" by (cases "UpdateUser_check a t p w")
  have d1: "db w1 = db w" using checks_db(1) [of a t p w] x by simp
  have "administered (db (snd (UpdateUser_apply ad now a t p u w1)))" if "x = Inr u" for u
  proof (cases "harmless p")
    case True
    have f: "follows (on_users admins_stay) (UpdateUser_apply ad now a t p u)" by (rule admins_stay_update [OF assms(3) True])
    from follows_at [OF f, of w1] assms(2) d1 show ?thesis by (auto simp: on_users_def admins_stay_def administered_def)
  next
    case False
    from UpdateUser_check_Inr [OF _ assms(1,2) this, of a t u w1] x that d1 show ?thesis
      by (intro administered_follows [OF others_stay_update [OF assms(3)]]) simp
  qed
  then show "administered (db (snd (UpdateUser ad now a t p w)))"
    using x d1 assms(2) by (cases x) (simp_all add: UpdateUser_def bindE_def)
next
  obtain x w1 where x: "DeleteUser_check a t w = (x, w1)" by (cases "DeleteUser_check a t w")
  have d1: "db w1 = db w" using checks_db(2) [of a t w] x by simp
  have "administered (db (snd (DeleteUser_apply ad now a t y w1)))" if "x = Inr y" for y
  proof -
    from x that obtain w2 where "guardLastAdmin t w = (Inr (), w2)" by (auto simp: DeleteUser_check_def bindE_Inr_iff split: if_splits)
    from guardLastAdmin_Inr(2) [OF this assms(1,2)] d1 show ?thesis
      by (intro administered_follows [OF others_stay_delete [OF assms(3)]]) simp
  qed
  then show "administered (db (snd (DeleteUser ad now a t w)))"
    using x d1 assms(2) by (cases x) (simp_all add: DeleteUser_def bindE_def)
qed

section \<open>Interleaved requests\<close>

lemma SetRole_calm:
  assumes "calm w" and "sound (db w)" and "r \<in> set (users (db w))" and "role_ok role"
  shows "fst (UserRepo_SetRole now (uc_id r) role w) = Inr ()" "calm (snd (UserRepo_SetRole now (uc_id r) role w))"
    "users (db (snd (UserRepo_SetRole now (uc_id r) role w))) =
       upd_where (\<lambda>s. uc_id s = uc_id r) (\<lambda>s. s\<lparr>uc_role := role, uc_updated_at := now\<rparr>) (users (db w))"
proof -
  let ?hit = "filter (\<lambda>s. uc_id s = uc_id r) (users (db w))"
  have clash: "user_clash (q\<lparr>uc_role := role, uc_updated_at := now\<rparr>) s = user_clash q s" for q s
    by (simp add: user_clash_def same_oidc_def same_handle_def)
  have ne: "?hit \<noteq> []" using assms(3) by (auto simp: filter_empty_conv)
  have "\<not> (\<exists>q \<in> set ?hit. \<exists>s \<in> set (users (db w)). uc_id s \<noteq> uc_id r \<and> user_clash q s)"
    using assms(2) by (auto simp: sound_def wf_identity_def)
  then have "update_user (uc_id r) (\<lambda>_. True) (\<lambda>s. s\<lparr>uc_role := role, uc_updated_at := now\<rparr>) (db w) =
      (Inr (length ?hit), (db w)\<lparr>users := upd_where (\<lambda>s. uc_id s = uc_id r) (\<lambda>s. s\<lparr>uc_role := role, uc_updated_at := now\<rparr>) (users (db w))\<rparr>)"
    using assms(4) unfolding update_user_def clash by (auto simp: Let_def)
  with ne assms(1) show "fst (UserRepo_SetRole now (uc_id r) role w) = Inr ()" "calm (snd (UserRepo_SetRole now (uc_id r) role w))"
    "users (db (snd (UserRepo_SetRole now (uc_id r) role w))) =
       upd_where (\<lambda>s. uc_id s = uc_id r) (\<lambda>s. s\<lparr>uc_role := role, uc_updated_at := now\<rparr>) (users (db w))"
    by (simp_all add: UserRepo_SetRole_def require_rows_def bindE_def)
qed

definition demotion :: UpdateUserParams where
  "demotion = \<lparr> up_Role = Some ''user'', up_Disabled = None \<rparr>"

lemma find_user_distinct:
  "sound d \<Longrightarrow> r \<in> set (users d) \<Longrightarrow> find_user (uc_id r) d = Some r"
  unfolding find_user_def by (rule find_distinct_key) (simp_all add: sound_def wf_hist_def wf_db_def wf_users_def)

lemma demote_check:
  assumes "calm w" and "sound (db w)" and "r \<in> set (users (db w))" and "1 < length (filter enabled_admin (users (db w)))" and "a \<noteq> uc_id r"
  shows "UpdateUser_check a (uc_id r) demotion w = (Inr (scanUser r), w)"
proof -
  have "length (filter IsEnabledAdmin (map scanUser (sort_key uc_email (users (db w))))) = length (filter enabled_admin (users (db w)))"
    by (simp add: filter_map comp_def filter_sort)
  then show ?thesis using assms find_user_distinct [OF assms(2,3)]
    by (simp add: UpdateUser_check_def guardUpdateUser_def guardLastAdmin_def enabledAdminCount_def UserRepo_List_def UserRepo_GetByID_def
        demotion_def validRole_def bindE_def Let_def)
qed

lemma preserves_at: "preserves I m \<Longrightarrow> I w \<Longrightarrow> I (snd (m w))"
  by (simp add: preserves_def)

lemma audit_calm: "preserves calm (auditWriter_Log now e)"
  unfolding auditWriter_Log_def AuditLog_Append_def Let_def by (intro preserves_intros)

lemma demote_apply:
  assumes "calm w" and "sound (db w)" and "r \<in> set (users (db w))"
  shows "\<exists>u. fst (UpdateUser_apply ad now a (uc_id r) demotion v w) = Inr u" "calm (snd (UpdateUser_apply ad now a (uc_id r) demotion v w))"
    "users (db (snd (UpdateUser_apply ad now a (uc_id r) demotion v w))) =
       upd_where (\<lambda>s. uc_id s = uc_id r) (\<lambda>s. s\<lparr>uc_role := ''user'', uc_updated_at := now\<rparr>) (users (db w))"
proof -
  note S = SetRole_calm [OF assms, of "''user''" now, simplified role_ok_def, simplified]
  define w1 where "w1 = snd (UserRepo_SetRole now (uc_id r) ''user'' w)"
  define w2 where "w2 = snd (auditWriter_Log now (audit_entry a ''user.role_change'' ''user'' (uc_id r) '''') w1)"
  have s: "UserRepo_SetRole now (uc_id r) ''user'' w = (Inr (), w1)" using S(1) by (simp add: w1_def prod_eq_iff)
  have l: "auditWriter_Log now (audit_entry a ''user.role_change'' ''user'' (uc_id r) '''') w1 = (Inr (), w2)" by (simp add: w2_def prod_eq_iff)
  have c2: "calm w2" using S(2) unfolding w2_def w1_def by (rule preserves_at [OF audit_calm])
  have u2: "users (db w2) = upd_where (\<lambda>s. uc_id s = uc_id r) (\<lambda>s. s\<lparr>uc_role := ''user'', uc_updated_at := now\<rparr>) (users (db w))"
    using S(3) by (simp add: w2_def w1_def)
  have "uc_id r \<in> uc_id ` set (users (db w2))"
    unfolding u2 by (rule image_eqI [of _ _ "r\<lparr>uc_role := ''user'', uc_updated_at := now\<rparr>"]) (use assms(3) in \<open>auto simp: set_upd_where\<close>)
  then have "\<exists>q. find_user (uc_id r) (db w2) = Some q" unfolding find_user_def
    by (cases "find (\<lambda>q. uc_id q = uc_id r) (users (db w2))") (auto simp: find_None_iff)
  then obtain q where q: "find_user (uc_id r) (db w2) = Some q" by blast
  have "UpdateUser_apply ad now a (uc_id r) demotion v w = (Inr (scanUser q), w2)"
    using s l c2 q by (simp add: UpdateUser_apply_def applyRole_def applyDisabled_def demotion_def bindE_def UserRepo_GetByID_def)
  with c2 u2 show "\<exists>u. fst (UpdateUser_apply ad now a (uc_id r) demotion v w) = Inr u" "calm (snd (UpdateUser_apply ad now a (uc_id r) demotion v w))"
    "users (db (snd (UpdateUser_apply ad now a (uc_id r) demotion v w))) =
       upd_where (\<lambda>s. uc_id s = uc_id r) (\<lambda>s. s\<lparr>uc_role := ''user'', uc_updated_at := now\<rparr>) (users (db w))" by simp_all
qed

text \<open>
  Where the guard of the last administrator does not hold: two enabled administrators who demote each other at
  the same time both pass it, because each request counts the administrators before the other writes.
  Both requests succeed, and no enabled administrator is left.
\<close>

theorem mutual_demotion:
  assumes c: "calm w" and s: "sound (db w)" and two: "filter enabled_admin (users (db w)) = [ra, rb]"
  shows "\<exists>ua ub. UpdateUser_check (uc_id ra) (uc_id rb) demotion w = (Inr ub, w) \<and>
     UpdateUser_check (uc_id rb) (uc_id ra) demotion w = (Inr ua, w) \<and>
     (let p1 = UpdateUser_apply ad n1 (uc_id ra) (uc_id rb) demotion ub w;
          p2 = UpdateUser_apply ad n2 (uc_id rb) (uc_id ra) demotion ua (snd p1)
      in \<not> isl (fst p1) \<and> \<not> isl (fst p2) \<and> \<not> administered (db (snd p2)))"
proof -
  have mem: "ra \<in> set (users (db w))" "rb \<in> set (users (db w))"
    and only: "\<And>r. r \<in> set (users (db w)) \<Longrightarrow> enabled_admin r \<Longrightarrow> r = ra \<or> r = rb"
    using arg_cong [OF two, of set] by auto
  have "distinct (map uc_id (filter enabled_admin (users (db w))))"
    using s by (auto simp: sound_def wf_hist_def wf_db_def wf_users_def intro: distinct_map_filter_key)
  then have ne: "uc_id ra \<noteq> uc_id rb" using two by simp
  define w1 where "w1 = snd (UpdateUser_apply ad n1 (uc_id ra) (uc_id rb) demotion (scanUser rb) w)"
  note A = demote_apply [OF c s mem(2), of ad n1 "uc_id ra" "scanUser rb", folded w1_def]
  have "preserves (on_db sound) (UpdateUser_apply ad n1 (uc_id ra) (uc_id rb) demotion (scanUser rb))"
    unfolding UpdateUser_apply_def applyRole_def applyDisabled_def demotion_def
    by (simp only: UpdateUserParams.simps option.simps) (intro preserves_intros)
  from sound_at [OF this s] have s1: "sound (db w1)" by (simp add: w1_def)
  have a1: "ra \<in> set (users (db w1))" using mem(1) ne unfolding A(3) by (auto simp: set_upd_where)
  note B = demote_apply [OF A(2) s1 a1, of ad n2 "uc_id rb" "scanUser ra"]
  have "\<not> administered (db (snd (UpdateUser_apply ad n2 (uc_id rb) (uc_id ra) demotion (scanUser ra) w1)))"
    unfolding administered_def B(3) A(3) using only by (auto simp: set_upd_where enabled_admin_def)
  with A(1) B(1) demote_check [OF c s mem(1), of "uc_id rb"] demote_check [OF c s mem(2), of "uc_id ra"] ne two
  show ?thesis by (auto simp: Let_def w1_def)
qed

section \<open>A concrete administration\<close>

text \<open>The wired notifier is quiet.\<close>

lemma quiet_fanout:
  assumes "ad_DeviceAdded ad = fanout_DeviceAdded f" and "ad_DeviceRemoved ad = fanout_DeviceRemoved f"
  shows "quiet_hooks ad"
  by (simp add: assms quiet_hooks_def fanout_DeviceAdded_def fanout_DeviceRemoved_def keeps_core_users [OF keeps_core_membership])

definition boss :: "string \<Rightarrow> user_row" where
  "boss i = u1\<lparr>uc_id := i, uc_email := i @ ''@example.org'', uc_role := ''admin''\<rparr>"

definition admin_world :: hubworld where
  "admin_world = \<lparr> db = empty_db\<lparr>users := [boss ''a1'', boss ''a2'']\<rparr>, faults = [], w_hub = Hub_New \<rparr>"

definition plain_admin :: "('z hubworld_scheme) admin_service" where
  "plain_admin = \<lparr> ad_grants = None, ad_mailer = None, ad_parse = (\<lambda>a. Some ('''', a)), ad_details = (\<lambda>k v. v),
     ad_DeviceAdded = fanout_DeviceAdded plain_fanout, ad_DeviceRemoved = fanout_DeviceRemoved plain_fanout \<rparr>"

lemma plain_admin_quiet: "quiet_hooks plain_admin"
  by (rule quiet_fanout [of _ plain_fanout]) (simp_all add: plain_admin_def)

lemma admin_world_sound: "sound (db admin_world)"
  by (simp add: admin_world_def boss_def u1_def empty_db_def sound_def wf_hist_def wf_db_def wf_table_defs hist_agrees_def
      wf_identity_def wf_accounts_def wf_bootstrap_def wf_audit_def pending_whole_def role_ok_def user_clash_def same_oidc_def same_handle_def)

lemma admin_world_admins: "filter enabled_admin (users (db admin_world)) = [boss ''a1'', boss ''a2'']"
  by (simp add: admin_world_def boss_def u1_def enabled_admin_def)

theorem administered_kept_witness:
  "administered (db (snd (UpdateUser plain_admin 5 ''a1'' ''a2'' demotion admin_world))) \<and>
   administered (db (snd (DeleteUser plain_admin 5 ''a1'' ''a2'' admin_world)))"
proof (rule administered_kept [OF admin_world_sound _ plain_admin_quiet])
  show "administered (db admin_world)" by (simp add: administered_def admin_world_def boss_def u1_def enabled_admin_def)
qed

theorem mutual_demotion_witness:
  "\<exists>ua ub. UpdateUser_check ''a1'' ''a2'' demotion admin_world = (Inr ub, admin_world) \<and>
     UpdateUser_check ''a2'' ''a1'' demotion admin_world = (Inr ua, admin_world) \<and>
     (let p1 = UpdateUser_apply plain_admin 5 ''a1'' ''a2'' demotion ub admin_world;
          p2 = UpdateUser_apply plain_admin 5 ''a2'' ''a1'' demotion ua (snd p1)
      in \<not> isl (fst p1) \<and> \<not> isl (fst p2) \<and> \<not> administered (db (snd p2)))"
proof -
  have "uc_id (boss ''a1'') = ''a1''" "uc_id (boss ''a2'') = ''a2''" "calm admin_world" by (simp_all add: boss_def admin_world_def)
  with mutual_demotion [OF _ admin_world_sound admin_world_admins, of plain_admin 5 5] show ?thesis by simp
qed

end
