(* ===== verification/Address_Props.thy ===== *)
theory Address_Props
  imports Oidc_Props Admin_Props
begin

text \<open>
  One mailbox, one account. \<open>address_keys\<close> are the mailboxes an account speaks for: its address, if it has a canonical
  form, and a staged address while it can still be confirmed, both without regard to case. The guard \<open>addressHeld\<close>
  is the disjointness of these sets; the invitation, the self-service change, the administrator's change and the sync from
  the identity provider keep it, the signup through OIDC does not.
\<close>

section \<open>Mailboxes\<close>

definition pending_live :: "int \<Rightarrow> user_row \<Rightarrow> string option" where
  "pending_live now r =
     (case uc_pending_email r of
        None \<Rightarrow> None
      | Some p \<Rightarrow> if p \<noteq> '''' \<and> now < scanInt64 (uc_pending_email_expires_at r) then Some p else None)"

definition address_keys :: "parse_address \<Rightarrow> int \<Rightarrow> user_row \<Rightarrow> string set" where
  "address_keys pa now r =
     (case NormalizeAddress pa (uc_email r) of Inl _ \<Rightarrow> {} | Inr c \<Rightarrow> {fold_key c}) \<union>
     (case pending_live now r of None \<Rightarrow> {} | Some p \<Rightarrow> {fold_key p})"

definition well_addressed :: "parse_address \<Rightarrow> user_row \<Rightarrow> bool" where
  "well_addressed pa r \<longleftrightarrow> uc_id r \<noteq> '''' \<and> (\<forall>p. uc_pending_email r = Some p \<longrightarrow> p \<noteq> '''' \<and> NormalizeAddress pa p = Inr p)"

definition mailboxes_apart :: "parse_address \<Rightarrow> int \<Rightarrow> user_row list \<Rightarrow> bool" where
  "mailboxes_apart pa now us \<longleftrightarrow>
     (\<forall>r \<in> set us. well_addressed pa r) \<and>
     (\<forall>r \<in> set us. \<forall>s \<in> set us. uc_id r \<noteq> uc_id s \<longrightarrow> address_keys pa now r \<inter> address_keys pa now s = {})"

text \<open>No account but \<open>i\<close> speaks for the mailbox of \<open>c\<close>.\<close>

definition claimable :: "parse_address \<Rightarrow> int \<Rightarrow> string \<Rightarrow> string \<Rightarrow> user_row list \<Rightarrow> bool" where
  "claimable pa now i c us \<longleftrightarrow> (\<forall>s \<in> set us. uc_id s \<noteq> i \<longrightarrow> fold_key c \<notin> address_keys pa now s)"

lemma addressHeld_scan:
  "addressHeld pa (map scanUser us) c ex now \<longleftrightarrow> (\<exists>r \<in> set us. uc_id r \<noteq> ex \<and> fold_key c \<in> address_keys pa now r)"
proof (induction us)
  case (Cons r us)
  have "fold_key c \<in> address_keys pa now r \<longleftrightarrow>
      (case NormalizeAddress pa (uc_email r) of Inl _ \<Rightarrow> False | Inr stored \<Rightarrow> EqualFold stored c) \<or>
      scanString (uc_pending_email r) \<noteq> '''' \<and> now < scanInt64 (uc_pending_email_expires_at r) \<and> EqualFold (scanString (uc_pending_email r)) c"
    by (auto simp: address_keys_def pending_live_def EqualFold_def split: sum.splits option.splits)
  with Cons show ?case by (auto simp: scanUser_def)
qed simp

lemma addressHeld_claimable:
  "\<not> addressHeld pa (map scanUser (sort_key uc_email us)) c i now \<longleftrightarrow> claimable pa now i c us"
  by (auto simp: addressHeld_scan claimable_def)

lemma keys_later: "now \<le> now' \<Longrightarrow> address_keys pa now' r \<subseteq> address_keys pa now r"
  by (auto simp: address_keys_def pending_live_def split: option.splits if_splits)

lemma apart_later: "now \<le> now' \<Longrightarrow> mailboxes_apart pa now us \<Longrightarrow> mailboxes_apart pa now' us"
  using keys_later [of now now' pa] by (simp add: mailboxes_apart_def) blast

section \<open>One row changes\<close>

definition apart_step :: "parse_address \<Rightarrow> int \<Rightarrow> user_row list \<Rightarrow> user_row list \<Rightarrow> bool" where
  "apart_step pa now us vs \<longleftrightarrow> (mailboxes_apart pa now us \<longrightarrow> mailboxes_apart pa now vs)"

interpretation apart_step: users_order "apart_step pa now" for pa now
  by unfold_locales (auto simp: apart_step_def)

definition claim_step :: "parse_address \<Rightarrow> int \<Rightarrow> string \<Rightarrow> string \<Rightarrow> user_row list \<Rightarrow> user_row list \<Rightarrow> bool" where
  "claim_step pa now i c us vs \<longleftrightarrow>
     (mailboxes_apart pa now us \<and> claimable pa now i c us \<longrightarrow> mailboxes_apart pa now vs \<and> claimable pa now i c vs)"

interpretation claim_step: users_order "claim_step pa now i c" for pa now i c
  by unfold_locales (auto simp: claim_step_def)

lemma claim_upd:
  assumes "\<And>r. P r \<Longrightarrow> uc_id r = i" and "\<And>r. P r \<Longrightarrow> uc_id (f r) = uc_id r"
    and "\<And>r. P r \<Longrightarrow> well_addressed pa r \<Longrightarrow> well_addressed pa (f r)"
    and "\<And>r. P r \<Longrightarrow> well_addressed pa r \<Longrightarrow> address_keys pa now (f r) \<subseteq> address_keys pa now r \<union> {fold_key c}"
  shows "claim_step pa now i c us (upd_where P f us)"
  unfolding claim_step_def
proof (intro impI, elim conjE)
  assume ap: "mailboxes_apart pa now us" and cl: "claimable pa now i c us"
  let ?vs = "upd_where P f us"
  have row: "well_addressed pa s \<and> (\<exists>r \<in> set us. uc_id s = uc_id r \<and>
      address_keys pa now s \<subseteq> address_keys pa now r \<union> (if uc_id s = i then {fold_key c} else {}))"
    if s: "s \<in> set ?vs" for s
  proof -
    from s consider "s \<in> set us" | r where "r \<in> set us" "P r" "s = f r" by (auto simp: set_upd_where)
    then show ?thesis
    proof cases
      case 1 with ap show ?thesis by (auto simp: mailboxes_apart_def)
    next
      case 2
      then have "well_addressed pa r" using ap by (auto simp: mailboxes_apart_def)
      with 2 assms [of r] show ?thesis by auto
    qed
  qed
  have cl': "fold_key c \<notin> address_keys pa now s" if "s \<in> set ?vs" "uc_id s \<noteq> i" for s
    using row [OF that(1)] that(2) cl by (fastforce simp: claimable_def)
  have "address_keys pa now s \<inter> address_keys pa now q = {}" if sq: "s \<in> set ?vs" "q \<in> set ?vs" "uc_id s \<noteq> uc_id q" for s q
  proof -
    obtain r r' where r: "r \<in> set us" "uc_id s = uc_id r" "r' \<in> set us" "uc_id q = uc_id r'"
      "address_keys pa now s \<subseteq> address_keys pa now r \<union> (if uc_id s = i then {fold_key c} else {})"
      "address_keys pa now q \<subseteq> address_keys pa now r' \<union> (if uc_id q = i then {fold_key c} else {})"
      using row [OF sq(1)] row [OF sq(2)] by blast
    moreover have "address_keys pa now r \<inter> address_keys pa now r' = {}" using ap r sq(3) by (auto simp: mailboxes_apart_def)
    ultimately show ?thesis using cl' [OF sq(1)] cl' [OF sq(2)] sq(3) by (auto split: if_splits)
  qed
  with row cl' show "mailboxes_apart pa now ?vs \<and> claimable pa now i c ?vs"
    by (auto simp: mailboxes_apart_def claimable_def)
qed

lemma apart_rows:
  assumes ap: "mailboxes_apart pa now us"
    and row: "\<And>s. s \<in> set vs \<Longrightarrow> well_addressed pa s \<and> (\<exists>r \<in> set us. uc_id s = uc_id r \<and> address_keys pa now s \<subseteq> address_keys pa now r)"
  shows "mailboxes_apart pa now vs"
proof -
  have "address_keys pa now s \<inter> address_keys pa now q = {}" if sq: "s \<in> set vs" "q \<in> set vs" "uc_id s \<noteq> uc_id q" for s q
  proof -
    obtain r r' where r: "r \<in> set us" "uc_id s = uc_id r" "r' \<in> set us" "uc_id q = uc_id r'"
      "address_keys pa now s \<subseteq> address_keys pa now r" "address_keys pa now q \<subseteq> address_keys pa now r'"
      using row [OF sq(1)] row [OF sq(2)] by blast
    moreover have "address_keys pa now r \<inter> address_keys pa now r' = {}" using ap r sq(3) by (auto simp: mailboxes_apart_def)
    ultimately show ?thesis by blast
  qed
  with row show ?thesis by (auto simp: mailboxes_apart_def)
qed

lemma apart_upd:
  assumes "\<And>r. P r \<Longrightarrow> uc_id (f r) = uc_id r" and "\<And>r. P r \<Longrightarrow> well_addressed pa r \<Longrightarrow> well_addressed pa (f r)"
    and "\<And>r. P r \<Longrightarrow> well_addressed pa r \<Longrightarrow> address_keys pa now (f r) \<subseteq> address_keys pa now r"
  shows "apart_step pa now us (upd_where P f us)"
  unfolding apart_step_def
proof
  assume ap: "mailboxes_apart pa now us"
  then show "mailboxes_apart pa now (upd_where P f us)"
  proof (rule apart_rows)
    fix s assume "s \<in> set (upd_where P f us)"
    then consider "s \<in> set us" | r where "r \<in> set us" "P r" "s = f r" by (auto simp: set_upd_where)
    then show "well_addressed pa s \<and> (\<exists>r \<in> set us. uc_id s = uc_id r \<and> address_keys pa now s \<subseteq> address_keys pa now r)"
    proof cases
      case 1 with ap show ?thesis by (auto simp: mailboxes_apart_def)
    next
      case 2
      then have "well_addressed pa r" using ap by (auto simp: mailboxes_apart_def)
      with 2 assms [of r] show ?thesis by auto
    qed
  qed
qed

section \<open>The writes\<close>

lemmas keys_defs = address_keys_def pending_live_def well_addressed_def clear_pending_def

lemma claim_writes:
  assumes "NormalizeAddress pa c = Inr c"
  shows "follows (on_users (claim_step pa now i c)) (UserRepo_SetPendingEmail i c h ex)"
    "follows (on_users (claim_step pa now i c)) (UserRepo_SetEmail i c now')"
    "follows (on_users (claim_step pa now i c)) (UserRepo_ClearPendingEmail i)"
  unfolding UserRepo_SetPendingEmail_def UserRepo_SetEmail_def UserRepo_ClearPendingEmail_def
  by (intro follows_intros claim_step.require_step claim_step.update_step claim_upd;
      simp add: assms keys_defs split: sum.splits option.splits)+

lemma apart_writes:
  "follows (on_users (apart_step pa now)) (UserRepo_ConfirmPendingEmail i h now)"
  "follows (on_users (apart_step pa now)) (UserRepo_ClearPendingEmail i)"
proof -
  show "follows (on_users (apart_step pa now)) (UserRepo_ClearPendingEmail i)"
    unfolding UserRepo_ClearPendingEmail_def
    by (intro apart_step.require_step apart_step.update_step apart_upd; simp add: keys_defs split: sum.splits option.splits)
  show "follows (on_users (apart_step pa now)) (UserRepo_ConfirmPendingEmail i h now)"
    unfolding UserRepo_ConfirmPendingEmail_def
    by (intro apart_step.require_step apart_step.update_step apart_upd)
       (auto simp: keys_defs confirmable_def scanInt64_def scanString_def split: sum.splits option.splits)
qed

section \<open>The handlers\<close>

lemma apart_after_claim:
  assumes "follows (on_users (claim_step pa now i c)) m" and "mailboxes_apart pa now (users (db w))" and "claimable pa now i c (users (db w))"
  shows "mailboxes_apart pa now (users (db (snd (m w))))"
  using follows_at [OF assms(1), of w] assms(2,3) by (simp add: on_users_def claim_step_def)

lemma validateRequest_db: "db (snd (validateRequest em u e now w)) = db w"
proof -
  have f: "follows (\<lambda>d d'. d' = d) (validateRequest em u e now)"
    unfolding validateRequest_def UserRepo_List_def by (intro follows_intros)
  show ?thesis by (rule follows_at [OF f, of w])
qed

lemma validateRequest_Inr:
  assumes "validateRequest em u e now w = (Inr c, w')"
  shows "NormalizeAddress (em_parse em) c = Inr c" "claimable (em_parse em) now (u_ID u) c (users (db w))"
  using assms NormalizeAddress_stable [of "em_parse em" e c]
  by (auto simp: validateRequest_def UserRepo_List_def bindE_Inr_iff addressHeld_claimable split: if_splits sum.splits dest!: query_Inr)

text \<open>The guard and the write it guards, as every handler has them.\<close>

lemma apart_guarded:
  assumes "db (snd (m w)) = db w" and "mailboxes_apart pa now (users (db w))"
    and "\<And>c w'. m w = (Inr c, w') \<Longrightarrow> claimable pa now i (g c) (users (db w)) \<and> follows (on_users (claim_step pa now i (g c))) (k c)"
  shows "mailboxes_apart pa now (users (db (snd (bindE m k w))))"
proof -
  obtain x w1 where x: "m w = (x, w1)" by (cases "m w")
  then have d: "db w1 = db w" using assms(1) by simp
  show ?thesis
  proof (cases x)
    case (Inr c)
    with x assms(3) have k: "claimable pa now i (g c) (users (db w))" "follows (on_users (claim_step pa now i (g c))) (k c)" by blast+
    from apart_after_claim [OF k(2), of w1] k(1) assms(2) d x Inr show ?thesis by (simp add: bindE_def)
  qed (use x d assms(2) in \<open>simp add: bindE_def\<close>)
qed

lemma apart_listed:
  assumes "mailboxes_apart pa now (users (db w))"
    and rest: "\<And>v. mailboxes_apart pa now (users (db v)) \<Longrightarrow> claimable pa now i c (users (db v)) \<Longrightarrow> mailboxes_apart pa now (users (db (snd (rest v))))"
    and "\<And>v. db (snd (stop v)) = db v"
  shows "mailboxes_apart pa now (users (db (snd (bindE UserRepo_List (\<lambda>us. if addressHeld pa us c i now then stop else rest) w))))"
    "mailboxes_apart pa now (users (db (snd (bindE (tryE UserRepo_List) (\<lambda>r. case r of Inl _ \<Rightarrow> ret a
       | Inr us \<Rightarrow> if addressHeld pa us c i now then stop else rest) w))))"
proof -
  obtain x w1 where x: "UserRepo_List w = (x, w1)" by (cases "UserRepo_List w")
  have d: "db w1 = db w" using x by (auto simp: UserRepo_List_def query_db dest: arg_cong [of _ _ "\<lambda>p. db (snd p)"])
  have body: "mailboxes_apart pa now (users (db (snd ((if addressHeld pa us c i now then stop else rest) w1))))" if "x = Inr us" for us
  proof (cases "addressHeld pa us c i now")
    case True
    then show ?thesis using assms(1,3) d by simp
  next
    case False
    moreover have "us = map scanUser (sort_key uc_email (users (db w)))" using x that by (auto simp: UserRepo_List_def dest!: query_Inr)
    ultimately have "claimable pa now i c (users (db w1))" using d by (simp add: addressHeld_claimable)
    then show ?thesis using rest [of w1] assms(1) d False by simp
  qed
  show "mailboxes_apart pa now (users (db (snd (bindE UserRepo_List (\<lambda>us. if addressHeld pa us c i now then stop else rest) w))))"
    "mailboxes_apart pa now (users (db (snd (bindE (tryE UserRepo_List) (\<lambda>r. case r of Inl _ \<Rightarrow> ret a
       | Inr us \<Rightarrow> if addressHeld pa us c i now then stop else rest) w))))"
  proof (atomize (full), cases x)
    case (Inr us)
    with x have "bindE UserRepo_List k w = k us w1" "bindE (tryE UserRepo_List) (\<lambda>r. case r of Inl _ \<Rightarrow> ret a | Inr us \<Rightarrow> k us) w = k us w1"
      for k by (simp_all add: bindE_def tryE_def)
    with body [OF Inr] show "mailboxes_apart pa now (users (db (snd (bindE UserRepo_List (\<lambda>us. if addressHeld pa us c i now then stop else rest) w)))) \<and>
      mailboxes_apart pa now (users (db (snd (bindE (tryE UserRepo_List) (\<lambda>r. case r of Inl _ \<Rightarrow> ret a
       | Inr us \<Rightarrow> if addressHeld pa us c i now then stop else rest) w))))" by simp
  qed (use x d assms(1) in \<open>simp add: bindE_def tryE_def\<close>)
qed

lemma Request_apart:
  assumes m: "mail_only (em_mailer em)" and ap: "mailboxes_apart (em_parse em) now (users (db w))"
  shows "mailboxes_apart (em_parse em) now (users (db (snd (Request em rnd now u e w))))"
  unfolding Request_def
proof (rule apart_guarded [where i = "u_ID u" and g = id, OF _ ap], rule validateRequest_db, goal_cases)
  case (1 c w')
  note v = validateRequest_Inr [OF 1]
  show ?case unfolding id_def Let_def
    by (intro conjI v(2) follows_intros claim_writes [OF v(1)] claim_step.frame_send m)
qed

lemma changes_apart:
  fixes w :: "'z world_scheme"
  assumes m: "mail_only (em_mailer em)" and ap: "mailboxes_apart (em_parse em) now (users (db w))"
  shows "mailboxes_apart (em_parse em) now (users (db (snd (AdminSet em now a u e w))))"
    "mailboxes_apart (em_parse em) now (users (db (snd (SyncFromIDP em now u e w))))"
    "mailboxes_apart (em_parse em) now (users (db (snd (Confirm em now u token w))))"
    "mailboxes_apart (em_parse em) now (users (db (snd (Cancel em now u w))))"
proof -
  show "mailboxes_apart (em_parse em) now (users (db (snd (AdminSet em now a u e w))))"
  proof (cases "NormalizeAddress (em_parse em) e")
    case (Inr c)
    have n: "NormalizeAddress (em_parse em) c = Inr c" using NormalizeAddress_stable [OF Inr] by simp
    show ?thesis
    proof (cases "EqualFold c (u_Email u)")
      case False
      show ?thesis unfolding AdminSet_def Inr sum.case if_not_P [OF False] Let_def applyChanged_def
        by (intro apart_listed(1) [OF ap] apart_after_claim [where i = "u_ID u" and c = c] follows_intros claim_writes [OF n]
            claim_step.frame_send m; simp)
    qed (simp add: AdminSet_def Inr ap)
  qed (simp add: AdminSet_def ap)
  show "mailboxes_apart (em_parse em) now (users (db (snd (SyncFromIDP em now u e w))))"
  proof (cases "NormalizeAddress (em_parse em) e")
    case (Inr c)
    have n: "NormalizeAddress (em_parse em) c = Inr c" using NormalizeAddress_stable [OF Inr] by simp
    show ?thesis
    proof (cases "e = '''' \<or> EqualFold c (u_Email u)")
      case False
      then have f: "e \<noteq> ''''" "\<not> EqualFold c (u_Email u)" by auto
      show ?thesis unfolding SyncFromIDP_def Inr sum.case if_not_P [OF f(1)] if_not_P [OF f(2)] Let_def applyChanged_def
        by (intro apart_listed(2) [OF ap] apart_after_claim [where i = "u_ID u" and c = c] follows_intros claim_writes [OF n]; simp)
    qed (use ap in \<open>auto simp: SyncFromIDP_def Inr\<close>)
  qed (simp add: SyncFromIDP_def ap)
  have c: "follows (on_users (apart_step (em_parse em) now)) (Confirm em now u token)"
    unfolding Confirm_def applyChanged_def Let_def by (intro follows_intros apart_writes apart_step.frame_send m)
  have x: "follows (on_users (apart_step (em_parse em) now)) (Cancel em now u)"
    unfolding Cancel_def by (intro follows_intros apart_writes)
  show "mailboxes_apart (em_parse em) now (users (db (snd (Confirm em now u token w))))"
    "mailboxes_apart (em_parse em) now (users (db (snd (Cancel em now u w))))"
    using follows_at [OF c, of w] follows_at [OF x, of w] ap by (simp_all add: on_users_def apart_step_def)
qed

lemma stmt_either: "db (snd (stmt q w)) = db w \<or> db (snd (stmt q w)) = snd (q (db w))"
  by (auto simp: stmt_def split: fault.splits)

lemma insert_apart:
  assumes "mailboxes_apart pa now us" and "claimable pa now '''' c us" and "uc_email r = c" and "NormalizeAddress pa c = Inr c"
    and "uc_id r \<noteq> ''''" and "uc_pending_email r = None"
  shows "mailboxes_apart pa now (us @ [r])"
proof -
  have k: "address_keys pa now r = {fold_key c}" "well_addressed pa r" using assms(3-6) by (simp_all add: keys_defs)
  have "fold_key c \<notin> address_keys pa now s" if "s \<in> set us" for s
    using that assms(1,2) by (auto simp: claimable_def mailboxes_apart_def well_addressed_def)
  then show ?thesis using assms(1) k by (auto simp: mailboxes_apart_def)
qed

lemma Create_apart:
  assumes "mailboxes_apart pa now (users (db w))" and "claimable pa now '''' c (users (db w))" and "NormalizeAddress pa c = Inr c" and "newID \<noteq> ''''"
  shows "mailboxes_apart pa now (users (db (snd (UserRepo_Create newID now' (new_user c role) w))))"
proof -
  have st: "db (snd (bindE m (\<lambda>_. ret x) v)) = db (snd (m v))" for m :: "('a world_scheme, unit) action" and x :: User and v
    by (auto simp: bindE_def split: sum.splits prod.splits)
  define r where "r = \<lparr> uc_id = newID, uc_email = c, uc_role = role, uc_oidc_provider = None, uc_oidc_subject = None, uc_disabled = False,
    uc_created_at = now', uc_updated_at = now', uc_pending_email = None, uc_pending_email_hash = None, uc_pending_email_expires_at = None,
    uc_webauthn_handle = None \<rparr>"
  have "db (snd (UserRepo_Create newID now' (new_user c role) w)) = db (snd (stmt (insert_user r) w))"
    by (simp add: UserRepo_Create_def new_user_def st r_def nullIfEmpty_def)
  then have "users (db (snd (UserRepo_Create newID now' (new_user c role) w))) \<in> {users (db w), users (db w) @ [r]}"
    using stmt_either [of "insert_user r" w] by (auto simp: insert_user_def split: if_splits)
  then show ?thesis using assms insert_apart [OF assms(1,2), of r] by (auto simp: r_def)
qed

lemma invite_apart:
  assumes m: "\<And>gs. ad_grants ad = Some gs \<Longrightarrow> mail_only (gs_mailer gs)" and ap: "mailboxes_apart (ad_parse ad) now (users (db w))" and "newID \<noteq> ''''"
  shows "mailboxes_apart (ad_parse ad) now (users (db (snd (CreateUserInvite ad rnd newID now a e role w))))"
proof (cases "validRole role \<and> (\<exists>c gs. NormalizeAddress (ad_parse ad) e = Inr c \<and> ad_grants ad = Some gs \<and> gs_passkeys gs \<noteq> None)")
  case False
  then show ?thesis using ap by (auto simp: CreateUserInvite_def split: sum.splits option.splits)
next
  case True
  then obtain c gs where c: "validRole role" "NormalizeAddress (ad_parse ad) e = Inr c" "ad_grants ad = Some gs" "gs_passkeys gs \<noteq> None" by blast
  have n: "NormalizeAddress (ad_parse ad) c = Inr c" using NormalizeAddress_stable [OF c(2)] by simp
  have rest: "follows (on_users (apart_step (ad_parse ad) now))
      (bindE (auditWriter_Log now (audit_entry a ''user.created'' ''user'' (u_ID u) '''')) (\<lambda>_.
       bindE (IssueInvite gs rnd now a u) (\<lambda>(link, d). ret (u, link, d))))" for u
    unfolding IssueInvite_def Grants.deliver_def by (intro follows_intros apart_step.frame_send m [OF c(3)])
  show ?thesis
    unfolding CreateUserInvite_def c(2,3) sum.case option.case if_not_P [OF c(4)] using c(1)
  proof (simp only: not_True_eq_False if_False, intro apart_listed(1) [OF ap], goal_cases)
    case (1 v)
    obtain x v1 where x: "UserRepo_Create newID now (new_user c role) v = (x, v1)" by (cases "UserRepo_Create newID now (new_user c role) v")
    have "mailboxes_apart (ad_parse ad) now (users (db v1))" using Create_apart [OF 1(3,4) n assms(3), of now role] x by simp
    with x follows_at [OF rest, of v1] show ?case by (cases x) (simp_all add: bindE_def [of "UserRepo_Create _ _ _"] on_users_def apart_step_def)
  qed simp
qed

section \<open>Runs\<close>

text \<open>Everything else: rows may go and staged changes may be dropped, addresses stay.\<close>

definition addresses_kept :: "user_row list \<Rightarrow> user_row list \<Rightarrow> bool" where
  "addresses_kept us vs \<longleftrightarrow> (\<forall>s \<in> set vs. \<exists>r \<in> set us. uc_id s = uc_id r \<and> uc_email s = uc_email r \<and>
     (uc_pending_email s = None \<or> uc_pending_email s = uc_pending_email r \<and> uc_pending_email_expires_at s = uc_pending_email_expires_at r))"

lemma addresses_kept_apart:
  assumes "addresses_kept us vs" and "mailboxes_apart pa now us"
  shows "mailboxes_apart pa now vs"
proof -
  have "well_addressed pa s \<and> (\<exists>r \<in> set us. uc_id s = uc_id r \<and> address_keys pa now s \<subseteq> address_keys pa now r)" if "s \<in> set vs" for s
  proof -
    from assms(1) [unfolded addresses_kept_def, THEN bspec, OF that] obtain r where r0: "r \<in> set us"
      "uc_id s = uc_id r \<and> uc_email s = uc_email r \<and>
       (uc_pending_email s = None \<or> uc_pending_email s = uc_pending_email r \<and> uc_pending_email_expires_at s = uc_pending_email_expires_at r)"
      by (rule bexE)
    note r = r0(1) conjunct1 [OF r0(2)] conjunct1 [OF conjunct2 [OF r0(2)]] conjunct2 [OF conjunct2 [OF r0(2)]]
    have "well_addressed pa r" using assms(2) r(1) by (auto simp: mailboxes_apart_def)
    then have "well_addressed pa s" using r(2,4) by (elim disjE) (simp_all add: well_addressed_def)
    moreover have "address_keys pa now s \<subseteq> address_keys pa now r"
      using r(3,4) by (elim disjE conjE) (simp_all add: address_keys_def pending_live_def split: option.split)
    ultimately show ?thesis using r(1,2) by blast
  qed
  then show ?thesis by (rule apart_rows [OF assms(2)])
qed

inductive address_run :: "parse_address \<Rightarrow> int \<Rightarrow> 'z world_scheme \<Rightarrow> int \<Rightarrow> 'z world_scheme \<Rightarrow> bool" where
  stop: "address_run pa t w t w"
| request: "address_run pa t0 w0 t w \<Longrightarrow> t \<le> now \<Longrightarrow> em_parse (em :: 'z world_scheme email_changes) = pa \<Longrightarrow> mail_only (em_mailer em) \<Longrightarrow>
    address_run pa t0 w0 now (snd (Request em rnd now u e w))"
| confirm: "address_run pa t0 w0 t w \<Longrightarrow> t \<le> now \<Longrightarrow> em_parse (em :: 'z world_scheme email_changes) = pa \<Longrightarrow> mail_only (em_mailer em) \<Longrightarrow>
    address_run pa t0 w0 now (snd (Confirm em now u token w))"
| cancel: "address_run pa t0 w0 t w \<Longrightarrow> t \<le> now \<Longrightarrow> em_parse (em :: 'z world_scheme email_changes) = pa \<Longrightarrow> mail_only (em_mailer em) \<Longrightarrow>
    address_run pa t0 w0 now (snd (Cancel em now u w))"
| admin_set: "address_run pa t0 w0 t w \<Longrightarrow> t \<le> now \<Longrightarrow> em_parse (em :: 'z world_scheme email_changes) = pa \<Longrightarrow> mail_only (em_mailer em) \<Longrightarrow>
    address_run pa t0 w0 now (snd (AdminSet em now a u e w))"
| sync: "address_run pa t0 w0 t w \<Longrightarrow> t \<le> now \<Longrightarrow> em_parse (em :: 'z world_scheme email_changes) = pa \<Longrightarrow> mail_only (em_mailer em) \<Longrightarrow>
    address_run pa t0 w0 now (snd (SyncFromIDP em now u claim w))"
| invite: "address_run pa t0 w0 t w \<Longrightarrow> t \<le> now \<Longrightarrow> ad_parse (ad :: 'z world_scheme admin_service) = pa \<Longrightarrow>
    (\<And>gs. ad_grants ad = Some gs \<Longrightarrow> mail_only (gs_mailer gs)) \<Longrightarrow> newID \<noteq> '''' \<Longrightarrow>
    address_run pa t0 w0 now (snd (CreateUserInvite ad rnd newID now a e role w))"
| other: "address_run pa t0 w0 t w \<Longrightarrow> t \<le> now \<Longrightarrow> addresses_kept (users (db w)) (users (db w')) \<Longrightarrow> address_run pa t0 w0 now w'"

text \<open>
  C32. No two accounts speak for one mailbox. Start where none do; then, over any sequence of
  self-service requests, confirmations, cancellations, administrators' changes, syncs from the identity
  provider, invitations and other activity, each run to its end, at non-decreasing times, with any driver failures,
  arbitrary and outdated user rows as arguments and whatever the mailer does: the canonical addresses of different accounts,
  and the staged addresses that can still be confirmed, differ even without regard to case. Pending changes whose time
  is over do not count, and cannot be confirmed any more.
\<close>

theorem mailboxes_stay_apart:
  assumes "address_run pa t0 w0 t w" and "mailboxes_apart pa t0 (users (db w0))"
  shows "mailboxes_apart pa t (users (db w))"
  using assms
proof (induction rule: address_run.induct)
  case (request pa t0 w0 t w now em rnd u e)
  then show ?case using Request_apart apart_later by blast
next
  case (confirm pa t0 w0 t w now em u token)
  then show ?case using changes_apart(3) apart_later by blast
next
  case (cancel pa t0 w0 t w now em u)
  then show ?case using changes_apart(4) apart_later by blast
next
  case (admin_set pa t0 w0 t w now em a u e)
  then show ?case using changes_apart(1) apart_later by blast
next
  case (sync pa t0 w0 t w now em u claim)
  then show ?case using changes_apart(2) apart_later by blast
next
  case (invite pa t0 w0 t w now ad newID rnd a e role)
  then show ?case using invite_apart apart_later by blast
next
  case (other pa t0 w0 t w now w')
  then show ?case using addresses_kept_apart apart_later by blast
qed

section \<open>Signup through OIDC\<close>

text \<open>
  Where the mailboxes do not stay apart: signup through OIDC looks an address up by its exact spelling. With signup on, a
  new identity whose claim is a case variant of the address of another account gets an account of its own,
  and from then on two accounts speak for one mailbox.
\<close>

theorem oidc_signup_shares_mailbox:
  assumes c: "calm w" and s: "sound (db w)"
    and new: "\<forall>q \<in> set (users (db w)). \<not> identified iss sub q \<and> NormalizeAddress (em_parse (oi_emails oi)) (uc_email q) \<noteq> Inr a \<and> uc_email q \<noteq> a \<and> uc_id q \<noteq> newID"
    and claim: "e \<noteq> ''''" "NormalizeAddress (em_parse (oi_emails oi)) e = Inr a" and ids: "newID \<noteq> ''''" "iss \<noteq> ''''" "sub \<noteq> ''''"
    and other: "r \<in> set (users (db w))" "NormalizeAddress (em_parse (oi_emails oi)) (uc_email r) = Inr b" "EqualFold a b"
    and on: "oi_AllowOIDCSignup oi"
  shows "\<exists>u w'. LoginOrLink oi newID now iss sub e v w = (Inr (u, None), w') \<and> u_ID u = newID \<and>
    \<not> mailboxes_apart (em_parse (oi_emails oi)) now (users (db w'))"
proof -
  let ?pa = "em_parse (oi_emails oi)"
  define q where "q = \<lparr> uc_id = newID, uc_email = a, uc_role = ''user'', uc_oidc_provider = Some iss, uc_oidc_subject = Some sub, uc_disabled = False,
    uc_created_at = now, uc_updated_at = now, uc_pending_email = None, uc_pending_email_hash = None, uc_pending_email_expires_at = None,
    uc_webauthn_handle = None \<rparr>"
  define u where "u = (new_user a ''user'')\<lparr>u_OIDCProvider := iss, u_OIDCSubject := sub, u_ID := newID, u_CreatedAt := now, u_UpdatedAt := now\<rparr>"
  have e1: "find (\<lambda>q. uc_email q = a) (users (db w)) = None" using new by (simp add: find_None_iff)
  have e2: "find (\<lambda>u. NormalizeAddress ?pa (u_Email u) = Inr a) (map scanUser (sort_key uc_email (users (db w)))) = None"
    using new by (auto simp: find_None_iff scanUser_def)
  have f: "findByEmail ?pa a w = (Inl ErrNotFound, w)"
    using c by (simp add: findByEmail_def UserRepo_GetByEmail_def UserRepo_List_def e1 e2 bindE_def tryE_def)
  have "insert_user q (db w) = (Inr (), (db w)\<lparr>users := users (db w) @ [q]\<rparr>)"
    using new by (auto simp: insert_user_def q_def role_ok_def user_clash_def same_oidc_def same_handle_def identified_def)
  then have cr: "UserRepo_Create newID now ((new_user a ''user'')\<lparr>u_OIDCProvider := iss, u_OIDCSubject := sub\<rparr>) w =
      (Inr u, w\<lparr>db := (db w)\<lparr>users := users (db w) @ [q]\<rparr>\<rparr>)"
    using c ids by (simp add: UserRepo_Create_def new_user_def bindE_def nullIfEmpty_def q_def u_def)
  define w' where "w' = snd (auditWriter_Log now (audit_entry newID ''user.created'' ''user'' newID '''') (w\<lparr>db := (db w)\<lparr>users := users (db w) @ [q]\<rparr>\<rparr>))"
  have "signup oi newID now iss sub a w = (Inr u, w')"
    using on by (simp add: signup_def bindE_tryE_case cr bindE_audit w'_def u_def)
  then have "LoginOrLink oi newID now iss sub e v w = (Inr (u, None), w')"
    using f claim c new by (simp add: LoginOrLink_def GetByOIDC_calm_none bindE_tryE_case normalizeClaim_def bindE_def tryE_def)
  moreover have "NormalizeAddress ?pa a = Inr a" using NormalizeAddress_stable [OF claim(2)] by simp
  then have "\<not> mailboxes_apart ?pa now (users (db w'))"
    using other new by (auto simp: mailboxes_apart_def w'_def q_def address_keys_def EqualFold_def intro!: bexI [of _ r])
  ultimately show ?thesis by (auto simp: u_def)
qed

section \<open>Concrete accounts\<close>

definition plain_parse :: parse_address where
  "plain_parse a = Some ('''', a)"

lemma NormalizeAddress_plain: "NormalizeAddress plain_parse a = (if IsASCII a then Inr a else Inl ErrNotASCII)"
  by (simp add: NormalizeAddress_def plain_parse_def)

definition one_world :: world where
  "one_world = \<lparr> db = empty_db\<lparr>users := [u1]\<rparr>, faults = [] \<rparr>"

lemma one_world_sound: "sound (db one_world)"
  by (simp add: one_world_def u1_def empty_db_def sound_def wf_hist_def wf_db_def wf_table_defs hist_agrees_def
      wf_identity_def wf_accounts_def wf_bootstrap_def wf_audit_def pending_whole_def role_ok_def user_clash_def same_oidc_def same_handle_def)

lemma one_world_apart: "mailboxes_apart pa t (users (db one_world))"
  by (simp add: mailboxes_apart_def one_world_def u1_def well_addressed_def)

lemma plain_emails_parse: "em_parse plain_emails = plain_parse" "em_mailer plain_emails = None"
  by (auto simp: plain_emails_def plain_parse_def)

theorem mailboxes_stay_apart_witness:
  "mailboxes_apart plain_parse 9 (users (db (snd (Request plain_emails (Some ''tok'') 9 (scanUser u1) ''b@example.org'' one_world))))"
proof -
  have m: "mail_only (em_mailer plain_emails)" by (simp add: plain_emails_parse mail_only_def)
  have "address_run plain_parse 0 one_world 9 (snd (Request plain_emails (Some ''tok'') 9 (scanUser u1) ''b@example.org'' one_world))"
    by (rule address_run.request [OF address_run.stop _ plain_emails_parse(1) m]) simp
  from mailboxes_stay_apart [OF this one_world_apart] show ?thesis .
qed

theorem oidc_signup_shares_mailbox_witness:
  "\<exists>u w'. LoginOrLink plain_oidc ''n'' 5 ''iss'' ''sub'' ''A@example.org'' True one_world = (Inr (u, None), w') \<and> u_ID u = ''n'' \<and>
    \<not> mailboxes_apart plain_parse 5 (users (db w'))"
proof -
  have p: "em_parse (oi_emails plain_oidc) = plain_parse" by (simp add: plain_oidc_def plain_emails_parse)
  have u: "users (db one_world) = [u1]" "calm one_world" by (simp_all add: one_world_def)
  have "EqualFold ''A@example.org'' ''a@example.org''"
    by code_simp
  then show ?thesis
    using oidc_signup_shares_mailbox [where w = one_world and iss = "''iss''" and sub = "''sub''" and oi = plain_oidc and a = "''A@example.org''" and
      newID = "''n''" and e = "''A@example.org''" and r = u1 and b = "''a@example.org''" and now = 5 and v = True, OF u(2) one_world_sound, unfolded p u(1)]
    by (simp add: NormalizeAddress_plain IsASCII_def byte_def u1_def identified_def plain_oidc_def)
qed

end
