(* ===== verification/Api_Keys.thy ===== *)
theory Api_Keys
  imports Address_Props Dest_Policy Stream_Access
begin

text \<open>
  \<open>internal/server/service/apikeys.go\<close>, auth.go and notification.go: personal API keys, logout, and the
  administration of webhook endpoints. \<open>w_keyTouch\<close> is the throttle of \<open>APIKeyService\<close>; \<open>details\<close> is the JSON encoder of
  the audit details, \<open>url_Parse\<close> of net/url yields scheme and host name.
\<close>

section \<open>API keys\<close>

abbreviation "ErrKeyMalformed \<equiv> ErrSentinel ''service: malformed API key''"
abbreviation "ErrInvalidKeyLabel \<equiv> ErrSentinel ''service: API key label must not be empty''"

record keyworld = feedworld +
  w_keyTouch :: "string \<Rightarrow> int option"

definition MintKey ::
  "crypto \<Rightarrow> (string \<Rightarrow> string) \<Rightarrow> string option \<Rightarrow> string \<Rightarrow> int \<Rightarrow> string \<Rightarrow> string \<Rightarrow> ('z world_scheme, APIKey \<times> string) action" where
  "MintKey cr details rnd newID now userID label0 =
     (let label = TrimSpace label0 in
      if label = '''' then fail ErrInvalidKeyLabel
      else bindE (lift_res (RandToken rnd)) (\<lambda>r.
        let plaintext = APIKeyPrefix @ r;
            key = \<lparr> kk_ID = newID, kk_UserID = userID, kk_Label = label, kk_KeyHash = HashToken cr plaintext,
                    kk_AdminScope = False, kk_CreatedAt = now, kk_LastUsedAt = 0 \<rparr>
        in bindE (APIKeyRepo_Create key) (\<lambda>_.
           bindE (auditWriter_Log now
             ((audit_entry userID ''api_key.created'' ''api_key'' newID '''')\<lparr>ae_DetailsJSON := details label\<rparr>)) (\<lambda>_.
           ret (key, plaintext)))))"

definition ListKeys :: "string \<Rightarrow> ('z world_scheme, APIKey list) action" where
  "ListKeys userID = APIKeyRepo_List userID"

definition ownedKey :: "string \<Rightarrow> string \<Rightarrow> ('z world_scheme, APIKey) action" where
  "ownedKey userID i =
     bindE (APIKeyRepo_GetByID i) (\<lambda>key. if kk_UserID key \<noteq> userID then fail ErrNotFound else ret key)"

definition forget_key :: "string \<Rightarrow> ('z keyworld_scheme, unit) action" where
  "forget_key i w = (Inr (), w\<lparr>w_keyTouch := (w_keyTouch w)(i := None)\<rparr>)"

definition RevokeKey :: "int \<Rightarrow> string \<Rightarrow> string \<Rightarrow> ('z keyworld_scheme, unit) action" where
  "RevokeKey now userID i =
     bindE (ownedKey userID i) (\<lambda>key.
     bindE (APIKeyRepo_Delete (kk_ID key)) (\<lambda>_.
     bindE (forget_key (kk_ID key)) (\<lambda>_.
     auditWriter_Log now (audit_entry userID ''api_key.revoked'' ''api_key'' (kk_ID key) ''''))))"

definition key_touch_due :: "string \<Rightarrow> int \<Rightarrow> ('z keyworld_scheme, bool) action" where
  "key_touch_due i now w =
     (let due = now - (case w_keyTouch w i of None \<Rightarrow> 0 | Some t \<Rightarrow> t) \<ge> lastUsedThrottle in
      (Inr due, if due then w\<lparr>w_keyTouch := (w_keyTouch w)(i \<mapsto> now)\<rparr> else w))"

definition APIKeyService_Authenticate :: "crypto \<Rightarrow> int \<Rightarrow> string \<Rightarrow> ('z keyworld_scheme, APIKey) action" where
  "APIKeyService_Authenticate cr now plaintext =
     (if \<not> has_prefix plaintext APIKeyPrefix then fail ErrKeyMalformed
      else bindE (APIKeyRepo_GetByHash (HashToken cr plaintext)) (\<lambda>key.
        bindE (key_touch_due (kk_ID key) now) (\<lambda>due.
        if due then bindE (tryE (APIKeyRepo_TouchLastUsed (kk_ID key) now)) (\<lambda>_. ret (key\<lparr>kk_LastUsedAt := now\<rparr>))
        else ret key)))"

definition UserForKey :: "APIKey \<Rightarrow> ('z world_scheme, User) action" where
  "UserForKey key = UserRepo_GetByID (kk_UserID key)"

section \<open>Logout\<close>

definition Logout :: "int \<Rightarrow> Session \<Rightarrow> ('z world_scheme, unit) action" where
  "Logout now sess =
     bindE (SessionManager_Destroy (se_ID sess)) (\<lambda>_.
     auditWriter_Log now (audit_entry (se_UserID sess) ''user.logout'' '''' '''' (se_IP sess)))"

section \<open>Webhook endpoints\<close>

record notification_service =
  ns_crypto :: crypto
  ns_sealKey :: string
  ns_allowed :: "Prefix list"
  ns_url :: "string \<Rightarrow> (string \<times> string) option"
  ns_parseAddr :: "string \<Rightarrow> Addr option"
  ns_details :: "string \<Rightarrow> err \<Rightarrow> string"
  ns_codec :: codec

definition NotificationService_List :: "('z world_scheme, NotificationEndpoint list) action" where
  "NotificationService_List = EndpointRepo_List"

definition NotificationService_Get :: "string \<Rightarrow> ('z world_scheme, NotificationEndpoint) action" where
  "NotificationService_Get i = EndpointRepo_Get i"

definition validateTarget :: "notification_service \<Rightarrow> string \<Rightarrow> err + unit" where
  "validateTarget ns rawURL =
     (case ns_url ns rawURL of
        None \<Rightarrow> Inl ErrDecode
      | Some (scheme, host) \<Rightarrow>
          if scheme \<noteq> ''http'' \<and> scheme \<noteq> ''https'' then Inl ErrDenied
          else if host = '''' then Inl ErrDenied
          else (case ns_parseAddr ns host of None \<Rightarrow> Inr () | Some a \<Rightarrow> Permit scheme a (ns_allowed ns)))"

definition NotificationService_Create ::
  "notification_service \<Rightarrow> draws \<Rightarrow> int \<Rightarrow> string \<Rightarrow> string \<Rightarrow> string \<Rightarrow> ('z world_scheme, NotificationEndpoint \<times> string) action" where
  "NotificationService_Create ns dr now actorID label rawURL =
     (case validateTarget ns rawURL of
        Inl e \<Rightarrow>
          bindE (auditWriter_Log now
            ((audit_entry actorID ''notification.target_rejected'' ''notification_endpoint'' '''' '''')\<lparr>ae_DetailsJSON := ns_details ns rawURL e\<rparr>)) (\<lambda>_.
          fail e)
      | Inr _ \<Rightarrow>
          bindE (lift_res (GenerateSecret (dr_secret dr))) (\<lambda>secret.
          bindE (lift_res (SealSecret (ns_crypto ns) (dr_nonce dr) (ns_sealKey ns) secret)) (\<lambda>sealed.
          let ep = \<lparr> ne_ID = dr_id dr, ne_Label = label, ne_URL = rawURL, ne_SecretSealed = sealed, ne_Enabled = True,
                     ne_CreatedAt = now, ne_UpdatedAt = now \<rparr> in
          bindE (EndpointRepo_Create ep) (\<lambda>_.
          bindE (auditWriter_Log now (audit_entry actorID ''notification.endpoint_created'' ''notification_endpoint'' (dr_id dr) '''')) (\<lambda>_.
          bindE (auditWriter_Log now (audit_entry actorID ''notification.secret_revealed'' ''notification_endpoint'' (dr_id dr) '''')) (\<lambda>_.
          ret (ep, EncodeToString secret)))))))"

definition NotificationService_SetEnabled :: "int \<Rightarrow> string \<Rightarrow> string \<Rightarrow> bool \<Rightarrow> ('z world_scheme, unit) action" where
  "NotificationService_SetEnabled now actorID i enabled =
     bindE (EndpointRepo_SetEnabled now i enabled) (\<lambda>_.
     auditWriter_Log now (audit_entry actorID
       (if enabled then ''notification.endpoint_enabled'' else ''notification.endpoint_disabled'') ''notification_endpoint'' i ''''))"

definition NotificationService_Delete :: "int \<Rightarrow> string \<Rightarrow> string \<Rightarrow> ('z world_scheme, unit) action" where
  "NotificationService_Delete now actorID i =
     bindE (EndpointRepo_Delete i) (\<lambda>_.
     auditWriter_Log now (audit_entry actorID ''notification.endpoint_deleted'' ''notification_endpoint'' i ''''))"

definition NotificationService_Test :: "notification_service \<Rightarrow> int \<Rightarrow> string \<Rightarrow> string \<Rightarrow> ('z world_scheme, bool) action" where
  "NotificationService_Test ns now actorID i =
     bindE (lift_res (RenderTest (ns_codec ns) now)) (\<lambda>payload.
     bindE (InsertUserTest i payload now) (\<lambda>ok.
     if \<not> ok then ret False
     else
       bindE (auditWriter_Log now (audit_entry actorID ''notification.test_sent'' ''notification_endpoint'' i '''')) (\<lambda>_.
       ret True)))"

definition Redeliver :: "int \<Rightarrow> string \<Rightarrow> int \<Rightarrow> ('z world_scheme, bool) action" where
  "Redeliver now actorID deliveryID =
     bindE (InsertRedelivery deliveryID now) (\<lambda>ok.
     if \<not> ok then ret False
     else
       bindE (auditWriter_Log now (audit_entry actorID ''notification.redelivered'' ''notification_delivery'' (showInt deliveryID) '''')) (\<lambda>_.
       ret True))"

definition Deliveries :: "string \<Rightarrow> nat \<Rightarrow> ('z world_scheme, NotificationDelivery list) action" where
  "Deliveries endpointID limit = ListByEndpoint endpointID limit"

end
