(* ===== verification/Api_Auth.thy ===== *)
theory Api_Auth
  imports Api_Keys Auth_Props
begin

text \<open>
  \<open>internal/server/api/authmw.go\<close>: the middleware of the REST API. A middleware either answers the request itself
  (\<open>Inl\<close>: status and message) or calls the next one with more values in the request's context (\<open>Inr\<close>); a chain
  runs left to right. Which record a rejection leaves in the log is not modelled, nor is the
  wire form huma gives an error.
\<close>

section \<open>Requests and their context\<close>

text \<open>
  An absent header reads as the empty string, as \<open>ctx.Header\<close> has it. \<open>rq_Body\<close> is \<open>None\<close> when reading fails.
  \<open>rq_gone1\<close> and \<open>rq_gone2\<close>: the request's context has ended when the first or second look-up fails.
\<close>

record http_request =
  rq_Method :: string
  rq_Path :: string
  rq_Body :: "string option"
  rq_Authorization :: string
  rq_Cookie :: "string option"
  rq_CSRF :: string
  rq_Device :: string
  rq_Timestamp :: string
  rq_Nonce :: string
  rq_Signature :: string
  rq_gone1 :: bool
  rq_gone2 :: bool

record request_ctx =
  cx_deviceID :: "string option"
  cx_user :: "User option"
  cx_session :: "Session option"
  cx_authMethod :: "string option"

definition empty_ctx :: request_ctx where
  "empty_ctx = \<lparr> cx_deviceID = None, cx_user = None, cx_session = None, cx_authMethod = None \<rparr>"

definition zeroUser :: User where
  "zeroUser = new_user '''' ''''"

definition zeroSession :: Session where
  "zeroSession = \<lparr> se_ID = '''', se_UserID = '''', se_CSRFToken = '''', se_IP = '''', se_UserAgent = '''',
     se_CreatedAt = 0, se_LastSeenAt = 0, se_ExpiresAt = 0 \<rparr>"

definition authMethodAPIKey :: string where "authMethodAPIKey = ''api_key''"

definition DeviceIDFrom :: "request_ctx \<Rightarrow> string" where
  "DeviceIDFrom cx = (case cx_deviceID cx of None \<Rightarrow> '''' | Some i \<Rightarrow> i)"

definition UserFrom :: "request_ctx \<Rightarrow> User" where
  "UserFrom cx = (case cx_user cx of None \<Rightarrow> zeroUser | Some u \<Rightarrow> u)"

definition SessionFrom :: "request_ctx \<Rightarrow> Session" where
  "SessionFrom cx = (case cx_session cx of None \<Rightarrow> zeroSession | Some s \<Rightarrow> s)"

type_synonym reply = "int \<times> string"

type_synonym 'w middleware = "http_request \<Rightarrow> request_ctx \<Rightarrow> ('w, reply + request_ctx) action"

section \<open>The middleware\<close>

definition maxAgentBody :: nat where "maxAgentBody = 64 * 1024"

definition hmacMiddleware :: "verifier \<Rightarrow> nat \<Rightarrow> int \<Rightarrow> 'z authworld_scheme middleware" where
  "hmacMiddleware v maxBody now rq cx =
     (case rq_Body rq of
        None \<Rightarrow> ret (Inl (413, ''request body too large''))
      | Some b \<Rightarrow>
          if length (take (maxBody + 1) b) > maxBody then ret (Inl (413, ''request body too large''))
          else bindE (tryE (Verify v (rq_gone1 rq) (rq_gone2 rq)
                 \<lparr> rp_Device = rq_Device rq, rp_Timestamp = rq_Timestamp rq, rp_Nonce = rq_Nonce rq, rp_Signature = rq_Signature rq,
                   rp_Method = rq_Method rq, rp_Path = rq_Path rq, rp_Body = b \<rparr> now)) (\<lambda>r.
            case r of
              Inl _ \<Rightarrow> ret (Inl (401, ''unauthorized''))
            | Inr deviceID \<Rightarrow> ret (Inr (cx\<lparr>cx_deviceID := Some deviceID\<rparr>))))"

text \<open>What the rejection record may say of an unauthenticated device header.\<close>

definition claimedDeviceID :: "string \<Rightarrow> string" where
  "claimedDeviceID s =
     (if length s > 128 then ''''
      else if \<exists>c \<in> set s. of_char c < (32 :: nat) \<or> of_char c > (126 :: nat) then '''' else s)"

definition sessionMiddleware :: "session_manager \<Rightarrow> int \<Rightarrow> 'z world_scheme middleware" where
  "sessionMiddleware sm now rq cx =
     bindE (tryE (AuthenticateRequest sm (rq_gone1 rq) (rq_gone2 rq) now (rq_Cookie rq))) (\<lambda>r.
       case r of
         Inl _ \<Rightarrow> ret (Inl (401, ''unauthorized''))
       | Inr (usr, sess) \<Rightarrow> ret (Inr (cx\<lparr>cx_user := Some usr, cx_session := Some sess\<rparr>)))"

text \<open>The reasons of the key path differ only in the log, so its failing branches are one answer.\<close>

definition key_path :: "crypto \<Rightarrow> int \<Rightarrow> string \<Rightarrow> request_ctx \<Rightarrow> ('z keyworld_scheme, reply + request_ctx) action" where
  "key_path cr now plaintext cx =
     bindE (tryE (APIKeyService_Authenticate cr now plaintext)) (\<lambda>r.
       case r of
         Inl _ \<Rightarrow> ret (Inl (401, ''unauthorized''))
       | Inr key \<Rightarrow>
           bindE (tryE (UserForKey key)) (\<lambda>q.
             case q of
               Inl _ \<Rightarrow> ret (Inl (401, ''unauthorized''))
             | Inr usr \<Rightarrow>
                 if u_Disabled usr then ret (Inl (401, ''unauthorized''))
                 else let effectiveUser = (if kk_AdminScope key then usr else usr\<lparr>u_Role := ''user''\<rparr>) in
                   ret (Inr (cx\<lparr>cx_user := Some effectiveUser, cx_authMethod := Some authMethodAPIKey\<rparr>))))"

definition sessionOrAPIKeyMiddleware :: "crypto \<Rightarrow> session_manager \<Rightarrow> int \<Rightarrow> 'z keyworld_scheme middleware" where
  "sessionOrAPIKeyMiddleware cr sm now rq cx =
     (let header = rq_Authorization rq in
      if header = '''' then sessionMiddleware sm now rq cx
      else let plaintext = drop (length ''Bearer '') header in
        if \<not> has_prefix header ''Bearer '' \<or> \<not> has_prefix plaintext APIKeyPrefix \<or>
           CHR '' '' \<in> set plaintext \<or> CHR 0x09 \<in> set plaintext
        then ret (Inl (401, ''unauthorized''))
        else key_path cr now plaintext cx)"

definition csrfMiddleware :: "'w middleware" where
  "csrfMiddleware rq cx =
     (if cx_authMethod cx = Some authMethodAPIKey then ret (Inr cx)
      else if \<not> ValidCSRF (SessionFrom cx) (rq_CSRF rq) then ret (Inl (403, ''invalid csrf token''))
      else ret (Inr cx))"

definition adminMiddleware :: "'w middleware" where
  "adminMiddleware rq cx =
     (if u_Role (UserFrom cx) \<noteq> ''admin'' then ret (Inl (403, ''admin role required'')) else ret (Inr cx))"

fun run_chain :: "'w middleware list \<Rightarrow> 'w middleware" where
  "run_chain [] rq cx = ret (Inr cx)"
| "run_chain (m # ms) rq cx = bindE (m rq cx) (\<lambda>r. case r of Inl e \<Rightarrow> ret (Inl e) | Inr cx' \<Rightarrow> run_chain ms rq cx')"

section \<open>The chains of the route groups\<close>

record auth_deps =
  de_verifier :: verifier
  de_sessions :: session_manager
  de_crypto :: crypto

definition hmacMW :: "auth_deps \<Rightarrow> int \<Rightarrow> 'z authworld_scheme middleware" where
  "hmacMW de now = hmacMiddleware (de_verifier de) maxAgentBody now"

definition sessionMW :: "auth_deps \<Rightarrow> int \<Rightarrow> 'z world_scheme middleware" where
  "sessionMW de now = sessionMiddleware (de_sessions de) now"

definition sessionOrKeyMW :: "auth_deps \<Rightarrow> int \<Rightarrow> 'z keyworld_scheme middleware" where
  "sessionOrKeyMW de now = sessionOrAPIKeyMiddleware (de_crypto de) (de_sessions de) now"

definition adminReadMW :: "auth_deps \<Rightarrow> int \<Rightarrow> 'z keyworld_scheme middleware list" where
  "adminReadMW de now = [sessionOrKeyMW de now, adminMiddleware]"

definition adminWriteMW :: "auth_deps \<Rightarrow> int \<Rightarrow> 'z keyworld_scheme middleware list" where
  "adminWriteMW de now = [sessionOrKeyMW de now, adminMiddleware, csrfMiddleware]"

end
