(* ===== verification/Oidc_Client.thy ===== *)
theory Oidc_Client
  imports Oidc_Login
begin

text \<open>
  \<open>internal/oidc\<close>: the relying party. What go-oidc and oauth2 do for a discovered provider (the authorization
  URL, the code exchange, the device authorization, the verification of an ID token) and the token endpoint itself
  are functions in the published \<open>state\<close>; this package decides what to make of their answers.
\<close>

abbreviation "ErrNotReady \<equiv> ErrSentinel ''oidc: provider not ready''"
abbreviation "ErrDeviceUnsupported \<equiv> ErrSentinel ''oidc: device flow not supported by provider''"
abbreviation "ErrIdP \<equiv> ErrSentinel ''oidc: provider''"

record Claims =
  cl_Subject :: string
  cl_Email :: string
  cl_EmailVerified :: bool

text \<open>A verified ID token; \<open>it_claims\<close> is \<open>None\<close> when its payload does not decode.\<close>

record id_token =
  it_Subject :: string
  it_Nonce :: string
  it_claims :: "(string \<times> bool) option"

record device_response =
  dv_DeviceCode :: string
  dv_UserCode :: string
  dv_VerificationURI :: string
  dv_VerificationURIComplete :: string
  dv_Expiry :: "int option"
  dv_Interval :: int

record deviceTokenResponse =
  tr_IDToken :: string
  tr_Error :: string

text \<open>
  The published snapshot. \<open>st_exchange\<close> yields the \<open>id_token\<close> member of the token response, if it has one; \<open>st_poll\<close> is
  the answer of the token endpoint to a device code, \<open>None\<close> when it does not decode.
\<close>

record provider_state =
  st_deviceAuthURL :: string
  st_authCodeURL :: "string \<Rightarrow> string \<Rightarrow> string \<Rightarrow> string"
  st_exchange :: "string \<Rightarrow> string \<Rightarrow> err + string option"
  st_verify :: "string \<Rightarrow> err + id_token"
  st_deviceAuth :: "err + device_response"
  st_poll :: "string \<Rightarrow> err + deviceTokenResponse option"

record oidc_manager =
  om_Enabled :: bool
  om_state :: "provider_state option"

section \<open>Discovery\<close>

text \<open>\<open>m = None\<close> is the nil manager, which both predicates tolerate.\<close>

definition Enabled :: "oidc_manager option \<Rightarrow> bool" where
  "Enabled m \<longleftrightarrow> (case m of None \<Rightarrow> False | Some om \<Rightarrow> om_Enabled om \<and> om_state om \<noteq> None)"

definition DeviceEnabled :: "oidc_manager option \<Rightarrow> bool" where
  "DeviceEnabled m \<longleftrightarrow>
     (case m of None \<Rightarrow> False
      | Some om \<Rightarrow> om_Enabled om \<and> (case om_state om of None \<Rightarrow> False | Some s \<Rightarrow> st_deviceAuthURL s \<noteq> ''''))"

text \<open>\<open>answer\<close> is what \<open>oidc.NewProvider\<close> yields this time.\<close>

definition Discover :: "err + provider_state \<Rightarrow> oidc_manager \<Rightarrow> (err + unit) \<times> oidc_manager" where
  "Discover answer om =
     (if \<not> om_Enabled om then (Inr (), om)
      else case answer of Inl e \<Rightarrow> (Inl e, om) | Inr s \<Rightarrow> (Inr (), om\<lparr>om_state := Some s\<rparr>))"

text \<open>In seconds.\<close>

definition retryBackoff :: "int list" where
  "retryBackoff = [2, 5, 15, 30, 60]"

text \<open>
  \<open>answers i\<close> is the outcome of attempt \<open>i\<close>, \<open>sleep i\<close> whether the wait after it ran to its end. The result is the manager
  and the waits, in order; a loop that never returns has no result.
\<close>

partial_function (option) retry_from ::
  "(nat \<Rightarrow> err + provider_state) \<Rightarrow> (nat \<Rightarrow> bool) \<Rightarrow> nat \<Rightarrow> int list \<Rightarrow> oidc_manager \<Rightarrow> (oidc_manager \<times> int list) option" where
  "retry_from answers sleep i waits om =
     (let (r, om') = Discover (answers i) om in
      if r = Inr () \<and> Enabled (Some om') then Some (om', waits)
      else let d = retryBackoff ! min i (length retryBackoff - 1) in
        if \<not> sleep i then Some (om', waits @ [d]) else retry_from answers sleep (i + 1) (waits @ [d]) om')"

definition RetryLoop ::
  "(nat \<Rightarrow> err + provider_state) \<Rightarrow> (nat \<Rightarrow> bool) \<Rightarrow> oidc_manager \<Rightarrow> (oidc_manager \<times> int list) option" where
  "RetryLoop answers sleep om =
     (if \<not> om_Enabled om \<or> Enabled (Some om) then Some (om, []) else retry_from answers sleep 0 [] om)"

section \<open>The browser flow\<close>

record AuthRequest =
  aq_URL :: string
  aq_State :: string
  aq_Verifier :: string
  aq_Nonce :: string

definition BeginAuth :: "oidc_manager \<Rightarrow> string option \<Rightarrow> string option \<Rightarrow> string \<Rightarrow> err + AuthRequest" where
  "BeginAuth om rnd1 rnd2 verifier =
     (case om_state om of
        None \<Rightarrow> Inl ErrNotReady
      | Some s \<Rightarrow>
          (case RandToken rnd1 of
             Inl e \<Rightarrow> Inl e
           | Inr state \<Rightarrow>
               (case RandToken rnd2 of
                  Inl e \<Rightarrow> Inl e
                | Inr nonce \<Rightarrow> Inr \<lparr> aq_URL = st_authCodeURL s state verifier nonce, aq_State = state, aq_Verifier = verifier, aq_Nonce = nonce \<rparr>)))"

definition claimsFrom :: "id_token \<Rightarrow> err + Claims" where
  "claimsFrom idt =
     (case it_claims idt of
        None \<Rightarrow> Inl ErrDecode
      | Some (e, v) \<Rightarrow> Inr \<lparr> cl_Subject = it_Subject idt, cl_Email = e, cl_EmailVerified = v \<rparr>)"

definition CompleteAuth :: "oidc_manager \<Rightarrow> string \<Rightarrow> string \<Rightarrow> string \<Rightarrow> err + Claims" where
  "CompleteAuth om code verifier expectedNonce =
     (case om_state om of
        None \<Rightarrow> Inl ErrNotReady
      | Some s \<Rightarrow>
          (case st_exchange s code verifier of
             Inl e \<Rightarrow> Inl e
           | Inr None \<Rightarrow> Inl ErrIdP
           | Inr (Some raw) \<Rightarrow>
               if raw = '''' then Inl ErrIdP
               else (case st_verify s raw of
                       Inl e \<Rightarrow> Inl e
                     | Inr idt \<Rightarrow> if it_Nonce idt \<noteq> expectedNonce then Inl ErrIdP else claimsFrom idt)))"

section \<open>The device flow\<close>

record DeviceAuth =
  da_DeviceCode :: string
  da_UserCode :: string
  da_VerificationURI :: string
  da_VerificationURIComplete :: string
  da_ExpiresAt :: int
  da_Interval :: int

definition DeviceStart :: "int \<Rightarrow> oidc_manager \<Rightarrow> err + DeviceAuth" where
  "DeviceStart now om =
     (case om_state om of
        None \<Rightarrow> Inl ErrNotReady
      | Some s \<Rightarrow>
          if st_deviceAuthURL s = '''' then Inl ErrDeviceUnsupported
          else (case st_deviceAuth s of
                  Inl e \<Rightarrow> Inl e
                | Inr resp \<Rightarrow>
                    Inr \<lparr> da_DeviceCode = dv_DeviceCode resp, da_UserCode = dv_UserCode resp,
                          da_VerificationURI = dv_VerificationURI resp, da_VerificationURIComplete = dv_VerificationURIComplete resp,
                          da_ExpiresAt = (case dv_Expiry resp of None \<Rightarrow> now + 600 | Some t \<Rightarrow> t),
                          da_Interval = dv_Interval resp \<rparr>))"

datatype PollResult = PollPending | PollSlowDown | PollComplete Claims | PollDenied

definition DevicePoll :: "oidc_manager \<Rightarrow> string \<Rightarrow> err + PollResult" where
  "DevicePoll om deviceCode =
     (case om_state om of
        None \<Rightarrow> Inl ErrNotReady
      | Some s \<Rightarrow>
          (case st_poll s deviceCode of
             Inl e \<Rightarrow> Inl e
           | Inr None \<Rightarrow> Inl ErrDecode
           | Inr (Some tr) \<Rightarrow>
               if tr_Error tr = ''authorization_pending'' then Inr PollPending
               else if tr_Error tr = ''slow_down'' then Inr PollSlowDown
               else if tr_Error tr = ''access_denied'' \<or> tr_Error tr = ''expired_token'' then Inr PollDenied
               else if tr_Error tr \<noteq> '''' then Inl ErrIdP
               else if tr_IDToken tr = '''' then Inl ErrIdP
               else (case st_verify s (tr_IDToken tr) of
                       Inl e \<Rightarrow> Inl e
                     | Inr idt \<Rightarrow> (case claimsFrom idt of Inl e \<Rightarrow> Inl e | Inr c \<Rightarrow> Inr (PollComplete c)))))"

section \<open>What an accepted identity rests on\<close>

text \<open>
  Claims come out of either flow only with an ID token the provider's keys verify; in the browser flow the
  token also carries the nonce of this request, and comes from the exchange of this code with this verifier.
\<close>

lemma CompleteAuth_claims:
  assumes "CompleteAuth om code verifier nonce = Inr c"
  shows "\<exists>s raw idt. om_state om = Some s \<and> st_exchange s code verifier = Inr (Some raw) \<and> st_verify s raw = Inr idt \<and>
           it_Nonce idt = nonce \<and> cl_Subject c = it_Subject idt \<and> it_claims idt = Some (cl_Email c, cl_EmailVerified c)"
  using assms by (auto simp: CompleteAuth_def claimsFrom_def split: option.splits sum.splits if_splits)

lemma DevicePoll_claims:
  assumes "DevicePoll om code = Inr (PollComplete c)"
  shows "\<exists>s tr idt. om_state om = Some s \<and> st_poll s code = Inr (Some tr) \<and> tr_Error tr = '''' \<and>
           st_verify s (tr_IDToken tr) = Inr idt \<and> cl_Subject c = it_Subject idt \<and> it_claims idt = Some (cl_Email c, cl_EmailVerified c)"
  using assms by (auto simp: DevicePoll_def claimsFrom_def split: option.splits sum.splits if_splits)

text \<open>The retry loop returns a ready manager as soon as one attempt succeeds, having waited as the schedule says.\<close>

lemma retry_from_ready:
  assumes on: "om_Enabled om" and ok: "answers (i + n) = Inr s"
    and bad: "\<And>j. j < n \<Longrightarrow> isl (answers (i + j))" and awake: "\<And>j. j < n \<Longrightarrow> sleep (i + j)"
  shows "retry_from answers sleep i waits om =
    Some (om\<lparr>om_state := Some s\<rparr>, waits @ map (\<lambda>j. retryBackoff ! min j (length retryBackoff - 1)) [i ..< i + n])"
  using assms(2-)
proof (induction n arbitrary: i waits)
  case 0
  with on show ?case by (subst retry_from.simps) (simp add: Discover_def Enabled_def)
next
  case (Suc n)
  obtain e where e: "answers i = Inl e" using Suc.prems(2) [of 0] by (auto simp: isl_def)
  have sl: "sleep i" using Suc.prems(3) [of 0] by simp
  have "retry_from answers sleep i waits om = retry_from answers sleep (i + 1) (waits @ [retryBackoff ! min i (length retryBackoff - 1)]) om"
    by (subst retry_from.simps) (simp add: Discover_def on e sl)
  also have "\<dots> = Some (om\<lparr>om_state := Some s\<rparr>, (waits @ [retryBackoff ! min i (length retryBackoff - 1)]) @
      map (\<lambda>j. retryBackoff ! min j (length retryBackoff - 1)) [i + 1 ..< i + 1 + n])"
  proof (rule Suc.IH)
    show "answers (i + 1 + n) = Inr s" using Suc.prems(1) by simp
    show "isl (answers (i + 1 + j))" if "j < n" for j using Suc.prems(2) [of "Suc j"] that by simp
    show "sleep (i + 1 + j)" if "j < n" for j using Suc.prems(3) [of "Suc j"] that by simp
  qed
  also have "\<dots> = Some (om\<lparr>om_state := Some s\<rparr>, waits @ map (\<lambda>j. retryBackoff ! min j (length retryBackoff - 1)) [i ..< i + Suc n])"
    by (simp add: upt_conv_Cons del: upt_Suc)
  finally show ?case .
qed

lemma RetryLoop_ready:
  assumes "om_Enabled om" and "om_state om = None" and "answers n = Inr s"
    and "\<And>j. j < n \<Longrightarrow> isl (answers j) \<and> sleep j"
  shows "RetryLoop answers sleep om =
    Some (om\<lparr>om_state := Some s\<rparr>, map (\<lambda>j. retryBackoff ! min j (length retryBackoff - 1)) [0 ..< n])"
  using assms retry_from_ready [of om answers 0 n s sleep "[]"] by (simp add: RetryLoop_def Enabled_def)

end
