(* ===== verification/Api_Agent.thy ===== *)
theory Api_Agent
  imports Api_Auth Oidc_Client Feed_Documents
begin

text \<open>
  \<open>internal/server/api\<close>: the agent-facing operations (\<open>checkin.go\<close>, \<open>enroll.go\<close>, \<open>enroll_oidc.go\<close>, \<open>capabilities.go\<close>) and what the
  handlers of the whole API share. A handler gets the context its middleware left and yields a status with a
  message (\<open>Inl\<close>) or a body (\<open>Inr\<close>); a failure of a service is mapped to a status by the mapper of its file. A
  panic of a notification hook ends in the default branch of the mappers, with status 500, as the recovery
  middleware answers it.
\<close>

section \<open>Dependencies\<close>

text \<open>The configuration sections the handlers read, from \<open>internal/config/config.go\<close>, and build information.\<close>

record SessionCfg =
  sc_CookieName :: string
  sc_CookieSecure :: bool
  sc_CookieSameSite :: string

record OIDCCfg =
  oc_Enabled :: bool
  oc_Required :: bool
  oc_Issuer :: string
  oc_ClientID :: string
  oc_ClientSecret :: string
  oc_Scopes :: "string list"
  oc_AutoLinkByEmail :: bool
  oc_AllowOIDCSignup :: bool

record Info =
  in_Version :: string
  in_Commit :: string
  in_Date :: string

record 'w api_deps =
  ap_auth :: auth_deps
  ap_sealKey :: string
  ap_codeTTL :: int
  ap_notify :: "int \<Rightarrow> IPChangeEvent \<Rightarrow> ('w, unit) action"
  ap_emails :: "'w email_changes"
  ap_admin :: "'w admin_service"
  ap_grants :: "'w grants"
  ap_oidc :: "'w oidc_service"
  ap_oidcMgr :: "oidc_manager option"
  ap_session :: SessionCfg
  ap_oidcCfg :: OIDCCfg
  ap_notifications :: notification_service
  ap_netip :: netip_text
  ap_labelJSON :: "string \<Rightarrow> string"
  ap_info :: Info
  ap_errText :: "err \<Rightarrow> string"
  ap_gone :: bool

abbreviation "ap_crypto ap \<equiv> de_crypto (ap_auth ap)"

text \<open>The randomness of one request: a token, an id, and the draws of an enrollment.\<close>

record entropy =
  en_token :: "string option"
  en_id :: string
  en_draws :: draws

definition orElse :: "('w, 'a) action \<Rightarrow> (err \<Rightarrow> reply) \<Rightarrow> ('a \<Rightarrow> ('w, reply + 'b) action) \<Rightarrow> ('w, reply + 'b) action" where
  "orElse a onErr k = bindE (tryE a) (\<lambda>r. case r of Inl e \<Rightarrow> ret (Inl (onErr e)) | Inr x \<Rightarrow> k x)"

definition failed500 :: "string \<Rightarrow> err \<Rightarrow> reply" where
  "failed500 msg e = (500, msg)"

section \<open>Check-in\<close>

record checkinResponse =
  cp_DeviceID :: string
  cp_CurrentIPv4 :: string
  cp_CurrentIPv6 :: string
  cp_Stored :: bool

definition checkin_handler ::
  "('z world_scheme) api_deps \<Rightarrow> int \<Rightarrow> request_ctx \<Rightarrow> CheckinReport \<Rightarrow> ('z world_scheme, reply + checkinResponse) action" where
  "checkin_handler ap now cx r =
     orElse (Checkin (ap_notify ap) now (DeviceIDFrom cx) r) (failed500 ''check-in failed'') (\<lambda>res.
       ret (Inr \<lparr> cp_DeviceID = cr_DeviceID res, cp_CurrentIPv4 = cr_CurrentIPv4 res,
                  cp_CurrentIPv6 = cr_CurrentIPv6 res, cp_Stored = cr_Stored res \<rparr>))"

record deviceView =
  vw_ID :: string
  vw_Label :: string
  vw_CurrentIPv4 :: string
  vw_CurrentIPv6 :: string
  vw_Hostname :: string
  vw_OS :: string
  vw_ClientVersion :: string
  vw_LastSeenAt :: int
  vw_Disabled :: bool
  vw_CreatedAt :: int
  vw_UpdatedAt :: int

definition newDeviceView :: "Device \<Rightarrow> deviceView" where
  "newDeviceView d =
     \<lparr> vw_ID = d_ID d, vw_Label = d_Label d, vw_CurrentIPv4 = d_CurrentIPv4 d, vw_CurrentIPv6 = d_CurrentIPv6 d,
       vw_Hostname = d_Hostname d, vw_OS = d_OS d, vw_ClientVersion = d_ClientVersion d, vw_LastSeenAt = d_LastSeenAt d,
       vw_Disabled = d_Disabled d, vw_CreatedAt = d_CreatedAt d, vw_UpdatedAt = d_UpdatedAt d \<rparr>"

text \<open>The agent's own view has the fields of \<open>deviceView\<close>.\<close>

definition self_handler :: "request_ctx \<Rightarrow> ('z world_scheme, reply + deviceView) action" where
  "self_handler cx =
     orElse (Checkin_Self (DeviceIDFrom cx)) (failed500 ''self lookup failed'') (\<lambda>dev. ret (Inr (newDeviceView dev)))"

section \<open>Enrollment by code\<close>

definition errEnrollUnauthorized :: string where "errEnrollUnauthorized = ''invalid enrollment code''"

definition errDeviceLabelTaken :: string where "errDeviceLabelTaken = ''a device with that label already exists''"

definition enrollErr :: "bool \<Rightarrow> err \<Rightarrow> reply" where
  "enrollErr gone e =
     (if e = ErrNotFound then (401, errEnrollUnauthorized)
      else if e = ErrConflict then (409, errDeviceLabelTaken)
      else if gone then (499, ''client closed request'')
      else (500, ''failed to enroll device''))"

record enrollResponse =
  en_DeviceID :: string
  en_Secret :: string

definition no_meta :: ClientMeta where
  "no_meta = \<lparr> cm_Hostname = '''', cm_OS = '''', cm_ClientVersion = '''' \<rparr>"

definition enrollCode_handler ::
  "('z world_scheme) api_deps \<Rightarrow> entropy \<Rightarrow> int \<Rightarrow> string \<Rightarrow> ('z world_scheme, reply + enrollResponse) action" where
  "enrollCode_handler ap en now code =
     orElse (ConsumeCode (ap_crypto ap) (ap_sealKey ap) (en_draws en) now code no_meta) (enrollErr (ap_gone ap)) (\<lambda>res.
       ret (Inr \<lparr> en_DeviceID = er_DeviceID res, en_Secret = EncodeToString (er_Secret res) \<rparr>))"

section \<open>Enrollment by the device flow\<close>

definition slowDownBumpSeconds :: int where "slowDownBumpSeconds = 5"

record oidcDeviceStart =
  os_FlowID :: string
  os_UserCode :: string
  os_VerificationURI :: string
  os_VerificationURIComplete :: string
  os_ExpiresIn :: int
  os_Interval :: int

definition startErr :: "err \<Rightarrow> reply" where
  "startErr e = (if e = ErrDeviceUnsupported then (501, ''oidc device flow not available'') else (502, ''oidc device start failed''))"

definition startOIDCDevice ::
  "('z world_scheme) api_deps \<Rightarrow> entropy \<Rightarrow> int \<Rightarrow> ('z world_scheme, reply + oidcDeviceStart) action" where
  "startOIDCDevice ap en now =
     (case ap_oidcMgr ap of
        None \<Rightarrow> ret (Inl (501, ''oidc device flow not available''))
      | Some om \<Rightarrow>
          if \<not> DeviceEnabled (ap_oidcMgr ap) then ret (Inl (501, ''oidc device flow not available''))
          else
            orElse (lift_res (DeviceStart now om)) startErr (\<lambda>da.
            orElse (lift_res (RandToken (en_token en))) (failed500 ''internal error'') (\<lambda>flowID.
              let interval = max (da_Interval da) 5 in
              orElse (OIDCDeviceFlowRepo_Create
                \<lparr> of_FlowID = flowID, of_DeviceCode = da_DeviceCode da, of_Interval = interval, of_ExpiresAt = da_ExpiresAt da,
                  of_LastPolledAt = 0, of_CreatedAt = now \<rparr>) (failed500 ''internal error'') (\<lambda>_.
                ret (Inr \<lparr> os_FlowID = flowID, os_UserCode = da_UserCode da, os_VerificationURI = da_VerificationURI da,
                           os_VerificationURIComplete = da_VerificationURIComplete da, os_ExpiresIn = da_ExpiresAt da - now,
                           os_Interval = interval \<rparr>)))))"

datatype poll_body = PollStatus string | PollEnrolled string string

definition drop_flow :: "string \<Rightarrow> ('z world_scheme, unit) action" where
  "drop_flow flowID = bindE (tryE (OIDCDeviceFlowRepo_Delete flowID)) (\<lambda>_. ret ())"

definition completeOIDCDevice ::
  "('z world_scheme) api_deps \<Rightarrow> entropy \<Rightarrow> int \<Rightarrow> OIDCDeviceFlow \<Rightarrow> Claims \<Rightarrow> ('z world_scheme, reply + poll_body) action" where
  "completeOIDCDevice ap en now flow c =
     bindE (tryE (LoginOrLink (ap_oidc ap) (en_id en) now (oc_Issuer (ap_oidcCfg ap)) (cl_Subject c) (cl_Email c) (cl_EmailVerified c))) (\<lambda>r.
       case r of
         Inl _ \<Rightarrow> bindE (drop_flow (of_FlowID flow)) (\<lambda>_. ret (Inl (401, ''enrollment not authorized'')))
       | Inr (user, _) \<Rightarrow>
           bindE (tryE (EnrollForUser (ap_crypto ap) (ap_sealKey ap) (en_draws en) now (u_ID user) ''device.enroll.oidc'' no_meta)) (\<lambda>q.
             case q of
               Inl _ \<Rightarrow> bindE (drop_flow (of_FlowID flow)) (\<lambda>_. ret (Inl (500, ''internal error'')))
             | Inr res \<Rightarrow>
                 bindE (drop_flow (of_FlowID flow)) (\<lambda>_.
                 ret (Inr (PollEnrolled (er_DeviceID res) (EncodeToString (er_Secret res)))))))"

definition pollErr :: "err \<Rightarrow> reply" where
  "pollErr e = (if e = ErrNotFound then (410, ''device flow expired or unknown'') else (500, ''internal error''))"

text \<open>A nil manager would panic in \<open>DevicePoll\<close>; it has published no flow, so \<open>ErrNotReady\<close> stands for it.\<close>

definition pollOIDCDevice ::
  "('z world_scheme) api_deps \<Rightarrow> entropy \<Rightarrow> int \<Rightarrow> string \<Rightarrow> ('z world_scheme, reply + poll_body) action" where
  "pollOIDCDevice ap en now flowID =
     orElse (OIDCDeviceFlowRepo_TryPoll flowID now) pollErr (\<lambda>(flow, allowed).
       if \<not> allowed then ret (Inr (PollStatus ''slow_down''))
       else
         orElse (lift_res (case ap_oidcMgr ap of None \<Rightarrow> Inl ErrNotReady | Some om \<Rightarrow> DevicePoll om (of_DeviceCode flow)))
           (\<lambda>_. (502, ''oidc device poll failed'')) (\<lambda>res.
           case res of
             PollPending \<Rightarrow> ret (Inr (PollStatus ''pending''))
           | PollSlowDown \<Rightarrow>
               bindE (tryE (OIDCDeviceFlowRepo_BumpInterval (of_FlowID flow) slowDownBumpSeconds)) (\<lambda>_.
               ret (Inr (PollStatus ''slow_down'')))
           | PollDenied \<Rightarrow>
               bindE (drop_flow (of_FlowID flow)) (\<lambda>_. ret (Inl (410, ''device authorization denied or expired'')))
           | PollComplete c \<Rightarrow> completeOIDCDevice ap en now flow c))"

section \<open>Capabilities\<close>

definition hmacSkewWindowSeconds :: int where "hmacSkewWindowSeconds = 120"

record Capabilities =
  ca_ServerVersion :: string
  ca_SkewWindowSeconds :: int
  ca_AddressFamilies :: "string list"
  ca_OIDCEnabled :: bool
  ca_OIDCDeviceEnabled :: bool

definition capabilities :: "'w api_deps \<Rightarrow> Capabilities" where
  "capabilities ap =
     \<lparr> ca_ServerVersion = in_Version (ap_info ap), ca_SkewWindowSeconds = hmacSkewWindowSeconds, ca_AddressFamilies = [''ipv4'', ''ipv6''],
       ca_OIDCEnabled = Enabled (ap_oidcMgr ap), ca_OIDCDeviceEnabled = DeviceEnabled (ap_oidcMgr ap) \<rparr>"

end
