(* ===== verification/Api_Ops.thy ===== *)
theory Api_Ops
  imports Api_Agent Audit_Log
begin

text \<open>
  \<open>internal/server/api\<close>: the operations of the browser and key-authenticated API (\<open>auth.go\<close>, \<open>devices.go\<close>, \<open>account.go\<close>,
  \<open>apikeys.go\<close>, \<open>admin.go\<close>, \<open>feed.go\<close>, \<open>notifications.go\<close>), one definition per registered closure, with the view types they
  answer and the error mapper of each file. Inputs are what huma has bound; the JSON form of the answers and
  the log records are not modelled.
\<close>

section \<open>Views\<close>

record apiKeyView =
  kv_ID :: string
  kv_Label :: string
  kv_CreatedAt :: int
  kv_LastUsedAt :: int

definition newAPIKeyView :: "APIKey \<Rightarrow> apiKeyView" where
  "newAPIKeyView k = \<lparr> kv_ID = kk_ID k, kv_Label = kk_Label k, kv_CreatedAt = kk_CreatedAt k, kv_LastUsedAt = kk_LastUsedAt k \<rparr>"

record feedTokenView =
  fv_ID :: string
  fv_Label :: string
  fv_CreatedBy :: string
  fv_CreatedAt :: int
  fv_LastUsedAt :: int

definition newFeedTokenView :: "FeedToken \<Rightarrow> feedTokenView" where
  "newFeedTokenView t =
     \<lparr> fv_ID = tk_ID t, fv_Label = tk_Label t, fv_CreatedBy = tk_CreatedBy t, fv_CreatedAt = tk_CreatedAt t, fv_LastUsedAt = tk_LastUsedAt t \<rparr>"

record endpointView =
  ev_ID :: string
  ev_Label :: string
  ev_URL :: string
  ev_Enabled :: bool
  ev_CreatedAt :: int
  ev_UpdatedAt :: int

definition newEndpointView :: "NotificationEndpoint \<Rightarrow> endpointView" where
  "newEndpointView e =
     \<lparr> ev_ID = ne_ID e, ev_Label = ne_Label e, ev_URL = ne_URL e, ev_Enabled = ne_Enabled e,
       ev_CreatedAt = ne_CreatedAt e, ev_UpdatedAt = ne_UpdatedAt e \<rparr>"

record deliveryView =
  yv_Attempted :: bool
  yv_Sent :: bool
  yv_To :: string
  yv_Suppressed :: string

definition newDeliveryView :: "Delivery \<Rightarrow> deliveryView" where
  "newDeliveryView d =
     \<lparr> yv_Attempted = dy_Attempted d, yv_Sent = Delivery_Sent d, yv_To = dy_To d, yv_Suppressed = dy_Suppressed d \<rparr>"

record adminUserView =
  av_ID :: string
  av_Email :: string
  av_Role :: string
  av_Disabled :: bool
  av_OIDCLinked :: bool
  av_CreatedAt :: int
  av_UpdatedAt :: int
  av_RegistrationStatus :: string
  av_RegistrationLinkExpiresAt :: int

definition newAdminUserView :: "User \<Rightarrow> Registration \<Rightarrow> adminUserView" where
  "newAdminUserView u reg =
     \<lparr> av_ID = u_ID u, av_Email = u_Email u, av_Role = u_Role u, av_Disabled = u_Disabled u, av_OIDCLinked = (u_OIDCSubject u \<noteq> ''''),
       av_CreatedAt = u_CreatedAt u, av_UpdatedAt = u_UpdatedAt u, av_RegistrationStatus = rs_Status reg,
       av_RegistrationLinkExpiresAt = rs_LinkExpiresAt reg \<rparr>"

record auditRow =
  ar_ID :: int
  ar_ActorUserID :: string
  ar_EventType :: string
  ar_TargetType :: string
  ar_TargetID :: string
  ar_IP :: string
  ar_CreatedAt :: int

definition audit_view :: "AuditEntry \<Rightarrow> auditRow" where
  "audit_view e =
     \<lparr> ar_ID = ae_ID e, ar_ActorUserID = ae_ActorUserID e, ar_EventType = ae_EventType e, ar_TargetType = ae_TargetType e,
       ar_TargetID = ae_TargetID e, ar_IP = ae_IP e, ar_CreatedAt = ae_CreatedAt e \<rparr>"

record serverInfoOIDC =
  io_Enabled :: bool
  io_Required :: bool
  io_Issuer :: string
  io_ClientID :: string
  io_Scopes :: "string list"
  io_AutoLinkByEmail :: bool
  io_AllowOIDCSignup :: bool

record serverInfoResponse =
  si_Version :: string
  si_Commit :: string
  si_Date :: string
  si_SkewWindowSecs :: int
  si_SessionCookie :: string
  si_SessionSecure :: bool
  si_SessionSameSite :: string
  si_OIDC :: serverInfoOIDC

text \<open>A user without an entry would read the zero value of the map.\<close>

definition adminUserViews :: "int \<Rightarrow> User list \<Rightarrow> ('z world_scheme, adminUserView list) action" where
  "adminUserViews now us =
     bindE (RegistrationStatuses us now) (\<lambda>regs.
     ret (map (\<lambda>u. newAdminUserView u (case regs (u_ID u) of None \<Rightarrow> \<lparr> rs_Status = '''', rs_LinkExpiresAt = 0 \<rparr> | Some r \<Rightarrow> r)) us))"

definition adminUserViewFor :: "int \<Rightarrow> User \<Rightarrow> ('z world_scheme, adminUserView) action" where
  "adminUserViewFor now u = bindE (adminUserViews now [u]) (\<lambda>vs. ret (hd vs))"

datatype api_body =
    NoBody
  | SessionCookieCleared
  | MeBody string string string string
  | CodeBody string int
  | DeviceBody deviceView
  | DevicesBody "deviceView list"
  | AllDevicesBody "(deviceView \<times> string) list"
  | CIDRsBody "string list"
  | SecretBody string
  | HistoryBody "(int \<times> string \<times> string \<times> string) list" string
  | EmailRequestBody string deliveryView int
  | KeysBody "apiKeyView list"
  | KeyMintedBody apiKeyView string
  | UsersBody "adminUserView list"
  | UserBody adminUserView
  | InviteBody adminUserView string deliveryView
  | ReissueBody string int deliveryView adminUserView
  | RecoveryBody string deliveryView
  | UserEmailBody adminUserView deliveryView
  | AuditBody "auditRow list" string
  | ServerInfoBody serverInfoResponse
  | FeedTokensBody "feedTokenView list"
  | FeedTokenMintedBody feedTokenView string
  | EndpointsBody "endpointView list"
  | EndpointBody endpointView
  | EndpointCreatedBody endpointView string

section \<open>Error mappers\<close>

definition deviceMgmtErr :: "string \<Rightarrow> err \<Rightarrow> reply" where
  "deviceMgmtErr what e =
     (if e = ErrNotFound then (404, ''device not found'')
      else if e = ErrConflict then (409, errDeviceLabelTaken)
      else (500, ''failed to '' @ what))"

definition apiKeyErr :: "string \<Rightarrow> err \<Rightarrow> reply" where
  "apiKeyErr what e =
     (if e = ErrNotFound then (404, ''api key not found'')
      else if e = ErrConflict then (409, ''an api key with that label already exists'')
      else if e = ErrInvalidKeyLabel then (422, ''label must not be empty'')
      else (500, ''failed to '' @ what))"

definition apostrophe :: string where "apostrophe = [CHR 0x27]"

definition accountEmailErr :: "string \<Rightarrow> err \<Rightarrow> reply" where
  "accountEmailErr what e =
     (if e = ErrEmailUnchanged then (422, ''That is already the account'' @ apostrophe @ ''s email address.'')
      else if e = ErrEmailManagedByOIDC then (422, ''This account'' @ apostrophe @ ''s email address is managed by its identity provider.'')
      else if e = ErrEmailChangeInvalid
      then (422, ''This confirmation link is invalid or has expired. Request the change again from your account page.'')
      else if e = ErrConfirmationNotSent
      then (503, ''The confirmation email could not be sent. Try again in a moment. If the account page then shows the change as already pending, cancel it and request it again.'')
      else if e = ErrInvalidEmail
      then (422, ''Email addresses must be plain 7-bit ASCII in user@host form, with no display name and no surrounding whitespace.'')
      else if e = ErrConflict then (409, ''A user with that email address already exists.'')
      else (500, ''failed to '' @ what))"

definition adminErr :: "string \<Rightarrow> err \<Rightarrow> reply" where
  "adminErr what e =
     (if e = ErrNotFound then (404, ''user not found'')
      else if e = ErrConflict then (409, ''a user with that email already exists'')
      else if e = ErrLastAdmin then (409, ''cannot remove the last admin'')
      else if e = ErrSelfLockout then (409, ''cannot disable or delete your own account'')
      else if e = ErrInvalidRole then (422, ''role must be '' @ apostrophe @ ''admin'' @ apostrophe @ '' or '' @ apostrophe @ ''user'' @ apostrophe)
      else if e = ErrInvalidEmail
      then (422, ''email address must be a plain 7-bit ASCII address in user@host form, with no display name and no surrounding whitespace'')
      else if e = ErrEmailUnchanged then (422, ''That is already the account'' @ apostrophe @ ''s email address.'')
      else if e = ErrEmailManagedByOIDC then (422, ''This account'' @ apostrophe @ ''s email address is managed by its identity provider.'')
      else if e = ErrAlreadyRegistered then (422, ''account has already registered; use /recovery'')
      else if e = ErrWebAuthnUnavailable then (503, ''passkey authentication is not configured'')
      else (500, ''failed to '' @ what))"

definition feedTokenErr :: "string \<Rightarrow> err \<Rightarrow> reply" where
  "feedTokenErr what e =
     (if e = ErrNotFound then (404, ''feed token not found'')
      else if e = ErrConflict then (409, ''a feed token with that label already exists'')
      else if e = ErrInvalidLabel then (422, ''label must not be empty'')
      else (500, ''failed to '' @ what))"

text \<open>\<open>errText\<close> is the text of a rejected target, which the answer carries.\<close>

definition notifyErr :: "(err \<Rightarrow> string) \<Rightarrow> string \<Rightarrow> err \<Rightarrow> reply" where
  "notifyErr errText what e =
     (if e = ErrNotFound then (404, ''notification endpoint not found'')
      else if e = ErrConflict then (409, ''an endpoint with that URL already exists'')
      else if e = ErrDenied then (422, ''that target was rejected: '' @ errText e)
      else (500, ''failed to '' @ what))"

section \<open>Session\<close>

definition logout_handler :: "int \<Rightarrow> request_ctx \<Rightarrow> ('z world_scheme, reply + api_body) action" where
  "logout_handler now cx =
     orElse (Logout now (SessionFrom cx)) (failed500 ''logout failed'') (\<lambda>_. ret (Inr SessionCookieCleared))"

definition me_handler :: "request_ctx \<Rightarrow> ('z world_scheme, reply + api_body) action" where
  "me_handler cx =
     (let u = UserFrom cx in ret (Inr (MeBody (u_ID u) (u_Email u) (u_Role u) (se_CSRFToken (SessionFrom cx)))))"

section \<open>Devices\<close>

definition mintCode_handler ::
  "('z world_scheme) api_deps \<Rightarrow> entropy \<Rightarrow> int \<Rightarrow> request_ctx \<Rightarrow> string \<Rightarrow> ('z world_scheme, reply + api_body) action" where
  "mintCode_handler ap en now cx label =
     orElse (CreateCode (ap_codeTTL ap) (en_token en) now (u_ID (UserFrom cx)) label) (failed500 ''failed to mint enrollment code'')
       (\<lambda>(code, expiresAt). ret (Inr (CodeBody code expiresAt)))"

definition listDevices_handler :: "request_ctx \<Rightarrow> ('z world_scheme, reply + api_body) action" where
  "listDevices_handler cx =
     orElse (DeviceService_List (u_ID (UserFrom cx))) (failed500 ''failed to list devices'')
       (\<lambda>ds. ret (Inr (DevicesBody (map newDeviceView ds))))"

definition getDeviceErr :: "err \<Rightarrow> reply" where
  "getDeviceErr e = (if e = ErrNotFound then (404, ''device not found'') else (500, ''failed to get device''))"

definition getDevice_handler :: "request_ctx \<Rightarrow> string \<Rightarrow> ('z world_scheme, reply + api_body) action" where
  "getDevice_handler cx i =
     orElse (DeviceService_Get (u_ID (UserFrom cx)) i) getDeviceErr (\<lambda>d. ret (Inr (DeviceBody (newDeviceView d))))"

text \<open>
  The label, when given, is written before the flag is looked at, each with its own service call; with
  neither, the device is read. \<open>patch_flag\<close> is the second part, with the device the first part yielded, if it ran.
\<close>

definition patch_flag ::
  "('z world_scheme) api_deps \<Rightarrow> int \<Rightarrow> string \<Rightarrow> string \<Rightarrow> bool option \<Rightarrow> Device option \<Rightarrow> ('z world_scheme, reply + api_body) action" where
  "patch_flag ap now uid i disabled renamed =
     (case disabled of
        Some b \<Rightarrow>
          orElse (DeviceService_SetEnabled (ad_DeviceAdded (ap_admin ap)) (ad_DeviceRemoved (ap_admin ap)) now uid i b)
            (deviceMgmtErr ''set device enabled'') (\<lambda>d. ret (Inr (DeviceBody (newDeviceView d))))
      | None \<Rightarrow>
          (case renamed of
             Some d \<Rightarrow> ret (Inr (DeviceBody (newDeviceView d)))
           | None \<Rightarrow> orElse (DeviceService_Get uid i) (deviceMgmtErr ''get device'') (\<lambda>d. ret (Inr (DeviceBody (newDeviceView d))))))"

definition patchDevice_handler ::
  "('z world_scheme) api_deps \<Rightarrow> int \<Rightarrow> request_ctx \<Rightarrow> string \<Rightarrow> string option \<Rightarrow> bool option \<Rightarrow> ('z world_scheme, reply + api_body) action" where
  "patchDevice_handler ap now cx i label disabled =
     (let uid = u_ID (UserFrom cx) in
      case label of
        None \<Rightarrow> patch_flag ap now uid i disabled None
      | Some l \<Rightarrow>
          if l = '''' then ret (Inl (422, ''label must not be empty''))
          else orElse (DeviceService_Rename now uid i l) (deviceMgmtErr ''rename device'') (\<lambda>d.
            patch_flag ap now uid i disabled (Some d)))"

definition deleteDevice_handler ::
  "('z world_scheme) api_deps \<Rightarrow> int \<Rightarrow> request_ctx \<Rightarrow> string \<Rightarrow> ('z world_scheme, reply + api_body) action" where
  "deleteDevice_handler ap now cx i =
     orElse (DeviceService_Delete (ad_DeviceAdded (ap_admin ap)) (ad_DeviceRemoved (ap_admin ap)) now (u_ID (UserFrom cx)) i)
       (deviceMgmtErr ''delete device'') (\<lambda>_. ret (Inr NoBody))"

definition rotateSecret_handler ::
  "('z authworld_scheme) api_deps \<Rightarrow> entropy \<Rightarrow> int \<Rightarrow> request_ctx \<Rightarrow> string \<Rightarrow> ('z authworld_scheme, reply + api_body) action" where
  "rotateSecret_handler ap en now cx i =
     orElse (DeviceService_RotateSecret (ap_crypto ap) (ap_sealKey ap) (dr_secret (en_draws en)) (dr_nonce (en_draws en)) now (u_ID (UserFrom cx)) i)
       (deviceMgmtErr ''rotate device secret'') (\<lambda>secret. ret (Inr (SecretBody (EncodeToString secret))))"

definition history_handler :: "request_ctx \<Rightarrow> string \<Rightarrow> string \<Rightarrow> int \<Rightarrow> ('z world_scheme, reply + api_body) action" where
  "history_handler cx i cursor limit =
     orElse (DeviceService_History (u_ID (UserFrom cx)) i cursor limit) (deviceMgmtErr ''get device history'') (\<lambda>page.
       ret (Inr (HistoryBody (map (\<lambda>h. (h_ObservedAt h, h_IPv4 h, h_IPv6 h, h_ClientVersion h)) (hp_Rows page)) (hp_NextCursor page))))"

section \<open>The account: address and keys\<close>

definition emailRequest_handler ::
  "('z world_scheme) api_deps \<Rightarrow> entropy \<Rightarrow> int \<Rightarrow> request_ctx \<Rightarrow> string \<Rightarrow> ('z world_scheme, reply + api_body) action" where
  "emailRequest_handler ap en now cx addr =
     orElse (Request (ap_emails ap) (en_token en) now (UserFrom cx) addr) (accountEmailErr ''request email change'')
       (\<lambda>(link, delivery, expiresAt). ret (Inr (EmailRequestBody link (newDeliveryView delivery) expiresAt)))"

definition emailCancel_handler ::
  "('z world_scheme) api_deps \<Rightarrow> int \<Rightarrow> request_ctx \<Rightarrow> ('z world_scheme, reply + api_body) action" where
  "emailCancel_handler ap now cx =
     orElse (Cancel (ap_emails ap) now (UserFrom cx)) (accountEmailErr ''cancel email change'') (\<lambda>_. ret (Inr NoBody))"

definition emailConfirm_handler ::
  "('z world_scheme) api_deps \<Rightarrow> int \<Rightarrow> request_ctx \<Rightarrow> string \<Rightarrow> ('z world_scheme, reply + api_body) action" where
  "emailConfirm_handler ap now cx token =
     orElse (Confirm (ap_emails ap) now (UserFrom cx) token) (accountEmailErr ''confirm email change'') (\<lambda>_. ret (Inr NoBody))"

definition listKeys_handler :: "request_ctx \<Rightarrow> ('z world_scheme, reply + api_body) action" where
  "listKeys_handler cx =
     orElse (ListKeys (u_ID (UserFrom cx))) (apiKeyErr ''list api keys'') (\<lambda>ks. ret (Inr (KeysBody (map newAPIKeyView ks))))"

definition mintKey_handler ::
  "('z world_scheme) api_deps \<Rightarrow> entropy \<Rightarrow> int \<Rightarrow> request_ctx \<Rightarrow> string \<Rightarrow> ('z world_scheme, reply + api_body) action" where
  "mintKey_handler ap en now cx label =
     orElse (MintKey (ap_crypto ap) (ap_labelJSON ap) (en_token en) (en_id en) now (u_ID (UserFrom cx)) label)
       (apiKeyErr ''mint api key'') (\<lambda>(key, plaintext). ret (Inr (KeyMintedBody (newAPIKeyView key) plaintext)))"

definition revokeKey_handler :: "int \<Rightarrow> request_ctx \<Rightarrow> string \<Rightarrow> ('z keyworld_scheme, reply + api_body) action" where
  "revokeKey_handler now cx i =
     orElse (RevokeKey now (u_ID (UserFrom cx)) i) (apiKeyErr ''revoke api key'') (\<lambda>_. ret (Inr NoBody))"

section \<open>Administration\<close>

definition adminListUsersHandler :: "int \<Rightarrow> ('z world_scheme, reply + api_body) action" where
  "adminListUsersHandler now =
     orElse ListUsers (adminErr ''list users'') (\<lambda>us.
     orElse (adminUserViews now us) (adminErr ''list users'') (\<lambda>vs. ret (Inr (UsersBody vs))))"

definition adminGetUserHandler :: "int \<Rightarrow> string \<Rightarrow> ('z world_scheme, reply + api_body) action" where
  "adminGetUserHandler now i =
     orElse (UserRepo_GetByID i) (adminErr ''get user'') (\<lambda>u.
     orElse (adminUserViewFor now u) (adminErr ''get user'') (\<lambda>v. ret (Inr (UserBody v))))"

definition adminCreateUserHandler ::
  "('z world_scheme) api_deps \<Rightarrow> entropy \<Rightarrow> int \<Rightarrow> request_ctx \<Rightarrow> string \<Rightarrow> string \<Rightarrow> ('z world_scheme, reply + api_body) action" where
  "adminCreateUserHandler ap en now cx addr role =
     orElse (CreateUserInvite (ap_admin ap) (en_token en) (en_id en) now (u_ID (UserFrom cx)) addr role) (adminErr ''create user'')
       (\<lambda>(u, link, delivery).
         orElse (adminUserViewFor now u) (adminErr ''create user'') (\<lambda>v.
           ret (Inr (InviteBody v link (newDeliveryView delivery)))))"

definition adminUpdateUserHandler ::
  "('z world_scheme) api_deps \<Rightarrow> int \<Rightarrow> request_ctx \<Rightarrow> string \<Rightarrow> UpdateUserParams \<Rightarrow> ('z world_scheme, reply + api_body) action" where
  "adminUpdateUserHandler ap now cx i p =
     orElse (UpdateUser (ap_admin ap) now (u_ID (UserFrom cx)) i p) (adminErr ''update user'') (\<lambda>u.
     orElse (adminUserViewFor now u) (adminErr ''update user'') (\<lambda>v. ret (Inr (UserBody v))))"

definition adminSetUserEmailHandler ::
  "('z world_scheme) api_deps \<Rightarrow> int \<Rightarrow> request_ctx \<Rightarrow> string \<Rightarrow> string \<Rightarrow> ('z world_scheme, reply + api_body) action" where
  "adminSetUserEmailHandler ap now cx i addr =
     orElse (UserRepo_GetByID i) (adminErr ''set user email'') (\<lambda>target.
     orElse (AdminSet (ap_emails ap) now (u_ID (UserFrom cx)) target addr) (adminErr ''set user email'') (\<lambda>(updated, delivery).
     orElse (adminUserViewFor now updated) (adminErr ''set user email'') (\<lambda>v.
       ret (Inr (UserEmailBody v (newDeliveryView delivery))))))"

definition deleteUser_handler ::
  "('z world_scheme) api_deps \<Rightarrow> int \<Rightarrow> request_ctx \<Rightarrow> string \<Rightarrow> ('z world_scheme, reply + api_body) action" where
  "deleteUser_handler ap now cx i =
     orElse (DeleteUser (ap_admin ap) now (u_ID (UserFrom cx)) i) (adminErr ''delete user'') (\<lambda>_. ret (Inr NoBody))"

definition issueRecovery_handler ::
  "('z world_scheme) api_deps \<Rightarrow> entropy \<Rightarrow> int \<Rightarrow> request_ctx \<Rightarrow> string \<Rightarrow> ('z world_scheme, reply + api_body) action" where
  "issueRecovery_handler ap en now cx i =
     orElse (UserRepo_GetByID i) (adminErr ''issue recovery'') (\<lambda>target.
     orElse (IssueRecovery (ap_grants ap) (en_token en) now (u_ID (UserFrom cx)) target) (adminErr ''issue recovery'')
       (\<lambda>(link, delivery). ret (Inr (RecoveryBody link (newDeliveryView delivery)))))"

definition adminReissueInviteHandler ::
  "('z world_scheme) api_deps \<Rightarrow> entropy \<Rightarrow> int \<Rightarrow> request_ctx \<Rightarrow> string \<Rightarrow> ('z world_scheme, reply + api_body) action" where
  "adminReissueInviteHandler ap en now cx i =
     orElse (UserRepo_GetByID i) (adminErr ''reissue invite'') (\<lambda>target.
     orElse (ReissueInvite (ap_grants ap) (en_token en) now (u_ID (UserFrom cx)) target) (adminErr ''reissue invite'')
       (\<lambda>(link, expiresAt, delivery).
         orElse (adminUserViewFor now target) (adminErr ''reissue invite'') (\<lambda>v.
           ret (Inr (ReissueBody link expiresAt (newDeliveryView delivery) v)))))"

definition listAllDevices_handler :: "('z world_scheme, reply + api_body) action" where
  "listAllDevices_handler =
     orElse ListAllDevices (adminErr ''list all devices'') (\<lambda>ds.
       ret (Inr (AllDevicesBody (map (\<lambda>d. (newDeviceView d, d_UserID d)) ds))))"

definition listAllDeviceIPs_handler :: "'w api_deps \<Rightarrow> ('z world_scheme, reply + api_body) action" where
  "listAllDeviceIPs_handler ap =
     orElse (ListAllDeviceIPs (ap_netip ap)) (adminErr ''list device ips'') (\<lambda>as.
       ret (Inr (CIDRsBody (map (CIDRString (ap_netip ap)) as))))"

definition audit_handler :: "AuditFilter \<Rightarrow> string \<Rightarrow> int \<Rightarrow> ('z world_scheme, reply + api_body) action" where
  "audit_handler f cursor limit =
     orElse (ListPaginated f cursor limit) (adminErr ''list audit'') (\<lambda>page.
       ret (Inr (AuditBody (map audit_view (ap_Rows page)) (ap_NextCursor page))))"

definition serverInfo_handler :: "'w api_deps \<Rightarrow> ('z world_scheme, reply + api_body) action" where
  "serverInfo_handler ap =
     (let oidc = ap_oidcCfg ap; sess = ap_session ap in
      ret (Inr (ServerInfoBody
        \<lparr> si_Version = in_Version (ap_info ap), si_Commit = in_Commit (ap_info ap), si_Date = in_Date (ap_info ap),
          si_SkewWindowSecs = wholeSeconds (v_skew (de_verifier (ap_auth ap))), si_SessionCookie = sc_CookieName sess,
          si_SessionSecure = sc_CookieSecure sess, si_SessionSameSite = sc_CookieSameSite sess,
          si_OIDC = \<lparr> io_Enabled = oc_Enabled oidc, io_Required = oc_Required oidc, io_Issuer = oc_Issuer oidc,
            io_ClientID = oc_ClientID oidc, io_Scopes = oc_Scopes oidc, io_AutoLinkByEmail = oc_AutoLinkByEmail oidc,
            io_AllowOIDCSignup = oc_AllowOIDCSignup oidc \<rparr> \<rparr>)))"

section \<open>Feed tokens\<close>

definition listFeedTokens_handler :: "('z world_scheme, reply + api_body) action" where
  "listFeedTokens_handler =
     orElse FeedService_ListTokens (feedTokenErr ''list feed tokens'') (\<lambda>ts. ret (Inr (FeedTokensBody (map newFeedTokenView ts))))"

definition mintFeedToken_handler ::
  "('z world_scheme) api_deps \<Rightarrow> entropy \<Rightarrow> int \<Rightarrow> request_ctx \<Rightarrow> string \<Rightarrow> ('z world_scheme, reply + api_body) action" where
  "mintFeedToken_handler ap en now cx label =
     orElse (FeedService_MintToken (ap_crypto ap) (ap_labelJSON ap) (en_token en) (en_id en) now (u_ID (UserFrom cx)) label)
       (feedTokenErr ''mint feed token'') (\<lambda>(tok, plaintext). ret (Inr (FeedTokenMintedBody (newFeedTokenView tok) plaintext)))"

definition revokeFeedToken_handler :: "int \<Rightarrow> request_ctx \<Rightarrow> string \<Rightarrow> ('z feedworld_scheme, reply + api_body) action" where
  "revokeFeedToken_handler now cx i =
     orElse (FeedService_RevokeToken now (u_ID (UserFrom cx)) i) (feedTokenErr ''revoke feed token'') (\<lambda>_. ret (Inr NoBody))"

section \<open>Webhook endpoints\<close>

definition listEndpoints_handler :: "'w api_deps \<Rightarrow> ('z world_scheme, reply + api_body) action" where
  "listEndpoints_handler ap =
     orElse NotificationService_List (notifyErr (ap_errText ap) ''list notification endpoints'') (\<lambda>es.
       ret (Inr (EndpointsBody (map newEndpointView es))))"

definition createEndpoint_handler ::
  "('z world_scheme) api_deps \<Rightarrow> entropy \<Rightarrow> int \<Rightarrow> request_ctx \<Rightarrow> string \<Rightarrow> string \<Rightarrow> ('z world_scheme, reply + api_body) action" where
  "createEndpoint_handler ap en now cx label0 url =
     (let label = TrimSpace label0 in
      if label = '''' then ret (Inl (422, ''label must not be empty''))
      else
        orElse (NotificationService_Create (ap_notifications ap) (en_draws en) now (u_ID (UserFrom cx)) label (TrimSpace url))
          (notifyErr (ap_errText ap) ''create notification endpoint'') (\<lambda>(ep, secret).
          ret (Inr (EndpointCreatedBody (newEndpointView ep) secret))))"

definition getEndpoint_handler :: "'w api_deps \<Rightarrow> string \<Rightarrow> ('z world_scheme, reply + api_body) action" where
  "getEndpoint_handler ap i =
     orElse (NotificationService_Get i) (notifyErr (ap_errText ap) ''get notification endpoint'') (\<lambda>ep.
       ret (Inr (EndpointBody (newEndpointView ep))))"

definition patchEndpoint_handler ::
  "'w api_deps \<Rightarrow> int \<Rightarrow> request_ctx \<Rightarrow> string \<Rightarrow> bool option \<Rightarrow> ('z world_scheme, reply + api_body) action" where
  "patchEndpoint_handler ap now cx i enabled =
     (case enabled of
        None \<Rightarrow> getEndpoint_handler ap i
      | Some b \<Rightarrow>
          orElse (NotificationService_SetEnabled now (u_ID (UserFrom cx)) i b)
            (notifyErr (ap_errText ap) ''set notification endpoint enabled'') (\<lambda>_. getEndpoint_handler ap i))"

definition deleteEndpoint_handler :: "'w api_deps \<Rightarrow> int \<Rightarrow> request_ctx \<Rightarrow> string \<Rightarrow> ('z world_scheme, reply + api_body) action" where
  "deleteEndpoint_handler ap now cx i =
     orElse (NotificationService_Delete now (u_ID (UserFrom cx)) i) (notifyErr (ap_errText ap) ''delete notification endpoint'')
       (\<lambda>_. ret (Inr NoBody))"

definition testEndpoint_handler :: "'w api_deps \<Rightarrow> int \<Rightarrow> request_ctx \<Rightarrow> string \<Rightarrow> ('z world_scheme, reply + api_body) action" where
  "testEndpoint_handler ap now cx i =
     orElse (NotificationService_Test (ap_notifications ap) now (u_ID (UserFrom cx)) i)
       (notifyErr (ap_errText ap) ''send notification test'') (\<lambda>sent.
       if sent then ret (Inr NoBody)
       else orElse (NotificationService_Get i) (notifyErr (ap_errText ap) ''send notification test'') (\<lambda>_.
         ret (Inl (409, ''notification endpoint is disabled''))))"

definition redeliver_handler :: "'w api_deps \<Rightarrow> int \<Rightarrow> request_ctx \<Rightarrow> int \<Rightarrow> ('z world_scheme, reply + api_body) action" where
  "redeliver_handler ap now cx i =
     orElse (Redeliver now (u_ID (UserFrom cx)) i) (notifyErr (ap_errText ap) ''redeliver notification delivery'') (\<lambda>ok.
       if ok then ret (Inr NoBody)
       else ret (Inl (404, ''delivery not found, not in a retryable state, or its endpoint is disabled'')))"

end
