(* ===== verification/Api_Routes.thy ===== *)
theory Api_Routes
  imports Api_Ops
begin

text \<open>
  \<open>internal/server/api\<close>: the route table (the \<open>register*Ops\<close> functions \<open>Build\<close> calls) and who gets past it. \<open>api_op\<close> is a matched route
  with its bound input, \<open>op_route\<close> the method and pattern it is registered under, \<open>op_chain\<close> its middleware, \<open>op_run\<close> its
  handler; matching and binding are the router's. The passkey routes and the browser's OIDC redirect are not in this table.
\<close>

section \<open>The table\<close>

datatype api_op =
    Op_Checkin CheckinReport | Op_Self | Op_EnrollCode string | Op_OIDCStart | Op_OIDCPoll string | Op_Capabilities
  | Op_Logout | Op_Me
  | Op_MintCode string | Op_ListDevices | Op_GetDevice string | Op_PatchDevice string "string option" "bool option"
  | Op_DeleteDevice string | Op_RotateSecret string | Op_History string string int
  | Op_EmailRequest string | Op_EmailCancel | Op_EmailConfirm string
  | Op_ListKeys | Op_MintKey string | Op_RevokeKey string
  | Op_ListUsers | Op_GetUser string | Op_CreateUser string string | Op_UpdateUser string UpdateUserParams
  | Op_SetUserEmail string string | Op_DeleteUser string | Op_IssueRecovery string | Op_ReissueInvite string
  | Op_ListAllDevices | Op_ListAllDeviceIPs | Op_ListAudit AuditFilter string int | Op_ServerInfo
  | Op_ListFeedTokens | Op_MintFeedToken string | Op_RevokeFeedToken string
  | Op_ListEndpoints | Op_CreateEndpoint string string | Op_GetEndpoint string | Op_PatchEndpoint string "bool option"
  | Op_DeleteEndpoint string | Op_TestEndpoint string | Op_Redeliver int

fun op_route :: "api_op \<Rightarrow> string \<times> string" where
  "op_route (Op_Checkin _) = (''POST'', ''/agent/v1/checkin'')"
| "op_route Op_Self = (''GET'', ''/agent/v1/self'')"
| "op_route (Op_EnrollCode _) = (''POST'', ''/agent/v1/enroll/code'')"
| "op_route Op_OIDCStart = (''POST'', ''/agent/v1/enroll/oidc/start'')"
| "op_route (Op_OIDCPoll _) = (''POST'', ''/agent/v1/enroll/oidc/poll'')"
| "op_route Op_Capabilities = (''GET'', ''/agent/v1/capabilities'')"
| "op_route Op_Logout = (''POST'', ''/api/v1/auth/logout'')"
| "op_route Op_Me = (''GET'', ''/api/v1/auth/me'')"
| "op_route (Op_MintCode _) = (''POST'', ''/api/v1/devices'')"
| "op_route Op_ListDevices = (''GET'', ''/api/v1/devices'')"
| "op_route (Op_GetDevice _) = (''GET'', ''/api/v1/devices/{id}'')"
| "op_route (Op_PatchDevice _ _ _) = (''PATCH'', ''/api/v1/devices/{id}'')"
| "op_route (Op_DeleteDevice _) = (''DELETE'', ''/api/v1/devices/{id}'')"
| "op_route (Op_RotateSecret _) = (''POST'', ''/api/v1/devices/{id}/rotate-secret'')"
| "op_route (Op_History _ _ _) = (''GET'', ''/api/v1/devices/{id}/history'')"
| "op_route (Op_EmailRequest _) = (''POST'', ''/api/v1/account/email'')"
| "op_route Op_EmailCancel = (''POST'', ''/api/v1/account/email/cancel'')"
| "op_route (Op_EmailConfirm _) = (''POST'', ''/api/v1/account/email/confirm'')"
| "op_route Op_ListKeys = (''GET'', ''/api/v1/account/keys'')"
| "op_route (Op_MintKey _) = (''POST'', ''/api/v1/account/keys'')"
| "op_route (Op_RevokeKey _) = (''DELETE'', ''/api/v1/account/keys/{id}'')"
| "op_route Op_ListUsers = (''GET'', ''/api/v1/admin/users'')"
| "op_route (Op_GetUser _) = (''GET'', ''/api/v1/admin/users/{id}'')"
| "op_route (Op_CreateUser _ _) = (''POST'', ''/api/v1/admin/users'')"
| "op_route (Op_UpdateUser _ _) = (''PATCH'', ''/api/v1/admin/users/{id}'')"
| "op_route (Op_SetUserEmail _ _) = (''PATCH'', ''/api/v1/admin/users/{id}/email'')"
| "op_route (Op_DeleteUser _) = (''DELETE'', ''/api/v1/admin/users/{id}'')"
| "op_route (Op_IssueRecovery _) = (''POST'', ''/api/v1/admin/users/{id}/recovery'')"
| "op_route (Op_ReissueInvite _) = (''POST'', ''/api/v1/admin/users/{id}/invite'')"
| "op_route Op_ListAllDevices = (''GET'', ''/api/v1/admin/devices'')"
| "op_route Op_ListAllDeviceIPs = (''GET'', ''/api/v1/admin/devices/ips'')"
| "op_route (Op_ListAudit _ _ _) = (''GET'', ''/api/v1/admin/audit'')"
| "op_route Op_ServerInfo = (''GET'', ''/api/v1/admin/server'')"
| "op_route Op_ListFeedTokens = (''GET'', ''/api/v1/admin/feed/tokens'')"
| "op_route (Op_MintFeedToken _) = (''POST'', ''/api/v1/admin/feed/tokens'')"
| "op_route (Op_RevokeFeedToken _) = (''DELETE'', ''/api/v1/admin/feed/tokens/{id}'')"
| "op_route Op_ListEndpoints = (''GET'', ''/api/v1/admin/endpoints'')"
| "op_route (Op_CreateEndpoint _ _) = (''POST'', ''/api/v1/admin/endpoints'')"
| "op_route (Op_GetEndpoint _) = (''GET'', ''/api/v1/admin/endpoints/{id}'')"
| "op_route (Op_PatchEndpoint _ _) = (''PATCH'', ''/api/v1/admin/endpoints/{id}'')"
| "op_route (Op_DeleteEndpoint _) = (''DELETE'', ''/api/v1/admin/endpoints/{id}'')"
| "op_route (Op_TestEndpoint _) = (''POST'', ''/api/v1/admin/endpoints/{id}/test'')"
| "op_route (Op_Redeliver _) = (''POST'', ''/api/v1/admin/deliveries/{id}/redeliver'')"

definition sessionCSRF :: "auth_deps \<Rightarrow> int \<Rightarrow> 'z world_scheme middleware list" where
  "sessionCSRF de now = [sessionMW de now, csrfMiddleware]"

definition sessionOrKeyCSRF :: "auth_deps \<Rightarrow> int \<Rightarrow> 'z keyworld_scheme middleware list" where
  "sessionOrKeyCSRF de now = [sessionOrKeyMW de now, csrfMiddleware]"

definition feedRead :: "auth_deps \<Rightarrow> int \<Rightarrow> 'z keyworld_scheme middleware list" where
  "feedRead de now = [sessionOrKeyMW de now, adminMiddleware]"

definition feedWrite :: "auth_deps \<Rightarrow> int \<Rightarrow> 'z keyworld_scheme middleware list" where
  "feedWrite de now = [sessionOrKeyMW de now, adminMiddleware, csrfMiddleware]"

fun op_chain :: "auth_deps \<Rightarrow> int \<Rightarrow> api_op \<Rightarrow> 'z keyworld_scheme middleware list" where
  "op_chain de now (Op_Checkin _) = [hmacMW de now]"
| "op_chain de now Op_Self = [hmacMW de now]"
| "op_chain de now (Op_EnrollCode _) = []"
| "op_chain de now Op_OIDCStart = []"
| "op_chain de now (Op_OIDCPoll _) = []"
| "op_chain de now Op_Capabilities = []"
| "op_chain de now Op_Logout = [sessionMW de now]"
| "op_chain de now Op_Me = [sessionOrKeyMW de now]"
| "op_chain de now (Op_MintCode _) = sessionOrKeyCSRF de now"
| "op_chain de now Op_ListDevices = [sessionOrKeyMW de now]"
| "op_chain de now (Op_GetDevice _) = [sessionOrKeyMW de now]"
| "op_chain de now (Op_PatchDevice _ _ _) = sessionOrKeyCSRF de now"
| "op_chain de now (Op_DeleteDevice _) = sessionOrKeyCSRF de now"
| "op_chain de now (Op_RotateSecret _) = sessionOrKeyCSRF de now"
| "op_chain de now (Op_History _ _ _) = [sessionOrKeyMW de now]"
| "op_chain de now (Op_EmailRequest _) = sessionCSRF de now"
| "op_chain de now Op_EmailCancel = sessionCSRF de now"
| "op_chain de now (Op_EmailConfirm _) = sessionCSRF de now"
| "op_chain de now Op_ListKeys = [sessionMW de now]"
| "op_chain de now (Op_MintKey _) = sessionCSRF de now"
| "op_chain de now (Op_RevokeKey _) = sessionCSRF de now"
| "op_chain de now Op_ListUsers = adminReadMW de now"
| "op_chain de now (Op_GetUser _) = adminReadMW de now"
| "op_chain de now (Op_CreateUser _ _) = adminWriteMW de now"
| "op_chain de now (Op_UpdateUser _ _) = adminWriteMW de now"
| "op_chain de now (Op_SetUserEmail _ _) = adminWriteMW de now"
| "op_chain de now (Op_DeleteUser _) = adminWriteMW de now"
| "op_chain de now (Op_IssueRecovery _) = adminWriteMW de now"
| "op_chain de now (Op_ReissueInvite _) = adminWriteMW de now"
| "op_chain de now Op_ListAllDevices = adminReadMW de now"
| "op_chain de now Op_ListAllDeviceIPs = adminReadMW de now"
| "op_chain de now (Op_ListAudit _ _ _) = adminReadMW de now"
| "op_chain de now Op_ServerInfo = adminReadMW de now"
| "op_chain de now Op_ListFeedTokens = feedRead de now"
| "op_chain de now (Op_MintFeedToken _) = feedWrite de now"
| "op_chain de now (Op_RevokeFeedToken _) = feedWrite de now"
| "op_chain de now Op_ListEndpoints = adminReadMW de now"
| "op_chain de now (Op_CreateEndpoint _ _) = adminWriteMW de now"
| "op_chain de now (Op_GetEndpoint _) = adminReadMW de now"
| "op_chain de now (Op_PatchEndpoint _ _) = adminWriteMW de now"
| "op_chain de now (Op_DeleteEndpoint _) = adminWriteMW de now"
| "op_chain de now (Op_TestEndpoint _) = adminWriteMW de now"
| "op_chain de now (Op_Redeliver _) = adminWriteMW de now"

datatype api_answer =
    CheckinAnswer checkinResponse | SelfAnswer deviceView | EnrollAnswer enrollResponse | StartAnswer oidcDeviceStart
  | PollAnswer poll_body | CapabilitiesAnswer Capabilities | Answer api_body

definition wrap_answer :: "('a \<Rightarrow> api_answer) \<Rightarrow> ('w, reply + 'a) action \<Rightarrow> ('w, reply + api_answer) action" where
  "wrap_answer f m = bindE m (\<lambda>r. ret (case r of Inl e \<Rightarrow> Inl e | Inr b \<Rightarrow> Inr (f b)))"

fun op_run ::
  "('z keyworld_scheme) api_deps \<Rightarrow> entropy \<Rightarrow> int \<Rightarrow> request_ctx \<Rightarrow> api_op \<Rightarrow> ('z keyworld_scheme, reply + api_answer) action" where
  "op_run ap en now cx (Op_Checkin r) = wrap_answer CheckinAnswer (checkin_handler ap now cx r)"
| "op_run ap en now cx Op_Self = wrap_answer SelfAnswer (self_handler cx)"
| "op_run ap en now cx (Op_EnrollCode c) = wrap_answer EnrollAnswer (enrollCode_handler ap en now c)"
| "op_run ap en now cx Op_OIDCStart = wrap_answer StartAnswer (startOIDCDevice ap en now)"
| "op_run ap en now cx (Op_OIDCPoll f) = wrap_answer PollAnswer (pollOIDCDevice ap en now f)"
| "op_run ap en now cx Op_Capabilities = ret (Inr (CapabilitiesAnswer (capabilities ap)))"
| "op_run ap en now cx Op_Logout = wrap_answer Answer (logout_handler now cx)"
| "op_run ap en now cx Op_Me = wrap_answer Answer (me_handler cx)"
| "op_run ap en now cx (Op_MintCode l) = wrap_answer Answer (mintCode_handler ap en now cx l)"
| "op_run ap en now cx Op_ListDevices = wrap_answer Answer (listDevices_handler cx)"
| "op_run ap en now cx (Op_GetDevice i) = wrap_answer Answer (getDevice_handler cx i)"
| "op_run ap en now cx (Op_PatchDevice i l b) = wrap_answer Answer (patchDevice_handler ap now cx i l b)"
| "op_run ap en now cx (Op_DeleteDevice i) = wrap_answer Answer (deleteDevice_handler ap now cx i)"
| "op_run ap en now cx (Op_RotateSecret i) = wrap_answer Answer (rotateSecret_handler ap en now cx i)"
| "op_run ap en now cx (Op_History i c n) = wrap_answer Answer (history_handler cx i c n)"
| "op_run ap en now cx (Op_EmailRequest a) = wrap_answer Answer (emailRequest_handler ap en now cx a)"
| "op_run ap en now cx Op_EmailCancel = wrap_answer Answer (emailCancel_handler ap now cx)"
| "op_run ap en now cx (Op_EmailConfirm t) = wrap_answer Answer (emailConfirm_handler ap now cx t)"
| "op_run ap en now cx Op_ListKeys = wrap_answer Answer (listKeys_handler cx)"
| "op_run ap en now cx (Op_MintKey l) = wrap_answer Answer (mintKey_handler ap en now cx l)"
| "op_run ap en now cx (Op_RevokeKey i) = wrap_answer Answer (revokeKey_handler now cx i)"
| "op_run ap en now cx Op_ListUsers = wrap_answer Answer (adminListUsersHandler now)"
| "op_run ap en now cx (Op_GetUser i) = wrap_answer Answer (adminGetUserHandler now i)"
| "op_run ap en now cx (Op_CreateUser a r) = wrap_answer Answer (adminCreateUserHandler ap en now cx a r)"
| "op_run ap en now cx (Op_UpdateUser i p) = wrap_answer Answer (adminUpdateUserHandler ap now cx i p)"
| "op_run ap en now cx (Op_SetUserEmail i a) = wrap_answer Answer (adminSetUserEmailHandler ap now cx i a)"
| "op_run ap en now cx (Op_DeleteUser i) = wrap_answer Answer (deleteUser_handler ap now cx i)"
| "op_run ap en now cx (Op_IssueRecovery i) = wrap_answer Answer (issueRecovery_handler ap en now cx i)"
| "op_run ap en now cx (Op_ReissueInvite i) = wrap_answer Answer (adminReissueInviteHandler ap en now cx i)"
| "op_run ap en now cx Op_ListAllDevices = wrap_answer Answer listAllDevices_handler"
| "op_run ap en now cx Op_ListAllDeviceIPs = wrap_answer Answer (listAllDeviceIPs_handler ap)"
| "op_run ap en now cx (Op_ListAudit f c n) = wrap_answer Answer (audit_handler f c n)"
| "op_run ap en now cx Op_ServerInfo = wrap_answer Answer (serverInfo_handler ap)"
| "op_run ap en now cx Op_ListFeedTokens = wrap_answer Answer listFeedTokens_handler"
| "op_run ap en now cx (Op_MintFeedToken l) = wrap_answer Answer (mintFeedToken_handler ap en now cx l)"
| "op_run ap en now cx (Op_RevokeFeedToken i) = wrap_answer Answer (revokeFeedToken_handler now cx i)"
| "op_run ap en now cx Op_ListEndpoints = wrap_answer Answer (listEndpoints_handler ap)"
| "op_run ap en now cx (Op_CreateEndpoint l u) = wrap_answer Answer (createEndpoint_handler ap en now cx l u)"
| "op_run ap en now cx (Op_GetEndpoint i) = wrap_answer Answer (getEndpoint_handler ap i)"
| "op_run ap en now cx (Op_PatchEndpoint i b) = wrap_answer Answer (patchEndpoint_handler ap now cx i b)"
| "op_run ap en now cx (Op_DeleteEndpoint i) = wrap_answer Answer (deleteEndpoint_handler ap now cx i)"
| "op_run ap en now cx (Op_TestEndpoint i) = wrap_answer Answer (testEndpoint_handler ap now cx i)"
| "op_run ap en now cx (Op_Redeliver i) = wrap_answer Answer (redeliver_handler ap now cx i)"

definition serve_api ::
  "('z keyworld_scheme) api_deps \<Rightarrow> entropy \<Rightarrow> int \<Rightarrow> http_request \<Rightarrow> api_op \<Rightarrow> ('z keyworld_scheme, reply + api_answer) action" where
  "serve_api ap en now rq op =
     bindE (run_chain (op_chain (ap_auth ap) now op) rq empty_ctx) (\<lambda>r.
       case r of Inl rep \<Rightarrow> ret (Inl rep) | Inr cx \<Rightarrow> op_run ap en now cx op)"

end
