(* ===== verification/Api_Gate.thy ===== *)
theory Api_Gate
  imports Api_Routes
begin

text \<open>
  Who reaches the handlers of the REST API, and what a rejected request leaves behind.
\<close>

section \<open>Callers\<close>

definition by_session :: "int \<Rightarrow> http_request \<Rightarrow> database \<Rightarrow> session_row \<Rightarrow> user_row \<Rightarrow> bool" where
  "by_session now rq d s u \<longleftrightarrow>
     rq_Cookie rq = Some (ss_id s) \<and> find_session (ss_id s) d = Some s \<and> now < ss_expires_at s \<and>
     find_user (ss_user_id s) d = Some u \<and> \<not> uc_disabled u"

definition by_key :: "crypto \<Rightarrow> http_request \<Rightarrow> database \<Rightarrow> api_key_row \<Rightarrow> user_row \<Rightarrow> bool" where
  "by_key cr rq d k u \<longleftrightarrow>
     (\<exists>p. rq_Authorization rq = ''Bearer '' @ p \<and> has_prefix p APIKeyPrefix \<and> ak_key_hash k = HashToken cr p) \<and>
     k \<in> set (api_keys d) \<and> find_user (ak_user_id k) d = Some u \<and> \<not> uc_disabled u"

text \<open>The user a key acts as.\<close>

definition key_user :: "api_key_row \<Rightarrow> user_row \<Rightarrow> User" where
  "key_user k u = (if ak_admin_scope k then scanUser u else (scanUser u)\<lparr>u_Role := ''user''\<rparr>)"

section \<open>Stamps\<close>

text \<open>Two databases that differ at most in when sessions and keys were last used.\<close>

definition stamped :: "database \<Rightarrow> database \<Rightarrow> bool" where
  "stamped d d' \<longleftrightarrow>
     d'\<lparr>sessions := [], api_keys := []\<rparr> = d\<lparr>sessions := [], api_keys := []\<rparr> \<and>
     map (\<lambda>r. r\<lparr>ss_last_seen_at := 0, ss_expires_at := 0\<rparr>) (sessions d') = map (\<lambda>r. r\<lparr>ss_last_seen_at := 0, ss_expires_at := 0\<rparr>) (sessions d) \<and>
     map (\<lambda>r. r\<lparr>ak_last_used_at := None\<rparr>) (api_keys d') = map (\<lambda>r. r\<lparr>ak_last_used_at := None\<rparr>) (api_keys d)"

interpretation stamps: db_order stamped
  by unfold_locales (auto simp: stamped_def)

lemma stamped_users: "stamped d d' \<Longrightarrow> users d' = users d"
proof -
  assume "stamped d d'"
  then have "users (d'\<lparr>sessions := [], api_keys := []\<rparr>) = users (d\<lparr>sessions := [], api_keys := []\<rparr>)"
    unfolding stamped_def by (elim conjE) (rule arg_cong)
  then show ?thesis by simp
qed

lemma stamped_touches [follows_intros]:
  "follows stamped (SessionRepo_Touch now i e)"
  "follows stamped (APIKeyRepo_TouchLastUsed i now)"
  "follows stamped (key_touch_due i now)"
  unfolding SessionRepo_Touch_def APIKeyRepo_TouchLastUsed_def require_rows_def
  by (intro follows_intros stamps.follows_exec; simp add: stamped_def)+
     (rule stamps.follows_same, simp add: key_touch_due_def Let_def)

lemma stamped_auth [follows_intros]:
  "follows stamped (AuthenticateRequest sm g1 g2 now ck)"
  "follows stamped (APIKeyService_Authenticate cr now p)"
  "follows stamped (UserForKey k)"
  unfolding AuthenticateRequest_def SessionManager_Authenticate_def APIKeyService_Authenticate_def UserForKey_def Let_def
    SessionRepo_GetByID_def UserRepo_GetByID_def APIKeyRepo_GetByHash_def
  by (intro follows_intros)+

lemma stamped_middleware:
  "follows stamped (sessionMiddleware sm now rq cx)"
  "follows stamped (sessionOrAPIKeyMiddleware cr sm now rq cx)"
  "follows stamped (csrfMiddleware rq cx)"
  "follows stamped (adminMiddleware rq cx)"
  unfolding sessionMiddleware_def sessionOrAPIKeyMiddleware_def key_path_def csrfMiddleware_def adminMiddleware_def Let_def
  by (intro follows_intros)+

lemma stamped_chain:
  assumes "\<And>m cx. m \<in> set ms \<Longrightarrow> follows stamped (m rq cx)"
  shows "follows stamped (run_chain ms rq cx)"
  using assms by (induction ms arbitrary: cx) (auto intro!: follows_intros)

section \<open>What the first middleware establishes\<close>

lemma chain_Cons:
  "run_chain (m # ms) rq cx w = (Inr (Inr cx'), w') \<longleftrightarrow>
     (\<exists>cx1 w1. m rq cx w = (Inr (Inr cx1), w1) \<and> run_chain ms rq cx1 w1 = (Inr (Inr cx'), w'))"
  by (auto simp: bindE_def split: sum.splits prod.splits)

lemma sessionMiddleware_passes:
  assumes "sessionMiddleware sm now rq cx w = (Inr (Inr cx'), w')"
  shows "\<exists>s u sess. by_session now rq (db w) s u \<and> se_CSRFToken sess = ss_csrf_token s \<and>
           cx' = cx\<lparr>cx_user := Some (scanUser u), cx_session := Some sess\<rparr>"
proof -
  obtain x w1 where x: "AuthenticateRequest sm (rq_gone1 rq) (rq_gone2 rq) now (rq_Cookie rq) w = (x, w1)"
    by (cases "AuthenticateRequest sm (rq_gone1 rq) (rq_gone2 rq) now (rq_Cookie rq) w")
  with assms obtain usr sess where ok: "x = Inr (usr, sess)" "cx' = cx\<lparr>cx_user := Some usr, cx_session := Some sess\<rparr>"
    by (cases x) (auto simp: sessionMiddleware_def bindE_tryE_case)
  then obtain i where i: "rq_Cookie rq = Some i"
    and a: "SessionManager_Authenticate sm (rq_gone1 rq) (rq_gone2 rq) now i w = (Inr (usr, sess), w1)"
    using x by (auto simp: AuthenticateRequest_def split: option.splits if_splits)
  from Authenticate_Inr [OF a] obtain r u where
    "find_session i (db w) = Some r" "now < ss_expires_at r" "find_user (ss_user_id r) (db w) = Some u"
    "\<not> uc_disabled u" "usr = scanUser u" "se_CSRFToken sess = ss_csrf_token r" by blast
  moreover from this(1) have "ss_id r = i" by (auto simp: find_session_def dest: find_SomeD)
  ultimately show ?thesis using i ok(2) by (auto simp: by_session_def)
qed

lemma key_Authenticate_Inr:
  assumes "APIKeyService_Authenticate cr now p w = (Inr key, w')"
  shows "\<exists>k \<in> set (api_keys (db w)). ak_key_hash k = HashToken cr p \<and> kk_UserID key = ak_user_id k \<and>
           kk_AdminScope key = ak_admin_scope k \<and> users (db w') = users (db w)"
proof -
  from assms obtain k0 w1 where g: "APIKeyRepo_GetByHash (HashToken cr p) w = (Inr k0, w1)"
    by (auto simp: APIKeyService_Authenticate_def bindE_def split: if_splits sum.splits prod.splits)
  then obtain k where k: "k \<in> set (api_keys (db w))" "ak_key_hash k = HashToken cr p" "k0 = scanAPIKey k"
    by (auto simp: APIKeyRepo_GetByHash_def dest!: queryRow_Inr find_SomeD)
  have key: "kk_UserID key = kk_UserID k0 \<and> kk_AdminScope key = kk_AdminScope k0"
    using assms g by (auto simp: APIKeyService_Authenticate_def bindE_def key_touch_due_def Let_def tryE_def
      split: if_splits sum.splits prod.splits)
  have st: "follows stamped (APIKeyService_Authenticate cr now p)" by (rule stamped_auth)
  have "users (db w') = users (db w)" by (rule stamped_users [OF followsD [OF st assms]])
  with k key show ?thesis by (auto simp: scanAPIKey_def)
qed

lemma has_prefix_split: "has_prefix s p \<Longrightarrow> s = p @ drop (length p) s"
  by (metis append_take_drop_id has_prefix_def)

lemma sessionOrKey_passes:
  assumes "sessionOrAPIKeyMiddleware cr sm now rq cx w = (Inr (Inr cx'), w')"
  shows "(rq_Authorization rq = '''' \<and> (\<exists>s u sess. by_session now rq (db w) s u \<and> se_CSRFToken sess = ss_csrf_token s \<and>
            cx' = cx\<lparr>cx_user := Some (scanUser u), cx_session := Some sess\<rparr>)) \<or>
         (\<exists>k u. by_key cr rq (db w) k u \<and>
            cx' = cx\<lparr>cx_user := Some (key_user k u), cx_authMethod := Some authMethodAPIKey\<rparr>)"
proof (cases "rq_Authorization rq = ''''")
  case True
  with assms sessionMiddleware_passes show ?thesis by (auto simp: sessionOrAPIKeyMiddleware_def)
next
  case False
  let ?p = "drop (length ''Bearer '') (rq_Authorization rq)"
  from False assms have form: "has_prefix (rq_Authorization rq) ''Bearer ''" "has_prefix ?p APIKeyPrefix"
    and run: "key_path cr now ?p cx w = (Inr (Inr cx'), w')"
    by (auto simp: sessionOrAPIKeyMiddleware_def Let_def split: if_splits)
  obtain x w1 where x: "APIKeyService_Authenticate cr now ?p w = (x, w1)" by (cases "APIKeyService_Authenticate cr now ?p w")
  with run obtain key where key: "x = Inr key" by (cases x) (auto simp: key_path_def bindE_tryE_case)
  from key_Authenticate_Inr [OF x [unfolded key]] obtain k where
    k: "k \<in> set (api_keys (db w))" "ak_key_hash k = HashToken cr ?p" "kk_UserID key = ak_user_id k"
      "kk_AdminScope key = ak_admin_scope k" "users (db w1) = users (db w)" by blast
  obtain q w2 where q: "UserForKey key w1 = (q, w2)" by (cases "UserForKey key w1")
  with run x key obtain usr where usr: "q = Inr usr" by (cases q) (auto simp: key_path_def bindE_tryE_case)
  with q obtain u where u: "find_user (ak_user_id k) (db w) = Some u" "usr = scanUser u"
    using k(3,5) by (auto simp: UserForKey_def UserRepo_GetByID_def find_user_def dest!: queryRow_Inr)
  from run x key q usr have "\<not> u_Disabled usr"
    and cx: "cx' = cx\<lparr>cx_user := Some (if kk_AdminScope key then usr else usr\<lparr>u_Role := ''user''\<rparr>), cx_authMethod := Some authMethodAPIKey\<rparr>"
    by (auto simp: key_path_def bindE_tryE_case Let_def split: if_splits)
  then have "\<not> uc_disabled u" using u(2) by (simp add: scanUser_def)
  moreover have "rq_Authorization rq = ''Bearer '' @ ?p"
    using form(1) by (rule has_prefix_split)
  ultimately have "by_key cr rq (db w) k u" using form(2) k(1,2) u(1) by (auto simp: by_key_def)
  with cx k(4) u(2) show ?thesis by (auto simp: key_user_def)
qed

section \<open>The gate\<close>

text \<open>Who is behind a request that reached its handler, by what the route demands.\<close>

definition admitted ::
  "auth_deps \<Rightarrow> int \<Rightarrow> http_request \<Rightarrow> database \<Rightarrow> request_ctx \<Rightarrow> bool \<Rightarrow> bool \<Rightarrow> bool \<Rightarrow> bool" where
  "admitted de now rq d cx keys csrf adm \<longleftrightarrow>
     (\<exists>s u. by_session now rq d s u \<and> UserFrom cx = scanUser u \<and> (keys \<longrightarrow> rq_Authorization rq = '''') \<and>
        (csrf \<longrightarrow> ss_csrf_token s \<noteq> '''' \<and> rq_CSRF rq = ss_csrf_token s) \<and> (adm \<longrightarrow> uc_role u = ''admin'')) \<or>
     (\<exists>k u. keys \<and> by_key (de_crypto de) rq d k u \<and> UserFrom cx = key_user k u \<and>
        (adm \<longrightarrow> ak_admin_scope k \<and> uc_role u = ''admin''))"

lemmas chain_defs = sessionMW_def sessionOrKeyMW_def sessionCSRF_def sessionOrKeyCSRF_def adminReadMW_def adminWriteMW_def
  feedRead_def feedWrite_def

lemma csrf_passes:
  "csrfMiddleware rq cx w = (Inr (Inr cx'), w') \<longleftrightarrow>
     cx' = cx \<and> w' = w \<and> (cx_authMethod cx = Some authMethodAPIKey \<or> ValidCSRF (SessionFrom cx) (rq_CSRF rq))"
  by (auto simp: csrfMiddleware_def)

lemma admin_passes:
  "adminMiddleware rq cx w = (Inr (Inr cx'), w') \<longleftrightarrow> cx' = cx \<and> w' = w \<and> u_Role (UserFrom cx) = ''admin''"
  by (auto simp: adminMiddleware_def)

lemma empty_ctx_values [simp]:
  "UserFrom (empty_ctx\<lparr>cx_user := Some u, cx_session := s\<rparr>) = u"
  "UserFrom (empty_ctx\<lparr>cx_user := Some u, cx_authMethod := m\<rparr>) = u"
  "SessionFrom (empty_ctx\<lparr>cx_user := v, cx_session := Some t\<rparr>) = t"
  "cx_authMethod (empty_ctx\<lparr>cx_user := v, cx_session := s\<rparr>) = None"
  by (simp_all add: UserFrom_def SessionFrom_def empty_ctx_def)

lemma key_user_role: "u_Role (key_user k u) = ''admin'' \<Longrightarrow> ak_admin_scope k \<and> uc_role u = ''admin''"
  by (auto simp: key_user_def scanUser_def split: if_splits)

lemma session_chains:
  assumes "run_chain ms rq empty_ctx w = (Inr (Inr cx), w')"
  shows "ms = [sessionMW de now] \<Longrightarrow> admitted de now rq (db w) cx False False False"
    and "ms = sessionCSRF de now \<Longrightarrow> admitted de now rq (db w) cx False True False"
proof -
  have s: "admitted de now rq (db w) cx False c False"
    if "sessionMW de now rq empty_ctx w = (Inr (Inr cx1), w1)" "cx = cx1" "c \<Longrightarrow> ValidCSRF (SessionFrom cx1) (rq_CSRF rq)" for cx1 w1 c
    using sessionMiddleware_passes [OF that(1) [unfolded sessionMW_def]] that(2,3)
    unfolding admitted_def by (elim exE) (intro disjI1 exI, auto simp: ValidCSRF_def)
  show "admitted de now rq (db w) cx False False False" if "ms = [sessionMW de now]"
    using assms unfolding that chain_Cons by (auto intro: s)
  show "admitted de now rq (db w) cx False True False" if ms: "ms = sessionCSRF de now"
  proof -
    from assms obtain cx1 w1 where m: "sessionMW de now rq empty_ctx w = (Inr (Inr cx1), w1)"
      and c: "cx = cx1" "cx_authMethod cx1 = Some authMethodAPIKey \<or> ValidCSRF (SessionFrom cx1) (rq_CSRF rq)"
      by (auto simp: ms sessionCSRF_def chain_Cons csrf_passes simp del: run_chain.simps(2))
    have "cx_authMethod cx1 = None" using sessionMiddleware_passes [OF m [unfolded sessionMW_def]] by auto
    with c show ?thesis by (intro s [OF m]) auto
  qed
qed

lemma key_chains:
  assumes "run_chain (sessionOrKeyMW de now # (if adm then [adminMiddleware] else []) @ (if csrf then [csrfMiddleware] else []))
             rq empty_ctx w = (Inr (Inr cx), w')"
  shows "admitted de now rq (db w) cx True csrf adm"
proof -
  from assms obtain w1 where m: "sessionOrKeyMW de now rq empty_ctx w = (Inr (Inr cx), w1)"
    and a: "adm \<Longrightarrow> u_Role (UserFrom cx) = ''admin''"
    and c: "csrf \<Longrightarrow> cx_authMethod cx = Some authMethodAPIKey \<or> ValidCSRF (SessionFrom cx) (rq_CSRF rq)"
    unfolding chain_Cons by (cases adm; cases csrf) (auto simp: chain_Cons csrf_passes admin_passes simp del: run_chain.simps(2))
  from sessionOrKey_passes [OF m [unfolded sessionOrKeyMW_def]] show ?thesis
  proof (elim disjE conjE exE)
    fix s u sess
    assume "rq_Authorization rq = ''''" "by_session now rq (db w) s u" "se_CSRFToken sess = ss_csrf_token s"
      "cx = empty_ctx\<lparr>cx_user := Some (scanUser u), cx_session := Some sess\<rparr>"
    with a c show ?thesis unfolding admitted_def
      by (intro disjI1 exI [of _ s] exI [of _ u]) (auto simp: ValidCSRF_def scanUser_def)
  next
    fix k u
    assume "by_key (de_crypto de) rq (db w) k u"
      "cx = empty_ctx\<lparr>cx_user := Some (key_user k u), cx_authMethod := Some authMethodAPIKey\<rparr>"
    with a show ?thesis unfolding admitted_def
      by (intro disjI2 exI [of _ k] exI [of _ u]) (auto dest: key_user_role)
  qed
qed

lemma key_chain_shapes:
  "[sessionOrKeyMW de now] = sessionOrKeyMW de now # (if False then [adminMiddleware] else []) @ (if False then [csrfMiddleware] else [])"
  "sessionOrKeyCSRF de now = sessionOrKeyMW de now # (if False then [adminMiddleware] else []) @ (if True then [csrfMiddleware] else [])"
  "adminReadMW de now = sessionOrKeyMW de now # (if True then [adminMiddleware] else []) @ (if False then [csrfMiddleware] else [])"
  "adminWriteMW de now = sessionOrKeyMW de now # (if True then [adminMiddleware] else []) @ (if True then [csrfMiddleware] else [])"
  "feedRead de now = adminReadMW de now"
  "feedWrite de now = adminWriteMW de now"
  by (simp_all add: chain_defs)

lemma chain_admits:
  assumes "run_chain ms rq empty_ctx w = (Inr (Inr cx), w')"
  shows "ms = [sessionOrKeyMW de now] \<Longrightarrow> admitted de now rq (db w) cx True False False"
    and "ms = sessionOrKeyCSRF de now \<Longrightarrow> admitted de now rq (db w) cx True True False"
    and "ms = adminReadMW de now \<Longrightarrow> admitted de now rq (db w) cx True False True"
    and "ms = adminWriteMW de now \<Longrightarrow> admitted de now rq (db w) cx True True True"
  using assms by (simp_all only: key_chain_shapes key_chains)

text \<open>What the table demands of a route, read off its path and method.\<close>

definition key_route :: "api_op \<Rightarrow> bool" where
  "key_route op \<longleftrightarrow> \<not> has_prefix (snd (op_route op)) ''/api/v1/account/'' \<and> op \<noteq> Op_Logout"

definition admin_route :: "api_op \<Rightarrow> bool" where
  "admin_route op \<longleftrightarrow> has_prefix (snd (op_route op)) ''/api/v1/admin/''"

definition unsafe_route :: "api_op \<Rightarrow> bool" where
  "unsafe_route op \<longleftrightarrow> fst (op_route op) \<noteq> ''GET'' \<and> op \<noteq> Op_Logout"

lemma api_shapes:
  assumes "has_prefix (snd (op_route op)) ''/api/v1/''"
  shows "op_chain de now op =
    (if key_route op
     then sessionOrKeyMW de now # (if admin_route op then [adminMiddleware] else []) @ (if unsafe_route op then [csrfMiddleware] else [])
     else if unsafe_route op then sessionCSRF de now else [sessionMW de now])"
    and "\<not> key_route op \<Longrightarrow> \<not> admin_route op"
  using assms by (cases op; simp add: key_route_def admin_route_def unsafe_route_def has_prefix_def chain_defs)+

text \<open>A middleware of these chains never fails, and what it answers itself is a 401 or a 403.\<close>

definition rejects_only :: "('w, reply + request_ctx) action \<Rightarrow> bool" where
  "rejects_only m \<longleftrightarrow> (\<forall>w. case fst (m w) of Inl _ \<Rightarrow> False | Inr (Inl (st, _)) \<Rightarrow> st = 401 \<or> st = 403 | Inr (Inr _) \<Rightarrow> True)"

lemma rejects_bind:
  assumes "\<And>x. rejects_only (k x)"
  shows "rejects_only (bindE (tryE m) k)"
  using assms by (auto simp: rejects_only_def bindE_def tryE_def split: prod.splits)

lemma rejects_ret [simp]:
  "rejects_only (ret (Inr cx))" "rejects_only (ret (Inl (401, s)))" "rejects_only (ret (Inl (403, s)))"
  by (simp_all add: rejects_only_def)

lemma rejects_session: "rejects_only (sessionMiddleware sm now rq cx)"
  unfolding sessionMiddleware_def by (rule rejects_bind) (auto split: sum.splits)

lemma rejects_key_path: "rejects_only (key_path cr now p cx)"
  unfolding key_path_def by (intro rejects_bind) (auto simp: Let_def split: sum.splits intro!: rejects_bind)

lemma rejects_middleware:
  "rejects_only (sessionMiddleware sm now rq cx)"
  "rejects_only (sessionOrAPIKeyMiddleware cr sm now rq cx)"
  "rejects_only (csrfMiddleware rq cx)"
  "rejects_only (adminMiddleware rq cx)"
  by (simp_all add: rejects_session rejects_key_path sessionOrAPIKeyMiddleware_def Let_def csrfMiddleware_def adminMiddleware_def)

lemma rejects_chain:
  assumes "\<And>m cx. m \<in> set ms \<Longrightarrow> rejects_only (m rq cx)"
  shows "rejects_only (run_chain ms rq cx)"
  using assms
proof (induction ms arbitrary: cx)
  case (Cons m ms)
  have m: "rejects_only (m rq cx)" and ms: "rejects_only (run_chain ms rq cx')" for cx' using Cons by auto
  show ?case unfolding rejects_only_def
  proof
    fix w
    obtain r w1 where r: "m rq cx w = (r, w1)" by (cases "m rq cx w")
    from m have "case fst (m rq cx w) of Inl _ \<Rightarrow> False | Inr (Inl (st, _)) \<Rightarrow> st = 401 \<or> st = 403 | Inr (Inr _) \<Rightarrow> True"
      unfolding rejects_only_def by (rule spec)
    then consider (no) st t where "r = Inr (Inl (st, t))" "st = 401 \<or> st = 403" | (yes) cx' where "r = Inr (Inr cx')"
      using r by (auto split: sum.splits prod.splits)
    then show "case fst (run_chain (m # ms) rq cx w) of Inl _ \<Rightarrow> False | Inr (Inl (st, _)) \<Rightarrow> st = 401 \<or> st = 403 | Inr (Inr _) \<Rightarrow> True"
    proof cases
      case no
      with r show ?thesis by (simp add: bindE_def)
    next
      case yes
      with r have "run_chain (m # ms) rq cx w = run_chain ms rq cx' w1" by (simp add: bindE_def)
      moreover from ms [of cx'] have "case fst (run_chain ms rq cx' w1) of Inl _ \<Rightarrow> False
          | Inr (Inl (st, _)) \<Rightarrow> st = 401 \<or> st = 403 | Inr (Inr _) \<Rightarrow> True"
        unfolding rejects_only_def by (rule spec)
      ultimately show ?thesis by (simp only:)
    qed
  qed
qed (simp add: rejects_only_def)

lemma api_chain_members:
  assumes "has_prefix (snd (op_route op)) ''/api/v1/''" and "m \<in> set (op_chain de now op)"
  shows "m \<in> {sessionMW de now, sessionOrKeyMW de now, adminMiddleware, csrfMiddleware}"
  using assms(2) unfolding api_shapes(1) [OF assms(1)] by (auto simp: sessionCSRF_def split: if_splits)


definition gate_deps :: auth_deps where
  "gate_deps = \<lparr> de_verifier = sample_verifier, de_sessions = \<lparr> sm_ttl = 3600000000000, sm_slide = 60000000000 \<rparr>, de_crypto = plain_crypto \<rparr>"

definition gate_request :: http_request where
  "gate_request = \<lparr> rq_Method = ''DELETE'', rq_Path = ''/api/v1/admin/users/u2'', rq_Body = Some '''', rq_Authorization = '''',
     rq_Cookie = Some ''s1'', rq_CSRF = ''c1'', rq_Device = '''', rq_Timestamp = '''', rq_Nonce = '''', rq_Signature = '''',
     rq_gone1 = False, rq_gone2 = False \<rparr>"

definition gate_db :: database where
  "gate_db = empty_db\<lparr>users := [u1\<lparr>uc_role := ''admin''\<rparr>],
     sessions := [\<lparr> ss_id = ''s1'', ss_user_id = ''u1'', ss_csrf_token = ''c1'', ss_ip = None, ss_user_agent = None,
                    ss_created_at = 90, ss_last_seen_at = 90, ss_expires_at = 3690 \<rparr>]\<rparr>"

definition gate_world :: keyworld where
  "gate_world = \<lparr> db = gate_db, faults = [], w_hub = Hub_New, w_mail = [], v_cache = Map.empty, w_sent = [],
     w_touch = Map.empty, w_keyTouch = Map.empty \<rparr>"

lemma gate_world_run:
  "\<exists>cx w'. run_chain (op_chain gate_deps 100 (Op_DeleteUser ''u2'')) gate_request empty_ctx gate_world = (Inr (Inr cx), w')"
  by (simp add: gate_deps_def gate_request_def gate_world_def gate_db_def u1_def chain_defs sessionOrAPIKeyMiddleware_def
      sessionMiddleware_def AuthenticateRequest_def SessionManager_Authenticate_def SessionRepo_GetByID_def find_session_def
      UserRepo_GetByID_def find_user_def queryRow_def stmt_def next_fault_def bindE_def tryE_def scanSession_def scanUser_def
      wholeSeconds_def adminMiddleware_def csrfMiddleware_def UserFrom_def SessionFrom_def ValidCSRF_def empty_ctx_def)


end
