(* ===== verification/Api_Sound.thy ===== *)
theory Api_Sound
  imports Api_Gate Grant_Props
begin

text \<open>
  Every request to the API keeps the invariant of the database, whatever statements of it fail: each repository, each
  service, each handler and at last each operation of the API preserves \<open>sound\<close>.
\<close>

section \<open>Repositories\<close>

text \<open>What the account part of the invariant looks at.\<close>

definition rest_same :: "database \<Rightarrow> database \<Rightarrow> bool" where
  "rest_same d d' \<longleftrightarrow>
     users d' = users d \<and> sessions d' = sessions d \<and> account_recovery_tokens d' = account_recovery_tokens d \<and>
     oidc_device_flows d' = oidc_device_flows d \<and> api_keys d' = api_keys d \<and> webauthn_credentials d' = webauthn_credentials d \<and>
     bootstrap d' = bootstrap d \<and> audit_log d' = audit_log d \<and> audit_log_seq d' = audit_log_seq d"

definition hist_same :: "database \<Rightarrow> database \<Rightarrow> bool" where
  "hist_same d d' \<longleftrightarrow> rest_same d d' \<and> devices d' = devices d \<and> ip_history d' = ip_history d"

interpretation rest: db_order rest_same
  by unfold_locales (simp_all add: rest_same_def)

interpretation hist: db_order hist_same
  by unfold_locales (simp_all add: hist_same_def rest_same_def)

lemma sound_rest: "sound d \<Longrightarrow> rest_same d d' \<Longrightarrow> wf_hist d' \<Longrightarrow> sound d'"
  by (simp add: sound_def rest_same_def wf_identity_def wf_accounts_def wf_bootstrap_def wf_audit_def)

lemma sound_by_hist:
  fixes m :: "('z world_scheme, 'a) action"
  assumes "preserves (on_db wf_hist) m" and "follows rest_same m"
  shows "preserves (on_db sound) m"
proof
  fix w :: "'z world_scheme" assume s: "on_db sound w"
  then have "wf_hist (db (snd (m w)))" using assms(1) by (simp add: preserves_def on_db_def sound_def)
  with s assms(2) show "on_db sound (snd (m w))" by (auto simp: on_db_def follows_def intro: sound_rest)
qed

lemma sound_by_wf:
  fixes m :: "('z world_scheme, 'a) action"
  assumes "preserves (on_db wf_db) m" and "follows hist_same m"
  shows "preserves (on_db sound) m"
proof (rule sound_by_hist)
  show "follows rest_same m" using assms(2) by (rule follows_weaken) (simp add: hist_same_def)
  show "preserves (on_db wf_hist) m"
  proof
    fix w :: "'z world_scheme" assume "on_db wf_hist w"
    moreover have "hist_same (db w) (db (snd (m w)))" using assms(2) by (simp add: follows_def)
    moreover from this have "recorded i (db (snd (m w))) = recorded i (db w)" for i
      by (simp add: hist_same_def recorded_def device_history_def)
    ultimately show "on_db wf_hist (snd (m w))" using assms(1)
      by (simp add: on_db_def wf_hist_def preserves_def hist_same_def hist_agrees_def)
  qed
qed

lemma core_hist: "core d' = core d \<Longrightarrow> hist_same d d'"
  by (cases d; cases d'; simp add: core_def hist_same_def rest_same_def)

lemma sound_core:
  assumes "keeps_core m"
  shows "preserves (on_db sound) m"
proof (rule sound_by_wf)
  show "preserves (on_db wf_db) m" using assms by (simp add: keeps_core_def)
  show "follows hist_same m" using assms core_hist by (simp add: keeps_core_def follows_def)
qed

lemma rest_devices [follows_intros]:
  "follows rest_same (DeviceRepo_Create nid now dev)" "follows rest_same (DeviceRepo_Touch now i v4 v6 ls)"
  "follows rest_same (DeviceRepo_Rename now i l)" "follows rest_same (DeviceRepo_RotateSecret now i s)"
  "follows rest_same (DeviceRepo_SetDisabled now i x)" "follows rest_same (DeviceRepo_Delete i)"
  unfolding DeviceRepo_Create_def DeviceRepo_Touch_def DeviceRepo_Rename_def DeviceRepo_RotateSecret_def DeviceRepo_SetDisabled_def
    DeviceRepo_Delete_def require_rows_def Let_def
  by (intro follows_intros rest.follows_stmt rest.follows_exec;
      simp add: rest_same_def insert_device_def update_devices_def rename_device_def delete_device_def Let_def split: option.split)+

lemma rest_RecordIPChange: "follows rest_same (RecordIPChange now c)"
  unfolding RecordIPChange_def updateDeviceIP_def appendIPHistory_def require_rows_def Let_def
  by (intro follows_intros rest.follows_stmt rest.follows_exec;
      simp add: rest_same_def insert_history_def update_devices_def Let_def)+

lemma sound_devices [preserves_intros]:
  "preserves (on_db sound) (DeviceRepo_Touch now i v4 v6 ls)" "preserves (on_db sound) (DeviceRepo_Rename now i l)"
  "preserves (on_db sound) (DeviceRepo_RotateSecret now i s)" "preserves (on_db sound) (DeviceRepo_SetDisabled now i x)"
  "preserves (on_db sound) (DeviceRepo_Delete i)" "preserves (on_db sound) (RecordIPChange now c)"
  by (rule sound_by_hist; intro preserves_intros rest_devices rest_RecordIPChange)+

lemma sound_device_create:
  "d_CurrentIPv4 dev = [] \<Longrightarrow> d_CurrentIPv6 dev = [] \<Longrightarrow> preserves (on_db sound) (DeviceRepo_Create nid now dev)"
  by (intro sound_by_hist preserves_hist_Create rest_devices)

lemma hist_others [follows_intros]:
  "follows hist_same (EndpointRepo_Create e)" "follows hist_same (EndpointRepo_SetEnabled now i x)" "follows hist_same (EndpointRepo_Delete i)"
  "follows hist_same (InsertUserTest i p now)" "follows hist_same (InsertRedelivery j now)" "follows hist_same (ReplayNonce_Insert s t)"
  unfolding EndpointRepo_Create_def EndpointRepo_SetEnabled_def EndpointRepo_Delete_def InsertUserTest_def InsertRedelivery_def
    ReplayNonce_Insert_def require_rows_def Let_def
  by (intro follows_intros hist.follows_stmt hist.follows_exec;
      auto simp: hist_same_def rest_same_def insert_endpoint_def insert_delivery_def insert_nonce_def Let_def split: option.split)+

lemma sound_others [preserves_intros]:
  "preserves (on_db sound) (EndpointRepo_Create e)" "preserves (on_db sound) (EndpointRepo_SetEnabled now i x)"
  "preserves (on_db sound) (EndpointRepo_Delete i)" "preserves (on_db sound) (InsertUserTest i p now)"
  "preserves (on_db sound) (InsertRedelivery j now)"
  by (rule sound_by_wf; intro preserves_intros hist_others)+

lemma wf_insert_nonce: "wf_db d \<Longrightarrow> wf_db (snd (insert_nonce s t d))"
  by (auto simp: insert_nonce_def wf_db_def wf_table_defs)

lemma sound_nonce [preserves_intros]: "preserves (on_db sound) (ReplayNonce_Insert s t)"
  by (rule sound_by_wf [OF _ hist_others(6)]) (auto simp: ReplayNonce_Insert_def intro!: preserves_stmt wf_insert_nonce)

lemma sound_tokens_frame [simp]: "sound (d\<lparr>feed_tokens := ts\<rparr>) = sound d"
proof -
  have "rest_same d (d\<lparr>feed_tokens := ts\<rparr>)" "rest_same (d\<lparr>feed_tokens := ts\<rparr>) d" by (simp_all add: rest_same_def)
  moreover have "wf_hist (d\<lparr>feed_tokens := ts\<rparr>) = wf_hist d"
    by (simp add: wf_hist_def wf_db_def wf_table_defs hist_agrees_def recorded_def device_history_def)
  ultimately show ?thesis using sound_rest by (metis sound_def)
qed

lemma sound_tokens [preserves_intros]:
  "preserves (on_db sound) (FeedTokens_Create t)" "preserves (on_db sound) (FeedTokens_Delete i)"
  "preserves (on_db I) FeedTokens_List"
  unfolding FeedTokens_Create_def FeedTokens_Delete_def FeedTokens_List_def
  by (intro preserves_intros preserves_stmt preserves_exec; simp add: insert_token_def)+

text \<open>What does not write the database keeps every property of it.\<close>

lemma preserves_still: "(\<And>w. db (snd (m w)) = db w) \<Longrightarrow> preserves (on_db I) m"
  by (simp add: preserves_def on_db_def)

lemma sound_caches [preserves_intros]:
  "preserves (on_db I) (forget_key i)" "preserves (on_db I) (key_touch_due i now)" "preserves (on_db I) (evict_touch i)"
  "preserves (on_db I) (Invalidate i)" "preserves (on_db I) (hub_op g)"
  "preserves (on_db I) (lift_opt e x)"
  by (rule preserves_still; simp add: forget_key_def key_touch_due_def evict_touch_def Invalidate_def hub_op_def lift_opt_def Let_def split: option.split)+

lemma sound_secretFor [preserves_intros]: "preserves (on_db I) (secretFor v dev)"
  by (rule preserves_still) (simp add: secretFor_def split: option.split sum.split)

section \<open>Services\<close>

text \<open>
  The parts the server wires in: the mailer writes no database, and the hooks of the device and admin services are the fan-out's.
\<close>

definition wired_parts :: "fanout \<Rightarrow> ('z keyworld_scheme) api_deps \<Rightarrow> bool" where
  "wired_parts f ap \<longleftrightarrow>
     ap_notify ap = fanout_IPChanged f \<and> ad_DeviceAdded (ap_admin ap) = fanout_DeviceAdded f \<and>
     ad_DeviceRemoved (ap_admin ap) = fanout_DeviceRemoved f \<and> mail_only (em_mailer (ap_emails ap)) \<and>
     mail_only (gs_mailer (ap_grants ap)) \<and> (\<forall>gs. ad_grants (ap_admin ap) = Some gs \<longrightarrow> mail_only (gs_mailer gs))"

lemma sound_membership:
  "preserves (on_db sound) (emitMembership (fanout_DeviceAdded f) (fanout_DeviceRemoved f) now d was becomes)"
  unfolding emitMembership_def by (intro preserves_intros sound_core fanout.added_core fanout.removed_core)

lemma sound_owned [preserves_intros]: "preserves (on_db I) (ownedDevice u i)" "preserves (on_db I) (ownedKey u i)"
  unfolding ownedDevice_def ownedKey_def by (intro preserves_intros)+

lemma sound_device_service [preserves_intros]:
  "preserves (on_db sound) (DeviceService_Rename now u i l)"
  "preserves (on_db sound) (DeviceService_RotateSecret cr key rnd nonce now u i)"
  "preserves (on_db sound) (DeviceService_SetEnabled (fanout_DeviceAdded f) (fanout_DeviceRemoved f) now u i x)"
  "preserves (on_db sound) (DeviceService_Delete (fanout_DeviceAdded f) (fanout_DeviceRemoved f) now u i)"
  unfolding DeviceService_Rename_def DeviceService_RotateSecret_def DeviceService_SetEnabled_def DeviceService_Delete_def flipDisabled_def Let_def
  by (intro preserves_intros sound_membership)+

lemma sound_Checkin [preserves_intros]: "preserves (on_db sound) (Checkin (fanout_IPChanged f) now i rep)"
  by (rule fanout.preserves_Checkin) (rule sound_core sound_devices; assumption?)+

lemma sound_keys_feed [preserves_intros]:
  "preserves (on_db sound) (MintKey cr dt rnd nid now u l)" "preserves (on_db sound) (RevokeKey now u i)"
  "preserves (on_db sound) (APIKeyService_Authenticate cr now t)" "preserves (on_db sound) (Logout now sess)"
  "preserves (on_db sound) (FeedService_MintToken cr dt rnd nid now u l)" "preserves (on_db sound) (FeedService_RevokeToken now u i)"
  unfolding MintKey_def RevokeKey_def APIKeyService_Authenticate_def Logout_def FeedService_MintToken_def FeedService_RevokeToken_def Let_def
  by (intro preserves_intros)+

lemma sound_notifications [preserves_intros]:
  "preserves (on_db sound) (NotificationService_Create ns dr now u l url)" "preserves (on_db sound) (NotificationService_SetEnabled now u i b)"
  "preserves (on_db sound) (NotificationService_Delete now u i)" "preserves (on_db sound) (NotificationService_Test ns now u i)"
  "preserves (on_db sound) (Redeliver now u j)"
  unfolding NotificationService_Create_def NotificationService_SetEnabled_def NotificationService_Delete_def NotificationService_Test_def
    Redeliver_def Let_def
  by (intro preserves_intros)+

lemma sound_enrollment [preserves_intros]:
  "preserves (on_db sound) (CreateCode ttl rnd now u l)"
  "preserves (on_db sound) (ConsumeCode_prepare cr key dr now k meta)"
  "preserves (on_db sound) (ConsumeCode_commit now k p)"
  "preserves (on_db sound) (EnrollForUser cr key dr now u e meta)"
proof -
  have sealed: "preserves (on_db sound) (createSealedDevice cr key dr now u l meta)" for u l meta
    unfolding createSealedDevice_def by (intro preserves_intros sound_device_create) (simp_all add: new_device_def)
  show "preserves (on_db sound) (ConsumeCode_prepare cr key dr now k meta)" "preserves (on_db sound) (EnrollForUser cr key dr now u e meta)"
    unfolding ConsumeCode_prepare_def EnrollForUser_def conflictRejection_def Let_def by (intro preserves_intros sealed)+
  show "preserves (on_db sound) (CreateCode ttl rnd now u l)" "preserves (on_db sound) (ConsumeCode_commit now k p)"
    unfolding CreateCode_def ConsumeCode_commit_def rollbackDevice_def Let_def by (intro preserves_intros)+
qed

lemma sound_ConsumeCode [preserves_intros]: "preserves (on_db sound) (ConsumeCode cr key dr now k meta)"
  unfolding ConsumeCode_def by (intro preserves_intros)

lemma sound_advisory:
  assumes "mail_only m"
  shows "preserves (on_db sound) (sendAdvisory m now a u to msg)"
  unfolding sendAdvisory_def recordSendFailure_def
  by (cases "usable m") (auto intro!: preserves_intros preserves_send [OF assms])

lemma sound_changed [preserves_intros]:
  "preserves (on_db sound) (applyChanged em now a u old ev)" "preserves (on_db sound) (Cancel em now u)"
  "preserves (on_db I) (validateRequest em u e now)"
  unfolding applyChanged_def Cancel_def validateRequest_def by (intro preserves_intros)+

lemma sound_emails:
  assumes "mail_only (em_mailer em)"
  shows "preserves (on_db sound) (Request em rnd now u e)" "preserves (on_db sound) (Confirm em now u tok)"
    "preserves (on_db sound) (AdminSet em now a u e)"
  unfolding Request_def Confirm_def AdminSet_def Let_def by (intro preserves_intros sound_advisory [OF assms])+

lemma sound_oidc [preserves_intros]:
  "preserves (on_db sound) (SyncFromIDP em now u claim)" "preserves (on_db sound) (linkExisting oi now u iss sub c v)"
  "preserves (on_db sound) (signup oi nid now iss sub e)" "preserves (on_db I) (findByEmail pa c)" "preserves J (normalizeClaim pa e)"
  unfolding SyncFromIDP_def linkExisting_def signup_def findByEmail_def normalizeClaim_def oidc_reject_def Let_def
  by (intro preserves_intros)+

lemma sound_LoginOrLink [preserves_intros]: "preserves (on_db sound) (LoginOrLink oi nid now iss sub e v)"
  unfolding LoginOrLink_def oidc_reject_def by (intro preserves_intros)

lemma sound_admin [preserves_intros]:
  "preserves (on_db I) (guardLastAdmin i)" "preserves (on_db sound) (applyRole now a i p)" "preserves (on_db sound) (revoke_sessions now a i)"
  unfolding guardLastAdmin_def enabledAdminCount_def applyRole_def revoke_sessions_def Let_def by (intro preserves_intros)+

lemma sound_guard [preserves_intros]:
  "preserves (on_db I) (UpdateUser_check a i p)" "preserves (on_db I) (DeleteUser_check a i)"
  unfolding UpdateUser_check_def DeleteUser_check_def guardUpdateUser_def by (intro preserves_intros)+

lemma sound_emit_each:
  assumes "ad_DeviceAdded ad = fanout_DeviceAdded f" "ad_DeviceRemoved ad = fanout_DeviceRemoved f"
  shows "preserves (on_db sound) (emit_each ad now was becomes ds)"
  by (induction ds) (auto simp: assms intro!: preserves_intros sound_membership)

lemma sound_admin_users:
  assumes "ad_DeviceAdded ad = fanout_DeviceAdded f" "ad_DeviceRemoved ad = fanout_DeviceRemoved f"
  shows "preserves (on_db sound) (UpdateUser ad now a i p)" "preserves (on_db sound) (DeleteUser ad now a i)"
proof -
  have apply': "preserves (on_db sound) (UpdateUser_apply ad now a i p u)" "preserves (on_db sound) (DeleteUser_apply ad now a i q)" for u q
    unfolding UpdateUser_apply_def DeleteUser_apply_def applyDisabled_def by (intro preserves_intros sound_emit_each [OF assms])+
  show "preserves (on_db sound) (UpdateUser ad now a i p)" "preserves (on_db sound) (DeleteUser ad now a i)"
    unfolding UpdateUser_def DeleteUser_def by (intro preserves_intros apply')+
qed

lemma sound_invite:
  assumes "\<And>gs. ad_grants ad = Some gs \<Longrightarrow> mail_only (gs_mailer gs)"
  shows "preserves (on_db sound) (CreateUserInvite ad rnd nid now a e r)"
proof (cases "ad_grants ad")
  case None
  then show ?thesis unfolding CreateUserInvite_def by (simp only: option.case) (intro preserves_intros)
next
  case (Some gs)
  then show ?thesis unfolding CreateUserInvite_def
    by (simp only: option.case) (intro preserves_intros preserves_deliveries [OF assms [OF Some]])
qed

section \<open>Handlers\<close>

lemma sound_orElse [preserves_intros]:
  "preserves I m \<Longrightarrow> (\<And>x. preserves I (k x)) \<Longrightarrow> preserves I (orElse m onErr k)"
  unfolding orElse_def by (intro preserves_intros)

lemma sound_reads [preserves_intros]:
  "preserves (on_db I) (Checkin_Self i)" "preserves (on_db I) (DeviceService_List u)" "preserves (on_db I) (DeviceService_Get u i)"
  "preserves (on_db I) (DeviceService_History u i c n)" "preserves (on_db I) (ListKeys u)" "preserves (on_db I) ListUsers"
  "preserves (on_db I) ListAllDevices" "preserves (on_db I) (ListAllDeviceIPs tx)" "preserves (on_db I) FeedService_ListTokens"
  "preserves (on_db I) NotificationService_List" "preserves (on_db I) (NotificationService_Get e)"
  "preserves (on_db I) (UserForKey key)" "preserves (on_db I) (adminUserViews now us)" "preserves (on_db I) (ListPaginated ft c n)"
  unfolding Checkin_Self_def DeviceService_List_def DeviceService_Get_def DeviceService_History_def IPHistory_Page_def ListKeys_def
    ListUsers_def ListAllDevices_def ListAllDeviceIPs_def FeedService_ListTokens_def NotificationService_List_def NotificationService_Get_def
    UserForKey_def adminUserViews_def RegistrationStatuses_def ListPaginated_def Let_def
  by (intro preserves_intros)+

lemma sound_Verify [preserves_intros]:
  "preserves (on_db I) (Verify_lookup g1 g2 p)" "preserves (on_db sound) (Verify_check v p now dev)"
  unfolding Verify_lookup_def Verify_check_def Let_def by (intro preserves_intros)+

lemma sound_middleware [preserves_intros]:
  "preserves (on_db sound) (hmacMW de now rq cx)" "preserves (on_db sound) (sessionMiddleware sm now rq cx)"
  "preserves (on_db sound) (sessionOrAPIKeyMiddleware cr sm now rq cx)" "preserves I (csrfMiddleware rq cx)"
  "preserves I (adminMiddleware rq cx)"
  unfolding hmacMW_def hmacMiddleware_def sessionMiddleware_def sessionOrAPIKeyMiddleware_def key_path_def
    csrfMiddleware_def adminMiddleware_def Verify_def Let_def
  by (intro preserves_intros)+

lemma sound_chain:
  "(\<And>m rq' cx'. m \<in> set ms \<Longrightarrow> preserves (on_db sound) (m rq' cx')) \<Longrightarrow> preserves (on_db sound) (run_chain ms rq cx)"
  by (induction ms arbitrary: cx) (auto intro!: preserves_intros)

lemma sound_op_chain: "preserves (on_db sound) (run_chain (op_chain de now op) rq cx)"
  by (rule sound_chain, cases op) (auto simp: chain_defs sound_middleware)

lemma sound_handlers [preserves_intros]:
  "preserves (on_db sound) (self_handler cx)" "preserves (on_db sound) (enrollCode_handler ap en now k)"
  "preserves (on_db sound) (logout_handler now cx)" "preserves (on_db sound) (me_handler cx)"
  "preserves (on_db sound) (mintCode_handler ap en now cx l)" "preserves (on_db sound) (listDevices_handler cx)"
  "preserves (on_db sound) (getDevice_handler cx i)" "preserves (on_db sound) (rotateSecret_handler ap en now cx i)"
  "preserves (on_db sound) (history_handler cx i c n)" "preserves (on_db sound) (emailCancel_handler ap now cx)"
  "preserves (on_db sound) (listKeys_handler cx)" "preserves (on_db sound) (mintKey_handler ap en now cx l)"
  "preserves (on_db sound) (revokeKey_handler now cx i)" "preserves (on_db sound) (adminListUsersHandler now)"
  "preserves (on_db sound) (adminGetUserHandler now i)" "preserves (on_db sound) listAllDevices_handler"
  "preserves (on_db sound) (listAllDeviceIPs_handler ap)" "preserves (on_db sound) (audit_handler ft cur lim)"
  "preserves (on_db sound) (serverInfo_handler ap)"
  unfolding self_handler_def enrollCode_handler_def logout_handler_def me_handler_def mintCode_handler_def listDevices_handler_def
    getDevice_handler_def rotateSecret_handler_def history_handler_def emailCancel_handler_def listKeys_handler_def mintKey_handler_def
    revokeKey_handler_def adminListUsersHandler_def adminGetUserHandler_def adminUserViewFor_def listAllDevices_handler_def
    listAllDeviceIPs_handler_def audit_handler_def serverInfo_handler_def Let_def
  by (intro preserves_intros)+

lemma sound_endpoint_handlers [preserves_intros]:
  "preserves (on_db sound) listFeedTokens_handler" "preserves (on_db sound) (mintFeedToken_handler ap en now cx l)"
  "preserves (on_db sound) (revokeFeedToken_handler now cx i)" "preserves (on_db sound) (listEndpoints_handler ap)"
  "preserves (on_db sound) (createEndpoint_handler ap en now cx l url)" "preserves (on_db sound) (getEndpoint_handler ap i)"
  "preserves (on_db sound) (patchEndpoint_handler ap now cx i b)" "preserves (on_db sound) (deleteEndpoint_handler ap now cx i)"
  "preserves (on_db sound) (testEndpoint_handler ap now cx i)" "preserves (on_db sound) (redeliver_handler ap now cx j)"
  unfolding listFeedTokens_handler_def mintFeedToken_handler_def revokeFeedToken_handler_def listEndpoints_handler_def createEndpoint_handler_def
    getEndpoint_handler_def patchEndpoint_handler_def deleteEndpoint_handler_def testEndpoint_handler_def redeliver_handler_def Let_def
  by (intro preserves_intros)+

lemma sound_flow_handlers [preserves_intros]:
  "preserves (on_db sound) (startOIDCDevice ap en now)" "preserves (on_db sound) (completeOIDCDevice ap en now fl c)"
  unfolding startOIDCDevice_def completeOIDCDevice_def drop_flow_def Let_def by (intro preserves_intros)+

lemma sound_case_poll [preserves_intros]:
  "preserves I a \<Longrightarrow> preserves I b \<Longrightarrow> preserves I c \<Longrightarrow> (\<And>x. preserves I (d x)) \<Longrightarrow>
   preserves I (case r of PollPending \<Rightarrow> a | PollSlowDown \<Rightarrow> b | PollDenied \<Rightarrow> c | PollComplete x \<Rightarrow> d x)"
  by (cases r) auto

lemma sound_poll [preserves_intros]: "preserves (on_db sound) (pollOIDCDevice ap en now fid)"
  unfolding pollOIDCDevice_def drop_flow_def by (intro preserves_intros)

lemma sound_wired_handlers:
  fixes ap :: "('z keyworld_scheme) api_deps"
  assumes "wired_parts f ap"
  shows "preserves (on_db sound) (checkin_handler ap now cx r)" "preserves (on_db sound) (patchDevice_handler ap now cx i l b)"
    "preserves (on_db sound) (deleteDevice_handler ap now cx i)" "preserves (on_db sound) (emailRequest_handler ap en now cx e)"
    "preserves (on_db sound) (emailConfirm_handler ap now cx t)" "preserves (on_db sound) (adminCreateUserHandler ap en now cx e ro)"
    "preserves (on_db sound) (adminUpdateUserHandler ap now cx i p)" "preserves (on_db sound) (adminSetUserEmailHandler ap now cx i e)"
    "preserves (on_db sound) (deleteUser_handler ap now cx i)" "preserves (on_db sound) (issueRecovery_handler ap en now cx i)"
    "preserves (on_db sound) (adminReissueInviteHandler ap en now cx i)"
proof -
  from assms have hooks: "ap_notify ap = fanout_IPChanged f" "ad_DeviceAdded (ap_admin ap) = fanout_DeviceAdded f"
      "ad_DeviceRemoved (ap_admin ap) = fanout_DeviceRemoved f"
    and mail: "mail_only (em_mailer (ap_emails ap))" "mail_only (gs_mailer (ap_grants ap))"
      "\<And>gs. ad_grants (ap_admin ap) = Some gs \<Longrightarrow> mail_only (gs_mailer gs)" by (simp_all add: wired_parts_def)
  note wired = sound_emails [OF mail(1)] preserves_deliveries [OF mail(2)] sound_invite [OF mail(3)] sound_admin_users [OF hooks(2,3)]
  show "preserves (on_db sound) (checkin_handler ap now cx r)"
    unfolding checkin_handler_def hooks by (intro preserves_intros wired)
  show "preserves (on_db sound) (patchDevice_handler ap now cx i l b)"
    unfolding patchDevice_handler_def patch_flag_def hooks Let_def by (intro preserves_intros wired)
  show "preserves (on_db sound) (deleteDevice_handler ap now cx i)"
    unfolding deleteDevice_handler_def hooks by (intro preserves_intros wired)
  show "preserves (on_db sound) (emailRequest_handler ap en now cx e)"
    unfolding emailRequest_handler_def by (intro preserves_intros wired)
  show "preserves (on_db sound) (emailConfirm_handler ap now cx t)"
    unfolding emailConfirm_handler_def by (intro preserves_intros wired)
  show "preserves (on_db sound) (adminCreateUserHandler ap en now cx e ro)"
    unfolding adminCreateUserHandler_def adminUserViewFor_def by (intro preserves_intros wired)
  show "preserves (on_db sound) (adminUpdateUserHandler ap now cx i p)"
    unfolding adminUpdateUserHandler_def adminUserViewFor_def by (intro preserves_intros wired)
  show "preserves (on_db sound) (adminSetUserEmailHandler ap now cx i e)"
    unfolding adminSetUserEmailHandler_def adminUserViewFor_def by (intro preserves_intros wired)
  show "preserves (on_db sound) (deleteUser_handler ap now cx i)"
    unfolding deleteUser_handler_def by (intro preserves_intros wired)
  show "preserves (on_db sound) (issueRecovery_handler ap en now cx i)"
    unfolding issueRecovery_handler_def by (intro preserves_intros wired)
  show "preserves (on_db sound) (adminReissueInviteHandler ap en now cx i)"
    unfolding adminReissueInviteHandler_def adminUserViewFor_def by (intro preserves_intros wired)
qed

lemma sound_wrap [preserves_intros]: "preserves I m \<Longrightarrow> preserves I (wrap_answer g m)"
  unfolding wrap_answer_def by (intro preserves_intros)

lemma sound_op_run:
  assumes "wired_parts f ap"
  shows "preserves (on_db sound) (op_run ap en now cx op)"
  by (cases op; simp only: op_run.simps; intro preserves_intros sound_wired_handlers [OF assms])

section \<open>The API keeps the invariant\<close>

text \<open>A request: its randomness, its time, its headers and its operation. A failed request does not end the sequence.\<close>

type_synonym api_request = "entropy \<times> int \<times> http_request \<times> api_op"

fun serve_all :: "('z keyworld_scheme) api_deps \<Rightarrow> api_request list \<Rightarrow> 'z keyworld_scheme \<Rightarrow> 'z keyworld_scheme" where
  "serve_all ap [] w = w"
| "serve_all ap ((en, now, rq, op) # rs) w = serve_all ap rs (snd (serve_api ap en now rq op w))"


definition bare_parts :: "keyworld api_deps \<Rightarrow> keyworld api_deps" where
  "bare_parts ap = ap\<lparr>ap_notify := fanout_IPChanged plain_fanout, ap_emails := (ap_emails ap)\<lparr>em_mailer := None\<rparr>,
     ap_grants := (ap_grants ap)\<lparr>gs_mailer := None\<rparr>,
     ap_admin := (ap_admin ap)\<lparr>ad_grants := None, ad_DeviceAdded := fanout_DeviceAdded plain_fanout,
       ad_DeviceRemoved := fanout_DeviceRemoved plain_fanout\<rparr>\<rparr>"


end
