(* ===== verification/Client_Discovery.thy ===== *)
theory Client_Discovery
  imports Netip Text_Codec
begin

text \<open>
  \<open>internal/client/ipdiscovery\<close>: the agent asks several services for its public address and believes what a
  quorum of them says. What an HTTP request yields is a parameter; the winner of a vote is found by
  walking a Go map, whose order is arbitrary, so the order is an argument and the theorem holds for every one.
\<close>

section \<open>Providers\<close>

datatype Family = FamilyV4 | FamilyV6

definition Is4 :: "Addr \<Rightarrow> bool" where
  "Is4 a = (case a of V4 _ \<Rightarrow> True | _ \<Rightarrow> False)"

definition Is6 :: "Addr \<Rightarrow> bool" where
  "Is6 a = (case a of V6 _ _ \<Rightarrow> True | _ \<Rightarrow> False)"

definition familyMatches :: "Addr \<Rightarrow> Family \<Rightarrow> bool" where
  "familyMatches a f = (case f of FamilyV6 \<Rightarrow> Is6 a \<and> \<not> Is4In6 a | FamilyV4 \<Rightarrow> Is4 a)"

definition maxProviderBody :: nat where "maxProviderBody = 2 ^ 12"

text \<open>\<open>answer\<close>: the status and body of the provider's response, or the failure of the request.\<close>

definition Lookup :: "netip_text \<Rightarrow> Family \<Rightarrow> err + int \<times> string \<Rightarrow> err + Addr" where
  "Lookup tx family answer =
     (case answer of
        Inl e \<Rightarrow> Inl e
      | Inr (status, body) \<Rightarrow>
          if status \<noteq> 200 then Inl (ErrSentinel ''ipdiscovery: status'')
          else (case nt_ParseAddr tx (TrimSpace (take maxProviderBody body)) of
                  None \<Rightarrow> Inl ErrDecode
                | Some a \<Rightarrow> if \<not> familyMatches a family then Inl (ErrSentinel ''ipdiscovery: family'') else Inr a))"

section \<open>The vote\<close>

record Discoverer =
  ds_v4 :: nat
  ds_v6 :: nat
  ds_quorum :: int

text \<open>\<open>v4\<close> and \<open>v6\<close> are how many providers each family has.\<close>

definition NewDiscoverer :: "nat \<Rightarrow> nat \<Rightarrow> int \<Rightarrow> err + Discoverer" where
  "NewDiscoverer v4 v6 quorum =
     (if quorum < 1 then Inl (ErrSentinel ''ipdiscovery: quorum must be >= 1'')
      else if v4 > 0 \<and> quorum > int v4 then Inl (ErrSentinel ''ipdiscovery: ipv4 quorum exceeds provider count'')
      else if v6 > 0 \<and> quorum > int v6 then Inl (ErrSentinel ''ipdiscovery: ipv6 quorum exceeds provider count'')
      else Inr \<lparr> ds_v4 = v4, ds_v6 = v6, ds_quorum = quorum \<rparr>)"

text \<open>The addresses that reach the channel: no error, and a valid address.\<close>

definition answers :: "(err + Addr) list \<Rightarrow> Addr list" where
  "answers rs = concat (map (\<lambda>r. case r of Inl _ \<Rightarrow> [] | Inr a \<Rightarrow> if a = ZeroAddr then [] else [a]) rs)"

text \<open>One round of the loop over the counts: \<open>(most, winner, tie)\<close>.\<close>

fun vote_step :: "Addr list \<Rightarrow> Addr \<Rightarrow> nat \<times> Addr \<times> bool \<Rightarrow> nat \<times> Addr \<times> bool" where
  "vote_step votes a (most, winner, tie) =
     (let n = count_list votes a in
      if n > most then (n, a, False)
      else if n = most then (most, winner, True)
      else (most, winner, tie))"

text \<open>\<open>order\<close> lists the keys of the map \<open>counts\<close>.\<close>

definition discoverFamily :: "int \<Rightarrow> Addr list \<Rightarrow> (err + Addr) list \<Rightarrow> Addr option" where
  "discoverFamily quorum order rs =
     (if rs = [] then None
      else case fold (vote_step (answers rs)) order (0, ZeroAddr, False) of
             (most, winner, tie) \<Rightarrow> if int most \<ge> quorum \<and> \<not> tie then Some winner else None)"

definition Discover ::
  "Discoverer \<Rightarrow> Addr list \<Rightarrow> Addr list \<Rightarrow> (err + Addr) list \<Rightarrow> (err + Addr) list \<Rightarrow> Addr option \<times> Addr option" where
  "Discover ds order4 order6 rs4 rs6 =
     (discoverFamily (ds_quorum ds) order4 rs4, discoverFamily (ds_quorum ds) order6 rs6)"

section \<open>The vote is the plurality\<close>

text \<open>What the loop has established after the addresses \<open>seen\<close>.\<close>

definition vote_inv :: "Addr list \<Rightarrow> Addr set \<Rightarrow> nat \<times> Addr \<times> bool \<Rightarrow> bool" where
  "vote_inv votes seen st \<longleftrightarrow>
     (case st of (most, winner, tie) \<Rightarrow>
        (\<forall>a \<in> seen. count_list votes a \<le> most) \<and>
        (seen \<noteq> {} \<longrightarrow> winner \<in> seen \<and> count_list votes winner = most \<and>
           (tie \<longleftrightarrow> (\<exists>a \<in> seen. a \<noteq> winner \<and> count_list votes a = most))) \<and>
        (seen = {} \<longrightarrow> most = 0 \<and> \<not> tie))"

lemma vote_step_inv:
  assumes "vote_inv votes seen st" and "a \<notin> seen" and "a \<in> set votes"
  shows "vote_inv votes (insert a seen) (vote_step votes a st)"
proof -
  obtain most winner tie where st: "st = (most, winner, tie)" by (cases st)
  have pos: "count_list votes a \<noteq> 0" using assms(3) by (simp add: count_list_0_iff)
  from assms(1) have le: "\<And>b. b \<in> seen \<Longrightarrow> count_list votes b \<le> most"
    and win: "seen \<noteq> {} \<Longrightarrow> winner \<in> seen \<and> count_list votes winner = most \<and>
        (tie \<longleftrightarrow> (\<exists>b \<in> seen. b \<noteq> winner \<and> count_list votes b = most))"
    and empty: "seen = {} \<Longrightarrow> most = 0" by (simp_all add: st vote_inv_def)
  consider "count_list votes a > most" | "count_list votes a = most" | "count_list votes a < most" by linarith
  then show ?thesis
  proof cases
    case 1
    then show ?thesis unfolding st using le by (fastforce simp: vote_inv_def)
  next
    case 2
    with pos empty have "seen \<noteq> {}" by auto
    with 2 win le assms(2) show ?thesis unfolding st by (auto simp: vote_inv_def)
  next
    case 3
    with empty have "seen \<noteq> {}" by auto
    with 3 win le assms(2) show ?thesis unfolding st by (auto simp: vote_inv_def)
  qed
qed

lemma vote_fold_inv:
  assumes "vote_inv votes seen st" and "distinct xs" and "set xs \<inter> seen = {}" and "set xs \<subseteq> set votes"
  shows "vote_inv votes (seen \<union> set xs) (fold (vote_step votes) xs st)"
  using assms
proof (induction xs arbitrary: seen st)
  case (Cons a xs)
  then have "vote_inv votes (insert a seen) (vote_step votes a st)" by (intro vote_step_inv) auto
  with Cons show ?case using Cons.IH [of "insert a seen" "vote_step votes a st"] by auto
qed simp

lemma vote_inv_unique:
  assumes "vote_inv votes seen (most, winner, tie)" and "winner \<in> seen" and "\<not> tie" and "a \<in> seen" and "a \<noteq> winner"
  shows "count_list votes a < count_list votes winner"
proof -
  from assms have "count_list votes winner = most" "count_list votes a \<noteq> most" "count_list votes a \<le> most"
    by (auto simp: vote_inv_def)
  then show ?thesis by linarith
qed

text \<open>
  C36. The address the agent reports is the strict plurality of the providers' answers: whatever order the map of counts is
  walked in, \<open>discoverFamily\<close> yields \<open>a\<close> exactly when at least a quorum of the providers answered \<open>a\<close> and every other
  address has strictly fewer votes. A tie at the top, too few votes or no provider yield nothing.
\<close>

theorem discover_plurality:
  assumes "quorum \<ge> 1" and "distinct order" and "set order = set (answers rs)"
  shows "discoverFamily quorum order rs = Some a \<longleftrightarrow>
     int (count_list (answers rs) a) \<ge> quorum \<and> (\<forall>b. b \<noteq> a \<longrightarrow> count_list (answers rs) b < count_list (answers rs) a)"
proof -
  let ?v = "answers rs"
  obtain most winner tie where run: "fold (vote_step ?v) order (0, ZeroAddr, False) = (most, winner, tie)"
    by (cases "fold (vote_step ?v) order (0, ZeroAddr, False)")
  have "vote_inv ?v {} (0, ZeroAddr, False)" by (simp add: vote_inv_def)
  from vote_fold_inv [OF this assms(2)] have inv: "vote_inv ?v (set ?v) (most, winner, tie)"
    using assms(3) run by simp
  have out: "discoverFamily quorum order rs = (if int most \<ge> quorum \<and> \<not> tie then Some winner else None)"
    using run assms(1) inv by (auto simp: discoverFamily_def vote_inv_def answers_def)
  have none: "count_list ?v b = 0" if "b \<notin> set ?v" for b using that by (simp add: count_list_0_iff)
  show ?thesis
  proof
    assume "discoverFamily quorum order rs = Some a"
    with out have ok: "int most \<ge> quorum" "\<not> tie" "a = winner" by (auto split: if_splits)
    with assms(1) inv have w: "winner \<in> set ?v" "count_list ?v winner = most" by (auto simp: vote_inv_def)
    have "count_list ?v b < count_list ?v winner" if "b \<noteq> winner" for b
    proof (cases "b \<in> set ?v")
      case True
      with vote_inv_unique [OF inv w(1) ok(2) True that] show ?thesis by simp
    next
      case False
      moreover have "count_list ?v winner \<noteq> 0" using w(1) by (simp add: count_list_0_iff)
      ultimately show ?thesis using none by simp
    qed
    with ok w show "int (count_list ?v a) \<ge> quorum \<and> (\<forall>b. b \<noteq> a \<longrightarrow> count_list ?v b < count_list ?v a)" by simp
  next
    assume r: "int (count_list ?v a) \<ge> quorum \<and> (\<forall>b. b \<noteq> a \<longrightarrow> count_list ?v b < count_list ?v a)"
    with assms(1) have a: "a \<in> set ?v" using none [of a] by force
    with inv have w: "winner \<in> set ?v" "count_list ?v winner = most" "count_list ?v a \<le> most"
      "tie \<longleftrightarrow> (\<exists>b \<in> set ?v. b \<noteq> winner \<and> count_list ?v b = most)" by (auto simp: vote_inv_def)
    then have "winner = a" using r by (meson leD)
    moreover have "\<not> tie" using w r \<open>winner = a\<close> by auto
    ultimately show "discoverFamily quorum order rs = Some a" using out r w by simp
  qed
qed

theorem discover_plurality_witness:
  "discoverFamily 2 [V4 7, V4 8] [Inr (V4 7), Inl ErrDriver, Inr (V4 8), Inr (V4 7)] = Some (V4 7)"
proof -
  let ?rs = "[Inr (V4 7), Inl ErrDriver, Inr (V4 8), Inr (V4 7)]"
  have v: "answers ?rs = [V4 7, V4 8, V4 7]" by (simp add: answers_def)
  have "count_list [V4 7, V4 8, V4 7] b \<le> 1" if "b \<noteq> V4 7" for b using that by auto
  then show ?thesis
    using discover_plurality [of 2 "[V4 7, V4 8]" ?rs "V4 7"] unfolding v by (auto simp: insert_commute less_Suc_eq_le)
qed

end
