(* ===== verification/Client_Poller.thy ===== *)
theory Client_Poller
  imports Client_Discovery Auth_Props Complex_Main
begin

text \<open>
  \<open>internal/client/poller\<close> and the discoverer wiring of \<open>cmd/diyddns-client/run.go\<close>: the agent's reporting loop. Durations are
  nanoseconds. Each cycle's outcome, the end of the context, the length of a sleep and the random numbers are
  arguments indexed by the cycle; the loop returns its error and the delays it slept, and a loop that never
  returns has no result. The jitter is real arithmetic; the rounding of \<open>float64\<close> is not modelled.
\<close>

section \<open>One cycle\<close>

abbreviation "ErrNoQuorum \<equiv> ErrSentinel ''poller: no address family reached quorum''"
abbreviation "ErrClientUnauthorized \<equiv> ErrSentinel ''checkin: unauthorized''"
abbreviation "ErrCredentialRejected \<equiv> ErrSentinel ''poller: credential rejected by the server''"

definition unauthorizedLimit :: nat where "unauthorizedLimit = 3"

record Report =
  rt_IPv4 :: string
  rt_IPv6 :: string
  rt_Hostname :: string
  rt_OS :: string
  rt_ClientVersion :: string

record Poller =
  po_interval :: int
  po_hostname :: string
  po_os :: string
  po_clientVer :: string

definition timeSecond :: int where "timeSecond = 1000000000"

definition Poller_New :: "int \<Rightarrow> string \<Rightarrow> string \<Rightarrow> string \<Rightarrow> Poller" where
  "Poller_New interval host os ver =
     \<lparr> po_interval = (if interval \<le> 0 then 5 * timeMinute else interval), po_hostname = host, po_os = os, po_clientVer = ver \<rparr>"

text \<open>What a cycle sends, given what discovery found; \<open>None\<close> when no family reached quorum.\<close>

definition cycle_report :: "netip_text \<Rightarrow> Poller \<Rightarrow> Addr option \<times> Addr option \<Rightarrow> Report option" where
  "cycle_report tx p found =
     (case found of
        (None, None) \<Rightarrow> None
      | (v4, v6) \<Rightarrow>
          Some \<lparr> rt_IPv4 = (case v4 of None \<Rightarrow> '''' | Some a \<Rightarrow> nt_String tx a),
                 rt_IPv6 = (case v6 of None \<Rightarrow> '''' | Some a \<Rightarrow> nt_String tx a),
                 rt_Hostname = po_hostname p, rt_OS = po_os p, rt_ClientVersion = po_clientVer p \<rparr>)"

definition RunOnce :: "netip_text \<Rightarrow> Poller \<Rightarrow> Addr option \<times> Addr option \<Rightarrow> (Report \<Rightarrow> err option) \<Rightarrow> err option" where
  "RunOnce tx p found send =
     (case cycle_report tx p found of None \<Rightarrow> Some ErrNoQuorum | Some rep \<Rightarrow> send rep)"

section \<open>The loop\<close>

definition nextBackoff :: "int \<Rightarrow> int \<Rightarrow> int" where
  "nextBackoff cur interval = (if cur = 0 then min (30 * timeSecond) interval else min (wrap64 (cur * 2)) interval)"

text \<open>\<open>time.Duration\<close> of a float truncates towards zero.\<close>

definition jittered :: "Poller \<Rightarrow> real \<Rightarrow> int" where
  "jittered p r = (let x = of_int (po_interval p) * (1 + 0.10 * (2 * r - 1)) in if x \<ge> 0 then \<lfloor>x\<rfloor> else \<lceil>x\<rceil>)"

text \<open>
  \<open>cycles i\<close>: the error of cycle \<open>i\<close>, if any, and whether the context had ended after it. \<open>sleeps i\<close>: whether the sleep after it ran to
  its end. The log is left out.
\<close>

partial_function (option) run_from ::
  "Poller \<Rightarrow> (nat \<Rightarrow> err option \<times> bool) \<Rightarrow> (nat \<Rightarrow> bool) \<Rightarrow> (nat \<Rightarrow> real) \<Rightarrow> nat \<Rightarrow> int \<Rightarrow> nat \<Rightarrow> int list \<Rightarrow>
   (err option \<times> int list) option" where
  "run_from p cycles sleeps rnd i backoff unauthorized slept =
     (case cycles i of (e, gone) \<Rightarrow>
      if gone then Some (None, slept)
      else case e of
        None \<Rightarrow>
          (let d = jittered p (rnd i) in
           if \<not> sleeps i then Some (None, slept @ [d]) else run_from p cycles sleeps rnd (i + 1) 0 0 (slept @ [d]))
      | Some x \<Rightarrow>
          (let unauthorized' = (if x = ErrClientUnauthorized then unauthorized + 1 else 0) in
           if unauthorized' \<ge> unauthorizedLimit then Some (Some ErrCredentialRejected, slept)
           else let d = nextBackoff backoff (po_interval p) in
             if \<not> sleeps i then Some (None, slept @ [d]) else run_from p cycles sleeps rnd (i + 1) d unauthorized' (slept @ [d])))"

definition Poller_Run ::
  "Poller \<Rightarrow> (nat \<Rightarrow> err option \<times> bool) \<Rightarrow> (nat \<Rightarrow> bool) \<Rightarrow> (nat \<Rightarrow> real) \<Rightarrow> (err option \<times> int list) option" where
  "Poller_Run p cycles sleeps rnd = run_from p cycles sleeps rnd 0 0 0 []"

section \<open>Delays\<close>

text \<open>A state the loop can be in: the back-off is 0 or between the first step and the interval.\<close>

definition backoff_ok :: "int \<Rightarrow> int \<Rightarrow> bool" where
  "backoff_ok interval b \<longleftrightarrow> b = 0 \<or> min (30 * timeSecond) interval \<le> b \<and> b \<le> interval"

lemma nextBackoff_ok:
  assumes "0 < interval" "interval < 2 ^ 62" and "backoff_ok interval b"
  shows "min (30 * timeSecond) interval \<le> nextBackoff b interval" and "nextBackoff b interval \<le> interval"
    and "backoff_ok interval (nextBackoff b interval)"
proof -
  have "b = 0 \<or> wrap64 (b * 2) = b * 2"
    using assms by (auto simp: backoff_ok_def timeSecond_def int64_ok_def intro!: wrap64_id)
  with assms show "min (30 * timeSecond) interval \<le> nextBackoff b interval" and "nextBackoff b interval \<le> interval"
    and "backoff_ok interval (nextBackoff b interval)"
    by (auto simp: nextBackoff_def backoff_ok_def timeSecond_def)
qed

lemma jittered_bounds:
  assumes "0 < po_interval p" and "0 \<le> r" and "r < 1"
  shows "9 * po_interval p \<le> 10 * (jittered p r + 1)" and "10 * jittered p r \<le> 11 * po_interval p" and "0 \<le> jittered p r"
proof -
  let ?i = "real_of_int (po_interval p)"
  let ?x = "?i * (1 + 0.10 * (2 * r - 1))"
  have pos: "?i > 0" using assms by simp
  have "0.9 \<le> 1 + 0.10 * (2 * r - 1)" "1 + 0.10 * (2 * r - 1) \<le> 1.1" using assms(2,3) by (simp_all add: field_simps)
  from mult_left_mono [OF this(1), of ?i] mult_left_mono [OF this(2), of ?i] pos
  have "?i * 0.9 \<le> ?x" "?x \<le> ?i * 1.1" by simp_all
  with pos have x: "?x \<ge> 0" "9 * ?i \<le> 10 * ?x" "10 * ?x \<le> 11 * ?i" by linarith+
  have j: "jittered p r = \<lfloor>?x\<rfloor>" using x(1) by (simp add: jittered_def Let_def)
  define x n where "x = ?x" and "n = \<lfloor>x\<rfloor>"
  have f: "real_of_int n \<le> x" "x < real_of_int n + 1" unfolding n_def by linarith+
  have x': "9 * ?i \<le> 10 * x" "10 * x \<le> 11 * ?i" "0 \<le> x" using x by (simp_all only: x_def)
  have "9 * ?i \<le> 10 * (real_of_int n + 1)" using f by (intro order.trans [OF x'(1)]) simp
  then have "real_of_int (9 * po_interval p) \<le> real_of_int (10 * (n + 1))" by simp
  then show "9 * po_interval p \<le> 10 * (jittered p r + 1)" unfolding j n_def x_def by linarith
  have "10 * real_of_int n \<le> 11 * ?i" using f by (intro order.trans [OF _ x'(2)]) simp
  then have "real_of_int (10 * n) \<le> real_of_int (11 * po_interval p)" by simp
  then show "10 * jittered p r \<le> 11 * po_interval p" unfolding j n_def x_def by linarith
  show "0 \<le> jittered p r" unfolding j using x(1) by simp
qed


text \<open>A delay the loop may sleep: never shorter than a tenth below the interval or half a minute, never longer than a tenth above the interval.\<close>

definition paced :: "int \<Rightarrow> int \<Rightarrow> bool" where
  "paced interval d \<longleftrightarrow>
     (min (30 * timeSecond) interval \<le> d \<or> 9 * interval \<le> 10 * (d + 1)) \<and> 10 * d \<le> 11 * interval \<and> 0 \<le> d"

lemma paced_delays:
  assumes "0 < po_interval p" "po_interval p < 2 ^ 62"
  shows "backoff_ok (po_interval p) b \<Longrightarrow> paced (po_interval p) (nextBackoff b (po_interval p))"
    and "0 \<le> r \<Longrightarrow> r < 1 \<Longrightarrow> paced (po_interval p) (jittered p r)"
  using assms nextBackoff_ok [of "po_interval p" b] jittered_bounds [of p r] by (auto simp: paced_def timeSecond_def)

section \<open>When the loop ends\<close>

abbreviation rejected_at :: "(nat \<Rightarrow> err option \<times> bool) \<Rightarrow> nat \<Rightarrow> bool" where
  "rejected_at cycles j \<equiv> cycles j = (Some ErrClientUnauthorized, False)"

text \<open>The state before cycle \<open>i\<close>: the last \<open>u\<close> cycles were rejections.\<close>

definition loop_ok :: "Poller \<Rightarrow> (nat \<Rightarrow> err option \<times> bool) \<Rightarrow> nat \<Rightarrow> int \<Rightarrow> nat \<Rightarrow> int list \<Rightarrow> bool" where
  "loop_ok p cycles i b u slept \<longleftrightarrow>
     backoff_ok (po_interval p) b \<and> u \<le> i \<and> u < unauthorizedLimit \<and> (\<forall>j. i - u \<le> j \<and> j < i \<longrightarrow> rejected_at cycles j) \<and>
     length slept = i \<and> (\<forall>d \<in> set slept. paced (po_interval p) d)"

definition end_ok :: "Poller \<Rightarrow> (nat \<Rightarrow> err option \<times> bool) \<Rightarrow> (nat \<Rightarrow> bool) \<Rightarrow> err option \<Rightarrow> int list \<Rightarrow> bool" where
  "end_ok p cycles sleeps res slept \<longleftrightarrow>
     (\<forall>d \<in> set slept. paced (po_interval p) d) \<and>
     (case res of
        None \<Rightarrow> snd (cycles (length slept)) \<or> slept \<noteq> [] \<and> \<not> sleeps (length slept - 1)
      | Some e \<Rightarrow> e = ErrCredentialRejected \<and> 2 \<le> length slept \<and> (\<forall>j \<in> {length slept - 2 .. length slept}. rejected_at cycles j))"

lemma loop_next:
  assumes p: "0 < po_interval p" "po_interval p < 2 ^ 62" and r: "\<forall>i. 0 \<le> rnd i \<and> rnd i < 1" and ok: "loop_ok p cycles i b u slept"
  shows "cycles i = (None, False) \<Longrightarrow> loop_ok p cycles (i + 1) 0 0 (slept @ [jittered p (rnd i)])"
    and "cycles i = (Some x, False) \<Longrightarrow> (if x = ErrClientUnauthorized then u + 1 else 0) < unauthorizedLimit \<Longrightarrow>
      loop_ok p cycles (i + 1) (nextBackoff b (po_interval p)) (if x = ErrClientUnauthorized then u + 1 else 0)
        (slept @ [nextBackoff b (po_interval p)])"
proof -
  have "paced (po_interval p) (jittered p (rnd i))" by (rule paced_delays(2) [OF p]) (use r in auto)
  then show "loop_ok p cycles (i + 1) 0 0 (slept @ [jittered p (rnd i)])"
    using ok by (auto simp: loop_ok_def backoff_ok_def)
  have b: "backoff_ok (po_interval p) b" using ok by (simp add: loop_ok_def)
  assume c: "cycles i = (Some x, False)" and lim: "(if x = ErrClientUnauthorized then u + 1 else 0) < unauthorizedLimit"
  have "rejected_at cycles j" if "x = ErrClientUnauthorized" "i + 1 - (u + 1) \<le> j" "j < i + 1" for j
    using that c ok by (cases "j = i") (auto simp: loop_ok_def)
  with lim ok nextBackoff_ok(3) [OF p b] paced_delays(1) [OF p b]
  show "loop_ok p cycles (i + 1) (nextBackoff b (po_interval p)) (if x = ErrClientUnauthorized then u + 1 else 0)
        (slept @ [nextBackoff b (po_interval p)])"
    by (auto simp: loop_ok_def)
qed

lemma loop_stop:
  assumes ok: "loop_ok p cycles i b u slept" and c: "cycles i = (Some ErrClientUnauthorized, False)" and lim: "unauthorizedLimit \<le> u + 1"
  shows "end_ok p cycles sleeps (Some ErrCredentialRejected) slept"
proof -
  have "u = 2" "i \<ge> 2" using ok lim by (auto simp: loop_ok_def unauthorizedLimit_def)
  moreover have "rejected_at cycles j" if "j \<in> {i - 2 .. i}" for j
    using that ok c \<open>u = 2\<close> by (cases "j = i") (auto simp: loop_ok_def)
  ultimately show ?thesis using ok by (auto simp: end_ok_def loop_ok_def)
qed

lemma run_from_partial:
  assumes "run_from p cycles sleeps rnd i b u slept = Some y"
    and "0 < po_interval p" "po_interval p < 2 ^ 62" and "\<forall>i. 0 \<le> rnd i \<and> rnd i < 1" and "loop_ok p cycles i b u slept"
  shows "end_ok p cycles sleeps (fst y) (snd y)"
  using assms
proof (induction rule: run_from.raw_induct [rotated, consumes 1])
  case (1 loop p cycles sleeps rnd i b u slept y)
  obtain e gone where c: "cycles i = (e, gone)" by (cases "cycles i")
  show ?case
  proof (cases gone)
    case True
    with 1 c show ?thesis by (auto simp: end_ok_def loop_ok_def)
  next
    case False
    then have c': "cycles i = (e, False)" using c by simp
    show ?thesis
    proof (cases e)
      case None
      note next_ok = loop_next(1) [OF 1(3,4,5,6), OF c' [unfolded None]]
      show ?thesis
      proof (cases "sleeps i")
        case True
        with 1(2) c' None have "loop p cycles sleeps rnd (i + 1) 0 0 (slept @ [jittered p (rnd i)]) = Some y" by (simp add: Let_def)
        from 1(1) [OF this 1(3,4,5) next_ok] show ?thesis .
      next
        case False
        with 1(2,6) c' None next_ok show ?thesis by (auto simp: Let_def end_ok_def loop_ok_def)
      qed
    next
      case (Some x)
      let ?u = "if x = ErrClientUnauthorized then u + 1 else 0"
      let ?d = "nextBackoff b (po_interval p)"
      show ?thesis
      proof (cases "?u \<ge> unauthorizedLimit")
        case True
        then have "x = ErrClientUnauthorized" "unauthorizedLimit \<le> u + 1" by (auto simp: unauthorizedLimit_def split: if_splits)
        with True 1(2) c' Some loop_stop [OF 1(6)] show ?thesis by (auto simp: Let_def)
      next
        case False
        note next_ok = loop_next(2) [OF 1(3,4,5,6) c' [unfolded Some]]
        show ?thesis
        proof (cases "sleeps i")
          case True
          with False 1(2) c' Some have "loop p cycles sleeps rnd (i + 1) ?d ?u (slept @ [?d]) = Some y" by (simp add: Let_def)
          from 1(1) [OF this 1(3,4,5)] next_ok False show ?thesis by simp
        next
          case nosleep: False
          with False 1(2,6) c' Some next_ok show ?thesis by (auto simp: Let_def end_ok_def loop_ok_def)
        qed
      qed
    qed
  qed
qed

text \<open>Three rejections in a row end the loop, whatever came before.\<close>

lemma run_from_ends:
  assumes "\<And>j. k \<le> j \<Longrightarrow> j \<le> k + 2 \<Longrightarrow> fst (cycles j) = Some ErrClientUnauthorized"
    and "i \<le> k + 2" and "k < i \<Longrightarrow> i - k \<le> u" and "length slept = i"
  shows "\<exists>res out. run_from p cycles sleeps rnd i b u slept = Some (res, out) \<and> length out \<le> k + 2"
  using assms(2-)
proof (induction "k + 2 - i" arbitrary: i b u slept)
  case 0
  then have i: "i = k + 2" and u: "2 \<le> u" by auto
  have "fst (cycles i) = Some ErrClientUnauthorized" using assms(1) i by simp
  then obtain g where "cycles i = (Some ErrClientUnauthorized, g)" by (cases "cycles i") auto
  then show ?case using u 0 i by (subst run_from.simps) (auto simp: unauthorizedLimit_def)
next
  case (Suc n)
  then have lt: "i < k + 2" by simp
  obtain e g where c: "cycles i = (e, g)" by (cases "cycles i")
  have rec: "\<exists>res out. run_from p cycles sleeps rnd (i + 1) b' u' (slept @ [d]) = Some (res, out) \<and> length out \<le> k + 2"
    if "k < i + 1 \<Longrightarrow> i + 1 - k \<le> u'" for b' u' d
    using Suc.hyps(2) Suc.prems lt that by (intro Suc.hyps(1)) auto
  have here: "e = Some ErrClientUnauthorized" if "k \<le> i" using assms(1) [OF that] lt c by simp
  show ?case
  proof (cases e)
    case None
    then have "\<not> k \<le> i" using here by auto
    with rec [of 0 0 "jittered p (rnd i)"] None c Suc.prems lt show ?thesis
      by (subst run_from.simps) (auto simp: Let_def)
  next
    case (Some x)
    let ?u = "if x = ErrClientUnauthorized then u + 1 else 0"
    let ?d = "nextBackoff b (po_interval p)"
    have "k < i + 1 \<Longrightarrow> i + 1 - k \<le> ?u" using here Some Suc.prems(2) by (cases "k < i") auto
    then obtain res out where r: "run_from p cycles sleeps rnd (i + 1) ?d ?u (slept @ [?d]) = Some (res, out)" "length out \<le> k + 2"
      using rec [of ?u ?d ?d] by blast
    have "run_from p cycles sleeps rnd i b u slept =
      (if g then Some (None, slept)
       else if ?u \<ge> unauthorizedLimit then Some (Some ErrCredentialRejected, slept)
       else if \<not> sleeps i then Some (None, slept @ [?d]) else Some (res, out))"
      using r(1) by (subst run_from.simps) (simp add: c Some Let_def)
    with r(2) Suc.prems lt show ?thesis by (simp split: if_split)
  qed
qed

text \<open>
  C37. The agent's loop stops hammering a server that rejects it, and otherwise keeps its pace. When three cycles in a row are answered
  with 401, the loop has ended by the third at the latest, whatever the cycles before them were. Whenever it ends, every delay it slept was, for an interval below 146 years,
  between the shorter of half a minute and the interval, or a tenth below the interval, and a tenth above it; it ends with
  \<open>ErrCredentialRejected\<close> only when the last three cycles were rejections, and without an error only when its context
  ended.
\<close>

theorem poller_stops:
  assumes "0 < po_interval p" "po_interval p < 2 ^ 62" and "\<forall>i. 0 \<le> rnd i \<and> rnd i < 1"
  shows "(\<forall>k. (\<forall>j. k \<le> j \<and> j \<le> k + 2 \<longrightarrow> fst (cycles j) = Some ErrClientUnauthorized) \<longrightarrow>
            (\<exists>res out. Poller_Run p cycles sleeps rnd = Some (res, out) \<and> length out \<le> k + 2)) \<and>
         (\<forall>res out. Poller_Run p cycles sleeps rnd = Some (res, out) \<longrightarrow> end_ok p cycles sleeps res out)"
proof (intro conjI allI impI)
  fix k
  assume "\<forall>j. k \<le> j \<and> j \<le> k + 2 \<longrightarrow> fst (cycles j) = Some ErrClientUnauthorized"
  then show "\<exists>res out. Poller_Run p cycles sleeps rnd = Some (res, out) \<and> length out \<le> k + 2"
    unfolding Poller_Run_def by (intro run_from_ends) auto
next
  fix res out
  assume "Poller_Run p cycles sleeps rnd = Some (res, out)"
  moreover have "loop_ok p cycles 0 0 0 []" by (simp add: loop_ok_def backoff_ok_def unauthorizedLimit_def)
  ultimately show "end_ok p cycles sleeps res out"
    using run_from_partial [of p cycles sleeps rnd 0 0 0 "[]" "(res, out)"] assms by (simp add: Poller_Run_def)
qed

theorem poller_stops_witness:
  "\<exists>res out. Poller_Run (Poller_New 0 ''h'' ''linux'' ''1'') (\<lambda>i. (Some ErrClientUnauthorized, False)) (\<lambda>i. True) (\<lambda>i. 0) = Some (res, out) \<and>
     length out \<le> 2 \<and> end_ok (Poller_New 0 ''h'' ''linux'' ''1'') (\<lambda>i. (Some ErrClientUnauthorized, False)) (\<lambda>i. True) res out"
proof -
  let ?p = "Poller_New 0 ''h'' ''linux'' ''1''" and ?c = "\<lambda>i :: nat. (Some ErrClientUnauthorized, False)"
  have "0 < po_interval ?p" "po_interval ?p < 2 ^ 62" by (simp_all add: Poller_New_def timeMinute_def)
  note both = poller_stops [OF this, of "\<lambda>i. 0" ?c "\<lambda>i. True", simplified]
  from both obtain res out where out: "Poller_Run ?p ?c (\<lambda>i. True) (\<lambda>i. 0) = Some (res, out)" "length out \<le> 0 + 2"
    by (metis (no_types, lifting) add_2_eq_Suc')
  from both out(1) have "end_ok ?p ?c (\<lambda>i. True) res out" by (elim conjE) (drule spec, drule spec, erule mp)
  with out show ?thesis by (intro exI conjI) simp_all
qed

end
