(* ===== verification/Client_Enroll.thy ===== *)
theory Client_Enroll
  imports Client_Poller
begin

text \<open>
  The rest of the agent: the credentials file (\<open>internal/client/credentials\<close>), enrollment (\<open>internal/client/enroll\<close> and
  \<open>cmd/diyddns-client/enroll.go\<close>) and the wiring of discovery (\<open>run.go\<close>). Files are a map from paths to contents; which system calls fail, what
  the server answers and how time passes are arguments.
\<close>

section \<open>The credentials file\<close>

abbreviation "ErrCredNotFound \<equiv> ErrSentinel ''credentials: file not found''"
abbreviation "ErrCredExists \<equiv> ErrSentinel ''credentials: file already exists''"
abbreviation "ErrIO \<equiv> ErrSentinel ''io''"

record Credentials =
  cf_ServerURL :: string
  cf_DeviceID :: string
  cf_Secret :: string

type_synonym files = "string \<Rightarrow> string option"

text \<open>Which calls fail in this run, the name \<open>CreateTemp\<close> wins, and the JSON codec.\<close>

record fs_env =
  fe_read :: bool
  fe_stat :: bool
  fe_mkdir :: bool
  fe_create :: bool
  fe_write :: bool
  fe_close :: bool
  fe_publish :: bool
  fe_tmp :: string
  fe_marshal :: "Credentials \<Rightarrow> string option"
  fe_unmarshal :: "string \<Rightarrow> Credentials option"

definition Load :: "fs_env \<Rightarrow> string \<Rightarrow> files \<Rightarrow> err + Credentials" where
  "Load fe path fs =
     (if fe_read fe then Inl ErrIO
      else case fs path of
             None \<Rightarrow> Inl ErrCredNotFound
           | Some data \<Rightarrow> (case fe_unmarshal fe data of None \<Rightarrow> Inl ErrDecode | Some c \<Rightarrow> Inr c))"

text \<open>
  \<open>Save\<close> in two phases, between which another process may run: \<open>Save_prepare\<close> looks at the file and writes the temporary one;
  \<open>Save_publish\<close> renames or links it and removes it. A failed write leaves the temporary file to the deferred removal too.
\<close>

definition Save_prepare :: "fs_env \<Rightarrow> string \<Rightarrow> Credentials \<Rightarrow> bool \<Rightarrow> files \<Rightarrow> (err + unit) \<times> files" where
  "Save_prepare fe path c force fs =
     (if \<not> force \<and> fe_stat fe then (Inl ErrIO, fs)
      else if \<not> force \<and> fs path \<noteq> None then (Inl ErrCredExists, fs)
      else if fe_mkdir fe then (Inl ErrIO, fs)
      else case fe_marshal fe c of
             None \<Rightarrow> (Inl ErrDecode, fs)
           | Some data \<Rightarrow>
               if fe_create fe then (Inl ErrIO, fs)
               else if fe_write fe \<or> fe_close fe then (Inl ErrIO, fs(fe_tmp fe := None))
               else (Inr (), fs(fe_tmp fe \<mapsto> data)))"

definition Save_publish :: "fs_env \<Rightarrow> string \<Rightarrow> bool \<Rightarrow> files \<Rightarrow> (err + unit) \<times> files" where
  "Save_publish fe path force fs =
     (let tmp = fe_tmp fe in
      if force
      then if fe_publish fe then (Inl ErrIO, fs(tmp := None))
           else (Inr (), fs(path := fs tmp, tmp := None))
      else if fs path \<noteq> None then (Inl ErrCredExists, fs(tmp := None))
      else if fe_publish fe then (Inl ErrIO, fs(tmp := None))
      else (Inr (), fs(path := fs tmp, tmp := None)))"

definition Save :: "fs_env \<Rightarrow> string \<Rightarrow> Credentials \<Rightarrow> bool \<Rightarrow> files \<Rightarrow> (err + unit) \<times> files" where
  "Save fe path c force fs =
     (case Save_prepare fe path c force fs of
        (Inl e, fs1) \<Rightarrow> (Inl e, fs1)
      | (Inr _, fs1) \<Rightarrow> Save_publish fe path force fs1)"

section \<open>Enrollment requests\<close>

abbreviation "ErrEnrollDeviceUnsupported \<equiv> ErrSentinel ''enroll: server does not support OIDC device enrollment''"
abbreviation "ErrFlowGone \<equiv> ErrSentinel ''enroll: device authorization denied or expired''"
abbreviation "ErrRejected \<equiv> ErrSentinel ''enroll: enrollment not authorized''"
abbreviation "ErrBadGateway \<equiv> ErrSentinel ''enroll: server could not reach the identity provider''"
abbreviation "ErrServer \<equiv> ErrSentinel ''enroll: server error''"
abbreviation "ErrExpired \<equiv> ErrSentinel ''enroll: device code expired before authorization''"
abbreviation "ErrProtocol \<equiv> ErrSentinel ''enroll: unexpected server response''"
abbreviation "ErrEnrollUnauthorized \<equiv> ErrSentinel ''enroll: invalid enrollment code or credentials''"

record enroll_result =
  rl_DeviceID :: string
  rl_Secret :: string

text \<open>
  A response is its status and, where the body decodes, what it carries: \<open>(status, device_id, secret)\<close> with the absent members empty.
\<close>

type_synonym enroll_response = "int \<times> (string \<times> string \<times> string) option"

definition checked_secret :: "string \<Rightarrow> string \<Rightarrow> err + enroll_result" where
  "checked_secret deviceID secret =
     (if deviceID = '''' \<or> secret = '''' then Inl ErrProtocol
      else case DecodeString secret of
             None \<Rightarrow> Inl ErrProtocol
           | Some _ \<Rightarrow> Inr \<lparr> rl_DeviceID = deviceID, rl_Secret = secret \<rparr>)"

definition doEnroll :: "err + enroll_response \<Rightarrow> err + enroll_result" where
  "doEnroll resp =
     (case resp of
        Inl e \<Rightarrow> Inl e
      | Inr (code, body) \<Rightarrow>
          if code = 200
          then (case body of None \<Rightarrow> Inl ErrProtocol | Some (_, deviceID, secret) \<Rightarrow> checked_secret deviceID secret)
          else if code = 401 then Inl ErrEnrollUnauthorized
          else Inl ErrServer)"

datatype poll_kind = PollKindPending | PollKindSlowDown | PollKindComplete enroll_result

definition OIDCDevicePoll :: "err + enroll_response \<Rightarrow> err + poll_kind" where
  "OIDCDevicePoll resp =
     (case resp of
        Inl e \<Rightarrow> Inl e
      | Inr (code, body) \<Rightarrow>
          if code = 200
          then (case body of
                  None \<Rightarrow> Inl ErrProtocol
                | Some (status, deviceID, secret) \<Rightarrow>
                    if status = ''pending'' then Inr PollKindPending
                    else if status = ''slow_down'' then Inr PollKindSlowDown
                    else if status = '''' then map_sum id PollKindComplete (checked_secret deviceID secret)
                    else Inl ErrProtocol)
          else if code = 410 then Inl ErrFlowGone
          else if code = 401 then Inl ErrRejected
          else if code = 502 then Inl ErrBadGateway
          else Inl ErrServer)"

record enroll_start =
  dt_FlowID :: string
  dt_ExpiresIn :: int
  dt_Interval :: int

definition OIDCDeviceStart :: "err + int \<times> enroll_start option \<Rightarrow> err + enroll_start" where
  "OIDCDeviceStart resp =
     (case resp of
        Inl e \<Rightarrow> Inl e
      | Inr (code, body) \<Rightarrow>
          if code = 200 then (case body of None \<Rightarrow> Inl ErrDecode | Some ds \<Rightarrow> Inr ds)
          else if code = 501 then Inl ErrEnrollDeviceUnsupported
          else if code = 502 then Inl ErrBadGateway
          else Inl ErrServer)"

section \<open>The device flow\<close>

definition minIntervalSeconds :: int where "minIntervalSeconds = 5"
definition clientSlowDownBumpSeconds :: int where "clientSlowDownBumpSeconds = 5"
definition maxConsecutiveBadGateway :: nat where "maxConsecutiveBadGateway = 3"

text \<open>
  \<open>polls i\<close>: the outcome of poll \<open>i\<close>. \<open>tick i t d\<close>: what the clock says after the next poll when, at \<open>t\<close>, the loop has slept \<open>d\<close>;
  \<open>asleep i\<close>: the sleep was cut short by the end of the context, with that error. The result comes with the number of polls.
\<close>

partial_function (option) poll_from ::
  "(nat \<Rightarrow> err + poll_kind) \<Rightarrow> (nat \<Rightarrow> int \<Rightarrow> int \<Rightarrow> int) \<Rightarrow> (nat \<Rightarrow> bool) \<Rightarrow> int \<Rightarrow> nat \<Rightarrow> int \<Rightarrow> int \<Rightarrow> nat \<Rightarrow>
   ((err + enroll_result) \<times> nat) option" where
  "poll_from polls tick asleep deadline i now interval consecutive =
     (case (case polls i of
              Inr (PollKindComplete r) \<Rightarrow> Inl (Inr r)
            | Inr PollKindSlowDown \<Rightarrow> Inr (wrap64 (interval + clientSlowDownBumpSeconds * timeSecond), 0)
            | Inr PollKindPending \<Rightarrow> Inr (interval, 0)
            | Inl e \<Rightarrow>
                if e = ErrBadGateway
                then if consecutive + 1 \<ge> maxConsecutiveBadGateway then Inl (Inl ErrBadGateway)
                     else Inr (wrap64 (interval + clientSlowDownBumpSeconds * timeSecond), consecutive + 1)
                else Inl (Inl e)) of
        Inl out \<Rightarrow> Some (out, i + 1)
      | Inr (interval', consecutive') \<Rightarrow>
          if \<not> now < deadline then Some (Inl ErrExpired, i + 1)
          else let wait = (if deadline - now < interval' then deadline - now else interval') in
            if asleep i then Some (Inl (ErrSentinel ''context''), i + 1)
            else poll_from polls tick asleep deadline (i + 1) (tick i now wait) interval' consecutive')"

text \<open>\<open>t0\<close>: the clock when the deadline is set, \<open>t1\<close> after the first poll.\<close>

definition DeviceCodeEnroll ::
  "err + int \<times> enroll_start option \<Rightarrow> (nat \<Rightarrow> err + enroll_response) \<Rightarrow> (nat \<Rightarrow> int \<Rightarrow> int \<Rightarrow> int) \<Rightarrow> (nat \<Rightarrow> bool) \<Rightarrow> int \<Rightarrow> int \<Rightarrow>
   ((err + enroll_result) \<times> nat) option" where
  "DeviceCodeEnroll start resp tick asleep t0 t1 =
     (case OIDCDeviceStart start of
        Inl e \<Rightarrow> Some (Inl e, 0)
      | Inr ds \<Rightarrow>
          if dt_ExpiresIn ds \<le> 0 then Some (Inl ErrExpired, 0)
          else poll_from (\<lambda>i. OIDCDevicePoll (resp i)) tick asleep (t0 + wrap64 (dt_ExpiresIn ds * timeSecond)) 0 t1
                 (wrap64 (max (dt_Interval ds) minIntervalSeconds * timeSecond)) 0)"

section \<open>The commands\<close>

definition trimSlashes :: "string \<Rightarrow> string" where
  "trimSlashes s = rev (dropWhile (\<lambda>c. c = CHR ''/'') (rev s))"

text \<open>\<open>newClient url\<close>: the client can be built for the URL. \<open>run\<close> is the mode's enrollment.\<close>

definition finishEnroll ::
  "fs_env \<Rightarrow> (string \<Rightarrow> bool) \<Rightarrow> string \<Rightarrow> string \<Rightarrow> bool \<Rightarrow> err + enroll_result \<Rightarrow> files \<Rightarrow> (err + unit) \<times> files" where
  "finishEnroll fe newClient credPath server force run fs =
     (case (if force then Inl ErrCredNotFound else Load fe credPath fs) of
        Inr _ \<Rightarrow> (Inl ErrCredExists, fs)
      | Inl e \<Rightarrow>
          if e \<noteq> ErrCredNotFound then (Inl e, fs)
          else let url = trimSlashes server in
            if url = '''' then (Inl (ErrSentinel ''server URL is required''), fs)
            else if \<not> newClient url then (Inl (ErrSentinel ''enroll: server URL must be http(s)''), fs)
            else case run of
                   Inl e \<Rightarrow> (Inl e, fs)
                 | Inr res \<Rightarrow>
                     Save fe credPath \<lparr> cf_ServerURL = url, cf_DeviceID = rl_DeviceID res, cf_Secret = rl_Secret res \<rparr> force fs)"

definition runOIDCEnroll :: "err + bool \<Rightarrow> err + enroll_result \<Rightarrow> err + enroll_result" where
  "runOIDCEnroll caps flow =
     (case caps of
        Inl e \<Rightarrow> Inl e
      | Inr deviceEnabled \<Rightarrow>
          if \<not> deviceEnabled then Inl (ErrSentinel ''server does not support OIDC device enrollment'') else flow)"

text \<open>\<open>families\<close>: the configured address families; \<open>p4\<close>, \<open>p6\<close>: how many providers are configured; the defaults are three each.\<close>

definition family_step :: "nat \<Rightarrow> nat \<Rightarrow> string \<Rightarrow> err + nat \<times> nat \<Rightarrow> err + nat \<times> nat" where
  "family_step p4 p6 fam acc =
     (case acc of
        Inl e \<Rightarrow> Inl e
      | Inr (v4, v6) \<Rightarrow>
          if fam = ''ipv4'' then Inr (if p4 > 0 then p4 else 3, v6)
          else if fam = ''ipv6'' then Inr (v4, if p6 > 0 then p6 else 3)
          else Inl (ErrSentinel ''run: unknown address family''))"

definition buildDiscoverer :: "string list \<Rightarrow> nat \<Rightarrow> nat \<Rightarrow> int \<Rightarrow> err + Discoverer" where
  "buildDiscoverer families p4 p6 quorum =
     (case fold (family_step p4 p6) families (Inr (0, 0)) of
        Inl e \<Rightarrow> Inl e
      | Inr (v4, v6) \<Rightarrow>
          if v4 = 0 \<and> v6 = 0 then Inl (ErrSentinel ''run: no address families enabled'') else NewDiscoverer v4 v6 quorum)"

end
