(* ===== verification/Client_Props.thy ===== *)
theory Client_Props
  imports Client_Enroll
begin

text \<open>
  What the agent's credentials file and its enrollment loop promise.
\<close>

section \<open>The credentials file\<close>

lemma Save_cases:
  assumes "fe_tmp fe \<noteq> path" and "fs (fe_tmp fe) = None" and "Save fe path c force fs = (r, fs')"
  shows "(\<exists>e. r = Inl e \<and> fs' = fs) \<or>
    (\<exists>d. r = Inr () \<and> fe_marshal fe c = Some d \<and> fs' = fs(path \<mapsto> d) \<and> (force \<or> fs path = None))"
proof -
  have tmp: "fs(fe_tmp fe := None) = fs" using assms(2) by (simp add: fun_upd_idem)
  have undo: "(fs(fe_tmp fe \<mapsto> d))(fe_tmp fe := None) = fs" for d using tmp by simp
  have move: "(fs(fe_tmp fe \<mapsto> d))(path \<mapsto> d, fe_tmp fe := None) = fs(path \<mapsto> d)" for d
    using tmp assms(1) by (metis fun_upd_twist fun_upd_upd)
  show ?thesis
    using assms(3) assms(1) unfolding Save_def Save_prepare_def Save_publish_def Let_def
    by (auto simp: tmp undo move split: if_splits option.splits)
qed

text \<open>The publishing step alone, in whatever state another process has left the files.\<close>

lemma publish_unforced:
  assumes "fe_tmp fe \<noteq> path"
  shows "fs path = Some d \<Longrightarrow> Save_publish fe path False fs = (Inl ErrCredExists, fs(fe_tmp fe := None))"
    and "fs path = None \<Longrightarrow> \<not> fe_publish fe \<Longrightarrow>
      fst (Save_publish fe path False fs) = Inr () \<and> snd (Save_publish fe path False fs) path = fs (fe_tmp fe)"
  using assms by (simp_all add: Save_publish_def Let_def)


definition sample_fs :: fs_env where
  "sample_fs = \<lparr> fe_read = False, fe_stat = False, fe_mkdir = False, fe_create = False, fe_write = False, fe_close = False,
     fe_publish = False, fe_tmp = ''t'', fe_marshal = (\<lambda>c. if c = \<lparr> cf_ServerURL = ''u'', cf_DeviceID = ''d'', cf_Secret = ''s'' \<rparr> then Some ''j'' else None),
     fe_unmarshal = (\<lambda>s. if s = ''j'' then Some \<lparr> cf_ServerURL = ''u'', cf_DeviceID = ''d'', cf_Secret = ''s'' \<rparr> else None) \<rparr>"


section \<open>The device flow ends\<close>

text \<open>Between \<open>interval\<close> and the end of the 64 bits there is room for the five seconds of every poll that is still to come.\<close>

definition poll_room :: "int \<Rightarrow> nat \<Rightarrow> bool" where
  "poll_room interval n \<longleftrightarrow> minIntervalSeconds * timeSecond \<le> interval \<and> interval + int n * (clientSlowDownBumpSeconds * timeSecond) < 2 ^ 63"

lemma poll_room_next:
  assumes "poll_room interval (Suc n)"
  shows "poll_room interval n" and "poll_room (wrap64 (interval + clientSlowDownBumpSeconds * timeSecond)) n"
proof -
  let ?b = "clientSlowDownBumpSeconds * timeSecond"
  have b: "0 < ?b" "0 < minIntervalSeconds * timeSecond"
    by (simp_all add: clientSlowDownBumpSeconds_def minIntervalSeconds_def timeSecond_def)
  have "int (Suc n) * ?b = int n * ?b + ?b" by (simp add: algebra_simps)
  with assms have r: "minIntervalSeconds * timeSecond \<le> interval" "interval + int n * ?b + ?b < 2 ^ 63"
    by (simp_all add: poll_room_def)
  moreover have "0 \<le> int n * ?b" using b(1) by simp
  ultimately have "int64_ok (interval + ?b)" unfolding int64_ok_def using b by linarith
  then have "wrap64 (interval + ?b) = interval + ?b" by (rule wrap64_id)
  with r b show "poll_room interval n" and "poll_room (wrap64 (interval + ?b)) n" by (simp_all add: poll_room_def)
qed

lemma poll_from_ends:
  assumes clock: "\<And>i t d. t + d \<le> tick i t d"
  shows "poll_room interval n \<Longrightarrow> deadline - now \<le> int n * (minIntervalSeconds * timeSecond) \<Longrightarrow>
    \<exists>out k. poll_from polls tick asleep deadline i now interval consecutive = Some (out, k) \<and> k \<le> i + n + 1"
proof (induction n arbitrary: i now interval consecutive)
  case 0
  then have "\<not> now < deadline" by simp
  then show ?case
    by (subst poll_from.simps) (auto split: sum.splits poll_kind.splits)
next
  case (Suc n)
  let ?m = "minIntervalSeconds * timeSecond"
  have m: "0 < ?m" by (simp add: minIntervalSeconds_def timeSecond_def)
  have rec: "\<exists>out k. poll_from polls tick asleep deadline (i + 1)
        (tick i now (if deadline - now < interval' then deadline - now else interval')) interval' c' = Some (out, k) \<and> k \<le> i + Suc n + 1"
    if i': "poll_room interval' n" and lt: "now < deadline" for interval' c'
  proof -
    let ?w = "if deadline - now < interval' then deadline - now else interval'"
    have "deadline - tick i now ?w \<le> int n * ?m"
    proof (cases "deadline - now < interval'")
      case True
      with clock [of now "deadline - now" i] have "deadline - tick i now ?w \<le> 0" by simp
      also have "\<dots> \<le> int n * ?m" using m by simp
      finally show ?thesis .
    next
      case False
      with clock [of now interval' i] i' Suc.prems(2) show ?thesis by (simp add: algebra_simps poll_room_def)
    qed
    from Suc.IH [OF i' this, of "i + 1" c'] show ?thesis by simp
  qed
  show ?case
  proof (cases "now < deadline")
    case False
    then show ?thesis by (subst poll_from.simps) (auto split: sum.splits poll_kind.splits)
  next
    case True
    obtain r where r: "(case polls i of
              Inr (PollKindComplete r) \<Rightarrow> Inl (Inr r)
            | Inr PollKindSlowDown \<Rightarrow> Inr (wrap64 (interval + clientSlowDownBumpSeconds * timeSecond), 0)
            | Inr PollKindPending \<Rightarrow> Inr (interval, 0)
            | Inl e \<Rightarrow>
                if e = ErrBadGateway
                then if consecutive + 1 \<ge> maxConsecutiveBadGateway then Inl (Inl ErrBadGateway)
                     else Inr (wrap64 (interval + clientSlowDownBumpSeconds * timeSecond), consecutive + 1)
                else Inl (Inl e)) = (r :: (err + enroll_result) + int \<times> nat)" by blast
    show ?thesis
    proof (cases r)
      case (Inl out)
      with r show ?thesis by (subst poll_from.simps) simp
    next
      case (Inr q)
      obtain interval' c' where q: "q = (interval', c')" by (cases q)
      have "poll_room interval' n" using r Inr q poll_room_next [OF Suc.prems(1)]
        by (auto split: sum.splits poll_kind.splits if_splits)
      from rec [OF this True] obtain out k where rec': "poll_from polls tick asleep deadline (i + 1)
        (tick i now (if deadline - now < interval' then deadline - now else interval')) interval' c' = Some (out, k)" "k \<le> i + Suc n + 1"
        by blast
      have "poll_from polls tick asleep deadline i now interval consecutive =
        (if asleep i then Some (Inl (ErrSentinel ''context''), i + 1) else Some (out, k))"
        using rec'(1) by (subst poll_from.simps) (simp only: r Inr q sum.case prod.case Let_def True if_False not_True_eq_False)
      with rec'(2) show ?thesis by (cases "asleep i") auto
    qed
  qed
qed



end
