(* ===== verification/Client_Report.thy ===== *)
theory Client_Report
  imports Client_Props Api_Routes Enrollment_Props Checkin_Props
begin

text \<open>
  \<open>internal/client/checkin/checkin.go\<close>: the signed report of the agent, and the way from a redeemed code to the
  first accepted report through the handlers of the server. \<open>http_url\<close> stands for the URL check of \<open>url.Parse\<close>,
  \<open>ca\<close> for a readable certificate bundle (or none configured), \<open>json\<close> for the JSON encoder.
\<close>

section \<open>The client\<close>

abbreviation "ErrCheckinServer \<equiv> ErrSentinel ''checkin: server error''"

record checkin_client =
  cl_baseURL :: string
  cl_deviceID :: string
  cl_key :: string

definition NewClient :: "(string \<Rightarrow> bool) \<Rightarrow> bool \<Rightarrow> string \<Rightarrow> string \<Rightarrow> string \<Rightarrow> err + checkin_client" where
  "NewClient http_url ca baseURL deviceID secretB64 =
     (let url = trimSlashes baseURL in
      if \<not> http_url url then Inl (ErrSentinel ''checkin: server URL must be http(s)'')
      else case DecodeString secretB64 of
             None \<Rightarrow> Inl (ErrSentinel ''checkin: secret is not valid base64'')
           | Some key \<Rightarrow>
               if key = [] then Inl (ErrSentinel ''checkin: secret is not valid base64'')
               else if \<not> ca then Inl (ErrSentinel ''checkin: ca cert'')
               else Inr \<lparr> cl_baseURL = url, cl_deviceID = deviceID, cl_key = key \<rparr>)"

text \<open>\<open>rnd\<close>: the sixteen bytes of the random source.\<close>

definition randNonce :: "string option \<Rightarrow> err + string" where
  "randNonce rnd = (case rnd of None \<Rightarrow> Inl ErrRandom | Some b \<Rightarrow> Inr (hex_EncodeToString b))"

definition checkin_request :: "crypto \<Rightarrow> checkin_client \<Rightarrow> int \<Rightarrow> string \<Rightarrow> string \<Rightarrow> http_request" where
  "checkin_request cr cl now nonce body =
     \<lparr> rq_Method = ''POST'', rq_Path = ''/agent/v1/checkin'', rq_Body = Some body, rq_Authorization = '''', rq_Cookie = None, rq_CSRF = '''',
       rq_Device = cl_deviceID cl, rq_Timestamp = showInt now, rq_Nonce = nonce,
       rq_Signature = Sign cr (cl_key cl) (CanonicalRequest ''POST'' ''/agent/v1/checkin'' (showInt now) nonce (BodyHashHex cr body)),
       rq_gone1 = False, rq_gone2 = False \<rparr>"

text \<open>\<open>send\<close>: the status of the response and, where it decodes, its body.\<close>

definition Client_Checkin ::
  "crypto \<Rightarrow> (Report \<Rightarrow> string) \<Rightarrow> checkin_client \<Rightarrow> int \<Rightarrow> string option \<Rightarrow> (http_request \<Rightarrow> err + int \<times> checkinResponse option) \<Rightarrow>
   Report \<Rightarrow> err + checkinResponse" where
  "Client_Checkin cr json cl now rnd send r =
     (case randNonce rnd of
        Inl e \<Rightarrow> Inl e
      | Inr nonce \<Rightarrow>
          (case send (checkin_request cr cl now nonce (json r)) of
             Inl e \<Rightarrow> Inl e
           | Inr (status, body) \<Rightarrow>
               if status = 200 then (case body of None \<Rightarrow> Inl ErrDecode | Some b \<Rightarrow> Inr b)
               else if status = 401 then Inl ErrClientUnauthorized
               else Inl ErrCheckinServer))"

text \<open>The fields of the report under the names of the server's type.\<close>

definition reported :: "Report \<Rightarrow> CheckinReport" where
  "reported r = \<lparr> r_IPv4 = rt_IPv4 r, r_IPv6 = rt_IPv6 r, r_Hostname = rt_Hostname r, r_OS = rt_OS r, r_ClientVersion = rt_ClientVersion r \<rparr>"

section \<open>A valid request is accepted\<close>

lemma in_skew:
  assumes "\<bar>t - ts\<bar> \<le> wholeSeconds (v_skew v)" and "int64_ok (v_skew v)"
  shows "\<not> skewed v t ts"
proof -
  have "int64_ok (t - ts)" using assms(1) wholeSeconds_bound [OF assms(2)] by (auto simp: int64_ok_def abs_le_iff abs_less_iff)
  then show ?thesis using assms(1) by (simp add: skewed_def wrap64_id Let_def abs_le_iff)
qed

text \<open>The converse of the soundness of \<open>Verify\<close>: without driver failures every valid request is accepted, and recorded.\<close>

lemma Verify_complete:
  fixes w :: "'z authworld_scheme"
  assumes calm: "calm w" and cache: "cache_ok v w" and ok: "request_ok v p now i (db w)" and skew: "int64_ok (v_skew v)"
  shows "\<exists>e c. Verify v gd gu p now w = (Inr i, w\<lparr>v_cache := c, db := (db w)\<lparr>replay_nonces := replay_nonces (db w) @
    [\<lparr> rn_signature = rp_Signature p, rn_expires_at = e \<rparr>]\<rparr>\<rparr>)"
proof -
  from ok obtain r u ts secret where i: "i = rp_Device p" and r: "find_device i (db w) = Some r" "\<not> dc_disabled r"
    and u: "find_user (dc_user_id r) (db w) = Some u" "\<not> uc_disabled u"
    and ts: "ParseInt (rp_Timestamp p) = Some ts" "\<bar>now - ts\<bar> \<le> wholeSeconds (v_skew v)"
    and open': "OpenSecret (v_crypto v) (v_key v) (dc_secret_hash r) = Inr secret"
    and sig: "rp_Signature p = Sign (v_crypto v) secret (CanonicalRequest (rp_Method p) (rp_Path p) (rp_Timestamp p)
           (rp_Nonce p) (BodyHashHex (v_crypto v) (rp_Body p)))"
    and unseen: "rp_Signature p \<notin> rn_signature ` set (replay_nonces (db w))"
    unfolding request_ok_def by blast
  have id: "dc_id r = i" "r \<in> set (devices (db w))" using find_deviceD [OF r(1)] by auto
  have lk: "Verify_lookup gd gu p w = (Inr (scanDevice r), w)"
    using calm r u i by (simp add: Verify_lookup_def bindE_tryE_case DeviceRepo_GetByID_def UserRepo_GetByID_def scanDevice_def scanUser_def)
  obtain c where sec: "secretFor v (scanDevice r) w = (Inr secret, w\<lparr>v_cache := c\<rparr>)"
  proof (cases "v_cache w i")
    case None
    with open' id that show ?thesis by (simp add: secretFor_def scanDevice_def)
  next
    case (Some s)
    with cache id open' have "s = secret" by (auto simp: cache_ok_def)
    with Some id that [of "v_cache w"] show ?thesis by (simp add: secretFor_def scanDevice_def)
  qed
  have dev: "d_ID (scanDevice r) = i" using id by (simp add: scanDevice_def)
  show ?thesis
    unfolding Verify_def bindE_def [of "Verify_lookup _ _ _"] lk
    using calm unseen
    by (auto simp: Verify_check_def bindE_tryE_case ts in_skew [OF ts(2) skew] sec Let_def sig [symmetric] dev
        ReplayNonce_Insert_def insert_nonce_def intro!: exI)
qed

section \<open>What a redeemed code leaves alone\<close>

text \<open>\<open>agent_same u n c\<close>: the accounts, the nonces and the verifier's cache are these.\<close>

definition agent_same :: "user_row list \<Rightarrow> replay_nonce_row list \<Rightarrow> (string \<Rightarrow> string option) \<Rightarrow> 'z authworld_scheme \<Rightarrow> bool" where
  "agent_same u n c w \<longleftrightarrow> users (db w) = u \<and> replay_nonces (db w) = n \<and> v_cache w = c"

lemma agent_same_stmt:
  "(\<And>d. users (snd (q d)) = users d \<and> replay_nonces (snd (q d)) = replay_nonces d) \<Longrightarrow> preserves (agent_same u n c) (stmt q)"
  by (auto simp: preserves_def agent_same_def stmt_def split: fault.splits)

lemma agent_same_writes [preserves_intros]:
  "preserves (agent_same u n c) (EnrollmentCodeRepo_Get k)"
  "preserves (agent_same u n c) (DeviceRepo_Create nid now dev)"
  "preserves (agent_same u n c) (DeviceRepo_Delete i)"
  "preserves (agent_same u n c) (auditWriter_Log now e)"
  "preserves (agent_same u n c) (EnrollmentCodeRepo_Consume k i now)"
  unfolding EnrollmentCodeRepo_Get_def DeviceRepo_Create_def DeviceRepo_Delete_def auditWriter_Log_def AuditLog_Append_def
    EnrollmentCodeRepo_Consume_def require_rows_def queryRow_def exec_def Let_def
  by (intro preserves_intros agent_same_stmt;
      simp add: insert_device_def delete_device_def insert_audit_def consume_code_def Let_def)+

lemma wf_insert_audit: "wf_db d \<Longrightarrow> wf_db (snd (insert_audit e d))"
  by (simp add: wf_db_def wf_table_defs insert_audit_def Let_def)

lemma wf_consume_code:
  assumes "wf_db d"
  shows "wf_db (snd (consume_code k i now d))"
proof -
  have "wf_codes (snd (consume_code k i now d))"
    using assms by (auto simp: wf_db_def wf_codes_def consume_code_def Let_def set_upd_where filter_empty_conv)
  with assms show ?thesis
    by (simp add: wf_db_def wf_users_def wf_devices_def wf_history_def wf_outbox_def wf_nonces_def consume_code_def Let_def)
qed

lemma wf_enrollment [preserves_intros]:
  "preserves (on_db wf_db) (auditWriter_Log now e)"
  "preserves (on_db wf_db) (EnrollmentCodeRepo_Consume k i now)"
  unfolding auditWriter_Log_def AuditLog_Append_def EnrollmentCodeRepo_Consume_def Let_def
  by (intro preserves_intros preserves_require_rows preserves_stmt wf_insert_audit wf_consume_code; assumption)+

lemmas redeem_defs = ConsumeCode_prepare_def ConsumeCode_commit_def createSealedDevice_def conflictRejection_def rollbackDevice_def

lemma redeem_phases [preserves_intros]:
  "preserves (agent_same u n c) (ConsumeCode_prepare cr key dr now k meta)"
  "preserves (agent_same u n c) (ConsumeCode_commit now k p)"
  "preserves (on_db wf_db) (ConsumeCode_prepare cr key dr now k meta)"
  "preserves (on_db wf_db) (ConsumeCode_commit now k p)"
  unfolding redeem_defs by (intro preserves_intros)+

lemma redeem_frame:
  "preserves (agent_same u n c) (ConsumeCode cr key dr now k meta)"
  "preserves (on_db wf_db) (ConsumeCode cr key dr now k meta)"
  unfolding ConsumeCode_def by (intro preserves_intros)+

lemma redeem_calm: "preserves calm (ConsumeCode cr key dr now k meta :: ('z world_scheme, EnrollResult) action)"
proof -
  have writes: "preserves calm (EnrollmentCodeRepo_Get k :: ('z world_scheme, EnrollmentCode) action)"
    "preserves calm (DeviceRepo_Create nid now dev :: ('z world_scheme, Device) action)"
    "preserves calm (DeviceRepo_Delete i :: ('z world_scheme, unit) action)"
    "preserves calm (auditWriter_Log now e :: ('z world_scheme, unit) action)"
    "preserves calm (EnrollmentCodeRepo_Consume k i now :: ('z world_scheme, EnrollmentCode) action)" for k nid dev i e
    unfolding EnrollmentCodeRepo_Get_def DeviceRepo_Create_def DeviceRepo_Delete_def auditWriter_Log_def AuditLog_Append_def
      EnrollmentCodeRepo_Consume_def require_rows_def Let_def
    by (intro preserves_intros)+
  have "preserves calm (ConsumeCode_prepare cr key dr now k meta :: ('z world_scheme, EnrollmentCode \<times> Device \<times> string) action)"
    "preserves calm (ConsumeCode_commit now k p :: ('z world_scheme, EnrollResult) action)" for p
    unfolding redeem_defs by (intro preserves_intros writes)+
  then show ?thesis unfolding ConsumeCode_def by (intro preserves_intros)
qed

lemma Checkin_result:
  assumes "fst (Checkin notify now i rep w) = Inr res" and "calm w" and "find_device i (db w) = Some r" and "shown r = (None, None)"
  shows "cr_DeviceID res = i \<and> cr_CurrentIPv4 res = r_IPv4 rep \<and> cr_CurrentIPv6 res = r_IPv6 rep"
proof -
  have dev: "d_ID (scanDevice r) = i" "d_CurrentIPv4 (scanDevice r) = ''''" "d_CurrentIPv6 (scanDevice r) = ''''"
    using assms(4) find_deviceD [OF assms(3)] by (simp_all add: scanDevice_def shown_def scanString_def)
  have g: "DeviceRepo_GetByID i w = (Inr (scanDevice r), w)" using assms(2,3) by (simp add: DeviceRepo_GetByID_def)
  have "cr_DeviceID res = i \<and> cr_CurrentIPv4 res = d_CurrentIPv4 (scanDevice r) \<and> cr_CurrentIPv6 res = d_CurrentIPv6 (scanDevice r)"
    if "r_IPv4 rep = ''''" "r_IPv6 rep = ''''"
    using assms(1) that dev by (auto simp: Checkin_def bindE_fst_Inr g Let_def bindE_def [of "DeviceRepo_Touch _ _ _ _ _"] split: prod.splits sum.splits)
  moreover have "cr_DeviceID res = i \<and> cr_CurrentIPv4 res = r_IPv4 rep \<and> cr_CurrentIPv6 res = r_IPv6 rep"
    if "\<not> (r_IPv4 rep = '''' \<and> r_IPv6 rep = '''')"
    using assms(1) that dev by (auto simp: Checkin_def bindE_fst_Inr g Let_def bindE_def [of "RecordIPChange _ _"]
        bindE_def [of "fireNotify _ _ _"] split: prod.splits sum.splits if_splits)
  ultimately show ?thesis using dev by (cases "r_IPv4 rep = [] \<and> r_IPv6 rep = []") simp_all
qed

section \<open>From the code to the first report\<close>

text \<open>The server's answer to a check-in as the client's HTTP library hands it over.\<close>

definition wire_answer :: "err + reply + api_answer \<Rightarrow> int \<times> checkinResponse option" where
  "wire_answer x =
     (case x of
        Inr (Inr (CheckinAnswer b)) \<Rightarrow> (200, Some b)
      | Inr (Inl (status, _)) \<Rightarrow> (status, None)
      | _ \<Rightarrow> (500, None))"

lemma enroll_answer:
  fixes w :: "'z keyworld_scheme" and ap :: "('z keyworld_scheme) api_deps"
  assumes server: "calm w" "wf_db (db w)" "cache_ok v w" "\<forall>r \<in> set (enrollment_codes (db w)). ec_used_at r \<noteq> Some 0"
    and deps: "v_crypto v = ap_crypto ap" "v_key v = ap_sealKey ap"
    and crypto: "length (ap_sealKey ap) = 32" "gcm_opens_sealed (ap_crypto ap)"
    and draws: "en_draws en = \<lparr> dr_secret = Some s, dr_nonce = Some n, dr_id = i \<rparr>" "length n = 12"
    and i: "i \<noteq> ''''" "i \<notin> dc_id ` set (devices (db w))" "v_cache w i = None"
    and code: "find (redeemable k t0) (enrollment_codes (db w)) = Some r"
      "(ec_user_id r, ec_label r) \<notin> (\<lambda>x. (dc_user_id x, dc_label x)) ` set (devices (db w))"
  obtains x w1 where "serve_api ap en t0 rq0 (Op_EnrollCode k) w =
      (Inr (Inr (EnrollAnswer \<lparr> en_DeviceID = i, en_Secret = EncodeToString s \<rparr>)), w1)"
    and "calm w1" "wf_db (db w1)" "cache_ok v w1" "users (db w1) = users (db w)" "replay_nonces (db w1) = replay_nonces (db w)"
    and "find_device i (db w1) = Some x" "dc_user_id x = ec_user_id r" "\<not> dc_disabled x" "shown x = (None, None)"
      "OpenSecret (v_crypto v) (v_key v) (dc_secret_hash x) = Inr s"
proof -
  let ?C = "ConsumeCode (ap_crypto ap) (ap_sealKey ap) (en_draws en) t0 k no_meta"
  have "\<exists>x w1. ?C w = (Inr \<lparr> er_DeviceID = i, er_Secret = s \<rparr>, w1) \<and> devices (db w1) = devices (db w) @ [x] \<and> dc_id x = i \<and>
      dc_user_id x = ec_user_id r \<and> \<not> dc_disabled x \<and> shown x = (None, None) \<and>
      OpenSecret (ap_crypto ap) (ap_sealKey ap) (dc_secret_hash x) = Inr s"
    using ConsumeCode_exact [OF server(1,2,4) crypto draws(2) i(1,2), where k = k and now = t0 and s = s and meta = no_meta] code unfolding draws(1)
    by (simp only: option.case if_False) blast
  then obtain x w1 where c: "?C w = (Inr \<lparr> er_DeviceID = i, er_Secret = s \<rparr>, w1)" and devs: "devices (db w1) = devices (db w) @ [x]"
    and x: "dc_id x = i" "dc_user_id x = ec_user_id r" "\<not> dc_disabled x" "shown x = (None, None)"
      "OpenSecret (ap_crypto ap) (ap_sealKey ap) (dc_secret_hash x) = Inr s" by blast
  have same: "agent_same (users (db w)) (replay_nonces (db w)) (v_cache w) w1"
    by (rule preservesD [OF redeem_frame(1) _ c]) (simp add: agent_same_def)
  have wf: "wf_db (db w1)" using preservesD [OF redeem_frame(2) _ c] server(2) by (simp add: on_db_def)
  have calm: "calm w1" by (rule preservesD [OF redeem_calm server(1) c])
  have "find (\<lambda>y. dc_id y = i) (devices (db w)) = None" using i(2) by (auto simp: find_None_iff)
  then have find: "find_device i (db w1) = Some x" using x(1) devs by (simp add: find_device_def find_append)
  have "serve_api ap en t0 rq0 (Op_EnrollCode k) w =
      (Inr (Inr (EnrollAnswer \<lparr> en_DeviceID = i, en_Secret = EncodeToString s \<rparr>)), w1)"
    using c by (simp add: serve_api_def wrap_answer_def enrollCode_handler_def orElse_def bindE_def tryE_def)
  moreover have "cache_ok v w1"
    using server(3) same devs x i(3) deps by (auto simp: cache_ok_def agent_same_def)
  ultimately show thesis
    using that calm wf same find x deps by (simp add: agent_same_def)
qed


definition report_world :: keyworld where
  "report_world = \<lparr> db = sample_db\<lparr>enrollment_codes := [code1]\<rparr>, faults = [], w_hub = Hub_New, w_mail = [], v_cache = Map.empty,
     w_sent = [], w_touch = Map.empty, w_keyTouch = Map.empty \<rparr>"

definition wired :: "keyworld api_deps \<Rightarrow> keyworld api_deps" where
  "wired ap = ap\<lparr>ap_auth := \<lparr> de_verifier = sample_verifier, de_sessions = de_sessions (ap_auth ap), de_crypto = plain_crypto \<rparr>,
     ap_sealKey := sample_key, ap_notify := fanout_IPChanged plain_fanout\<rparr>"

definition agent_report :: Report where
  "agent_report = \<lparr> rt_IPv4 = ''192.0.2.1'', rt_IPv6 = '''', rt_Hostname = ''h'', rt_OS = ''linux'', rt_ClientVersion = ''1'' \<rparr>"

definition code_request :: http_request where
  "code_request = \<lparr> rq_Method = ''POST'', rq_Path = ''/agent/v1/enroll/code'', rq_Body = Some ''K'', rq_Authorization = '''', rq_Cookie = None,
     rq_CSRF = '''', rq_Device = '''', rq_Timestamp = '''', rq_Nonce = '''', rq_Signature = '''', rq_gone1 = False, rq_gone2 = False \<rparr>"

definition report_draws :: entropy where
  "report_draws = \<lparr> en_token = None, en_id = ''x'', en_draws = sample_draws \<rparr>"


end
