(* ===== verification/Spec2Isabelle.thy ===== *)
theory Spec2Isabelle
  imports Checkin_Props Sweep_Notices Device_Props Delivery_Props Dest_Policy Stream_Access Feed_Documents
    Enrollment_Props Pruner_Props Api_Sound Client_Report
begin

text \<open>
  A verification development for diyddns. Agents on home machines report their public addresses to
  a server; the server keeps the last confirmed address of every device, publishes the addresses as a
  feed (a text document, a JSON document, an event stream and signed webhooks), and removes an address
  that has not been confirmed for a configured window. This development models the Go code of the
  server under src/internal and proves what its parts promise one another and their users.

  \<^bold>\<open>How code becomes definitions.\<close> A Go function that reads or writes state is an action of \<open>Prelude\<close>: a
  function from the state to an error or a result, and the new state; \<open>bindE\<close> is the sequence with the early
  return on error, \<open>tryE\<close> a call whose error the caller looks at, \<open>fail\<close> and \<open>ret\<close> the two returns. The store's
  sentinel errors and the services' own are the constructors of \<open>err\<close>; a recovered panic is \<open>ErrPanic\<close>. A Go
  struct is a record, a database row another record with the columns of the migrations. Signed 64-bit
  arithmetic is written out where it can overflow (\<open>Stale_Window\<close>, \<open>Delivery_Worker\<close>), addresses are words of
  32 and 128 bits (\<open>Netip\<close>). The database (\<open>Store_Db\<close>) is one list of rows per table; every SQL statement is one
  atomic function on it, with its unique, foreign-key and check constraints, because store.Open limits the
  pool to one connection. The driver may fail at any statement: \<open>faults\<close> is a list of outcomes, one per
  statement, in which \<open>Fails\<close> is an error without effect and \<open>FailsAfter\<close> an error although the statement took effect.
  Theorems quantify over that list unless they say \<open>calm\<close> (no further failure).

  \<^bold>\<open>What is a parameter.\<close> Code outside the repository is an argument: HMAC, SHA-256 and AES-GCM (record
  \<open>crypto\<close>), random bytes and \<open>NewID\<close>, the JSON encoder and time formatting (record \<open>codec\<close>), the text form of
  IPv6 addresses (\<open>netip_text\<close>), the HTTP transport of a webhook (\<open>send_reply\<close>), the jitter, the mailer, the
  WebAuthn library, and the engine's choice of rows where SQL leaves it open (\<open>picks\<close>). A handler reads the clock once,
  as its argument \<open>now\<close>; the sweep reads it per candidate, the delivery worker twice per attempt and the
  pruner three times, and there each reading is an argument of its own. Logs, metrics and traces are left out.

  \<^bold>\<open>The parts.\<close>
  \<^item> \<^bold>\<open>Store\<close> (src/internal/store): \<open>Store_Db\<close> (rows, statements, transactions, the invariant \<open>wf_db\<close>),
    \<open>Store_Devices\<close> (devices.go, the transactions of checkin.go), \<open>Store_History\<close> and \<open>History_Page\<close>
    (ip_history.go), \<open>Store_Notifications\<close> (notifications.go, feed_state.go), \<open>Store_Users\<close> (users.go),
    \<open>Store_Accounts\<close> (sessions, enrollment codes, registration grants, OIDC device flows, API keys, passkeys,
    bootstrap), \<open>Audit_Log\<close> (audit_log.go). \<open>Account_Inv\<close> states the invariant \<open>sound\<close> of all tables and shows that
    every operation on the account tables keeps it.
  \<^item> \<^bold>\<open>Check-in\<close> (service/checkin.go): \<open>Checkin\<close>, \<open>Checkin_Props\<close>. A report is merged and recorded atomically
    with its history row, whatever the fan-out of the event does.
  \<^item> \<^bold>\<open>Request authentication\<close> (internal/auth/hmac.go, secret.go, internal/shared/hmac.go): \<open>Auth_Secret\<close>,
    \<open>Auth_Verify\<close>, \<open>Auth_Props\<close>. No request is accepted twice, an accepted one carries a valid signature.
  \<^item> \<^bold>\<open>Sessions\<close> (auth/session.go, csrf.go, token.go): \<open>Sessions\<close>. Which sessions are accepted, and that a logout is final.
  \<^item> \<^bold>\<open>Enrollment\<close> (service/enrollment.go): \<open>Enrollment\<close>, \<open>Enrollment_Props\<close>. A code yields one device, whatever runs in
    between the two phases of a redeem. The gate is the locale \<open>single_use\<close>.
  \<^item> \<^bold>\<open>Passkeys, grants, bootstrap\<close> (service/passkey.go, grants.go, bootstrap.go): \<open>Passkeys\<close>, \<open>Grants\<close>, \<open>Bootstrap\<close>.
  \<^item> \<^bold>\<open>Devices and feed administration\<close> (service/device.go, service/feed.go): \<open>Device_Service\<close>, \<open>Device_Props\<close>,
    \<open>Feed_Service\<close>.
  \<^item> \<^bold>\<open>Fan-out and hub\<close> (server/fanout.go, notify/enqueue.go, notify/payload.go, feed/hub.go): \<open>Fanout\<close>,
    \<open>Notify_Payload\<close>, \<open>Feed_Hub\<close>. The hub's mutex makes each method one step; the reachable hubs keep their
    invariant.
  \<^item> \<^bold>\<open>Feed documents and streams\<close> (feed/snapshot.go, handlers.go, stream.go, tokenmw.go): \<open>Netip\<close>, \<open>Feed_Documents\<close>,
    \<open>Stream_Access\<close>. The text feed is exactly the addresses of the enabled devices, and a revoked token has
    no stream in any interleaving.
  \<^item> \<^bold>\<open>Webhooks\<close> (notify/worker.go, policy.go, client.go): \<open>Delivery_Worker\<close>, \<open>Delivery_Props\<close>, \<open>Dest_Policy\<close>.
  \<^item> \<^bold>\<open>Staleness\<close> (stale/window.go, notice.go, dispatch.go, server/sweep.go): \<open>Stale_Window\<close>, \<open>Sweep\<close>, \<open>Sweep_Props\<close>,
    \<open>Sweep_Exact\<close>, \<open>Sweep_Notices\<close>. One tick refines a specification on rows.
  \<^item> \<^bold>\<open>Pruner\<close> (server/pruner.go): \<open>Pruner\<close>, \<open>Pruner_Props\<close>, with the locale \<open>batched_prune\<close> of a loop that deletes in batches.
  \<^item> \<^bold>\<open>Configuration\<close> (config/config.go): \<open>Config\<close>, the sections and bounds other parts rely on.
  \<open>Text_Codec\<close> holds the parts of Go's standard library the code prints and parses with (decimal integers,
  base64, splitting), and \<open>Samples\<close> the concrete databases at which theorems with hypotheses are applied.

  \<^bold>\<open>Loops.\<close> A loop over a list is structural recursion. \<open>drain\<close> of the pruner may run for ever, so it is a partial
  function into options, and the pruner's theorem says that it returns. Following page cursors takes as fuel the number
  of pages, and the theorem says how many are enough. The delivery worker runs over a list of tick environments whose end is the
  cancellation of its context; the sweep takes the number of candidates handled before cancellation.

  \<^bold>\<open>Concurrency.\<close> Statements are atomic and hold the only connection; between two statements of a handler
  any other handler may run. Where a property depends on that, the handler is split at that point and the
  steps are interleaved by an inductive relation: enrollment, stream subscription and revocation, sessions, the
  outbox, the hub, and the secret cache of the request verifier, where the interleaving breaks what the
  comments promise (recorded as a finding).

  \<^bold>\<open>Not modelled.\<close> Opening and migrating the database; HTTP routing and the huma and template glue of
  server/api and server/webui; the OIDC client, the SMTP transport and telemetry, which are calls into third-party
  packages; the agent's own program under src/internal/client and src/cmd; the wiring of server.go.
\<close>

end
